(* ===== verification/Prelude.thy ===== *)
theory Prelude
  imports Main "HOL-Library.List_Lexorder" "HOL-Library.Char_ord"
begin

text \<open>
  Shared ground of the development: the result combinators that model JavaScript's
  \<open>throw\<close> (a sum type, \<open>Inl\<close> for the thrown code), the fact collections the component
  theories extend, and generic lemmas on lists, options and keyed rows.
\<close>

section \<open>Fact collections\<close>

text \<open>\<open>accept\<close> collects the equivalences "this check passes iff ...".\<close>

named_theorems accept \<open>when a check of the code passes\<close>

section \<open>Results: a thrown error code or a value\<close>

fun and_then :: "'e + 'a \<Rightarrow> ('a \<Rightarrow> 'e + 'b) \<Rightarrow> 'e + 'b" where
  "and_then (Inl e) f = Inl e"
| "and_then (Inr a) f = f a"

definition require :: "bool \<Rightarrow> 'e \<Rightarrow> 'e + unit" where
  "require b e = (if b then Inr () else Inl e)"

text \<open>A straight-line sequence of assertions: the first one that throws decides.\<close>

fun seq_checks :: "('e + unit) list \<Rightarrow> 'e + unit" where
  "seq_checks [] = Inr ()"
| "seq_checks (c # cs) = (case c of Inl e \<Rightarrow> Inl e | Inr _ \<Rightarrow> seq_checks cs)"

lemma seq_checks_step [simp]:
  "seq_checks (Inl e # cs) = Inl e" "seq_checks (Inr u # cs) = seq_checks cs"
  by simp_all

declare seq_checks.simps(2) [simp del]

lemma seq_checks_Cons [simp]:
  "seq_checks (c # cs) = Inr u \<longleftrightarrow> c = Inr () \<and> seq_checks cs = Inr ()"
  by (cases c) simp_all

lemma require_ok [simp, accept]: "require b e = Inr u \<longleftrightarrow> b"
  by (simp add: require_def)

lemma require_eval [simp]: "require True e = Inr ()" "require False e = Inl e"
  by (simp_all add: require_def)

lemma require_err [simp]: "require b e = Inl e' \<longleftrightarrow> \<not> b \<and> e' = e"
  by (auto simp: require_def)

lemma seq_checks_ok: "seq_checks cs = Inr u \<longleftrightarrow> (\<forall>c\<in>set cs. c = Inr ())"
  by (induction cs) auto

lemma seq_checks_append:
  "seq_checks (cs @ ds) = and_then (seq_checks cs) (\<lambda>_. seq_checks ds)"
  by (induction cs) (auto simp: seq_checks.simps split: sum.splits)

lemma seq_checks_err: "seq_checks cs = Inl e \<Longrightarrow> Inl e \<in> set cs"
  by (induction cs) (auto simp: seq_checks.simps split: sum.splits)

lemma and_then_ok [accept]: "and_then r f = Inr b \<longleftrightarrow> (\<exists>a. r = Inr a \<and> f a = Inr b)"
  by (cases r) auto

lemma and_then_err: "and_then r f = Inl e \<longleftrightarrow> r = Inl e \<or> (\<exists>a. r = Inr a \<and> f a = Inl e)"
  by (cases r) auto

lemma result_unit_cases:
  fixes r :: "'e + unit"
  obtains (ok) "r = Inr ()" | (err) e where "r = Inl e"
  by (cases r) auto

section \<open>Keyed rows\<close>

text \<open>
  A SQL table with a primary key is a list of rows; \<open>tbl_get\<close> is the lookup by key,
  \<open>tbl_put\<close> replaces the row with the key or appends it (INSERT ... ON CONFLICT DO UPDATE
  and, on an absent key, INSERT), \<open>tbl_del\<close> deletes by key.
\<close>

definition tbl_get :: "('r \<Rightarrow> 'k) \<Rightarrow> 'k \<Rightarrow> 'r list \<Rightarrow> 'r option" where
  "tbl_get key k t = find (\<lambda>r. key r = k) t"

fun tbl_put :: "('r \<Rightarrow> 'k) \<Rightarrow> 'r \<Rightarrow> 'r list \<Rightarrow> 'r list" where
  "tbl_put key r [] = [r]"
| "tbl_put key r (x # xs) = (if key x = key r then r # xs else x # tbl_put key r xs)"

definition tbl_del :: "('r \<Rightarrow> 'k) \<Rightarrow> 'k \<Rightarrow> 'r list \<Rightarrow> 'r list" where
  "tbl_del key k t = filter (\<lambda>r. key r \<noteq> k) t"

definition tbl_wf :: "('r \<Rightarrow> 'k) \<Rightarrow> 'r list \<Rightarrow> bool" where
  "tbl_wf key t \<longleftrightarrow> distinct (map key t)"

text \<open>The contract of a keyed table, which the clients below rely on.\<close>

locale keyed_store =
  fixes lookup :: "'k \<Rightarrow> 't \<Rightarrow> 'r option"
    and put :: "'r \<Rightarrow> 't \<Rightarrow> 't"
    and del :: "'k \<Rightarrow> 't \<Rightarrow> 't"
    and key :: "'r \<Rightarrow> 'k"
    and rows :: "'t \<Rightarrow> 'r set"
    and wf :: "'t \<Rightarrow> bool"
  assumes lookup_put: "lookup k (put r t) = (if k = key r then Some r else lookup k t)"
    and lookup_del: "lookup k (del k' t) = (if k = k' then None else lookup k t)"
    and lookup_key: "lookup k t = Some r \<Longrightarrow> key r = k"
    and lookup_rows: "wf t \<Longrightarrow> lookup k t = Some r \<longleftrightarrow> r \<in> rows t \<and> key r = k"
    and wf_put: "wf t \<Longrightarrow> wf (put r t)"
    and wf_del: "wf t \<Longrightarrow> wf (del k t)"
begin

lemma put_same: "lookup (key r) (put r t) = Some r"
  by (simp add: lookup_put)

lemma put_other: "k \<noteq> key r \<Longrightarrow> lookup k (put r t) = lookup k t"
  by (simp add: lookup_put)

lemma rows_iff: "wf t \<Longrightarrow> r \<in> rows t \<longleftrightarrow> lookup (key r) t = Some r"
  by (simp add: lookup_rows)

lemma rows_put: "wf t \<Longrightarrow> rows (put r t) = insert r {x \<in> rows t. key x \<noteq> key r}"
  by (rule set_eqI) (auto simp: rows_iff wf_put lookup_put split: if_splits)

lemma rows_del: "wf t \<Longrightarrow> rows (del k t) = {x \<in> rows t. key x \<noteq> k}"
  by (rule set_eqI) (auto simp: rows_iff wf_del lookup_del split: if_splits)

lemma key_inj: "wf t \<Longrightarrow> inj_on key (rows t)"
  by (rule inj_onI) (metis lookup_rows option.inject)

lemma lookup_None: "wf t \<Longrightarrow> lookup k t = None \<longleftrightarrow> (\<forall>r\<in>rows t. key r \<noteq> k)"
  using lookup_rows by (metis not_None_eq)

end

lemma tbl_put_keys:
  "set (map key (tbl_put key r t)) = insert (key r) (set (map key t))"
  by (induction t) auto

lemma tbl_get_Some_iff:
  "tbl_wf key t \<Longrightarrow> tbl_get key k t = Some r \<longleftrightarrow> r \<in> set t \<and> key r = k"
  by (induction t) (auto simp: tbl_get_def tbl_wf_def rev_image_eqI)

lemma tbl_get_put: "tbl_get key k (tbl_put key r t) = (if k = key r then Some r else tbl_get key k t)"
  by (induction t) (auto simp: tbl_get_def)

lemma tbl_get_del: "tbl_get key k (tbl_del key k' t) = (if k = k' then None else tbl_get key k t)"
  by (induction t) (auto simp: tbl_get_def tbl_del_def)

lemma tbl_get_key: "tbl_get key k t = Some r \<Longrightarrow> key r = k"
  by (auto simp: tbl_get_def find_Some_iff)

lemma tbl_wf_put: "tbl_wf key t \<Longrightarrow> tbl_wf key (tbl_put key r t)"
proof (induction t)
  case Nil
  then show ?case by (simp add: tbl_wf_def)
next
  case (Cons x xs)
  have "set (map key (tbl_put key r xs)) = insert (key r) (set (map key xs))"
    by (rule tbl_put_keys)
  with Cons show ?case by (auto simp: tbl_wf_def)
qed

lemma tbl_wf_del: "tbl_wf key t \<Longrightarrow> tbl_wf key (tbl_del key k t)"
  by (simp add: tbl_wf_def tbl_del_def distinct_map_filter)

interpretation tbl: keyed_store "tbl_get key" "tbl_put key" "tbl_del key" key set "tbl_wf key"
  by unfold_locales
     (rule tbl_get_put tbl_get_del tbl_get_Some_iff tbl_wf_put tbl_wf_del | erule tbl_get_key | assumption)+

section \<open>Generic list lemmas\<close>

lemma sorted_list_same_set_eq:
  fixes xs ys :: "'a::linorder list"
  assumes "sorted xs" "sorted ys" "distinct xs" "distinct ys" "set xs = set ys"
  shows "xs = ys"
  using assms sorted_distinct_set_unique by blast

end
