(* ===== verification/JsValue.thy ===== *)
theory JsValue
  imports Prelude
begin

text \<open>
  The JavaScript values the transaction contracts inspect at run time: the \<open>unknown\<close> a
  validator receives, its property reads, the number predicates it calls, the decimal text
  of a number, and the bytes and hexadecimal digests of \<open>TextEncoder\<close> and Web Crypto.

  Strings are lists of code units below 256 (Isabelle's \<open>char\<close>), so \<open>TextEncoder\<close>
  yields one byte below 128 and two above. A finite number is \<open>JInt\<close> when it is an
  integer that JavaScript prints in plain decimal, and \<open>JDec\<close> otherwise: its ceiling and the
  text JavaScript prints for it, which identifies the double. \<open>JInst\<close> is an object whose
  prototype is not \<open>Object.prototype\<close> (an exception, a class instance) or a function;
  \<open>JOther\<close> is a bigint or a symbol.
\<close>

section \<open>Values\<close>

datatype jnum = JInt int | JDec int string | JNaN | JPosInf | JNegInf

datatype jval =
    JUndef
  | JNull
  | JBool bool
  | JNum jnum
  | JStr string
  | JArr "jval list"
  | JObj "(string \<times> jval) list"
  | JInst "(string \<times> jval) list"
  | JOther

abbreviation jint :: "int \<Rightarrow> jval" where
  "jint n \<equiv> JNum (JInt n)"

fun assoc_get :: "string \<Rightarrow> (string \<times> jval) list \<Rightarrow> jval" where
  "assoc_get k [] = JUndef"
| "assoc_get k ((k', v) # kvs) = (if k' = k then v else assoc_get k kvs)"

text \<open>Property read: a missing property is \<open>undefined\<close>.\<close>

fun jget :: "jval \<Rightarrow> string \<Rightarrow> jval" where
  "jget (JObj kvs) k = assoc_get k kvs"
| "jget (JInst kvs) k = assoc_get k kvs"
| "jget _ k = JUndef"

fun jkeys :: "jval \<Rightarrow> string list" where
  "jkeys (JObj kvs) = map fst kvs"
| "jkeys _ = []"

fun is_plain :: "jval \<Rightarrow> bool" where
  "is_plain (JObj _) = True"
| "is_plain _ = False"

fun is_arr :: "jval \<Rightarrow> bool" where
  "is_arr (JArr _) = True"
| "is_arr _ = False"

fun is_str :: "jval \<Rightarrow> bool" where
  "is_str (JStr _) = True"
| "is_str _ = False"

fun arr_of :: "jval \<Rightarrow> jval list" where
  "arr_of (JArr vs) = vs"
| "arr_of _ = []"

fun str_of :: "jval \<Rightarrow> string" where
  "str_of (JStr s) = s"
| "str_of _ = []"

fun int_of :: "jval \<Rightarrow> int" where
  "int_of (JNum (JInt n)) = n"
| "int_of _ = 0"

text \<open>\<open>Number.isSafeInteger\<close>: an integer of magnitude at most \<open>2^53 - 1\<close>.\<close>

definition max_safe_integer :: int where
  "max_safe_integer = 9007199254740991"

fun is_safe_integer :: "jval \<Rightarrow> bool" where
  "is_safe_integer (JNum (JInt n)) = (\<bar>n\<bar> \<le> max_safe_integer)"
| "is_safe_integer _ = False"

definition safe_int_from :: "int \<Rightarrow> jval \<Rightarrow> bool" where
  "safe_int_from lo v \<longleftrightarrow> is_safe_integer v \<and> lo \<le> int_of v"

definition nonempty_str :: "jval \<Rightarrow> bool" where
  "nonempty_str v \<longleftrightarrow> is_str v \<and> str_of v \<noteq> []"

text \<open>The regular expression \<open>^[a-f0-9]{64}$\<close>.\<close>

definition hex_char :: "char \<Rightarrow> bool" where
  "hex_char c \<longleftrightarrow> c \<in> set ''0123456789abcdef''"

definition sha256_text :: "string \<Rightarrow> bool" where
  "sha256_text s \<longleftrightarrow> length s = 64 \<and> list_all hex_char s"

definition sha256_hex_val :: "jval \<Rightarrow> bool" where
  "sha256_hex_val v \<longleftrightarrow> is_str v \<and> sha256_text (str_of v)"

lemma jget_JObj_Cons [simp]:
  "jget (JObj ((k', v) # kvs)) k = (if k' = k then v else jget (JObj kvs) k)"
  by simp

declare jget.simps(1) [simp del]

lemma jget_JObj_Nil [simp]: "jget (JObj []) k = JUndef"
  by (simp add: jget.simps(1))

lemma assoc_get_map_of: "assoc_get k kvs = (case map_of kvs k of None \<Rightarrow> JUndef | Some v \<Rightarrow> v)"
  by (induction k kvs rule: assoc_get.induct) auto

lemma is_plainE: "is_plain v \<Longrightarrow> (\<And>kvs. v = JObj kvs \<Longrightarrow> P) \<Longrightarrow> P"
  by (cases v) auto

lemma is_strE: "is_str v \<Longrightarrow> (\<And>s. v = JStr s \<Longrightarrow> P) \<Longrightarrow> P"
  by (cases v) auto

lemma is_arrE: "is_arr v \<Longrightarrow> (\<And>vs. v = JArr vs \<Longrightarrow> P) \<Longrightarrow> P"
  by (cases v) auto

lemma nonempty_str_JStr [simp]: "nonempty_str (JStr s) \<longleftrightarrow> s \<noteq> []"
  by (simp add: nonempty_str_def)

lemma nonempty_strD: "nonempty_str v \<Longrightarrow> v = JStr (str_of v)"
  by (cases v) (auto simp: nonempty_str_def)

lemma safe_int_JInt [simp]: "safe_int_from lo (jint n) \<longleftrightarrow> \<bar>n\<bar> \<le> max_safe_integer \<and> lo \<le> n"
  by (simp add: safe_int_from_def)

lemma is_safe_integerD: "is_safe_integer v \<Longrightarrow> v = jint (int_of v)"
  by (cases v rule: is_safe_integer.cases) auto

lemma safe_int_fromD: "safe_int_from lo v \<Longrightarrow> v = jint (int_of v) \<and> lo \<le> int_of v"
  by (auto simp: safe_int_from_def dest: is_safe_integerD)

lemma sha256_hex_JStr [simp]: "sha256_hex_val (JStr s) \<longleftrightarrow> sha256_text s"
  by (simp add: sha256_hex_val_def)

lemma sha256_hex_valD: "sha256_hex_val v \<Longrightarrow> v = JStr (str_of v) \<and> sha256_text (str_of v)"
  by (cases v) (auto simp: sha256_hex_val_def)

section \<open>Decimal text\<close>

definition digit_char :: "nat \<Rightarrow> char" where
  "digit_char d = char_of (48 + d)"

definition digit_val :: "char \<Rightarrow> nat" where
  "digit_val c = of_char c - 48"

definition is_digit :: "char \<Rightarrow> bool" where
  "is_digit c \<longleftrightarrow> 48 \<le> (of_char c :: nat) \<and> (of_char c :: nat) \<le> 57"

fun nat_text :: "nat \<Rightarrow> string" where
  "nat_text n = (if n < 10 then [digit_char n] else nat_text (n div 10) @ [digit_char (n mod 10)])"

declare nat_text.simps [simp del]

definition int_text :: "int \<Rightarrow> string" where
  "int_text i = (if i < 0 then ''-'' @ nat_text (nat (- i)) else nat_text (nat i))"

definition digits_val :: "string \<Rightarrow> nat" where
  "digits_val s = foldl (\<lambda>n c. 10 * n + digit_val c) 0 s"

text \<open>\<open>padStart(n, "0")\<close>.\<close>

definition pad_start :: "nat \<Rightarrow> string \<Rightarrow> string" where
  "pad_start n s = replicate (n - length s) (CHR ''0'') @ s"

lemma digit_char_is_digit: "d < 10 \<Longrightarrow> is_digit (digit_char d)"
  by (simp add: is_digit_def digit_char_def)

lemma digit_val_char: "d < 10 \<Longrightarrow> digit_val (digit_char d) = d"
  by (simp add: digit_val_def digit_char_def)

lemma digits_val_snoc: "digits_val (s @ [c]) = 10 * digits_val s + digit_val c"
  by (simp add: digits_val_def)

lemma digits_val_nat_text: "digits_val (nat_text n) = n"
proof (induction n rule: nat_text.induct)
  case (1 n)
  show ?case
  proof (cases "n < 10")
    case True
    then show ?thesis by (simp add: nat_text.simps [of n] digits_val_def digit_val_char)
  next
    case False
    with 1 show ?thesis by (simp add: nat_text.simps [of n] digits_val_snoc digit_val_char)
  qed
qed

lemma nat_text_inj: "nat_text m = nat_text n \<Longrightarrow> m = n"
  by (metis digits_val_nat_text)

lemma nat_text_digits: "list_all is_digit (nat_text n)"
proof (induction n rule: nat_text.induct)
  case (1 n)
  then show ?case
    by (cases "n < 10") (simp_all add: nat_text.simps [of n] digit_char_is_digit)
qed

lemma nat_text_nonempty: "nat_text n \<noteq> []"
  by (simp add: nat_text.simps [of n])

lemma nat_text_hd_digit: "is_digit (hd (nat_text n))"
  using nat_text_digits [of n] nat_text_nonempty [of n] by (cases "nat_text n") auto

lemma int_text_inj: "int_text i = int_text j \<Longrightarrow> i = j"
proof -
  have minus: "\<not> is_digit (CHR ''-'')" by (simp add: is_digit_def)
  assume eq: "int_text i = int_text j"
  have "hd (int_text k) = CHR ''-'' \<longleftrightarrow> k < 0" for k
    using nat_text_hd_digit [of "nat k"] minus by (auto simp: int_text_def)
  with eq have "i < 0 \<longleftrightarrow> j < 0" by metis
  with eq show ?thesis
    by (auto simp: int_text_def split: if_splits dest!: nat_text_inj)
qed

lemma length_nat_text_bound: "n < 10 ^ Suc k \<Longrightarrow> length (nat_text n) \<le> Suc k"
proof (induction k arbitrary: n)
  case 0
  then show ?case by (simp add: nat_text.simps [of n])
next
  case (Suc k)
  show ?case
  proof (cases "n < 10")
    case True
    then show ?thesis by (simp add: nat_text.simps [of n])
  next
    case False
    have "n div 10 < 10 ^ Suc k" using Suc.prems by (simp add: less_mult_imp_div_less)
    with Suc.IH False show ?thesis by (simp add: nat_text.simps [of n])
  qed
qed

lemma digits_val_replicate_zero: "digits_val (replicate k (CHR ''0'') @ s) = digits_val s"
  by (induction k) (simp_all add: digits_val_def digit_val_def)

lemma digits_val_pad: "digits_val (pad_start w (nat_text n)) = n"
  by (simp add: pad_start_def digits_val_replicate_zero digits_val_nat_text)

lemma length_pad: "length s \<le> w \<Longrightarrow> length (pad_start w s) = w"
  by (simp add: pad_start_def)

lemma pad_digits: "list_all is_digit (pad_start w (nat_text n))"
  using nat_text_digits [of n] by (auto simp: pad_start_def list_all_iff is_digit_def)

section \<open>Bytes and digests\<close>

text \<open>\<open>TextEncoder\<close> on one code unit below 256, and the two-digit hexadecimal of a byte.\<close>

definition utf8_char :: "char \<Rightarrow> nat list" where
  "utf8_char c = (let n = of_char c in if n < 128 then [n] else [192 + n div 64, 128 + n mod 64])"

definition utf8_bytes :: "string \<Rightarrow> nat list" where
  "utf8_bytes s = concat (map utf8_char s)"

definition hex_digit :: "nat \<Rightarrow> char" where
  "hex_digit n = ''0123456789abcdef'' ! (n mod 16)"

definition byte_hex :: "nat \<Rightarrow> string" where
  "byte_hex b = [hex_digit (b div 16), hex_digit b]"

text \<open>
  The SHA-256 of Web Crypto is a parameter of every definition that hashes: a function from
  bytes to bytes.
\<close>

type_synonym digest_fn = "nat list \<Rightarrow> nat list"

text \<open>What the code relies on: a digest is 32 bytes.\<close>

definition digest_ok :: "digest_fn \<Rightarrow> bool" where
  "digest_ok dg \<longleftrightarrow> (\<forall>bs. length (dg bs) = 32 \<and> list_all (\<lambda>b. b < 256) (dg bs))"

definition sha256Bytes :: "digest_fn \<Rightarrow> string \<Rightarrow> nat list" where
  "sha256Bytes dg s = dg (utf8_bytes s)"

definition sha256Hex :: "digest_fn \<Rightarrow> string \<Rightarrow> string" where
  "sha256Hex dg s = concat (map byte_hex (sha256Bytes dg s))"

lemma hex_digit_hex: "hex_char (hex_digit n)"
proof -
  have "n mod 16 < length ''0123456789abcdef''" by simp
  then show ?thesis unfolding hex_char_def hex_digit_def by (rule nth_mem)
qed

lemma length_concat_byte_hex: "length (concat (map byte_hex bs)) = 2 * length bs"
  by (induction bs) (simp_all add: byte_hex_def)

lemma sha256Hex_text: "digest_ok dg \<Longrightarrow> sha256_text (sha256Hex dg s)"
  by (auto simp: sha256_text_def sha256Hex_def sha256Bytes_def digest_ok_def
      length_concat_byte_hex list_all_iff byte_hex_def hex_digit_hex)

end
