(* ===== verification/JsDate.thy ===== *)
theory JsDate
  imports JsValue
begin

text \<open>
  The part of JavaScript's \<open>Date\<close> the program uses: milliseconds since the epoch,
  \<open>toISOString\<close> and the test \<open>new Date(s).toISOString() === s\<close> by which the contracts
  recognise a canonical UTC timestamp. The proleptic Gregorian calendar is computed on whole
  days: 400-year eras of 146097 days, split into centuries of 36524 days, four-year cycles of
  1461 days and years of 365, with March as the first month so that a leap day ends its year.
\<close>

definition ms_per_day :: int where "ms_per_day = 86400000"

text \<open>ECMAScript's time range: 100,000,000 days either side of the epoch.\<close>

definition time_in_range :: "int \<Rightarrow> bool" where
  "time_in_range t \<longleftrightarrow> \<bar>t\<bar> \<le> 8640000000000000"

section \<open>Days and civil dates\<close>

text \<open>The year of the era and the day of that year, for a day of the era.\<close>

definition era_split :: "int \<Rightarrow> int \<times> int" where
  "era_split doe =
     (let n100 = min 3 (doe div 36524); r = doe - n100 * 36524;
          n4 = r div 1461; r2 = r mod 1461; n1 = min 3 (r2 div 365)
      in (100 * n100 + 4 * n4 + n1, r2 - 365 * n1))"

definition civil_from_days :: "int \<Rightarrow> int \<times> int \<times> int" where
  "civil_from_days days =
     (let z = days + 719468; era = z div 146097;
          (yoe, doy) = era_split (z mod 146097); mp = (5 * doy + 2) div 153;
          d = doy - (153 * mp + 2) div 5 + 1; m = (if mp < 10 then mp + 3 else mp - 9)
      in ((yoe + era * 400) + (if m \<le> 2 then 1 else 0), m, d))"

definition days_from_civil :: "int \<Rightarrow> int \<Rightarrow> int \<Rightarrow> int" where
  "days_from_civil y m d =
     (let y' = (if m \<le> 2 then y - 1 else y); era = y' div 400; yoe = y' mod 400;
          mp = (if m \<le> 2 then m + 9 else m - 3); doy = (153 * mp + 2) div 5 + d - 1;
          doe = 365 * yoe + yoe div 4 - yoe div 100 + doy
      in era * 146097 + doe - 719468)"

lemma era_split_facts:
  assumes "0 \<le> doe" "doe < 146097" "era_split doe = (yoe, doy)"
  shows "0 \<le> yoe" "yoe < 400" "0 \<le> doy" "doy \<le> 365"
    and "doe = 365 * yoe + yoe div 4 - yoe div 100 + doy"
proof -
  define n100 where "n100 = min 3 (doe div 36524)"
  define r where "r = doe - n100 * 36524"
  define n4 where "n4 = r div 1461"
  define r2 where "r2 = r mod 1461"
  define n1 where "n1 = min 3 (r2 div 365)"
  have yd: "yoe = 100 * n100 + 4 * n4 + n1" "doy = r2 - 365 * n1"
    using assms(3) by (simp_all add: era_split_def Let_def n100_def r_def n4_def r2_def n1_def)
  have n100: "0 \<le> n100" "n100 \<le> 3" using assms(1) by (auto simp: n100_def)
  have r: "0 \<le> r" "r \<le> 36524" using assms(1,2) by (auto simp: r_def n100_def min_def)
  have n4: "0 \<le> n4" "n4 \<le> 24" using r by (auto simp: n4_def)
  have rr: "r = 1461 * n4 + r2" "0 \<le> r2" "r2 < 1461" by (simp_all add: n4_def r2_def)
  have n1: "0 \<le> n1" "n1 \<le> 3" using rr by (auto simp: n1_def)
  have y4: "yoe div 4 = 25 * n100 + n4" using n1 by (simp add: yd(1))
  have y100: "yoe div 100 = n100" using n1 n4 by (simp add: yd(1))
  show "0 \<le> yoe" "yoe < 400" using n100 n4 n1 by (simp_all add: yd(1))
  show "0 \<le> doy" "doy \<le> 365" using rr by (auto simp: yd(2) n1_def min_def)
  show "doe = 365 * yoe + yoe div 4 - yoe div 100 + doy"
    unfolding y4 y100 using yd rr r_def by simp
qed

lemma march_month_facts:
  fixes doy :: int
  assumes "0 \<le> doy" "doy \<le> 365"
  defines "mp \<equiv> (5 * doy + 2) div 153"
  shows "0 \<le> mp" "mp \<le> 11"
    and "1 \<le> doy - (153 * mp + 2) div 5 + 1" "doy - (153 * mp + 2) div 5 + 1 \<le> 31"
proof -
  have b: "153 * mp \<le> 5 * doy + 2" "5 * doy + 2 < 153 * mp + 153" unfolding mp_def by presburger+
  show mp: "0 \<le> mp" "mp \<le> 11" using assms(1,2) b by linarith+
  then have "mp = 0 \<or> mp = 1 \<or> mp = 2 \<or> mp = 3 \<or> mp = 4 \<or> mp = 5 \<or> mp = 6 \<or> mp = 7
      \<or> mp = 8 \<or> mp = 9 \<or> mp = 10 \<or> mp = 11" by arith
  with b show "1 \<le> doy - (153 * mp + 2) div 5 + 1" "doy - (153 * mp + 2) div 5 + 1 \<le> 31"
    by (elim disjE; simp)+
qed

lemma civil_from_days_facts:
  assumes "civil_from_days n = (y, m, d)"
  shows "days_from_civil y m d = n" "1 \<le> m" "m \<le> 12" "1 \<le> d" "d \<le> 31"
proof -
  define z where "z = n + 719468"
  obtain yoe doy where sp: "era_split (z mod 146097) = (yoe, doy)" by (cases "era_split (z mod 146097)")
  define mp where "mp = (5 * doy + 2) div 153"
  have ef: "0 \<le> yoe" "yoe < 400" "0 \<le> doy" "doy \<le> 365"
    "z mod 146097 = 365 * yoe + yoe div 4 - yoe div 100 + doy"
    using era_split_facts [OF _ _ sp] by simp_all
  have mf: "0 \<le> mp" "mp \<le> 11" "1 \<le> doy - (153 * mp + 2) div 5 + 1"
    "doy - (153 * mp + 2) div 5 + 1 \<le> 31"
    using march_month_facts [OF ef(3,4)] by (simp_all add: mp_def)
  have d: "d = doy - (153 * mp + 2) div 5 + 1" and m: "m = (if mp < 10 then mp + 3 else mp - 9)"
    and y: "y = (yoe + z div 146097 * 400) + (if m \<le> 2 then 1 else 0)"
    using assms sp by (auto simp: civil_from_days_def Let_def z_def mp_def)
  show "1 \<le> m" "m \<le> 12" "1 \<le> d" "d \<le> 31" using mf by (auto simp: m d)
  have mm: "(if m \<le> 2 then m + 9 else m - 3) = mp" using mf by (auto simp: m)
  have yy: "(if m \<le> 2 then y - 1 else y) = yoe + z div 146097 * 400" by (simp add: y)
  have "days_from_civil y m d = z div 146097 * 146097 + z mod 146097 - 719468"
    unfolding days_from_civil_def Let_def mm yy using ef by (simp add: d)
  then show "days_from_civil y m d = n" by (simp add: z_def)
qed

section \<open>ISO timestamps\<close>

definition two :: "int \<Rightarrow> string" where "two n = pad_start 2 (nat_text (nat n))"

definition three :: "int \<Rightarrow> string" where "three n = pad_start 3 (nat_text (nat n))"

text \<open>\<open>toISOString\<close> writes the years 0 to 9999 with four digits and others with a sign and six.\<close>

definition year_text :: "int \<Rightarrow> string" where
  "year_text y =
     (if 0 \<le> y \<and> y \<le> 9999 then pad_start 4 (nat_text (nat y))
      else (if y < 0 then ''-'' else ''+'') @ pad_start 6 (nat_text (nat \<bar>y\<bar>)))"

definition day_text :: "int \<Rightarrow> string" where
  "day_text n = (case civil_from_days n of (y, m, d) \<Rightarrow> year_text y @ ''-'' @ two m @ ''-'' @ two d)"

definition clock_text :: "int \<Rightarrow> string" where
  "clock_text t =
     two (t div 3600000) @ '':'' @ two (t div 60000 mod 60) @ '':'' @ two (t div 1000 mod 60)
       @ ''.'' @ three (t mod 1000) @ ''Z''"

definition toISOString :: "int \<Rightarrow> string" where
  "toISOString t = day_text (t div ms_per_day) @ ''T'' @ clock_text (t mod ms_per_day)"

text \<open>Reading the fields of a timestamp back: a year of four or six digits, then fixed columns.\<close>

definition num_at :: "nat \<Rightarrow> nat \<Rightarrow> string \<Rightarrow> int" where
  "num_at i n s = int (digits_val (take n (drop i s)))"

definition scan_year :: "string \<Rightarrow> int \<times> string" where
  "scan_year s =
     (if s \<noteq> [] \<and> hd s = CHR ''-'' then (- num_at 1 6 s, drop 7 s)
      else if s \<noteq> [] \<and> hd s = CHR ''+'' then (num_at 1 6 s, drop 7 s)
      else (num_at 0 4 s, drop 4 s))"

definition scan_iso :: "string \<Rightarrow> int" where
  "scan_iso s =
     (case scan_year s of (y, r) \<Rightarrow>
        days_from_civil y (num_at 1 2 r) (num_at 4 2 r) * ms_per_day
          + num_at 7 2 r * 3600000 + num_at 10 2 r * 60000 + num_at 13 2 r * 1000 + num_at 16 3 r)"

text \<open>
  \<open>new Date(s)\<close> together with the canonical test: the time value of a string that
  \<open>toISOString\<close> prints, nothing for any other string.
\<close>

definition parse_iso :: "string \<Rightarrow> int option" where
  "parse_iso s = (let t = scan_iso s in if time_in_range t \<and> toISOString t = s then Some t else None)"

definition utc_day :: "int \<Rightarrow> string" where
  "utc_day t = take 10 (toISOString t)"

lemma toISOString_nonempty [simp]: "toISOString t \<noteq> []" "[] \<noteq> toISOString t"
  by (simp_all add: toISOString_def)

lemma length_two: "0 \<le> n \<Longrightarrow> n < 100 \<Longrightarrow> length (two n) = 2"
  using length_nat_text_bound [of "nat n" 1] by (simp add: two_def length_pad nat_less_iff)

lemma length_three: "0 \<le> n \<Longrightarrow> n < 1000 \<Longrightarrow> length (three n) = 3"
  using length_nat_text_bound [of "nat n" 2] by (simp add: three_def length_pad nat_less_iff)

lemma digits_two: "0 \<le> n \<Longrightarrow> int (digits_val (two n)) = n"
  by (simp add: two_def digits_val_pad)

lemma digits_three: "0 \<le> n \<Longrightarrow> int (digits_val (three n)) = n"
  by (simp add: three_def digits_val_pad)

lemma scan_year_text:
  assumes "\<bar>y\<bar> < 1000000"
  shows "scan_year (year_text y @ r) = (y, r)"
proof (cases "0 \<le> y \<and> y \<le> 9999")
  case True
  define p where "p = pad_start 4 (nat_text (nat y))"
  have len: "length p = 4"
    using True length_nat_text_bound [of "nat y" 3] by (simp add: p_def length_pad nat_less_iff)
  have dig: "list_all is_digit p" by (simp add: p_def pad_digits)
  have "is_digit (hd (p @ r))" using len dig by (cases p) auto
  then have "hd (p @ r) \<noteq> CHR ''-''" "hd (p @ r) \<noteq> CHR ''+''" by (auto simp: is_digit_def)
  moreover have "int (digits_val p) = y" using True by (simp add: p_def digits_val_pad)
  ultimately show ?thesis
    using True len by (simp add: scan_year_def num_at_def year_text_def flip: p_def)
next
  case False
  define p where "p = pad_start 6 (nat_text (nat \<bar>y\<bar>))"
  have len: "length p = 6"
    using assms length_nat_text_bound [of "nat \<bar>y\<bar>" 5] by (simp add: p_def length_pad nat_less_iff)
  moreover have "int (digits_val p) = \<bar>y\<bar>" by (simp add: p_def digits_val_pad)
  ultimately show ?thesis
    using False by (auto simp: scan_year_def num_at_def year_text_def simp flip: p_def)
qed

lemma year_bound:
  assumes "civil_from_days n = (y, m, d)" "\<bar>n\<bar> \<le> 100000000"
  shows "\<bar>y\<bar> < 1000000"
proof -
  define z where "z = n + 719468"
  obtain yoe doy where sp: "era_split (z mod 146097) = (yoe, doy)" by (cases "era_split (z mod 146097)")
  have "0 \<le> yoe" "yoe < 400" using era_split_facts [OF _ _ sp] by simp_all
  moreover have "\<bar>z div 146097\<bar> \<le> 1000" using assms(2) unfolding z_def by linarith
  moreover have "y \<le> yoe + z div 146097 * 400 + 1" "yoe + z div 146097 * 400 \<le> y"
    using assms(1) sp by (auto simp: civil_from_days_def Let_def z_def split: if_splits)
  ultimately show ?thesis by linarith
qed

lemma list_two: "length xs = 2 \<longleftrightarrow> (\<exists>a b. xs = [a, b])"
  by (auto simp: numeral_2_eq_2 length_Suc_conv)

lemma list_three: "length xs = 3 \<longleftrightarrow> (\<exists>a b c. xs = [a, b, c])"
  by (auto simp: numeral_3_eq_3 length_Suc_conv)

lemma timestamp_columns:
  assumes "length M = 2" "length D = 2" "length H = 2" "length I = 2" "length S = 2" "length L = 3"
  defines "r \<equiv> ''-'' @ M @ ''-'' @ D @ ''T'' @ H @ '':'' @ I @ '':'' @ S @ ''.'' @ L @ ''Z''"
  shows "num_at 1 2 r = int (digits_val M)" "num_at 4 2 r = int (digits_val D)"
    "num_at 7 2 r = int (digits_val H)" "num_at 10 2 r = int (digits_val I)"
    "num_at 13 2 r = int (digits_val S)" "num_at 16 3 r = int (digits_val L)"
  using assms(1-6) unfolding list_two list_three r_def num_at_def by auto

lemma scan_toISOString:
  assumes "time_in_range t"
  shows "scan_iso (toISOString t) = t"
proof -
  define n where "n = t div ms_per_day"
  define c where "c = t mod ms_per_day"
  have c: "0 \<le> c" "c < 86400000" by (simp_all add: c_def ms_per_day_def)
  obtain y m d where civ: "civil_from_days n = (y, m, d)" by (metis prod_cases3)
  note cf = civil_from_days_facts [OF civ]
  have "\<bar>n\<bar> \<le> 100000000"
    using assms unfolding n_def time_in_range_def ms_per_day_def by linarith
  then have y: "\<bar>y\<bar> < 1000000" by (rule year_bound [OF civ])
  define h mi se ml where "h = c div 3600000" and "mi = c div 60000 mod 60"
    and "se = c div 1000 mod 60" and "ml = c mod 1000"
  have rng: "0 \<le> h" "h < 100" "0 \<le> mi" "mi < 100" "0 \<le> se" "se < 100" "0 \<le> ml" "ml < 1000"
    using c by (auto simp: h_def mi_def se_def ml_def)
  have parts: "c = h * 3600000 + mi * 60000 + se * 1000 + ml"
  proof -
    have "c div 60000 = c div 1000 div 60" "c div 3600000 = c div 60000 div 60"
      by (simp_all flip: zdiv_zmult2_eq)
    then show ?thesis
      using div_mult_mod_eq [of c 1000] div_mult_mod_eq [of "c div 1000" 60]
        div_mult_mod_eq [of "c div 60000" 60]
      unfolding h_def mi_def se_def ml_def by linarith
  qed
  have printed: "toISOString t = year_text y @ ''-'' @ two m @ ''-'' @ two d @ ''T'' @ two h @ '':''
      @ two mi @ '':'' @ two se @ ''.'' @ three ml @ ''Z''"
    by (simp add: toISOString_def day_text_def clock_text_def civ h_def mi_def se_def ml_def
        flip: n_def c_def)
  have len: "length (two m) = 2" "length (two d) = 2" "length (two h) = 2" "length (two mi) = 2"
    "length (two se) = 2" "length (three ml) = 3"
    using cf rng by (simp_all add: length_two length_three)
  have dig: "int (digits_val (two m)) = m" "int (digits_val (two d)) = d"
    "int (digits_val (two h)) = h" "int (digits_val (two mi)) = mi"
    "int (digits_val (two se)) = se" "int (digits_val (three ml)) = ml"
    using cf rng by (simp_all add: digits_two digits_three)
  have "t = n * ms_per_day + c" by (simp add: n_def c_def)
  then show ?thesis
    unfolding printed scan_iso_def scan_year_text [OF y] prod.case timestamp_columns [OF len] dig cf(1)
    using parts by linarith
qed

theorem parse_iso_iff: "parse_iso s = Some t \<longleftrightarrow> time_in_range t \<and> s = toISOString t"
  by (auto simp: parse_iso_def Let_def scan_toISOString split: if_splits)

lemma toISOString_inj: "time_in_range t \<Longrightarrow> time_in_range u \<Longrightarrow> toISOString t = toISOString u \<Longrightarrow> t = u"
  by (metis scan_toISOString)

end
