(* ===== verification/TxErrors.thy ===== *)
theory TxErrors
  imports JsDate
begin

text \<open>
  Typed transaction errors and failure classification (\<open>packages/contracts/src/transaction.ts\<close>):
  the error codes with their HTTP status and retryability, the protocol error record, the
  classification of Durable Object exceptions, the bounded backoff and the reliability event.
  A thrown \<open>TransactionContractViolation\<close> is \<open>Inl\<close> of its code; the human-readable message
  and the details of a thrown error are not modelled.
\<close>

section \<open>Error codes\<close>

datatype tx_code =
    TX_INVALID_TRANSITION
  | TX_COMMIT_ALREADY_DECIDED
  | TX_ABORT_ALREADY_DECIDED
  | TX_EPOCH_STALE
  | TX_EPOCH_CONFLICT
  | TX_DECISION_CONFLICT
  | TX_ID_REQUEST_MISMATCH
  | TX_ENVELOPE_HASH_MISMATCH
  | TX_ENVELOPE_INVALID
  | TX_ENVELOPE_TOO_LARGE
  | TX_MANIFEST_CONFLICT
  | TX_DECISION_UNAVAILABLE
  | TX_MANIFEST_UNAVAILABLE
  | TX_VERSION_UNSUPPORTED
  | TX_QUARANTINED
  | TX_ABORTED
  | MANIFEST_INVALID_REQUEST
  | MANIFEST_FUTURE_CUTOFF
  | MANIFEST_NONMONOTONIC_CUTOFF
  | MANIFEST_SEAL_IN_PROGRESS
  | MANIFEST_RESERVATION_CONFLICT
  | MANIFEST_TERMINAL_CONFLICT
  | MANIFEST_CURSOR_MISMATCH
  | MANIFEST_COVERAGE_GAP
  | MANIFEST_VERSION_UNSUPPORTED
  | MANIFEST_TEMPORARILY_UNAVAILABLE
  | MANIFEST_QUARANTINED
  | MANIFEST_RETENTION_EXPIRED
  | MANIFEST_UNPROVEN_LEGACY_WINDOW
  | LEGACY_CERTIFICATION_UNAVAILABLE
  | V1_CLOSED

type_synonym check = "tx_code + unit"

fun ERROR_HTTP_STATUS :: "tx_code \<Rightarrow> int" where
  "ERROR_HTTP_STATUS TX_INVALID_TRANSITION = 409"
| "ERROR_HTTP_STATUS TX_COMMIT_ALREADY_DECIDED = 409"
| "ERROR_HTTP_STATUS TX_ABORT_ALREADY_DECIDED = 409"
| "ERROR_HTTP_STATUS TX_EPOCH_STALE = 409"
| "ERROR_HTTP_STATUS TX_EPOCH_CONFLICT = 409"
| "ERROR_HTTP_STATUS TX_DECISION_CONFLICT = 409"
| "ERROR_HTTP_STATUS TX_ID_REQUEST_MISMATCH = 409"
| "ERROR_HTTP_STATUS TX_ENVELOPE_HASH_MISMATCH = 409"
| "ERROR_HTTP_STATUS TX_ENVELOPE_INVALID = 400"
| "ERROR_HTTP_STATUS TX_ENVELOPE_TOO_LARGE = 413"
| "ERROR_HTTP_STATUS TX_MANIFEST_CONFLICT = 409"
| "ERROR_HTTP_STATUS TX_DECISION_UNAVAILABLE = 503"
| "ERROR_HTTP_STATUS TX_MANIFEST_UNAVAILABLE = 503"
| "ERROR_HTTP_STATUS TX_VERSION_UNSUPPORTED = 503"
| "ERROR_HTTP_STATUS TX_QUARANTINED = 409"
| "ERROR_HTTP_STATUS TX_ABORTED = 409"
| "ERROR_HTTP_STATUS MANIFEST_INVALID_REQUEST = 400"
| "ERROR_HTTP_STATUS MANIFEST_FUTURE_CUTOFF = 409"
| "ERROR_HTTP_STATUS MANIFEST_NONMONOTONIC_CUTOFF = 409"
| "ERROR_HTTP_STATUS MANIFEST_SEAL_IN_PROGRESS = 409"
| "ERROR_HTTP_STATUS MANIFEST_RESERVATION_CONFLICT = 409"
| "ERROR_HTTP_STATUS MANIFEST_TERMINAL_CONFLICT = 409"
| "ERROR_HTTP_STATUS MANIFEST_CURSOR_MISMATCH = 400"
| "ERROR_HTTP_STATUS MANIFEST_COVERAGE_GAP = 409"
| "ERROR_HTTP_STATUS MANIFEST_VERSION_UNSUPPORTED = 503"
| "ERROR_HTTP_STATUS MANIFEST_TEMPORARILY_UNAVAILABLE = 503"
| "ERROR_HTTP_STATUS MANIFEST_QUARANTINED = 409"
| "ERROR_HTTP_STATUS MANIFEST_RETENTION_EXPIRED = 410"
| "ERROR_HTTP_STATUS MANIFEST_UNPROVEN_LEGACY_WINDOW = 409"
| "ERROR_HTTP_STATUS LEGACY_CERTIFICATION_UNAVAILABLE = 503"
| "ERROR_HTTP_STATUS V1_CLOSED = 409"

definition RETRYABLE_ERRORS :: "tx_code list" where
  "RETRYABLE_ERRORS =
     [TX_DECISION_UNAVAILABLE, TX_MANIFEST_UNAVAILABLE, MANIFEST_SEAL_IN_PROGRESS,
      MANIFEST_TEMPORARILY_UNAVAILABLE, LEGACY_CERTIFICATION_UNAVAILABLE]"

section \<open>Failure classification and backoff\<close>

definition DEFAULT_DURABLE_OBJECT_RETRY_AFTER_MS :: int where
  "DEFAULT_DURABLE_OBJECT_RETRY_AFTER_MS = 5000"

definition DEFAULT_DURABLE_OBJECT_OVERLOAD_RETRY_AFTER_MS :: int where
  "DEFAULT_DURABLE_OBJECT_OVERLOAD_RETRY_AFTER_MS = 30000"

definition MAX_DURABLE_OBJECT_RETRY_AFTER_MS :: int where
  "MAX_DURABLE_OBJECT_RETRY_AFTER_MS = 5 * 60000"

record failure_classification =
  fc_overloaded :: bool
  fc_retryable :: bool
  fc_retry_after_ms :: int

definition errorFlag :: "jval \<Rightarrow> string \<Rightarrow> bool" where
  "errorFlag error k \<longleftrightarrow> jget error k = JBool True"

definition retryAfterHint :: "jval \<Rightarrow> jval" where
  "retryAfterHint error =
     (let a = jget error ''retryAfterMs''
      in if a = JUndef \<or> a = JNull then jget error ''retry_after_ms'' else a)"

text \<open>
  \<open>Math.ceil\<close> of a finite number, nothing for a non-number or a non-finite one; \<open>JDec c\<close>
  carries the ceiling. A finite number is at most 0 exactly when its ceiling is.
\<close>

fun ceil_of :: "jval \<Rightarrow> int option" where
  "ceil_of (JNum (JInt n)) = Some n"
| "ceil_of (JNum (JDec c s)) = Some c"
| "ceil_of _ = None"

definition boundedInteger :: "jval \<Rightarrow> int \<Rightarrow> int \<Rightarrow> int" where
  "boundedInteger v fallback maximum =
     (case ceil_of v of
        None \<Rightarrow> fallback
      | Some c \<Rightarrow> if c \<le> 0 then fallback else min maximum (max 1 c))"

definition classifyDurableObjectFailure :: "jval \<Rightarrow> failure_classification" where
  "classifyDurableObjectFailure error =
     (let overloaded = errorFlag error ''overloaded'';
          retryable = (\<not> overloaded \<and> errorFlag error ''retryable'');
          fallback = (if overloaded then DEFAULT_DURABLE_OBJECT_OVERLOAD_RETRY_AFTER_MS
                      else DEFAULT_DURABLE_OBJECT_RETRY_AFTER_MS)
      in \<lparr>fc_overloaded = overloaded, fc_retryable = retryable,
          fc_retry_after_ms = boundedInteger (retryAfterHint error) fallback
            MAX_DURABLE_OBJECT_RETRY_AFTER_MS\<rparr>)"

definition boundedExponentialBackoffMs :: "jval \<Rightarrow> jval \<Rightarrow> jval \<Rightarrow> int" where
  "boundedExponentialBackoffMs priorAttemptCount baseDelayMs maximumDelayMs =
     (let attempt = (if safe_int_from 1 priorAttemptCount then int_of priorAttemptCount else 0);
          base = boundedInteger baseDelayMs 1 max_safe_integer;
          maximum = max base (boundedInteger maximumDelayMs base max_safe_integer)
      in min maximum (base * 2 ^ nat (min attempt 30)))"

section \<open>Protocol errors\<close>

record tx_protocol_error =
  pe_schema_version :: int
  pe_code :: tx_code
  pe_message :: string
  pe_http_status :: int
  pe_retryable :: bool
  pe_overloaded :: bool
  pe_retry_after_ms :: "int option"
  pe_details :: "(string \<times> jval) list option"

definition TRANSACTION_ERROR_SCHEMA_VERSION :: int where
  "TRANSACTION_ERROR_SCHEMA_VERSION = 1"

text \<open>The absent field \<open>overloaded\<close> is \<open>False\<close>, the absent \<open>retry_after_ms\<close> is \<open>None\<close>.\<close>

definition transactionError ::
  "tx_code \<Rightarrow> string \<Rightarrow> (string \<times> jval) list option \<Rightarrow> failure_classification option
     \<Rightarrow> tx_protocol_error" where
  "transactionError code message details transport =
     \<lparr>pe_schema_version = TRANSACTION_ERROR_SCHEMA_VERSION,
      pe_code = code,
      pe_message = message,
      pe_http_status = ERROR_HTTP_STATUS code,
      pe_retryable = (code \<in> set RETRYABLE_ERRORS),
      pe_overloaded = (case transport of None \<Rightarrow> False | Some t \<Rightarrow> fc_overloaded t),
      pe_retry_after_ms = map_option fc_retry_after_ms transport,
      pe_details = details\<rparr>"

definition durableObjectUnavailableError :: "jval \<Rightarrow> tx_code \<Rightarrow> string \<Rightarrow> tx_protocol_error" where
  "durableObjectUnavailableError error code message =
     transactionError code message None (Some (classifyDurableObjectFailure error))"

section \<open>Reliability events\<close>

datatype reliability_component =
    RC_coordinator | RC_control_plane | RC_fleet_manifest_catalog | RC_journal_manifest

datatype reliability_operation =
    RO_manifest_admission | RO_manifest_route_assignment | RO_recovery_alarm | RO_catalog_alarm

datatype reliability_outcome = RR_controlled_failure | RR_retry_scheduled | RR_recovered

datatype reliability_purpose =
    RP_not_applicable | RP_snapshot_resume | RP_cursor_gc | RP_route_gc | RP_history_gc | RP_unknown

record slo_input =
  si_component :: reliability_component
  si_operation :: reliability_operation
  si_outcome :: reliability_outcome
  si_classification :: "failure_classification option"
  si_attempt_count :: jval
  si_retry_after_ms :: jval
  si_observed_at_ms :: jval
  si_purpose :: jval

record slo_event =
  se_schema_version :: int
  se_component :: reliability_component
  se_operation :: reliability_operation
  se_outcome :: reliability_outcome
  se_purpose :: reliability_purpose
  se_overloaded :: bool
  se_retryable :: bool
  se_attempt_count :: int
  se_retry_after_ms :: int
  se_observed_at :: string

definition purpose_of :: "jval \<Rightarrow> reliability_purpose" where
  "purpose_of v =
     (if v = JUndef then RP_not_applicable
      else if v = JStr ''not_applicable'' then RP_not_applicable
      else if v = JStr ''snapshot_resume'' then RP_snapshot_resume
      else if v = JStr ''cursor_gc'' then RP_cursor_gc
      else if v = JStr ''route_gc'' then RP_route_gc
      else if v = JStr ''history_gc'' then RP_history_gc
      else RP_unknown)"

text \<open>
  \<open>new Date\<close> truncates a fractional time value towards zero; the guard admits finite numbers
  of magnitude at most 8.64e15. \<open>now\<close> is \<open>Date.now()\<close>.
\<close>

fun observed_ms :: "int \<Rightarrow> jval \<Rightarrow> int" where
  "observed_ms now (JNum (JInt n)) = (if \<bar>n\<bar> \<le> 8640000000000000 then n else now)"
| "observed_ms now (JNum (JDec c s)) =
     (if -8640000000000000 < c \<and> c \<le> 8640000000000000 then (if 0 < c then c - 1 else c) else now)"
| "observed_ms now _ = now"

definition reliabilitySloEvent :: "int \<Rightarrow> slo_input \<Rightarrow> slo_event" where
  "reliabilitySloEvent now i =
     (let c = (case si_classification i of
                 None \<Rightarrow> \<lparr>fc_overloaded = False, fc_retryable = False, fc_retry_after_ms = 0\<rparr>
               | Some c \<Rightarrow> c);
          retry = (if si_retry_after_ms i = JUndef \<or> si_retry_after_ms i = JNull
                   then jint (fc_retry_after_ms c) else si_retry_after_ms i)
      in \<lparr>se_schema_version = 1,
          se_component = si_component i,
          se_operation = si_operation i,
          se_outcome = si_outcome i,
          se_purpose = purpose_of (si_purpose i),
          se_overloaded = fc_overloaded c,
          se_retryable = fc_retryable c,
          se_attempt_count =
            (if safe_int_from 1 (si_attempt_count i) then int_of (si_attempt_count i) else 0),
          se_retry_after_ms =
            (if si_retry_after_ms i = jint 0 then 0
             else boundedInteger retry 0 MAX_DURABLE_OBJECT_RETRY_AFTER_MS),
          se_observed_at = toISOString (observed_ms now (si_observed_at_ms i))\<rparr>)"

section \<open>Lemmas\<close>

lemma boundedInteger_range:
  "1 \<le> maximum \<Longrightarrow> lo \<le> 1 \<Longrightarrow> lo \<le> fallback \<Longrightarrow> fallback \<le> maximum \<Longrightarrow>
   lo \<le> boundedInteger v fallback maximum \<and> boundedInteger v fallback maximum \<le> maximum"
  by (auto simp: boundedInteger_def split: option.splits)

lemma classify_retry_range:
  "1 \<le> fc_retry_after_ms (classifyDurableObjectFailure e)
   \<and> fc_retry_after_ms (classifyDurableObjectFailure e) \<le> 300000"
  using boundedInteger_range [of 300000 1 30000 "retryAfterHint e"]
    boundedInteger_range [of 300000 1 5000 "retryAfterHint e"]
  by (simp add: classifyDurableObjectFailure_def Let_def
      DEFAULT_DURABLE_OBJECT_OVERLOAD_RETRY_AFTER_MS_def DEFAULT_DURABLE_OBJECT_RETRY_AFTER_MS_def
      MAX_DURABLE_OBJECT_RETRY_AFTER_MS_def)

text \<open>
  A classified Durable Object failure is overloaded exactly when the exception carries the
  flag, never invites an immediate retry of an overloaded object, and always asks for a
  cooldown between one millisecond and five minutes; the protocol error built from it carries
  those values and the status and retryability its code fixes.
\<close>

theorem classification_sound:
  "let c = classifyDurableObjectFailure e; p = durableObjectUnavailableError e code msg in
     fc_overloaded c = errorFlag e ''overloaded''
     \<and> \<not> (fc_overloaded c \<and> fc_retryable c)
     \<and> 1 \<le> fc_retry_after_ms c \<and> fc_retry_after_ms c \<le> 300000
     \<and> pe_overloaded p = fc_overloaded c \<and> pe_retry_after_ms p = Some (fc_retry_after_ms c)
     \<and> pe_http_status p = ERROR_HTTP_STATUS code
     \<and> pe_retryable p = (code \<in> set RETRYABLE_ERRORS)"
  using classify_retry_range [of e]
  by (simp add: Let_def durableObjectUnavailableError_def transactionError_def)
     (simp add: classifyDurableObjectFailure_def Let_def)

lemma backoff_base_range:
  "1 \<le> boundedInteger v 1 max_safe_integer \<and> boundedInteger v 1 max_safe_integer \<le> max_safe_integer"
  by (rule boundedInteger_range) (simp_all add: max_safe_integer_def)

lemma backoff_eq:
  "boundedExponentialBackoffMs (jint a) b m =
     min (max (boundedInteger b 1 max_safe_integer)
            (boundedInteger m (boundedInteger b 1 max_safe_integer) max_safe_integer))
       (boundedInteger b 1 max_safe_integer
         * 2 ^ nat (min (if a \<le> max_safe_integer then max 0 a else 0) 30))"
  by (auto simp: boundedExponentialBackoffMs_def Let_def max_def)

text \<open>
  C40: The retry backoff of the coordinator and the control plane is at least one millisecond,
  at most the larger of the base delay and the maximum delay, and never shrinks as the
  attempt count grows.
\<close>

theorem backoff_bounded_monotone:
  fixes baseDelay maxDelay :: jval
  assumes "a \<le> b" "b \<le> max_safe_integer"
  defines "base \<equiv> boundedInteger baseDelay 1 max_safe_integer"
  shows "1 \<le> boundedExponentialBackoffMs (jint a) baseDelay maxDelay
    \<and> boundedExponentialBackoffMs (jint a) baseDelay maxDelay
        \<le> max base (boundedInteger maxDelay base max_safe_integer)
    \<and> boundedExponentialBackoffMs (jint a) baseDelay maxDelay
        \<le> boundedExponentialBackoffMs (jint b) baseDelay maxDelay"
proof -
  have base: "1 \<le> base" using backoff_base_range by (simp add: base_def)
  have pow: "(1::int) \<le> 2 ^ n" for n :: nat by simp
  define cap where "cap = max base (boundedInteger maxDelay base max_safe_integer)"
  define A where "A = base * 2 ^ nat (min (max 0 a) 30)"
  define B where "B = base * 2 ^ nat (min (max 0 b) 30)"
  have "(2::int) ^ nat (min (max 0 a) 30) \<le> 2 ^ nat (min (max 0 b) 30)"
    using assms(1) by (intro power_increasing) auto
  then have "A \<le> B" unfolding A_def B_def using base by (intro mult_left_mono) auto
  moreover have "1 \<le> A" unfolding A_def using mult_mono [OF base pow] base by simp
  moreover have "boundedExponentialBackoffMs (jint a) baseDelay maxDelay = min cap A"
    and "boundedExponentialBackoffMs (jint b) baseDelay maxDelay = min cap B"
    using assms(1,2) by (simp_all add: backoff_eq cap_def A_def B_def flip: base_def)
  moreover have "1 \<le> cap" using base by (simp add: cap_def)
  ultimately show ?thesis unfolding cap_def [symmetric] by auto
qed

theorem backoff_bounded_monotone_witness:
  "boundedExponentialBackoffMs (jint 3) (jint 250) (jint 300000) = 2000
   \<and> boundedExponentialBackoffMs (jint 3) (jint 250) (jint 300000)
       \<le> boundedExponentialBackoffMs (jint 40) (jint 250) (jint 300000)"
proof -
  have "boundedExponentialBackoffMs (jint 3) (jint 250) (jint 300000) = 2000"
    by (simp add: backoff_eq boundedInteger_def max_safe_integer_def)
  then show ?thesis
    using backoff_bounded_monotone [of 3 40 "jint 250" "jint 300000"]
    by (simp add: max_safe_integer_def)
qed

end
