(* ===== verification/TxStates.thy ===== *)
theory TxStates
  imports TxErrors
begin

text \<open>
  The transaction state machine of \<open>packages/contracts/src/transaction.ts\<close>: the sixteen
  durable states, the table of direct transitions, the decision a state stands for, the
  transition assertion with its typed errors, and the version gates. A run is a list of
  states each of which the assertion admits after the one before.
\<close>

section \<open>States and transitions\<close>

datatype tx_state =
    Tx_new
  | Manifest_reserving
  | Preparing
  | Abort_decided
  | Aborting
  | Aborted
  | Aborted_pending_manifest_cancel
  | Prepared
  | Commit_deciding
  | Commit_decided
  | Commit_pending_manifest
  | Manifest_registered
  | Committing
  | Committed_pending_ack
  | Committed
  | Quarantined

definition TRANSACTION_STATES :: "(string \<times> tx_state) list" where
  "TRANSACTION_STATES =
     [(''new'', Tx_new),
      (''manifest_reserving'', Manifest_reserving),
      (''preparing'', Preparing),
      (''abort_decided'', Abort_decided),
      (''aborting'', Aborting),
      (''aborted'', Aborted),
      (''aborted_pending_manifest_cancel'', Aborted_pending_manifest_cancel),
      (''prepared'', Prepared),
      (''commit_deciding'', Commit_deciding),
      (''commit_decided'', Commit_decided),
      (''commit_pending_manifest'', Commit_pending_manifest),
      (''manifest_registered'', Manifest_registered),
      (''committing'', Committing),
      (''committed_pending_ack'', Committed_pending_ack),
      (''committed'', Committed),
      (''quarantined'', Quarantined)]"

fun isTransactionState :: "jval \<Rightarrow> bool" where
  "isTransactionState (JStr s) = (s \<in> set (map fst TRANSACTION_STATES))"
| "isTransactionState _ = False"

datatype tx_decision = Undecided | Abort_decision | Commit_decision | Quarantined_decision

fun DIRECT_TRANSITIONS :: "tx_state \<Rightarrow> tx_state list" where
  "DIRECT_TRANSITIONS Tx_new = [Manifest_reserving, Preparing, Quarantined]"
| "DIRECT_TRANSITIONS Manifest_reserving =
     [Preparing, Abort_decided, Aborted, Aborted_pending_manifest_cancel, Quarantined]"
| "DIRECT_TRANSITIONS Preparing = [Abort_decided, Prepared, Quarantined]"
| "DIRECT_TRANSITIONS Abort_decided = [Aborting, Quarantined]"
| "DIRECT_TRANSITIONS Aborting = [Aborted, Aborted_pending_manifest_cancel, Quarantined]"
| "DIRECT_TRANSITIONS Aborted = [Quarantined]"
| "DIRECT_TRANSITIONS Aborted_pending_manifest_cancel = [Aborted, Quarantined]"
| "DIRECT_TRANSITIONS Prepared = [Abort_decided, Commit_deciding, Commit_decided, Quarantined]"
| "DIRECT_TRANSITIONS Commit_deciding = [Commit_pending_manifest, Manifest_registered, Quarantined]"
| "DIRECT_TRANSITIONS Commit_decided = [Commit_pending_manifest, Manifest_registered, Quarantined]"
| "DIRECT_TRANSITIONS Commit_pending_manifest = [Manifest_registered, Quarantined]"
| "DIRECT_TRANSITIONS Manifest_registered = [Committing, Quarantined]"
| "DIRECT_TRANSITIONS Committing = [Committed_pending_ack, Committed, Quarantined]"
| "DIRECT_TRANSITIONS Committed_pending_ack = [Committed, Quarantined]"
| "DIRECT_TRANSITIONS Committed = [Quarantined]"
| "DIRECT_TRANSITIONS Quarantined = [Manifest_registered, Aborted]"

definition isCommitDecidedOrLater :: "tx_state \<Rightarrow> bool" where
  "isCommitDecidedOrLater state \<longleftrightarrow>
     state = Commit_decided \<or> state = Commit_deciding \<or> state = Commit_pending_manifest
     \<or> state = Manifest_registered \<or> state = Committing \<or> state = Committed_pending_ack
     \<or> state = Committed"

definition isAbortDecidedOrLater :: "tx_state \<Rightarrow> bool" where
  "isAbortDecidedOrLater state \<longleftrightarrow>
     state = Abort_decided \<or> state = Aborting \<or> state = Aborted_pending_manifest_cancel
     \<or> state = Aborted"

definition decisionForState :: "tx_state \<Rightarrow> tx_decision" where
  "decisionForState state =
     (if isCommitDecidedOrLater state then Commit_decision
      else if isAbortDecidedOrLater state then Abort_decision
      else if state = Quarantined then Quarantined_decision
      else Undecided)"

definition isTransactionTransitionAllowed :: "tx_state \<Rightarrow> tx_state \<Rightarrow> bool" where
  "isTransactionTransitionAllowed from_s to_s \<longleftrightarrow>
     from_s = to_s \<or> to_s \<in> set (DIRECT_TRANSITIONS from_s)"

definition assertTransactionTransition :: "tx_state \<Rightarrow> tx_state \<Rightarrow> check" where
  "assertTransactionTransition from_s to_s =
     (if isTransactionTransitionAllowed from_s to_s then Inr ()
      else if isCommitDecidedOrLater from_s \<and> isAbortDecidedOrLater to_s
      then Inl TX_COMMIT_ALREADY_DECIDED
      else if isAbortDecidedOrLater from_s \<and> isCommitDecidedOrLater to_s
      then Inl TX_ABORT_ALREADY_DECIDED
      else Inl TX_INVALID_TRANSITION)"

text \<open>A run of the machine: every state is admitted by the assertion after its predecessor.\<close>

fun tx_run :: "tx_state \<Rightarrow> tx_state list \<Rightarrow> bool" where
  "tx_run s [] = True"
| "tx_run s (t # ts) = (assertTransactionTransition s t = Inr () \<and> tx_run t ts)"

section \<open>Version gates\<close>

definition CURRENT_PROTOCOL_VERSION :: int where "CURRENT_PROTOCOL_VERSION = 1"
definition MIN_READABLE_PROTOCOL_VERSION :: int where "MIN_READABLE_PROTOCOL_VERSION = 1"
definition TRANSACTION_STATE_MODEL_VERSION :: int where "TRANSACTION_STATE_MODEL_VERSION = 2"
definition MIN_READABLE_TRANSACTION_STATE_MODEL_VERSION :: int where
  "MIN_READABLE_TRANSACTION_STATE_MODEL_VERSION = 1"
definition MIN_IDEMPOTENCY_DAYS :: int where "MIN_IDEMPOTENCY_DAYS = 1"
definition MAX_IDEMPOTENCY_DAYS :: int where "MAX_IDEMPOTENCY_DAYS = 30"

definition isReadableProtocolVersion :: "jval \<Rightarrow> bool" where
  "isReadableProtocolVersion version \<longleftrightarrow>
     safe_int_from MIN_READABLE_PROTOCOL_VERSION version
     \<and> int_of version \<le> CURRENT_PROTOCOL_VERSION"

definition assertReadableProtocolVersion :: "jval \<Rightarrow> check" where
  "assertReadableProtocolVersion version =
     require (isReadableProtocolVersion version) TX_VERSION_UNSUPPORTED"

definition assertWritableProtocolVersion :: "jval \<Rightarrow> check" where
  "assertWritableProtocolVersion version =
     require (version = jint CURRENT_PROTOCOL_VERSION) TX_VERSION_UNSUPPORTED"

definition validateIdempotencyDays :: "jval \<Rightarrow> tx_code + int" where
  "validateIdempotencyDays days =
     (if safe_int_from MIN_IDEMPOTENCY_DAYS days \<and> int_of days \<le> MAX_IDEMPOTENCY_DAYS
      then Inr (int_of days) else Inl TX_ENVELOPE_INVALID)"

definition isReadableTransactionStateModelVersion :: "jval \<Rightarrow> bool" where
  "isReadableTransactionStateModelVersion version \<longleftrightarrow>
     safe_int_from MIN_READABLE_TRANSACTION_STATE_MODEL_VERSION version
     \<and> int_of version \<le> TRANSACTION_STATE_MODEL_VERSION"

definition assertReadableTransactionStateModelVersion :: "jval \<Rightarrow> check" where
  "assertReadableTransactionStateModelVersion version =
     require (isReadableTransactionStateModelVersion version) TX_VERSION_UNSUPPORTED"

lemma readable_protocol_iff: "isReadableProtocolVersion v \<longleftrightarrow> v = jint 1"
proof
  assume "isReadableProtocolVersion v"
  then show "v = jint 1"
    using safe_int_fromD [of 1 v]
    by (auto simp: isReadableProtocolVersion_def MIN_READABLE_PROTOCOL_VERSION_def
        CURRENT_PROTOCOL_VERSION_def)
qed (simp add: isReadableProtocolVersion_def MIN_READABLE_PROTOCOL_VERSION_def
    CURRENT_PROTOCOL_VERSION_def max_safe_integer_def)

section \<open>Lemmas on the machine\<close>

lemmas decision_defs =
  isCommitDecidedOrLater_def isAbortDecidedOrLater_def decisionForState_def

lemma assert_ok_iff:
  "assertTransactionTransition s t = Inr u \<longleftrightarrow> s = t \<or> t \<in> set (DIRECT_TRANSITIONS s)"
  by (auto simp: assertTransactionTransition_def isTransactionTransitionAllowed_def)

lemma step_keeps_commit:
  "assertTransactionTransition s t = Inr () \<Longrightarrow> isCommitDecidedOrLater s \<Longrightarrow>
   isCommitDecidedOrLater t \<or> t = Quarantined"
  by (cases s) (auto simp: assert_ok_iff isCommitDecidedOrLater_def)

lemma step_keeps_abort:
  "assertTransactionTransition s t = Inr () \<Longrightarrow> isAbortDecidedOrLater s \<Longrightarrow>
   isAbortDecidedOrLater t \<or> t = Quarantined"
  by (cases s) (auto simp: assert_ok_iff isAbortDecidedOrLater_def)

lemma step_keeps_decision:
  assumes "assertTransactionTransition s t = Inr ()" "t \<noteq> Quarantined" "s \<noteq> Quarantined"
    "decisionForState s \<noteq> Undecided"
  shows "decisionForState t = decisionForState s"
proof -
  from assms(3,4) consider "isCommitDecidedOrLater s" | "isAbortDecidedOrLater s"
    by (auto simp: decisionForState_def split: if_splits)
  then show ?thesis
  proof cases
    case 1
    with step_keeps_commit [OF assms(1)] assms(2) show ?thesis by (simp add: decisionForState_def)
  next
    case 2
    with step_keeps_abort [OF assms(1)] assms(2) show ?thesis
      by (auto simp: decisionForState_def isCommitDecidedOrLater_def isAbortDecidedOrLater_def)
  qed
qed

text \<open>
  C25: A durable decision is irrevocable. Along every run of admitted transitions from a decided
  state, as long as the transaction is not quarantined, each later state stands for the same
  decision: commit never becomes abort and abort never becomes commit.
\<close>

theorem decision_irrevocable:
  assumes "tx_run s ts" "Quarantined \<notin> set (s # ts)" "decisionForState s \<noteq> Undecided"
  shows "\<forall>t\<in>set ts. decisionForState t = decisionForState s"
  using assms
proof (induction ts arbitrary: s)
  case Nil
  then show ?case by simp
next
  case (Cons t ts)
  then have "decisionForState t = decisionForState s"
    using step_keeps_decision [of s t] by auto
  with Cons.IH [of t] Cons.prems show ?case by simp
qed

theorem decision_irrevocable_witness:
  "tx_run Commit_deciding [Commit_pending_manifest, Manifest_registered, Committing, Committed]
   \<and> list_all (\<lambda>t. decisionForState t = decisionForState Commit_deciding)
        [Commit_pending_manifest, Manifest_registered, Committing, Committed]"
  using decision_irrevocable [of Commit_deciding
      "[Commit_pending_manifest, Manifest_registered, Committing, Committed]"]
  by (simp add: assert_ok_iff decision_defs)

definition participant_commit_state :: "tx_state \<Rightarrow> bool" where
  "participant_commit_state s \<longleftrightarrow> s = Committing \<or> s = Committed_pending_ack \<or> s = Committed"

lemma into_participant_commit:
  "assertTransactionTransition s t = Inr () \<Longrightarrow> participant_commit_state t \<Longrightarrow>
   participant_commit_state s \<or> s = Manifest_registered"
  by (cases s) (auto simp: assert_ok_iff participant_commit_state_def)

lemma barrier_from:
  "tx_run s (pre @ [t]) \<Longrightarrow> participant_commit_state t \<Longrightarrow>
   participant_commit_state s \<or> Manifest_registered \<in> set (s # pre)"
proof (induction pre arbitrary: s)
  case Nil
  then show ?case using into_participant_commit by fastforce
next
  case (Cons p pre)
  then have "participant_commit_state p \<or> Manifest_registered \<in> set (p # pre)" by simp
  with Cons.prems into_participant_commit [of s p] show ?case by auto
qed

lemma tx_run_append: "tx_run s (xs @ ys) \<Longrightarrow> tx_run s xs"
  by (induction xs arbitrary: s) auto

text \<open>
  C26: The manifest barrier. No run from a new transaction, quarantine and its audited exits
  included, reaches a state that sends or acknowledges participant commits without having
  passed through \<open>manifest_registered\<close> before.
\<close>

theorem manifest_barrier:
  assumes "tx_run Tx_new (pre @ t # post)" "participant_commit_state t"
  shows "Manifest_registered \<in> set pre"
proof -
  have "tx_run Tx_new (pre @ [t])" using tx_run_append [of Tx_new "pre @ [t]" post] assms(1) by simp
  from barrier_from [OF this assms(2)] show ?thesis by (auto simp: participant_commit_state_def)
qed

theorem manifest_barrier_witness:
  "tx_run Tx_new ([Manifest_reserving, Preparing, Prepared, Commit_deciding, Manifest_registered]
     @ Committing # [Committed])
   \<and> Manifest_registered \<in> set [Manifest_reserving, Preparing, Prepared, Commit_deciding,
       Manifest_registered]"
  using manifest_barrier [of "[Manifest_reserving, Preparing, Prepared, Commit_deciding,
       Manifest_registered]" Committing "[Committed]"]
  by (simp add: assert_ok_iff participant_commit_state_def)

text \<open>
  The typed errors of the transition assertion. It passes exactly on a replay of the same
  state and on a direct transition; a rejected commit-to-abort step names the commit, a
  rejected abort-to-commit step names the abort, and anything else is an invalid transition.
\<close>

theorem transition_error_exact:
  "(assertTransactionTransition s t = Inr () \<longleftrightarrow> s = t \<or> t \<in> set (DIRECT_TRANSITIONS s))
   \<and> (assertTransactionTransition s t = Inl TX_COMMIT_ALREADY_DECIDED \<longleftrightarrow>
        isCommitDecidedOrLater s \<and> isAbortDecidedOrLater t)
   \<and> (assertTransactionTransition s t = Inl TX_ABORT_ALREADY_DECIDED \<longleftrightarrow>
        isAbortDecidedOrLater s \<and> isCommitDecidedOrLater t)"
proof -
  have "isCommitDecidedOrLater s \<and> isAbortDecidedOrLater t \<Longrightarrow>
      \<not> isTransactionTransitionAllowed s t \<and> \<not> isAbortDecidedOrLater s"
    by (cases s) (auto simp: isTransactionTransitionAllowed_def decision_defs)
  moreover have "isAbortDecidedOrLater s \<and> isCommitDecidedOrLater t \<Longrightarrow>
      \<not> isTransactionTransitionAllowed s t \<and> \<not> isCommitDecidedOrLater s"
    by (cases s) (auto simp: isTransactionTransitionAllowed_def decision_defs)
  ultimately show ?thesis
    by (auto simp: assert_ok_iff) (auto simp: assertTransactionTransition_def split: if_splits)
qed

text \<open>
  Quarantine is where a decision can be lost. The transition table alone admits the run
  from \<open>committed\<close> through \<open>quarantined\<close> to \<open>aborted\<close>, so that the decision survives a
  quarantine rests on the audited repair path and not on the table.
\<close>

theorem quarantine_forgets_decision:
  "tx_run Committed [Quarantined, Aborted]
   \<and> decisionForState Committed = Commit_decision \<and> decisionForState Aborted = Abort_decision
   \<and> (assertTransactionTransition Quarantined t = Inr () \<longleftrightarrow>
        t = Quarantined \<or> t = Manifest_registered \<or> t = Aborted)"
  by (auto simp: assert_ok_iff decision_defs)

end
