(* ===== verification/CanonJson.thy ===== *)
theory CanonJson
  imports TxErrors
begin

text \<open>
  Canonical JSON (\<open>canonicalJson\<close> of \<open>packages/contracts/src/transaction.ts\<close>): sorted object
  keys, stable primitives, no value outside JSON; its UTF-8 length and its SHA-256. The lemmas
  show that the text determines the value up to the order of object keys and that the order
  of keys does not matter, so a content address identifies exactly the content.
\<close>

section \<open>The serialisation\<close>

definition esc_char :: "char \<Rightarrow> string" where
  "esc_char c =
     (let n = (of_char c :: nat)
      in if c = CHR 0x22 then [CHR 0x5C, CHR 0x22]
         else if c = CHR 0x5C then [CHR 0x5C, CHR 0x5C]
         else if n = 8 then [CHR 0x5C, CHR ''b'']
         else if n = 9 then [CHR 0x5C, CHR ''t'']
         else if n = 10 then [CHR 0x5C, CHR ''n'']
         else if n = 12 then [CHR 0x5C, CHR ''f'']
         else if n = 13 then [CHR 0x5C, CHR ''r'']
         else if n < 32 then [CHR 0x5C, CHR ''u'', CHR ''0'', CHR ''0''] @ byte_hex n
         else [c])"

text \<open>\<open>JSON.stringify\<close> of a string.\<close>

definition json_quote :: "string \<Rightarrow> string" where
  "json_quote s = CHR 0x22 # concat (map esc_char s) @ [CHR 0x22]"

fun num_text :: "jnum \<Rightarrow> tx_code + string" where
  "num_text (JInt n) = Inr (int_text n)"
| "num_text (JDec c s) = Inr s"
| "num_text _ = Inl TX_ENVELOPE_INVALID"

fun join_comma :: "string list \<Rightarrow> string" where
  "join_comma [] = []"
| "join_comma [t] = t"
| "join_comma (t # ts) = t @ '','' @ join_comma ts"

definition field_text :: "string \<times> string \<Rightarrow> string" where
  "field_text kt = json_quote (fst kt) @ '':'' @ snd kt"

fun canonicalJson :: "jval \<Rightarrow> tx_code + string"
  and canonical_list :: "jval list \<Rightarrow> tx_code + string list"
  and canonical_fields :: "(string \<times> jval) list \<Rightarrow> tx_code + (string \<times> string) list" where
  "canonicalJson JNull = Inr ''null''"
| "canonicalJson (JStr s) = Inr (json_quote s)"
| "canonicalJson (JBool b) = Inr (if b then ''true'' else ''false'')"
| "canonicalJson (JNum n) = num_text n"
| "canonicalJson (JArr vs) =
     and_then (canonical_list vs) (\<lambda>ts. Inr (''['' @ join_comma ts @ '']''))"
| "canonicalJson (JObj kvs) =
     and_then (canonical_fields kvs)
       (\<lambda>fs. Inr (''{'' @ join_comma (map field_text (sort_key fst fs)) @ ''}''))"
| "canonicalJson _ = Inl TX_ENVELOPE_INVALID"
| "canonical_list [] = Inr []"
| "canonical_list (v # vs) =
     and_then (canonicalJson v) (\<lambda>t. and_then (canonical_list vs) (\<lambda>ts. Inr (t # ts)))"
| "canonical_fields [] = Inr []"
| "canonical_fields (kv # kvs) =
     and_then (canonicalJson (snd kv))
       (\<lambda>t. and_then (canonical_fields kvs) (\<lambda>ts. Inr ((fst kv, t) # ts)))"

definition canonicalByteLength :: "jval \<Rightarrow> tx_code + int" where
  "canonicalByteLength v = and_then (canonicalJson v) (\<lambda>t. Inr (int (length (utf8_bytes t))))"

definition hashCanonicalJson :: "digest_fn \<Rightarrow> jval \<Rightarrow> tx_code + string" where
  "hashCanonicalJson dg v = and_then (canonicalJson v) (\<lambda>t. Inr (sha256Hex dg t))"

section \<open>Which values serialise\<close>

text \<open>
  A JSON value proper: finite numbers whose decimal text is one JavaScript prints (and not the
  text of an integer), objects without repeated keys.
\<close>

definition num_char :: "char \<Rightarrow> bool" where
  "num_char c \<longleftrightarrow> is_digit c \<or> c \<in> set ''-+.e''"

fun wf_num :: "jnum \<Rightarrow> bool" where
  "wf_num (JInt n) = True"
| "wf_num (JDec c s) =
     (list_all num_char s \<and> s \<noteq> [] \<and> (is_digit (hd s) \<or> hd s = CHR ''-'')
      \<and> (CHR ''.'' \<in> set s \<or> CHR ''e'' \<in> set s))"
| "wf_num _ = False"

fun wf_json :: "jval \<Rightarrow> bool" where
  "wf_json JNull = True"
| "wf_json (JStr s) = True"
| "wf_json (JBool b) = True"
| "wf_json (JNum n) = wf_num n"
| "wf_json (JArr vs) = list_all wf_json vs"
| "wf_json (JObj kvs) = (distinct (map fst kvs) \<and> list_all (\<lambda>kv. wf_json (snd kv)) kvs)"
| "wf_json _ = False"

text \<open>The value with every object's keys in order (the ceiling of a \<open>JDec\<close> follows from its text).\<close>

fun norm_num :: "jnum \<Rightarrow> jnum" where
  "norm_num (JDec c s) = JDec 0 s"
| "norm_num n = n"

fun norm_json :: "jval \<Rightarrow> jval" where
  "norm_json (JNum n) = JNum (norm_num n)"
| "norm_json (JArr vs) = JArr (map norm_json vs)"
| "norm_json (JObj kvs) = JObj (sort_key fst (map (\<lambda>kv. (fst kv, norm_json (snd kv))) kvs))"
| "norm_json v = v"

text \<open>The text as a total function, for the proofs.\<close>

fun text_of :: "jval \<Rightarrow> string" where
  "text_of JNull = ''null''"
| "text_of (JStr s) = json_quote s"
| "text_of (JBool b) = (if b then ''true'' else ''false'')"
| "text_of (JNum (JInt n)) = int_text n"
| "text_of (JNum (JDec c s)) = s"
| "text_of (JArr vs) = ''['' @ join_comma (map text_of vs) @ '']''"
| "text_of (JObj kvs) =
     ''{'' @ join_comma (map field_text (sort_key fst (map (\<lambda>kv. (fst kv, text_of (snd kv))) kvs)))
       @ ''}''"
| "text_of _ = []"

lemma canonical_wf:
  "wf_json v \<Longrightarrow> canonicalJson v = Inr (text_of v)"
  "list_all wf_json vs \<Longrightarrow> canonical_list vs = Inr (map text_of vs)"
  "list_all (\<lambda>kv. wf_json (snd kv)) kvs \<Longrightarrow>
     canonical_fields kvs = Inr (map (\<lambda>kv. (fst kv, text_of (snd kv))) kvs)"
proof (induction v and vs and kvs rule: canonicalJson_canonical_list_canonical_fields.induct)
  case (4 n)
  then show ?case by (cases n) auto
qed auto

lemma insort_key_map: "insort_key f (g x) (map g xs) = map g (insort_key (f \<circ> g) x xs)"
  by (induction xs) auto

lemma sort_key_map: "sort_key f (map g xs) = map g (sort_key (f \<circ> g) xs)"
  by (induction xs) (simp_all add: insort_key_map comp_def)

lemma text_of_JObj:
  "text_of (JObj kvs) =
     ''{'' @ join_comma (map (\<lambda>kv. json_quote (fst kv) @ '':'' @ text_of (snd kv)) (sort_key fst kvs))
       @ ''}''"
  by (simp add: sort_key_map comp_def field_text_def)

lemma norm_JObj: "norm_json (JObj kvs) = JObj (map (\<lambda>kv. (fst kv, norm_json (snd kv))) (sort_key fst kvs))"
  by (simp add: sort_key_map comp_def)

lemma sort_key_sorted_id: "sorted (map f xs) \<Longrightarrow> sort_key f xs = xs"
  by (induction xs) (auto simp: insort_is_Cons)

lemma sort_key_twice: "sort_key f (sort_key f xs) = sort_key f xs"
  by (rule sort_key_sorted_id) simp

lemma sort_key_perm:
  assumes "distinct (map f xs)" "distinct (map f ys)" "set xs = set ys"
  shows "sort_key f xs = sort_key f ys"
proof -
  have d: "distinct xs" "distinct ys" using assms(1,2) by (auto simp: distinct_map)
  have inj: "inj_on f (set xs)" using assms(1) by (simp add: distinct_map)
  have "map f (sort_key f xs) = map f (sort_key f ys)"
  proof (rule sorted_list_same_set_eq)
    show "set (map f (sort_key f xs)) = set (map f (sort_key f ys))" using assms(3) by simp
    show "distinct (map f (sort_key f xs))" "distinct (map f (sort_key f ys))"
      using d inj assms(3) by (simp_all add: distinct_map)
  qed simp_all
  then show ?thesis by (rule map_inj_on) (use inj assms(3) in simp)
qed

section \<open>Unique reading\<close>

text \<open>What may follow a value: nothing, a comma, or a closing bracket.\<close>

definition delim :: "string \<Rightarrow> bool" where
  "delim r \<longleftrightarrow> r = [] \<or> hd r \<in> {CHR '','', CHR '']'', CHR ''}''}"

lemma delim_simps [simp]:
  "delim []" "delim (CHR '','' # r)" "delim (CHR '']'' # r)" "delim (CHR ''}'' # r)"
  by (simp_all add: delim_def)

lemma num_char_delim: "delim (c # r) \<Longrightarrow> \<not> num_char c"
  by (auto simp: delim_def num_char_def is_digit_def)

lemma num_text_unique:
  assumes "list_all num_char s" "list_all num_char t" "delim r" "delim q" "s @ r = t @ q"
  shows "s = t \<and> r = q"
proof -
  have "takeWhile num_char (u @ p) = u" if "list_all num_char u" "delim p" for u p
    using that num_char_delim by (cases p) (auto simp: list_all_iff takeWhile_append2)
  then show ?thesis using assms by (metis same_append_eq)
qed

text \<open>Reading one escaped character back.\<close>

definition unhex :: "char \<Rightarrow> nat" where
  "unhex c = (let n = (of_char c :: nat) in if n < 58 then n - 48 else n - 87)"

fun unesc :: "string \<Rightarrow> char \<times> string" where
  "unesc (c # r) =
     (if c \<noteq> CHR 0x5C then (c, r)
      else case r of
             d # r' \<Rightarrow>
               (if d = CHR ''b'' then (char_of (8::nat), r')
                else if d = CHR ''t'' then (char_of (9::nat), r')
                else if d = CHR ''n'' then (char_of (10::nat), r')
                else if d = CHR ''f'' then (char_of (12::nat), r')
                else if d = CHR ''r'' then (char_of (13::nat), r')
                else if d = CHR ''u'' then
                  (char_of (16 * unhex (r' ! 2) + unhex (r' ! 3)), drop 4 r')
                else (d, r'))
           | [] \<Rightarrow> (c, r))"
| "unesc [] = (CHR 0x00, [])"

lemma control_char_unesc:
  "\<forall>n\<in>set [0..<32]. \<forall>r. unesc (esc_char (char_of n) @ r) = (char_of n, r)"
  by (simp add: upt_rec [of _ 32] esc_char_def Let_def byte_hex_def hex_digit_def unhex_def)

lemma unesc_esc: "unesc (esc_char c @ r) = (c, r)"
proof (cases "(of_char c :: nat) < 32")
  case True
  then have "(of_char c :: nat) \<in> set [0..<32]" by simp
  from control_char_unesc [rule_format, OF this] show ?thesis by simp
next
  case False
  then show ?thesis by (auto simp: esc_char_def Let_def)
qed

lemma esc_char_nonempty: "esc_char c \<noteq> [] \<and> hd (esc_char c) \<noteq> CHR 0x22"
  by (auto simp: esc_char_def Let_def)

lemma esc_char_not_quote: "esc_char c \<noteq> CHR 0x22 # u"
  using esc_char_nonempty [of c] by auto

lemma quote_body_unique:
  "concat (map esc_char s) @ CHR 0x22 # r = concat (map esc_char t) @ CHR 0x22 # q \<Longrightarrow> s = t \<and> r = q"
proof (induction s arbitrary: t)
  case Nil
  then show ?case using esc_char_nonempty
    by (cases t) (auto simp: append_eq_Cons_conv Cons_eq_append_conv esc_char_not_quote dest: sym)
next
  case (Cons c s)
  show ?case
  proof (cases t)
    case Nil
    then show ?thesis using Cons.prems esc_char_nonempty [of c]
      by (auto simp: append_eq_Cons_conv esc_char_not_quote)
  next
    case (Cons d t')
    have "unesc (esc_char c @ concat (map esc_char s) @ CHR 0x22 # r)
        = unesc (esc_char d @ concat (map esc_char t') @ CHR 0x22 # q)"
      using Cons.prems Cons by simp
    with Cons Cons.IH [of t'] show ?thesis by (simp add: unesc_esc)
  qed
qed

lemma quote_unique: "json_quote s @ r = json_quote t @ q \<Longrightarrow> s = t \<and> r = q"
  using quote_body_unique [of s r t q] by (simp add: json_quote_def)


fun close_list :: "char \<Rightarrow> string \<Rightarrow> string list \<Rightarrow> string" where
  "close_list e r [] = e # r"
| "close_list e r (t # ts) = CHR '','' # t @ close_list e r ts"

lemma join_close: "join_comma (t # ts) @ e # r = t @ close_list e r ts"
  by (induction ts arbitrary: t) auto

lemma close_list_delim: "e \<in> {CHR '']'', CHR ''}''} \<Longrightarrow> delim (close_list e r ts)"
  by (cases ts) auto

text \<open>Items that read uniquely make a comma-separated, closed sequence that reads uniquely.\<close>

lemma sequence_unique:
  assumes e: "e \<in> {CHR '']'', CHR ''}''}"
    and item: "\<And>x y r q. x \<in> set xs \<Longrightarrow> y \<in> set ys \<Longrightarrow> delim r \<Longrightarrow> delim q \<Longrightarrow>
      f x @ r = f y @ q \<Longrightarrow> g x = g y \<and> r = q"
    and head: "\<And>x. x \<in> set xs \<union> set ys \<Longrightarrow> f x \<noteq> [] \<and> hd (f x) \<noteq> e"
    and eq: "join_comma (map f xs) @ e # r = join_comma (map f ys) @ e # q"
  shows "map g xs = map g ys \<and> r = q"
proof -
  have tails: "map g us = map g vs \<and> r = q"
    if "set us \<subseteq> set xs" "set vs \<subseteq> set ys"
      "close_list e r (map f us) = close_list e q (map f vs)" for us vs
    using that
  proof (induction us arbitrary: vs)
    case Nil
    then show ?case using e by (cases vs) auto
  next
    case (Cons u us)
    then obtain v vs' where vs: "vs = v # vs'" using e by (cases vs) auto
    have "g u = g v \<and> close_list e r (map f us) = close_list e q (map f vs')"
      using Cons.prems vs e by (intro item) (auto intro: close_list_delim)
    with Cons.IH [of vs'] Cons.prems vs show ?case by auto
  qed
  have ne: "e # z \<noteq> f x @ z'" if "x \<in> set xs \<union> set ys" for x z z'
    using head [OF that] by (cases "f x") auto
  show ?thesis
  proof (cases xs)
    case Nil
    show ?thesis
    proof (cases ys)
      case (Cons y ys')
      have "e # r = f y @ close_list e q (map f ys')"
        using eq unfolding Nil Cons list.map join_close by simp
      with ne [of y r "close_list e q (map f ys')"] Cons show ?thesis by simp
    qed (use Nil eq in simp)
  next
    case (Cons x xs')
    have "ys \<noteq> []"
    proof
      assume "ys = []"
      then have "e # q = f x @ close_list e r (map f xs')"
        using eq unfolding Cons list.map join_close by simp
      with ne [of x q "close_list e r (map f xs')"] Cons show False by simp
    qed
    then obtain y ys' where ys: "ys = y # ys'" by (cases ys) auto
    have fe: "f x @ close_list e r (map f xs') = f y @ close_list e q (map f ys')"
      using eq unfolding Cons ys list.map join_close .
    have "g x = g y \<and> close_list e r (map f xs') = close_list e q (map f ys')"
      using fe Cons ys e by (intro item) (auto intro: close_list_delim)
    with tails [of xs' ys'] Cons ys show ?thesis by auto
  qed
qed

fun tag_of :: "jval \<Rightarrow> nat" where
  "tag_of JNull = 0"
| "tag_of (JStr s) = 1"
| "tag_of (JBool b) = (if b then 2 else 3)"
| "tag_of (JNum n) = 4"
| "tag_of (JArr vs) = 5"
| "tag_of (JObj kvs) = 6"
| "tag_of _ = 7"

definition tag_char :: "char \<Rightarrow> nat" where
  "tag_char c =
     (if c = CHR ''n'' then 0 else if c = CHR 0x22 then 1 else if c = CHR ''t'' then 2
      else if c = CHR ''f'' then 3 else if c = CHR ''['' then 5 else if c = CHR ''{'' then 6 else 4)"

lemma int_text_chars: "list_all num_char (int_text i) \<and> int_text i \<noteq> []
   \<and> (is_digit (hd (int_text i)) \<or> hd (int_text i) = CHR ''-'')
   \<and> CHR ''.'' \<notin> set (int_text i) \<and> CHR ''e'' \<notin> set (int_text i)"
proof -
  have dig: "\<forall>c\<in>set (nat_text n). is_digit c" for n
    using nat_text_digits by (simp add: list_all_iff)
  have dot: "\<not> is_digit (CHR ''.'')" "\<not> is_digit (CHR ''e'')" by (simp_all add: is_digit_def)
  have "CHR ''.'' \<notin> set (nat_text n)" "CHR ''e'' \<notin> set (nat_text n)"
    "list_all num_char (nat_text n)" for n
    using dig [of n] dot by (auto simp: list_all_iff num_char_def)
  then show ?thesis
    using nat_text_nonempty nat_text_hd_digit by (simp add: int_text_def num_char_def)
qed

lemma num_head:
  assumes "is_digit c \<or> c = CHR ''-''"
  shows "tag_char c = 4 \<and> c \<notin> {CHR '']'', CHR ''}''}"
proof -
  have no: "\<not> is_digit (CHR ''n'')" "\<not> is_digit (CHR 0x22)" "\<not> is_digit (CHR ''t'')"
    "\<not> is_digit (CHR ''f'')" "\<not> is_digit (CHR ''['')" "\<not> is_digit (CHR ''{'')"
    "\<not> is_digit (CHR '']'')" "\<not> is_digit (CHR ''}'')"
    by (simp_all add: is_digit_def)
  have ne: "c \<noteq> d" if "\<not> is_digit d" "d \<noteq> CHR ''-''" for d using assms that by blast
  show ?thesis
    unfolding tag_char_def using no [THEN ne] by simp
qed

lemma text_head:
  assumes "wf_json v"
  shows "text_of v \<noteq> [] \<and> tag_char (hd (text_of v)) = tag_of v
     \<and> hd (text_of v) \<notin> {CHR '']'', CHR ''}''}"
proof (cases v)
  case (JNum n)
  with assms show ?thesis using int_text_chars num_head by (cases n) auto
next
  case (JObj kvs)
  then show ?thesis by (simp add: text_of_JObj tag_char_def del: text_of.simps)
next
  case (JArr vs)
  then show ?thesis by (simp add: tag_char_def)
qed (use assms in \<open>simp_all add: tag_char_def json_quote_def\<close>)

lemma num_unique:
  assumes "wf_num m" "wf_num n" "delim r" "delim q"
    "text_of (JNum m) @ r = text_of (JNum n) @ q"
  shows "norm_num m = norm_num n \<and> r = q"
proof -
  have chars: "list_all num_char (text_of (JNum k))" if "wf_num k" for k
    using that int_text_chars by (cases k) auto
  from num_text_unique [OF chars chars assms(3-5)] assms(1,2)
  have "text_of (JNum m) = text_of (JNum n)" "r = q" by auto
  then show ?thesis
    using assms(1,2) int_text_chars int_text_inj by (cases m; cases n) auto
qed

lemma same_tag:
  assumes "wf_json v" "wf_json w" "text_of v @ r = text_of w @ q"
  shows "tag_of w = tag_of v"
proof -
  note h = text_head [OF assms(1)] text_head [OF assms(2)]
  have "hd (text_of v) = hd (text_of v @ r)" "hd (text_of w) = hd (text_of w @ q)"
    using h by simp_all
  then have "hd (text_of v) = hd (text_of w)" by (simp only: assms(3))
  with h show ?thesis by simp
qed

lemma text_unique:
  "wf_json v \<Longrightarrow> wf_json w \<Longrightarrow> delim r \<Longrightarrow> delim q \<Longrightarrow> text_of v @ r = text_of w @ q \<Longrightarrow>
   norm_json v = norm_json w \<and> r = q"
proof (induction v arbitrary: w r q)
  case (JStr s)
  have "tag_of w = 1" using same_tag [OF JStr.prems(1,2,5)] by simp
  then obtain t where "w = JStr t" by (cases w) (auto split: if_splits)
  with JStr.prems(5) quote_unique [of s r t q] show ?case by simp
next
  case (JNum m)
  have "tag_of w = 4" using same_tag [OF JNum.prems(1,2,5)] by simp
  then obtain n where w: "w = JNum n" by (cases w) (auto split: if_splits)
  with JNum num_unique [of m n r q] show ?case by simp
next
  case (JBool b)
  have "tag_of w = tag_of (JBool b)" using same_tag [OF JBool.prems(1,2,5)] .
  then have "w = JBool b" by (cases w) (auto split: if_splits)
  with JBool show ?case by simp
next
  case JNull
  have "tag_of w = 0" using same_tag [OF JNull.prems(1,2,5)] by simp
  then have "w = JNull" by (cases w) (auto split: if_splits)
  with JNull show ?case by simp
next
  case (JArr vs)
  have "tag_of w = 5" using same_tag [OF JArr.prems(1,2,5)] by simp
  then obtain ws where w: "w = JArr ws" by (cases w) (auto split: if_splits)
  have "map norm_json vs = map norm_json ws \<and> r = q"
  proof (rule sequence_unique [where e = "CHR '']''" and f = text_of])
    show "join_comma (map text_of vs) @ CHR '']'' # r = join_comma (map text_of ws) @ CHR '']'' # q"
      using JArr.prems(5) by (simp add: w)
    show "text_of x \<noteq> [] \<and> hd (text_of x) \<noteq> CHR '']''" if "x \<in> set vs \<union> set ws" for x
      using that text_head [of x] JArr.prems(1,2) by (auto simp: w list_all_iff)
    show "norm_json x = norm_json y \<and> r' = q'"
      if "x \<in> set vs" "y \<in> set ws" "delim r'" "delim q'" "text_of x @ r' = text_of y @ q'"
      for x y r' q'
      using JArr.IH [OF that(1) _ _ that(3-5)] that(1,2) JArr.prems(1,2) by (simp add: w list_all_iff)
  qed simp
  then show ?case by (simp add: w)
next
  case (JObj kvs)
  have "tag_of w = 6" using same_tag [OF JObj.prems(1,2,5)] by simp
  then obtain lws where w: "w = JObj lws" by (cases w) (auto split: if_splits)
  let ?f = "\<lambda>kv. json_quote (fst kv) @ '':'' @ text_of (snd kv)"
  let ?g = "\<lambda>kv. (fst kv, norm_json (snd kv))"
  have "map ?g (sort_key fst kvs) = map ?g (sort_key fst lws) \<and> r = q"
  proof (rule sequence_unique [where e = "CHR ''}''" and f = ?f])
    show "join_comma (map ?f (sort_key fst kvs)) @ CHR ''}'' # r
        = join_comma (map ?f (sort_key fst lws)) @ CHR ''}'' # q"
      using JObj.prems(5) unfolding w text_of_JObj by simp
    show "?f x \<noteq> [] \<and> hd (?f x) \<noteq> CHR ''}''" for x
      by (simp add: json_quote_def)
    show "?g x = ?g y \<and> r' = q'"
      if x: "x \<in> set (sort_key fst kvs)" and y: "y \<in> set (sort_key fst lws)"
        and d: "delim r'" "delim q'" and eq: "?f x @ r' = ?f y @ q'" for x y r' q'
    proof -
      have q: "fst x = fst y" "text_of (snd x) @ r' = text_of (snd y) @ q'"
        using quote_unique [of "fst x" "'':'' @ text_of (snd x) @ r'" "fst y"
            "'':'' @ text_of (snd y) @ q'"] eq by simp_all
      have "wf_json (snd x)" "wf_json (snd y)"
        using x y JObj.prems(1,2) by (auto simp: w list_all_iff)
      then show ?thesis
        using JObj.IH [of x "snd x" "snd y" r' q'] x d q by (auto intro: snds.intros)
    qed
  qed simp
  then show ?case by (simp add: w norm_JObj del: norm_json.simps(3))
qed auto

lemma norm_text: "wf_json v \<Longrightarrow> text_of (norm_json v) = text_of v"
proof (induction v)
  case (JNum n)
  then show ?case by (cases n) auto
next
  case (JArr vs)
  then have "map (text_of \<circ> norm_json) vs = map text_of vs" by (simp add: list_all_iff)
  then show ?case by (simp only: norm_json.simps text_of.simps list.map_comp)
next
  case (JObj kvs)
  have "text_of (norm_json (snd kv)) = text_of (snd kv)" if "kv \<in> set kvs" for kv
    using JObj.IH [of kv "snd kv"] that JObj.prems by (auto simp: list_all_iff intro: snds.intros)
  then have "map (\<lambda>kv. field_text (fst kv, text_of (norm_json (snd kv)))) (sort_key fst kvs)
      = map (\<lambda>kv. field_text (fst kv, text_of (snd kv))) (sort_key fst kvs)" by simp
  then have "join_comma (map (\<lambda>kv. field_text (fst kv, text_of (norm_json (snd kv)))) (sort_key fst kvs))
      = join_comma (map (\<lambda>kv. field_text (fst kv, text_of (snd kv))) (sort_key fst kvs))"
    by (rule arg_cong)
  then show ?case
    by (simp add: norm_JObj sort_key_map sort_key_twice comp_def del: norm_json.simps(3))
qed auto

lemma norm_json_perm:
  assumes "distinct (map fst kvs)" "distinct (map fst lws)" "set kvs = set lws"
  shows "norm_json (JObj kvs) = norm_json (JObj lws)"
  using sort_key_perm [OF assms] by (simp add: norm_JObj del: norm_json.simps(3))

lemma canonicalJson_eq_iff:
  assumes "wf_json v" "wf_json w"
  shows "canonicalJson v = canonicalJson w \<longleftrightarrow> norm_json v = norm_json w"
proof
  assume "canonicalJson v = canonicalJson w"
  then have "text_of v @ [] = text_of w @ []" using canonical_wf(1) assms by simp
  with text_unique [OF assms, of "[]" "[]"] show "norm_json v = norm_json w" by simp
next
  assume "norm_json v = norm_json w"
  with norm_text [OF assms(1)] norm_text [OF assms(2)] canonical_wf(1) assms
  show "canonicalJson v = canonicalJson w" by simp
qed

text \<open>
  C32: Canonical JSON is faithful. Two JSON values have the same canonical text exactly when
  they differ at most in the order of object keys; so permuting keys never changes a content
  address, and different content never shares a canonical text.
\<close>

theorem canonicalJson_faithful:
  assumes "wf_json v" "wf_json w"
  shows "(\<exists>t. canonicalJson v = Inr t) \<and> (canonicalJson v = canonicalJson w \<longleftrightarrow> norm_json v = norm_json w)"
  using canonical_wf(1) [OF assms(1)] canonicalJson_eq_iff [OF assms] by blast

theorem canonicalJson_faithful_witness:
  "canonicalJson (JObj [(''b'', JArr [jint (-7), JNull]), (''a'', JStr [CHR 0x22, CHR 0x0A])])
   = canonicalJson (JObj [(''a'', JStr [CHR 0x22, CHR 0x0A]), (''b'', JArr [jint (-7), JNull])])"
  using canonicalJson_faithful
    [of "JObj [(''b'', JArr [jint (-7), JNull]), (''a'', JStr [CHR 0x22, CHR 0x0A])]"
        "JObj [(''a'', JStr [CHR 0x22, CHR 0x0A]), (''b'', JArr [jint (-7), JNull])]"]
  by simp

end
