(* ===== verification/RedoContract.thy ===== *)
theory RedoContract
  imports CanonJson TxStates
begin

text \<open>
  The redo envelope and the V1 manifest registration
  (\<open>packages/contracts/src/transaction.ts\<close>): the run-time assertions, the envelope validator
  with its participant and intent loops, the content addresses, the deterministic manifest
  route, and the creation and validation of a registration. Values are the \<open>unknown\<close> objects
  the code inspects; SHA-256 is the parameter \<open>dg\<close>.
\<close>

section \<open>Constants\<close>

definition REDO_ENVELOPE_V1_FORMAT_VERSION :: int where "REDO_ENVELOPE_V1_FORMAT_VERSION = 1"
definition REDO_ENVELOPE_V2_FORMAT_VERSION :: int where "REDO_ENVELOPE_V2_FORMAT_VERSION = 2"
definition CURRENT_REDO_ENVELOPE_FORMAT_VERSION :: int where
  "CURRENT_REDO_ENVELOPE_FORMAT_VERSION = REDO_ENVELOPE_V2_FORMAT_VERSION"
definition MANIFEST_RECORD_FORMAT_VERSION :: int where "MANIFEST_RECORD_FORMAT_VERSION = 1"
definition PARTICIPANT_TOMBSTONE_FORMAT_VERSION :: int where "PARTICIPANT_TOMBSTONE_FORMAT_VERSION = 1"
definition MAX_REDO_ENVELOPE_BYTES :: int where "MAX_REDO_ENVELOPE_BYTES = 256 * 1024"
definition MAX_REDO_PARTICIPANTS :: nat where "MAX_REDO_PARTICIPANTS = 256"
definition MAX_VBUCKET :: int where "MAX_VBUCKET = 65535"
definition MANIFEST_PARTITION_COUNT :: int where "MANIFEST_PARTITION_COUNT = 16"
definition COORDINATOR_RETENTION_DAYS :: int where "COORDINATOR_RETENTION_DAYS = 35"
definition PARTICIPANT_TOMBSTONE_RETENTION_DAYS :: int where "PARTICIPANT_TOMBSTONE_RETENTION_DAYS = 35"

section \<open>Assertions\<close>

definition assertNonEmptyString :: "jval \<Rightarrow> check" where
  "assertNonEmptyString v = require (nonempty_str v) TX_ENVELOPE_INVALID"

definition assertPlainObject :: "jval \<Rightarrow> check" where
  "assertPlainObject v = require (is_plain v) TX_ENVELOPE_INVALID"

definition assertNullableNonEmptyString :: "jval \<Rightarrow> check" where
  "assertNullableNonEmptyString v = (if v = JNull then Inr () else assertNonEmptyString v)"

definition assertVbucket :: "jval \<Rightarrow> check" where
  "assertVbucket v =
     (if v = JNull then Inr ()
      else require (safe_int_from 0 v \<and> int_of v \<le> MAX_VBUCKET) TX_ENVELOPE_INVALID)"

definition STRUCTURED_MUTATION_KINDS :: "string list" where
  "STRUCTURED_MUTATION_KINDS = [''insert'', ''update'', ''delete'', ''upsert'']"

definition assertStructuredMutationKind :: "jval \<Rightarrow> check" where
  "assertStructuredMutationKind v =
     (if v = JNull then Inr ()
      else require (is_str v \<and> str_of v \<in> set STRUCTURED_MUTATION_KINDS) TX_ENVELOPE_INVALID)"

definition assertEpoch :: "jval \<Rightarrow> check" where
  "assertEpoch v = require (safe_int_from 1 v) TX_ENVELOPE_INVALID"

definition assertSha256Hex :: "jval \<Rightarrow> check" where
  "assertSha256Hex v = require (sha256_hex_val v) TX_ENVELOPE_INVALID"

definition parseCanonicalUtcTimestamp :: "jval \<Rightarrow> tx_code + int" where
  "parseCanonicalUtcTimestamp v =
     and_then (assertNonEmptyString v)
       (\<lambda>_. case parse_iso (str_of v) of None \<Rightarrow> Inl TX_ENVELOPE_INVALID | Some t \<Rightarrow> Inr t)"

definition assertRetentionWindow :: "jval \<Rightarrow> jval \<Rightarrow> int \<Rightarrow> check" where
  "assertRetentionWindow decidedAt deadline minimumDays =
     and_then (parseCanonicalUtcTimestamp decidedAt)
       (\<lambda>decided. and_then (parseCanonicalUtcTimestamp deadline)
         (\<lambda>retention. require (minimumDays * 24 * 60 * 60 * 1000 \<le> retention - decided)
            TX_ENVELOPE_INVALID))"

section \<open>Redo envelope\<close>

definition check_intent :: "nat \<Rightarrow> jval \<Rightarrow> check" where
  "check_intent index intent = seq_checks
     [assertPlainObject intent,
      require (jget intent ''intent_seq'' = jint (int index)) TX_ENVELOPE_INVALID,
      assertNonEmptyString (jget intent ''sql''),
      assertNonEmptyString (jget intent ''tenant_id''),
      assertNonEmptyString (jget intent ''table_name''),
      assertNonEmptyString (jget intent ''partition_key''),
      require (is_arr (jget intent ''params'')) TX_ENVELOPE_INVALID,
      and_then (canonicalJson (jget intent ''params'')) (\<lambda>_. Inr ()),
      assertVbucket (jget intent ''vbucket''),
      assertStructuredMutationKind (jget intent ''operation''),
      assertNullableNonEmptyString (jget intent ''mirror_target_participant_id'')]"

fun check_intents :: "nat \<Rightarrow> jval list \<Rightarrow> check" where
  "check_intents index [] = Inr ()"
| "check_intents index (intent # rest) =
     and_then (check_intent index intent) (\<lambda>_. check_intents (Suc index) rest)"

definition check_participant :: "jval \<Rightarrow> jval \<Rightarrow> string \<Rightarrow> jval \<Rightarrow> check" where
  "check_participant format epoch priorParticipant participant = seq_checks
     [assertPlainObject participant,
      assertNonEmptyString (jget participant ''participant_id''),
      require (\<not> str_of (jget participant ''participant_id'') \<le> priorParticipant) TX_ENVELOPE_INVALID,
      (if format = jint REDO_ENVELOPE_V2_FORMAT_VERSION
       then assertNonEmptyString (jget participant ''prepare_bookmark'')
       else require (''prepare_bookmark'' \<notin> set (jkeys participant)) TX_ENVELOPE_INVALID),
      assertEpoch (jget participant ''epoch''),
      require (jget participant ''epoch'' = epoch) TX_EPOCH_CONFLICT,
      require (is_arr (jget participant ''intents'') \<and> arr_of (jget participant ''intents'') \<noteq> [])
        TX_ENVELOPE_INVALID,
      check_intents 0 (arr_of (jget participant ''intents''))]"

fun check_participants :: "jval \<Rightarrow> jval \<Rightarrow> string \<Rightarrow> jval list \<Rightarrow> check" where
  "check_participants format epoch priorParticipant [] = Inr ()"
| "check_participants format epoch priorParticipant (p # ps) =
     and_then (check_participant format epoch priorParticipant p)
       (\<lambda>_. check_participants format epoch (str_of (jget p ''participant_id'')) ps)"

definition validateRedoEnvelopeStructure :: "jval \<Rightarrow> check" where
  "validateRedoEnvelopeStructure v = seq_checks
     [assertPlainObject v,
      assertReadableProtocolVersion (jget v ''protocol_version''),
      require (jget v ''format_version'' = jint REDO_ENVELOPE_V1_FORMAT_VERSION
          \<or> jget v ''format_version'' = jint REDO_ENVELOPE_V2_FORMAT_VERSION) TX_VERSION_UNSUPPORTED,
      assertNonEmptyString (jget v ''tx_id''),
      assertNonEmptyString (jget v ''fleet_id''),
      assertNonEmptyString (jget v ''coordinator_id''),
      require (jget v ''decision'' = JStr ''commit'') TX_ENVELOPE_INVALID,
      assertEpoch (jget v ''decision_epoch''),
      assertSha256Hex (jget v ''operation_hash''),
      assertRetentionWindow (jget v ''commit_decided_at'') (jget v ''retention_deadline'')
        COORDINATOR_RETENTION_DAYS,
      require (is_arr (jget v ''participants'')) TX_ENVELOPE_INVALID,
      require (1 \<le> length (arr_of (jget v ''participants''))
          \<and> length (arr_of (jget v ''participants'')) \<le> MAX_REDO_PARTICIPANTS) TX_ENVELOPE_INVALID,
      check_participants (jget v ''format_version'') (jget v ''decision_epoch'') []
        (arr_of (jget v ''participants'')),
      and_then (canonicalByteLength v)
        (\<lambda>bytes. require (bytes \<le> MAX_REDO_ENVELOPE_BYTES) TX_ENVELOPE_TOO_LARGE)]"

definition validateWritableRedoEnvelopeStructure :: "jval \<Rightarrow> check" where
  "validateWritableRedoEnvelopeStructure v = seq_checks
     [validateRedoEnvelopeStructure v,
      require (jget v ''format_version'' = jint CURRENT_REDO_ENVELOPE_FORMAT_VERSION)
        TX_VERSION_UNSUPPORTED]"

section \<open>Content addresses\<close>

text \<open>Destructuring with a rest pattern: the object without the named keys.\<close>

fun jomit :: "string list \<Rightarrow> jval \<Rightarrow> jval" where
  "jomit ks (JObj kvs) = JObj (filter (\<lambda>kv. fst kv \<notin> set ks) kvs)"
| "jomit ks v = v"

definition hashFinalizedRedoEnvelope :: "digest_fn \<Rightarrow> jval \<Rightarrow> tx_code + string" where
  "hashFinalizedRedoEnvelope dg envelope =
     hashCanonicalJson dg (jomit [''commit_decided_at'', ''retention_deadline''] envelope)"

definition hashRedoEnvelope :: "digest_fn \<Rightarrow> jval \<Rightarrow> tx_code + string" where
  "hashRedoEnvelope dg envelope =
     (if jget envelope ''format_version'' = jint REDO_ENVELOPE_V2_FORMAT_VERSION
      then hashFinalizedRedoEnvelope dg envelope
      else hashCanonicalJson dg envelope)"

definition operations_view :: "jval list \<Rightarrow> jval" where
  "operations_view participants =
     JArr (map (\<lambda>p. JObj [(''participant_id'', jget p ''participant_id''),
                          (''epoch'', jget p ''epoch''),
                          (''intents'', jget p ''intents'')]) participants)"

definition hashParticipantOperations :: "digest_fn \<Rightarrow> jval list \<Rightarrow> tx_code + string" where
  "hashParticipantOperations dg participants = hashCanonicalJson dg (operations_view participants)"

definition validateRedoEnvelope :: "digest_fn \<Rightarrow> jval \<Rightarrow> check" where
  "validateRedoEnvelope dg v =
     and_then (validateRedoEnvelopeStructure v)
       (\<lambda>_. and_then (hashParticipantOperations dg (arr_of (jget v ''participants'')))
         (\<lambda>h. require (jget v ''operation_hash'' = JStr h) TX_ENVELOPE_HASH_MISMATCH))"

section \<open>Manifest registration\<close>

record manifest_route =
  mr_utc_day :: string
  mr_partition :: int
  mr_partition_count :: int
  mr_routing_key :: string

definition digest_partition :: "digest_fn \<Rightarrow> string \<Rightarrow> int" where
  "digest_partition dg txId = int (last (sha256Bytes dg txId)) mod MANIFEST_PARTITION_COUNT"

definition manifestRoute :: "digest_fn \<Rightarrow> jval \<Rightarrow> jval \<Rightarrow> tx_code + manifest_route" where
  "manifestRoute dg txId commitDecidedAt =
     and_then (assertNonEmptyString txId)
       (\<lambda>_. and_then (parseCanonicalUtcTimestamp commitDecidedAt)
         (\<lambda>t. let partition = digest_partition dg (str_of txId)
              in Inr \<lparr>mr_utc_day = utc_day t, mr_partition = partition,
                      mr_partition_count = MANIFEST_PARTITION_COUNT,
                      mr_routing_key = utc_day t @ '':'' @ two partition\<rparr>))"

definition manifest_record_json :: "jval \<Rightarrow> manifest_route \<Rightarrow> string \<Rightarrow> jval" where
  "manifest_record_json envelope route envelopeHash = JObj
     [(''protocol_version'', jint CURRENT_PROTOCOL_VERSION),
      (''format_version'', jint MANIFEST_RECORD_FORMAT_VERSION),
      (''fleet_id'', jget envelope ''fleet_id''),
      (''utc_day'', JStr (mr_utc_day route)),
      (''partition'', jint (mr_partition route)),
      (''partition_count'', jint (mr_partition_count route)),
      (''routing_key'', JStr (mr_routing_key route)),
      (''tx_id'', jget envelope ''tx_id''),
      (''coordinator_id'', jget envelope ''coordinator_id''),
      (''commit_decided_at'', jget envelope ''commit_decided_at''),
      (''decision_epoch'', jget envelope ''decision_epoch''),
      (''envelope_hash'', JStr envelopeHash),
      (''retention_deadline'', jget envelope ''retention_deadline'')]"

definition createManifestRegistration :: "digest_fn \<Rightarrow> jval \<Rightarrow> tx_code + jval" where
  "createManifestRegistration dg envelope =
     and_then (validateRedoEnvelope dg envelope)
       (\<lambda>_. and_then (manifestRoute dg (jget envelope ''tx_id'') (jget envelope ''commit_decided_at''))
         (\<lambda>route. and_then (hashRedoEnvelope dg envelope)
           (\<lambda>envelopeHash. let record = manifest_record_json envelope route envelopeHash
              in and_then (hashCanonicalJson dg record)
                (\<lambda>recordHash. Inr (JObj [(''record'', record), (''record_hash'', JStr recordHash)])))))"

definition check_registration_record :: "digest_fn \<Rightarrow> jval \<Rightarrow> jval \<Rightarrow> check" where
  "check_registration_record dg record recordHash = seq_checks
     [assertWritableProtocolVersion (jget record ''protocol_version''),
      require (jget record ''format_version'' = jint MANIFEST_RECORD_FORMAT_VERSION)
        TX_VERSION_UNSUPPORTED,
      assertNonEmptyString (jget record ''fleet_id''),
      assertNonEmptyString (jget record ''utc_day''),
      require (is_safe_integer (jget record ''partition'')) TX_ENVELOPE_INVALID,
      require (jget record ''partition_count'' = jint MANIFEST_PARTITION_COUNT) TX_MANIFEST_CONFLICT,
      assertNonEmptyString (jget record ''routing_key''),
      assertNonEmptyString (jget record ''tx_id''),
      assertNonEmptyString (jget record ''coordinator_id''),
      assertNonEmptyString (jget record ''commit_decided_at''),
      assertNonEmptyString (jget record ''retention_deadline''),
      assertSha256Hex (jget record ''envelope_hash''),
      assertSha256Hex recordHash,
      assertEpoch (jget record ''decision_epoch''),
      assertRetentionWindow (jget record ''commit_decided_at'') (jget record ''retention_deadline'')
        COORDINATOR_RETENTION_DAYS,
      and_then (manifestRoute dg (jget record ''tx_id'') (jget record ''commit_decided_at''))
        (\<lambda>route. require (jget record ''utc_day'' = JStr (mr_utc_day route)
           \<and> jget record ''partition'' = jint (mr_partition route)
           \<and> jget record ''partition_count'' = jint (mr_partition_count route)
           \<and> jget record ''routing_key'' = JStr (mr_routing_key route)) TX_MANIFEST_CONFLICT),
      and_then (hashCanonicalJson dg record)
        (\<lambda>h. require (recordHash = JStr h) TX_MANIFEST_CONFLICT)]"

definition check_registration_envelope :: "digest_fn \<Rightarrow> jval \<Rightarrow> jval \<Rightarrow> check" where
  "check_registration_envelope dg record envelope = seq_checks
     [validateRedoEnvelopeStructure envelope,
      validateRedoEnvelope dg envelope,
      and_then (hashRedoEnvelope dg envelope)
        (\<lambda>h. require (jget record ''tx_id'' = jget envelope ''tx_id''
           \<and> jget record ''fleet_id'' = jget envelope ''fleet_id''
           \<and> jget record ''coordinator_id'' = jget envelope ''coordinator_id''
           \<and> jget record ''commit_decided_at'' = jget envelope ''commit_decided_at''
           \<and> jget record ''decision_epoch'' = jget envelope ''decision_epoch''
           \<and> jget record ''retention_deadline'' = jget envelope ''retention_deadline''
           \<and> jget record ''envelope_hash'' = JStr h) TX_MANIFEST_CONFLICT)]"

text \<open>\<open>envelope\<close> is the optional second argument.\<close>

definition validateManifestRegistration :: "digest_fn \<Rightarrow> jval \<Rightarrow> jval option \<Rightarrow> check" where
  "validateManifestRegistration dg registration envelope = seq_checks
     [assertPlainObject registration,
      assertPlainObject (jget registration ''record''),
      check_registration_record dg (jget registration ''record'') (jget registration ''record_hash''),
      (case envelope of None \<Rightarrow> Inr ()
       | Some e \<Rightarrow> check_registration_envelope dg (jget registration ''record'') e)]"

section \<open>Lemmas\<close>

lemma check_participants_sorted:
  "check_participants f e prior ps = Inr () \<Longrightarrow>
     sorted_wrt (<) (prior # map (\<lambda>p. str_of (jget p ''participant_id'')) ps)"
proof (induction ps arbitrary: prior)
  case Nil
  then show ?case by simp
next
  case (Cons p ps)
  then have "prior < str_of (jget p ''participant_id'')"
    and "sorted_wrt (<) (str_of (jget p ''participant_id'') # map (\<lambda>p. str_of (jget p ''participant_id'')) ps)"
    by (auto simp: accept check_participant_def)
  then show ?case by auto
qed

lemma check_participants_each:
  "check_participants f e prior ps = Inr () \<Longrightarrow> p \<in> set ps \<Longrightarrow>
     jget p ''epoch'' = e \<and> arr_of (jget p ''intents'') \<noteq> []
     \<and> check_intents 0 (arr_of (jget p ''intents'')) = Inr ()"
  by (induction ps arbitrary: prior) (auto simp: accept check_participant_def)

lemma check_intents_seq:
  "check_intents k is = Inr () \<Longrightarrow> i < length is \<Longrightarrow> jget (is ! i) ''intent_seq'' = jint (int (k + i))"
proof (induction "is" arbitrary: k i)
  case Nil
  then show ?case by simp
next
  case (Cons x xs)
  then show ?case by (cases i) (auto simp: accept check_intent_def)
qed

lemma timestamp_ok_iff:
  "parseCanonicalUtcTimestamp v = Inr t \<longleftrightarrow> v = JStr (toISOString t) \<and> time_in_range t"
proof -
  show ?thesis
    using parse_iso_iff [of "str_of v" t]
    by (cases v) (auto simp: parseCanonicalUtcTimestamp_def assertNonEmptyString_def and_then_ok
        nonempty_str_def split: option.splits)
qed

lemma retention_ok_iff [accept]:
  "assertRetentionWindow a b d = Inr u \<longleftrightarrow>
     (\<exists>t r. a = JStr (toISOString t) \<and> time_in_range t \<and> b = JStr (toISOString r) \<and> time_in_range r
        \<and> d * 86400000 \<le> r - t)"
  unfolding assertRetentionWindow_def and_then_ok timestamp_ok_iff
  by (simp add: mult.commute [of 86400000])

lemmas contract_asserts =
  assertNonEmptyString_def assertPlainObject_def assertEpoch_def assertSha256Hex_def
  assertReadableProtocolVersion_def assertWritableProtocolVersion_def

text \<open>A concrete envelope, on which the theorems below are instantiated.\<close>

definition zero_digest :: digest_fn where "zero_digest bs = replicate 32 0"

definition sample_intent :: jval where
  "sample_intent = JObj
     [(''intent_seq'', jint 0), (''sql'', JStr ''UPDATE t SET a = ?''), (''params'', JArr [jint 7]),
      (''tenant_id'', JStr ''t1''), (''table_name'', JStr ''t''), (''partition_key'', JStr ''p''),
      (''vbucket'', jint 3), (''operation'', JStr ''update''), (''mirror_target_participant_id'', JNull)]"

definition sample_envelope :: jval where
  "sample_envelope = JObj
     [(''protocol_version'', jint 1), (''format_version'', jint 2), (''tx_id'', JStr ''tx''),
      (''fleet_id'', JStr ''f''), (''coordinator_id'', JStr ''c''), (''decision'', JStr ''commit''),
      (''decision_epoch'', jint 1), (''commit_decided_at'', JStr ''2026-08-05T00:00:00.000Z''),
      (''retention_deadline'', JStr ''2026-09-09T00:00:00.000Z''),
      (''operation_hash'', JStr (replicate 64 (CHR ''0''))),
      (''participants'', JArr [JObj [(''participant_id'', JStr ''shard-0''), (''epoch'', jint 1),
         (''prepare_bookmark'', JStr ''b''), (''intents'', JArr [sample_intent])]])]"

lemma zero_digest_ok: "digest_ok zero_digest"
  by (simp add: digest_ok_def zero_digest_def list_all_iff)

lemma sample_structure_ok: "validateRedoEnvelopeStructure sample_envelope = Inr ()"
  by code_simp

text \<open>
  C34: What an accepted redo envelope is. Its participants are between 1 and 256, strictly
  sorted by identifier (hence unique), every participant carries the decision epoch and a
  non-empty list of intents numbered contiguously from zero, its retention window is at least
  35 days, and its canonical text has at most 262144 bytes.
\<close>

theorem accepted_envelope:
  assumes "validateRedoEnvelopeStructure v = Inr ()"
  defines "ps \<equiv> arr_of (jget v ''participants'')"
  shows "1 \<le> length ps \<and> length ps \<le> 256
    \<and> sorted_wrt (<) (map (\<lambda>p. str_of (jget p ''participant_id'')) ps)
    \<and> (\<forall>p\<in>set ps. jget p ''epoch'' = jget v ''decision_epoch''
         \<and> arr_of (jget p ''intents'') \<noteq> []
         \<and> (\<forall>i<length (arr_of (jget p ''intents'')).
              jget (arr_of (jget p ''intents'') ! i) ''intent_seq'' = jint (int i)))
    \<and> (\<exists>t r. jget v ''commit_decided_at'' = JStr (toISOString t)
         \<and> jget v ''retention_deadline'' = JStr (toISOString r) \<and> t + 35 * 86400000 \<le> r)
    \<and> (\<exists>n. canonicalByteLength v = Inr n \<and> n \<le> 262144)"
proof -
  note v = assms(1) [unfolded validateRedoEnvelopeStructure_def]
  have ps: "check_participants (jget v ''format_version'') (jget v ''decision_epoch'') [] ps = Inr ()"
    using v by (simp add: ps_def)
  have "1 \<le> length ps \<and> length ps \<le> 256"
    using v by (simp add: ps_def MAX_REDO_PARTICIPANTS_def)
  moreover have "sorted_wrt (<) (map (\<lambda>p. str_of (jget p ''participant_id'')) ps)"
    using check_participants_sorted [OF ps] by simp
  moreover have "\<exists>t r. jget v ''commit_decided_at'' = JStr (toISOString t)
      \<and> jget v ''retention_deadline'' = JStr (toISOString r) \<and> t + 35 * 86400000 \<le> r"
    using v by (force simp: retention_ok_iff COORDINATOR_RETENTION_DAYS_def)
  moreover have "\<exists>n. canonicalByteLength v = Inr n \<and> n \<le> 262144"
    using v by (auto simp: and_then_ok MAX_REDO_ENVELOPE_BYTES_def)
  ultimately show ?thesis
    using check_participants_each [OF ps] check_intents_seq [of 0] by auto
qed

theorem accepted_envelope_witness:
  "length (arr_of (jget sample_envelope ''participants'')) \<le> 256
   \<and> (\<exists>n. canonicalByteLength sample_envelope = Inr n \<and> n \<le> 262144)"
  using accepted_envelope [OF sample_structure_ok] by blast

section \<open>Registrations round-trip\<close>

lemma last_digest_byte: "digest_ok dg \<Longrightarrow> last (sha256Bytes dg s) < 256"
proof -
  assume "digest_ok dg"
  then have "sha256Bytes dg s \<noteq> []" "\<forall>b\<in>set (sha256Bytes dg s). b < 256"
    by (auto simp: digest_ok_def sha256Bytes_def list_all_iff simp flip: length_greater_0_conv)
  then show ?thesis by simp
qed

lemma digest_partition_range: "0 \<le> digest_partition dg s \<and> digest_partition dg s < 16"
  by (simp add: digest_partition_def MANIFEST_PARTITION_COUNT_def)

lemma utc_day_nonempty: "utc_day t \<noteq> []"
  by (simp add: utc_day_def toISOString_def)

lemma manifestRoute_ok_iff:
  "manifestRoute dg tx at = Inr route \<longleftrightarrow>
     nonempty_str tx \<and> (\<exists>t. at = JStr (toISOString t) \<and> time_in_range t \<and>
       route = \<lparr>mr_utc_day = utc_day t, mr_partition = digest_partition dg (str_of tx),
         mr_partition_count = 16,
         mr_routing_key = utc_day t @ '':'' @ two (digest_partition dg (str_of tx))\<rparr>)"
  by (auto simp: manifestRoute_def and_then_ok timestamp_ok_iff Let_def assertNonEmptyString_def
      MANIFEST_PARTITION_COUNT_def)

lemma hashCanonicalJson_text:
  "hashCanonicalJson dg v = Inr h \<Longrightarrow> digest_ok dg \<Longrightarrow> sha256_text h"
  by (auto simp: hashCanonicalJson_def and_then_ok sha256Hex_text)

lemma hashRedoEnvelope_text: "hashRedoEnvelope dg e = Inr h \<Longrightarrow> digest_ok dg \<Longrightarrow> sha256_text h"
  by (auto simp: hashRedoEnvelope_def hashFinalizedRedoEnvelope_def hashCanonicalJson_text
      split: if_splits)

lemma record_fields:
  "jget (manifest_record_json e route h) ''protocol_version'' = jint CURRENT_PROTOCOL_VERSION"
  "jget (manifest_record_json e route h) ''format_version'' = jint MANIFEST_RECORD_FORMAT_VERSION"
  "jget (manifest_record_json e route h) ''fleet_id'' = jget e ''fleet_id''"
  "jget (manifest_record_json e route h) ''utc_day'' = JStr (mr_utc_day route)"
  "jget (manifest_record_json e route h) ''partition'' = jint (mr_partition route)"
  "jget (manifest_record_json e route h) ''partition_count'' = jint (mr_partition_count route)"
  "jget (manifest_record_json e route h) ''routing_key'' = JStr (mr_routing_key route)"
  "jget (manifest_record_json e route h) ''tx_id'' = jget e ''tx_id''"
  "jget (manifest_record_json e route h) ''coordinator_id'' = jget e ''coordinator_id''"
  "jget (manifest_record_json e route h) ''commit_decided_at'' = jget e ''commit_decided_at''"
  "jget (manifest_record_json e route h) ''decision_epoch'' = jget e ''decision_epoch''"
  "jget (manifest_record_json e route h) ''envelope_hash'' = JStr h"
  "jget (manifest_record_json e route h) ''retention_deadline'' = jget e ''retention_deadline''"
  by (simp_all add: manifest_record_json_def)

lemma created_record_checks:
  assumes dg: "digest_ok dg" and env: "validateRedoEnvelopeStructure e = Inr ()"
    and route: "manifestRoute dg (jget e ''tx_id'') (jget e ''commit_decided_at'') = Inr route"
    and eh: "hashRedoEnvelope dg e = Inr eh"
    and rh: "hashCanonicalJson dg (manifest_record_json e route eh) = Inr rh"
  shows "check_registration_record dg (manifest_record_json e route eh) (JStr rh) = Inr ()"
proof -
  note v = env [unfolded validateRedoEnvelopeStructure_def]
  have sh: "sha256_text eh" "sha256_text rh"
    using hashRedoEnvelope_text [OF eh dg] hashCanonicalJson_text [OF rh dg] .
  have pr: "\<bar>digest_partition dg s\<bar> \<le> max_safe_integer" for s
    using digest_partition_range [of dg s] by (simp add: max_safe_integer_def)
  obtain t where t: "jget e ''tx_id'' = JStr (str_of (jget e ''tx_id''))"
    "nonempty_str (jget e ''tx_id'')" "jget e ''commit_decided_at'' = JStr (toISOString t)"
    "time_in_range t" "mr_utc_day route = utc_day t" "mr_partition route = digest_partition dg (str_of (jget e ''tx_id''))"
    "mr_partition_count route = 16" "mr_routing_key route \<noteq> []"
    using route nonempty_strD by (fastforce simp: manifestRoute_ok_iff)
  have ret: "assertRetentionWindow (jget e ''commit_decided_at'') (jget e ''retention_deadline'')
      COORDINATOR_RETENTION_DAYS = Inr ()" using v by simp
  then obtain r where r: "jget e ''retention_deadline'' = JStr (toISOString r)"
    by (auto simp: retention_ok_iff)
  have ids: "nonempty_str (jget e ''fleet_id'')" "nonempty_str (jget e ''coordinator_id'')"
    "assertEpoch (jget e ''decision_epoch'') = Inr ()"
    using v by (simp_all add: assertNonEmptyString_def)
  have ts: "nonempty_str (jget e ''commit_decided_at'')" "nonempty_str (jget e ''retention_deadline'')"
    unfolding t(3) r by (simp_all add: toISOString_nonempty)
  show ?thesis
    unfolding check_registration_record_def seq_checks_Cons rh record_fields
    using ids ts ret rh sh pr route t utc_day_nonempty [of t]
    by (simp add: contract_asserts CURRENT_PROTOCOL_VERSION_def MANIFEST_RECORD_FORMAT_VERSION_def
        MANIFEST_PARTITION_COUNT_def)
qed

lemma created_validates:
  assumes "digest_ok dg" "createManifestRegistration dg e = Inr reg"
  shows "validateManifestRegistration dg reg (Some e) = Inr ()"
proof -
  from assms(2) obtain route eh rh where ve: "validateRedoEnvelope dg e = Inr ()"
    and route: "manifestRoute dg (jget e ''tx_id'') (jget e ''commit_decided_at'') = Inr route"
    and eh: "hashRedoEnvelope dg e = Inr eh"
    and rh: "hashCanonicalJson dg (manifest_record_json e route eh) = Inr rh"
    and reg: "reg = JObj [(''record'', manifest_record_json e route eh), (''record_hash'', JStr rh)]"
    by (auto simp: createManifestRegistration_def and_then_ok Let_def)
  have st: "validateRedoEnvelopeStructure e = Inr ()"
    using ve by (simp add: validateRedoEnvelope_def and_then_ok)
  have "check_registration_envelope dg (manifest_record_json e route eh) e = Inr ()"
    unfolding check_registration_envelope_def
    by (simp add: st ve eh manifest_record_json_def)
  then show ?thesis
    unfolding validateManifestRegistration_def reg
    using created_record_checks [OF assms(1) st route eh rh]
    by (simp add: assertPlainObject_def, simp add: manifest_record_json_def)
qed

text \<open>
  C27: Registration round-trip. Whatever \<open>createManifestRegistration\<close> builds from a redo
  envelope passes \<open>validateManifestRegistration\<close> together with that envelope: routing,
  hashes, retention and identity all agree.
\<close>

theorem registration_roundtrip:
  assumes "digest_ok dg" "createManifestRegistration dg e = Inr reg"
  shows "validateManifestRegistration dg reg (Some e) = Inr ()"
  using assms by (rule created_validates)

text \<open>A valid envelope always has a registration.\<close>

lemma canonical_fields_ok:
  "(\<exists>fs. canonical_fields kvs = Inr fs) \<longleftrightarrow> (\<forall>kv\<in>set kvs. \<exists>t. canonicalJson (snd kv) = Inr t)"
  by (induction kvs) (auto simp: and_then_ok)

lemma canonicalJson_JObj_ok:
  "(\<exists>t. canonicalJson (JObj kvs) = Inr t) \<longleftrightarrow> (\<forall>kv\<in>set kvs. \<exists>t. canonicalJson (snd kv) = Inr t)"
  using canonical_fields_ok [of kvs] by (simp add: and_then_ok)

lemma canonicalJson_jomit:
  assumes "canonicalJson v = Inr t" shows "\<exists>t. canonicalJson (jomit ks v) = Inr t"
proof (cases v)
  case (JObj kvs)
  then have "\<forall>kv\<in>set kvs. \<exists>t. canonicalJson (snd kv) = Inr t"
    using assms canonicalJson_JObj_ok [of kvs] by blast
  then show ?thesis by (simp add: JObj canonicalJson_JObj_ok del: canonicalJson.simps)
qed (use assms in auto)

lemma canonical_string_ok: "is_str v \<Longrightarrow> \<exists>t. canonicalJson v = Inr t"
  by (erule is_strE) simp

lemma hashCanonicalJson_ok: "(\<exists>h. hashCanonicalJson dg v = Inr h) \<longleftrightarrow> (\<exists>t. canonicalJson v = Inr t)"
  by (auto simp: hashCanonicalJson_def and_then_ok)

lemma hashRedoEnvelope_ok:
  assumes "canonicalByteLength e = Inr n" shows "\<exists>h. hashRedoEnvelope dg e = Inr h"
proof -
  obtain t where t: "canonicalJson e = Inr t" using assms by (auto simp: canonicalByteLength_def and_then_ok)
  show ?thesis
    unfolding hashRedoEnvelope_def hashFinalizedRedoEnvelope_def
    using canonicalJson_jomit [OF t] t by (auto simp: hashCanonicalJson_ok)
qed

lemma created_when_valid:
  assumes ve: "validateRedoEnvelope dg e = Inr ()"
  shows "\<exists>reg. createManifestRegistration dg e = Inr reg"
proof -
  have "validateRedoEnvelopeStructure e = Inr ()"
    using ve by (simp add: validateRedoEnvelope_def and_then_ok)
  note v = this [unfolded validateRedoEnvelopeStructure_def]
  have ids: "nonempty_str (jget e ''tx_id'')" "nonempty_str (jget e ''fleet_id'')"
    "nonempty_str (jget e ''coordinator_id'')" "safe_int_from 1 (jget e ''decision_epoch'')"
    using v by (simp_all add: assertNonEmptyString_def assertEpoch_def)
  obtain t r where tr: "jget e ''commit_decided_at'' = JStr (toISOString t)" "time_in_range t"
    "jget e ''retention_deadline'' = JStr (toISOString r)"
    using v by (auto simp: retention_ok_iff)
  obtain route where route: "manifestRoute dg (jget e ''tx_id'') (jget e ''commit_decided_at'') = Inr route"
    using ids(1) tr(1,2) by (auto simp: manifestRoute_ok_iff)
  obtain n where "canonicalByteLength e = Inr n" using v by (auto simp: and_then_ok)
  then obtain eh where eh: "hashRedoEnvelope dg e = Inr eh" using hashRedoEnvelope_ok by blast
  have "\<exists>t. canonicalJson (manifest_record_json e route eh) = Inr t"
    unfolding manifest_record_json_def canonicalJson_JObj_ok
    using canonical_string_ok ids tr safe_int_fromD [OF ids(4)]
    by (auto simp: nonempty_str_def) (metis canonicalJson.simps(4) num_text.simps(1))
  then obtain rh where "hashCanonicalJson dg (manifest_record_json e route eh) = Inr rh"
    using hashCanonicalJson_ok by blast
  then show "\<exists>reg. createManifestRegistration dg e = Inr reg"
    by (simp add: createManifestRegistration_def ve route eh Let_def)
qed

text \<open>
  C35: Registration is total on valid envelopes: \<open>createManifestRegistration\<close> succeeds exactly
  on the envelopes \<open>validateRedoEnvelope\<close> accepts, so an accepted commit can always be
  registered.
\<close>

theorem registration_total:
  "(\<exists>reg. createManifestRegistration dg e = Inr reg) \<longleftrightarrow> validateRedoEnvelope dg e = Inr ()"
  using created_when_valid by (auto simp: createManifestRegistration_def and_then_ok)

lemma sample_envelope_ok: "validateRedoEnvelope zero_digest sample_envelope = Inr ()"
  by code_simp

theorem registration_roundtrip_witness:
  "\<exists>reg. createManifestRegistration zero_digest sample_envelope = Inr reg
     \<and> validateManifestRegistration zero_digest reg (Some sample_envelope) = Inr ()"
  using created_when_valid [OF sample_envelope_ok] registration_roundtrip [OF zero_digest_ok, of sample_envelope] by blast

section \<open>A registration binds its envelope\<close>

definition norm_pairs :: "(string \<times> jval) list \<Rightarrow> (string \<times> jval) set" where
  "norm_pairs kvs = (\<lambda>kv. (fst kv, norm_json (snd kv))) ` set kvs"

lemma norm_json_pairs:
  assumes "distinct (map fst kvs)" "distinct (map fst lws)"
  shows "norm_json (JObj kvs) = norm_json (JObj lws) \<longleftrightarrow> norm_pairs kvs = norm_pairs lws"
proof -
  let ?g = "\<lambda>kv. (fst kv, norm_json (snd kv))"
  have d: "distinct (map fst (map ?g kvs))" "distinct (map fst (map ?g lws))"
    using assms by (simp_all add: comp_def)
  show ?thesis
  proof
    assume "norm_json (JObj kvs) = norm_json (JObj lws)"
    then have "set (sort_key fst (map ?g kvs)) = set (sort_key fst (map ?g lws))"
      by (simp only: norm_json.simps jval.inject)
    then show "norm_pairs kvs = norm_pairs lws" by (simp add: norm_pairs_def)
  next
    assume "norm_pairs kvs = norm_pairs lws"
    then have "set (map ?g kvs) = set (map ?g lws)" by (simp add: norm_pairs_def)
    then show "norm_json (JObj kvs) = norm_json (JObj lws)"
      using sort_key_perm [OF d] by (simp only: norm_json.simps)
  qed
qed

lemma map_of_pairs:
  assumes "distinct (map fst kvs)" "map_of kvs k = Some v"
  shows "(k, x) \<in> norm_pairs kvs \<longleftrightarrow> x = norm_json v"
proof
  assume "(k, x) \<in> norm_pairs kvs"
  then obtain w where "(k, w) \<in> set kvs" "x = norm_json w" by (auto simp: norm_pairs_def)
  with assms show "x = norm_json v" using map_of_is_SomeI [OF assms(1)] by auto
next
  assume "x = norm_json v"
  with map_of_SomeD [OF assms(2)] show "(k, x) \<in> norm_pairs kvs"
    unfolding norm_pairs_def by (intro image_eqI [where x = "(k, v)"]) simp_all
qed

lemma jget_pairs:
  assumes "distinct (map fst kvs)" "jget (JObj kvs) k = v" "v \<noteq> JUndef"
  shows "(k, x) \<in> norm_pairs kvs \<longleftrightarrow> x = norm_json v"
  using map_of_pairs [OF assms(1), of k v x] assms(2,3)
  by (simp add: jget.simps(1) assoc_get_map_of split: option.splits)

lemma norm_pairs_omit:
  "norm_pairs (filter (\<lambda>kv. fst kv \<notin> set ks) kvs) = {x \<in> norm_pairs kvs. fst x \<notin> set ks}"
  by (auto simp: norm_pairs_def)

text \<open>Two values whose different canonical texts share a hash.\<close>

definition collides :: "digest_fn \<Rightarrow> jval \<Rightarrow> jval \<Rightarrow> bool" where
  "collides dg v w \<longleftrightarrow>
     canonicalJson v \<noteq> canonicalJson w \<and> hashCanonicalJson dg v = hashCanonicalJson dg w"

lemma hashCanonicalJson_eq:
  assumes "wf_json v" "wf_json w" "hashCanonicalJson dg v = hashCanonicalJson dg w" "\<not> collides dg v w"
  shows "norm_json v = norm_json w"
  using canonicalJson_eq_iff [OF assms(1,2)] assms(3,4) by (simp add: collides_def)

lemma wf_json_jomit: "wf_json v \<Longrightarrow> wf_json (jomit ks v)"
  by (cases v) (auto simp: list_all_iff distinct_map_filter)

definition hashed_view :: "jval \<Rightarrow> jval" where
  "hashed_view e = (if jget e ''format_version'' = jint 2
     then jomit [''commit_decided_at'', ''retention_deadline''] e else e)"

lemma hashRedoEnvelope_view: "hashRedoEnvelope dg e = hashCanonicalJson dg (hashed_view e)"
  by (simp add: hashRedoEnvelope_def hashFinalizedRedoEnvelope_def hashed_view_def
      REDO_ENVELOPE_V2_FORMAT_VERSION_def)

lemma hashed_view_binds:
  assumes wf: "wf_json e" "wf_json e'"
    and o: "e = JObj kvs" "e' = JObj lws"
    and fv: "jget e ''format_version'' = jint f" "jget e' ''format_version'' = jint f'"
    and ts: "jget e ''commit_decided_at'' = JStr c" "jget e' ''commit_decided_at'' = JStr c"
    and rs: "jget e ''retention_deadline'' = JStr r" "jget e' ''retention_deadline'' = JStr r"
    and eq: "norm_json (hashed_view e) = norm_json (hashed_view e')"
  shows "norm_json e = norm_json e'"
proof -
  let ?ks = "[''commit_decided_at'', ''retention_deadline'']"
  have d: "distinct (map fst kvs)" "distinct (map fst lws)" using wf o by simp_all
  let ?A = "if f = 2 then {x \<in> norm_pairs kvs. fst x \<notin> set ?ks} else norm_pairs kvs"
  let ?B = "if f' = 2 then {x \<in> norm_pairs lws. fst x \<notin> set ?ks} else norm_pairs lws"
  have AB: "?A = ?B"
    using eq d fv unfolding hashed_view_def o
    by (simp add: norm_json_pairs distinct_map_filter norm_pairs_omit del: norm_json.simps(3) set_simps
        split: if_splits)
  have "(''format_version'', jint f) \<in> ?A"
    using jget_pairs [OF d(1), of "''format_version''" "jint f"] fv(1) by (simp add: o)
  then have "(''format_version'', jint f) \<in> norm_pairs lws" unfolding AB by (auto split: if_splits)
  then have ff: "f = f'"
    using jget_pairs [OF d(2), of "''format_version''" "jint f'"] fv(2) by (simp add: o)
  have in_ks: "x \<in> norm_pairs kvs \<longleftrightarrow> x \<in> norm_pairs lws" if "fst x \<in> set ?ks" for x
    using that jget_pairs [OF d(1)] jget_pairs [OF d(2)] ts rs
    by (cases x) (auto simp: o)
  have "norm_pairs kvs = norm_pairs lws"
    using AB in_ks unfolding ff by (auto split: if_splits)
  then show ?thesis using d by (simp add: o norm_json_pairs del: norm_json.simps(3))
qed

lemma registered_envelope_facts:
  assumes "validateManifestRegistration dg reg (Some e) = Inr ()"
  obtains kvs f c r h where "e = JObj kvs" "jget e ''format_version'' = jint f"
    "jget e ''commit_decided_at'' = JStr c" "jget (jget reg ''record'') ''commit_decided_at'' = JStr c"
    "jget e ''retention_deadline'' = JStr r" "jget (jget reg ''record'') ''retention_deadline'' = JStr r"
    "hashRedoEnvelope dg e = Inr h" "jget (jget reg ''record'') ''envelope_hash'' = JStr h"
proof -
  have ce: "check_registration_envelope dg (jget reg ''record'') e = Inr ()"
    using assms by (simp add: validateManifestRegistration_def)
  then have st: "validateRedoEnvelopeStructure e = Inr ()"
    by (simp add: check_registration_envelope_def)
  note v = st [unfolded validateRedoEnvelopeStructure_def]
  obtain kvs where "e = JObj kvs" using v by (auto simp: assertPlainObject_def elim: is_plainE)
  moreover obtain f where "jget e ''format_version'' = jint f" using v by auto
  moreover obtain t r where "jget e ''commit_decided_at'' = JStr (toISOString t)"
      "jget e ''retention_deadline'' = JStr (toISOString r)" using v by (auto simp: retention_ok_iff)
  moreover obtain h where "hashRedoEnvelope dg e = Inr h"
      "jget (jget reg ''record'') ''envelope_hash'' = JStr h"
      "jget (jget reg ''record'') ''commit_decided_at'' = jget e ''commit_decided_at''"
      "jget (jget reg ''record'') ''retention_deadline'' = jget e ''retention_deadline''"
    using ce by (auto simp: check_registration_envelope_def and_then_ok)
  ultimately show ?thesis using that by simp
qed

text \<open>
  C28: A registration binds one envelope. If the same registration validates with two
  envelopes, then they are the same JSON value up to key order, also in the timestamps that
  the version-2 content address leaves out, or their hashed views are a SHA-256 collision.
\<close>

theorem registration_binds_envelope:
  assumes "validateManifestRegistration dg reg (Some e) = Inr ()"
    and "validateManifestRegistration dg reg (Some e') = Inr ()"
    and "wf_json e" "wf_json e'"
  shows "norm_json e = norm_json e' \<or> collides dg (hashed_view e) (hashed_view e')"
proof (rule disjCI)
  assume nc: "\<not> collides dg (hashed_view e) (hashed_view e')"
  show "norm_json e = norm_json e'"
  proof (rule registered_envelope_facts [OF assms(1)], rule registered_envelope_facts [OF assms(2)])
    fix kvs f c r h lws f' c' r' h'
    assume *: "e = JObj kvs" "jget e ''format_version'' = jint f"
      "jget e ''commit_decided_at'' = JStr c" "jget (jget reg ''record'') ''commit_decided_at'' = JStr c"
      "jget e ''retention_deadline'' = JStr r" "jget (jget reg ''record'') ''retention_deadline'' = JStr r"
      "hashRedoEnvelope dg e = Inr h" "jget (jget reg ''record'') ''envelope_hash'' = JStr h"
      and **: "e' = JObj lws" "jget e' ''format_version'' = jint f'"
      "jget e' ''commit_decided_at'' = JStr c'" "jget (jget reg ''record'') ''commit_decided_at'' = JStr c'"
      "jget e' ''retention_deadline'' = JStr r'" "jget (jget reg ''record'') ''retention_deadline'' = JStr r'"
      "hashRedoEnvelope dg e' = Inr h'" "jget (jget reg ''record'') ''envelope_hash'' = JStr h'"
    have wf: "wf_json (hashed_view e)" "wf_json (hashed_view e')"
      unfolding hashed_view_def using assms(3,4) wf_json_jomit by auto
    have "norm_json (hashed_view e) = norm_json (hashed_view e')"
      using * ** by (intro hashCanonicalJson_eq [OF wf _ nc]) (simp add: hashRedoEnvelope_view)
    then show ?thesis
      using * ** by (intro hashed_view_binds [OF assms(3,4) *(1) **(1)]) simp_all
  qed
qed

lemma sample_envelope_wf: "wf_json sample_envelope"
  by code_simp

lemma sample_registered:
  "\<exists>reg. validateManifestRegistration zero_digest reg (Some sample_envelope) = Inr ()"
  using created_when_valid [OF sample_envelope_ok] created_validates [OF zero_digest_ok] by blast

theorem registration_binds_envelope_witness:
  "\<exists>reg. validateManifestRegistration zero_digest reg (Some sample_envelope) = Inr ()
     \<and> (norm_json sample_envelope = norm_json sample_envelope
        \<or> collides zero_digest (hashed_view sample_envelope) (hashed_view sample_envelope))"
  using sample_registered registration_binds_envelope [OF _ _ sample_envelope_wf sample_envelope_wf]
  by blast

end
