(* ===== verification/ParticipantContract.thy ===== *)
theory ParticipantContract
  imports RedoContract
begin

text \<open>
  What a participant accepts in the light of its durable decision
  (\<open>packages/contracts/src/transaction.ts\<close>): the phase message, the decision tombstone, and
  \<open>validateParticipantMessageAgainstTombstone\<close>, which every message passes once a tombstone
  exists.
\<close>

section \<open>Validators\<close>

definition PARTICIPANT_DECISIONS :: "string list" where
  "PARTICIPANT_DECISIONS = [''abort'', ''commit'']"

definition PARTICIPANT_PHASES :: "string list" where
  "PARTICIPANT_PHASES = [''prepare'', ''commit'', ''abort'', ''status'', ''recover'']"

definition assertParticipantDecision :: "jval \<Rightarrow> check" where
  "assertParticipantDecision v =
     require (is_str v \<and> str_of v \<in> set PARTICIPANT_DECISIONS) TX_ENVELOPE_INVALID"

definition assertParticipantPhase :: "jval \<Rightarrow> check" where
  "assertParticipantPhase v =
     require (is_str v \<and> str_of v \<in> set PARTICIPANT_PHASES) TX_ENVELOPE_INVALID"

definition validateParticipantPhaseMessage :: "jval \<Rightarrow> check" where
  "validateParticipantPhaseMessage message = seq_checks
     [assertPlainObject message,
      assertWritableProtocolVersion (jget message ''protocol_version''),
      assertNonEmptyString (jget message ''tx_id''),
      assertEpoch (jget message ''epoch''),
      assertParticipantPhase (jget message ''phase''),
      assertSha256Hex (jget message ''operation_hash'')]"

definition validateParticipantTombstone :: "jval \<Rightarrow> check" where
  "validateParticipantTombstone tombstone = seq_checks
     [assertPlainObject tombstone,
      assertReadableProtocolVersion (jget tombstone ''protocol_version''),
      require (jget tombstone ''format_version'' = jint PARTICIPANT_TOMBSTONE_FORMAT_VERSION)
        TX_VERSION_UNSUPPORTED,
      assertNonEmptyString (jget tombstone ''tx_id''),
      assertEpoch (jget tombstone ''highest_epoch''),
      assertParticipantDecision (jget tombstone ''decision''),
      assertSha256Hex (jget tombstone ''operation_hash''),
      assertRetentionWindow (jget tombstone ''decided_at'') (jget tombstone ''retention_deadline'')
        PARTICIPANT_TOMBSTONE_RETENTION_DAYS]"

definition contradicts :: "jval \<Rightarrow> jval \<Rightarrow> bool" where
  "contradicts decision phase \<longleftrightarrow>
     (decision = JStr ''commit'' \<and> (phase = JStr ''prepare'' \<or> phase = JStr ''abort''))
     \<or> (decision = JStr ''abort'' \<and> (phase = JStr ''prepare'' \<or> phase = JStr ''commit''))"

definition validateParticipantMessageAgainstTombstone :: "jval \<Rightarrow> jval \<Rightarrow> check" where
  "validateParticipantMessageAgainstTombstone message tombstone = seq_checks
     [validateParticipantPhaseMessage message,
      validateParticipantTombstone tombstone,
      require (jget message ''tx_id'' = jget tombstone ''tx_id'') TX_ID_REQUEST_MISMATCH,
      require (\<not> int_of (jget message ''epoch'') < int_of (jget tombstone ''highest_epoch''))
        TX_EPOCH_STALE,
      require (\<not> int_of (jget message ''epoch'') > int_of (jget tombstone ''highest_epoch''))
        TX_EPOCH_CONFLICT,
      require (jget message ''operation_hash'' = jget tombstone ''operation_hash'')
        TX_ENVELOPE_HASH_MISMATCH,
      require (\<not> contradicts (jget tombstone ''decision'') (jget message ''phase''))
        TX_DECISION_CONFLICT]"

section \<open>Lemmas\<close>

text \<open>The three phases that stay legal after each decision.\<close>

fun allowed_phases :: "string \<Rightarrow> string set" where
  "allowed_phases d =
     (if d = ''commit'' then {''commit'', ''status'', ''recover''}
      else if d = ''abort'' then {''abort'', ''status'', ''recover''} else {})"

lemma phase_allowed_iff:
  assumes "assertParticipantPhase p = Inr ()" "assertParticipantDecision d = Inr ()"
  shows "\<not> contradicts d p \<longleftrightarrow> str_of p \<in> allowed_phases (str_of d)"
proof -
  obtain ps where p: "p = JStr ps" "ps \<in> set PARTICIPANT_PHASES"
    using assms(1) by (auto simp: assertParticipantPhase_def elim: is_strE)
  obtain ds where d: "d = JStr ds" "ds \<in> set PARTICIPANT_DECISIONS"
    using assms(2) by (auto simp: assertParticipantDecision_def elim: is_strE)
  show ?thesis
    using p(2) d(2) by (auto simp: p(1) d(1) contradicts_def PARTICIPANT_PHASES_def
        PARTICIPANT_DECISIONS_def)
qed

lemma epoch_eq_iff:
  assumes "assertEpoch a = Inr ()" "assertEpoch b = Inr ()"
  shows "\<not> int_of a < int_of b \<and> \<not> int_of a > int_of b \<longleftrightarrow> a = b"
proof -
  obtain m n where "a = jint m" "b = jint n"
    using assms safe_int_fromD unfolding assertEpoch_def require_ok by metis
  then show ?thesis by auto
qed

text \<open>
  C33: What passes a tombstone. A well-formed message is accepted against a well-formed
  tombstone exactly when it names the same transaction, epoch and operation hash and its phase
  is one the decision allows: after a commit only commit, status and recover, after an abort
  only abort, status and recover. In particular no late prepare is ever accepted.
\<close>

theorem tombstone_gate:
  assumes "validateParticipantPhaseMessage m = Inr ()" "validateParticipantTombstone t = Inr ()"
  shows "validateParticipantMessageAgainstTombstone m t = Inr () \<longleftrightarrow>
      jget m ''tx_id'' = jget t ''tx_id'' \<and> jget m ''epoch'' = jget t ''highest_epoch''
      \<and> jget m ''operation_hash'' = jget t ''operation_hash''
      \<and> str_of (jget m ''phase'') \<in> allowed_phases (str_of (jget t ''decision''))"
proof -
  have m: "assertParticipantPhase (jget m ''phase'') = Inr ()" "assertEpoch (jget m ''epoch'') = Inr ()"
    using assms(1) by (simp_all add: validateParticipantPhaseMessage_def)
  have t: "assertParticipantDecision (jget t ''decision'') = Inr ()"
    "assertEpoch (jget t ''highest_epoch'') = Inr ()"
    using assms(2) by (simp_all add: validateParticipantTombstone_def)
  show ?thesis
    unfolding validateParticipantMessageAgainstTombstone_def
    using assms phase_allowed_iff [OF m(1) t(1)] epoch_eq_iff [OF m(2) t(2)]
    by (simp del: allowed_phases.simps) blast
qed

definition sample_tombstone :: jval where
  "sample_tombstone = JObj
     [(''protocol_version'', jint 1), (''format_version'', jint 1), (''tx_id'', JStr ''tx''),
      (''highest_epoch'', jint 2), (''decision'', JStr ''abort''),
      (''operation_hash'', JStr (replicate 64 (CHR ''a''))),
      (''decided_at'', JStr ''2026-08-05T00:00:00.000Z''),
      (''retention_deadline'', JStr ''2026-09-09T00:00:00.000Z'')]"

definition sample_message :: "string \<Rightarrow> jval" where
  "sample_message phase = JObj
     [(''protocol_version'', jint 1), (''tx_id'', JStr ''tx''), (''epoch'', jint 2),
      (''phase'', JStr phase), (''operation_hash'', JStr (replicate 64 (CHR ''a'')))]"

lemma sample_tombstone_ok: "validateParticipantTombstone sample_tombstone = Inr ()"
  by code_simp

lemma sample_prepare_ok: "validateParticipantPhaseMessage (sample_message ''prepare'') = Inr ()"
  by code_simp

theorem tombstone_gate_witness:
  "validateParticipantMessageAgainstTombstone (sample_message ''prepare'') sample_tombstone \<noteq> Inr ()"
  using tombstone_gate [OF sample_prepare_ok sample_tombstone_ok]
  by (simp add: sample_message_def sample_tombstone_def)

end
