(* ===== verification/ManifestContract.thy ===== *)
theory ManifestContract
  imports RedoContract
begin

text \<open>
  The Manifest V2 contracts (\<open>packages/contracts/src/transaction.ts\<close>): reservations with
  their frozen route, terminal intents, records, catalog requests, seal requests and receipts,
  page and enumeration cursors, requests and results, and the membership predicate. Every
  validator is the list of its assertions in the code's order. A thrown
  \<open>TransactionContractViolation\<close> is \<open>Violation\<close> of its code; \<open>RangeError\<close> is what
  \<open>toISOString\<close> throws on an invalid date, and \<open>TypeError\<close> is thrown by handlers themselves.
\<close>

section \<open>Errors and constants\<close>

datatype js_error = Violation tx_code | RangeError | TypeError

type_synonym mcheck = "js_error + unit"

fun violation :: "tx_code + 'a \<Rightarrow> js_error + 'a" where
  "violation (Inl e) = Inl (Violation e)"
| "violation (Inr a) = Inr a"

lemma violation_ok [simp]: "violation r = Inr a \<longleftrightarrow> r = Inr a"
  by (cases r) simp_all

abbreviation invalid :: "bool \<Rightarrow> mcheck" where
  "invalid b \<equiv> require b (Violation MANIFEST_INVALID_REQUEST)"

definition MANIFEST_RESERVATION_FORMAT_VERSION :: int where "MANIFEST_RESERVATION_FORMAT_VERSION = 1"
definition MANIFEST_TERMINAL_INTENT_FORMAT_VERSION :: int where
  "MANIFEST_TERMINAL_INTENT_FORMAT_VERSION = 1"
definition MANIFEST_RECORD_V2_FORMAT_VERSION :: int where "MANIFEST_RECORD_V2_FORMAT_VERSION = 2"
definition MANIFEST_CATALOG_FORMAT_VERSION :: int where "MANIFEST_CATALOG_FORMAT_VERSION = 1"
definition MANIFEST_SEAL_FORMAT_VERSION :: int where "MANIFEST_SEAL_FORMAT_VERSION = 1"
definition MANIFEST_PAGE_FORMAT_VERSION :: int where "MANIFEST_PAGE_FORMAT_VERSION = 1"
definition MANIFEST_ENUMERATION_V1_FORMAT_VERSION :: int where
  "MANIFEST_ENUMERATION_V1_FORMAT_VERSION = 1"
definition CURRENT_MANIFEST_ENUMERATION_FORMAT_VERSION :: int where
  "CURRENT_MANIFEST_ENUMERATION_FORMAT_VERSION = 2"
definition MANIFEST_CURSOR_FORMAT_VERSION :: int where "MANIFEST_CURSOR_FORMAT_VERSION = 1"
definition MANIFEST_ENUMERATION_CURSOR_FORMAT_VERSION :: int where
  "MANIFEST_ENUMERATION_CURSOR_FORMAT_VERSION = 2"
definition MAX_MANIFEST_PAGE_LIMIT :: int where "MAX_MANIFEST_PAGE_LIMIT = 500"

section \<open>Assertions\<close>

definition assertExactKeys :: "jval \<Rightarrow> string list \<Rightarrow> mcheck" where
  "assertExactKeys v ks = seq_checks
     [invalid (list_all (\<lambda>k. k \<in> set ks) (jkeys v)),
      invalid (list_all (\<lambda>k. k \<in> set (jkeys v)) ks)]"

definition assertManifestVersion :: "jval \<Rightarrow> int \<Rightarrow> mcheck" where
  "assertManifestVersion v fmt =
     require (jget v ''protocol_version'' = jint CURRENT_PROTOCOL_VERSION
        \<and> jget v ''format_version'' = jint fmt) (Violation MANIFEST_VERSION_UNSUPPORTED)"

definition assertSafeInteger :: "int \<Rightarrow> jval \<Rightarrow> mcheck" where
  "assertSafeInteger minimum v = invalid (safe_int_from minimum v)"

definition assertManifestString :: "jval \<Rightarrow> mcheck" where
  "assertManifestString v = invalid (nonempty_str v)"

definition assertManifestHash :: "jval \<Rightarrow> mcheck" where
  "assertManifestHash v = invalid (sha256_hex_val v)"

definition parseManifestTimestamp :: "jval \<Rightarrow> js_error + int" where
  "parseManifestTimestamp v =
     and_then (assertManifestString v)
       (\<lambda>_. case parse_iso (str_of v) of
          None \<Rightarrow> Inl (Violation MANIFEST_INVALID_REQUEST) | Some t \<Rightarrow> Inr t)"

definition checkManifestTimestamp :: "jval \<Rightarrow> mcheck" where
  "checkManifestTimestamp v = and_then (parseManifestTimestamp v) (\<lambda>_. Inr ())"

text \<open>
  The pattern of a day. A well-shaped text whose month or day number no month has
  is an invalid \<open>Date\<close>, on which \<open>toISOString\<close> throws; a day past the end of its month rolls
  over and prints differently.
\<close>

definition day_shape :: "string \<Rightarrow> bool" where
  "day_shape s \<longleftrightarrow> length s = 10
     \<and> list_all (\<lambda>i. if i = 4 \<or> i = 7 then s ! i = CHR ''-'' else is_digit (s ! i)) [0..<10]"

definition date_constructible :: "string \<Rightarrow> bool" where
  "date_constructible s \<longleftrightarrow>
     1 \<le> num_at 5 2 s \<and> num_at 5 2 s \<le> 12 \<and> 1 \<le> num_at 8 2 s \<and> num_at 8 2 s \<le> 31"

definition day_canonical :: "string \<Rightarrow> bool" where
  "day_canonical s \<longleftrightarrow> parse_iso (s @ ''T00:00:00.000Z'') \<noteq> None"

definition assertUtcDay :: "jval \<Rightarrow> mcheck" where
  "assertUtcDay v = seq_checks
     [assertManifestString v,
      invalid (day_shape (str_of v)),
      require (date_constructible (str_of v)) RangeError,
      invalid (day_canonical (str_of v))]"

definition assertNullableManifestHash :: "jval \<Rightarrow> mcheck" where
  "assertNullableManifestHash v = (if v = JNull then Inr () else assertManifestHash v)"

definition nullable_safe_integer :: "int \<Rightarrow> jval \<Rightarrow> mcheck" where
  "nullable_safe_integer minimum v = (if v = JNull then Inr () else assertSafeInteger minimum v)"

definition ROUTE_KEYS :: "string list" where
  "ROUTE_KEYS = [''reservation_utc_day'', ''partition'', ''partition_count'', ''routing_key'',
     ''partition_config_hash'']"

definition routing_key_of :: "string \<Rightarrow> int \<Rightarrow> string" where
  "routing_key_of day p = day @ '':'' @ two p"

definition validateManifestRouteFields :: "jval \<Rightarrow> mcheck" where
  "validateManifestRouteFields v = seq_checks
     [assertUtcDay (jget v ''reservation_utc_day''),
      assertSafeInteger 0 (jget v ''partition''),
      invalid (jget v ''partition_count'' = jint MANIFEST_PARTITION_COUNT),
      invalid (int_of (jget v ''partition'') < MANIFEST_PARTITION_COUNT),
      assertManifestString (jget v ''routing_key''),
      invalid (jget v ''routing_key''
        = JStr (routing_key_of (str_of (jget v ''reservation_utc_day'')) (int_of (jget v ''partition'')))),
      assertManifestHash (jget v ''partition_config_hash'')]"

section \<open>Reservations\<close>

record manifest_route_v2 =
  rt_day :: string
  rt_partition :: int
  rt_partition_count :: int
  rt_routing_key :: string
  rt_config_hash :: string

definition manifestReservationRoute ::
  "digest_fn \<Rightarrow> jval \<Rightarrow> jval \<Rightarrow> jval \<Rightarrow> js_error + manifest_route_v2" where
  "manifestReservationRoute dg txId reservedAt configHash =
     and_then (assertManifestString txId) (\<lambda>_.
     and_then (parseManifestTimestamp reservedAt) (\<lambda>t.
     and_then (assertManifestHash configHash) (\<lambda>_.
       let p = digest_partition dg (str_of txId)
       in Inr \<lparr>rt_day = utc_day t, rt_partition = p,
               rt_partition_count = MANIFEST_PARTITION_COUNT,
               rt_routing_key = routing_key_of (utc_day t) p,
               rt_config_hash = str_of configHash\<rparr>)))"

definition RESERVATION_KEYS :: "string list" where
  "RESERVATION_KEYS = [''protocol_version'', ''format_version'', ''fleet_id''] @ ROUTE_KEYS
     @ [''tx_id'', ''coordinator_id'', ''operation_hash'', ''decision_epoch'', ''reserved_at'']"

definition validateManifestReservation :: "jval \<Rightarrow> mcheck" where
  "validateManifestReservation v = seq_checks
     [violation (assertPlainObject v),
      assertExactKeys v RESERVATION_KEYS,
      assertManifestVersion v MANIFEST_RESERVATION_FORMAT_VERSION,
      assertManifestString (jget v ''fleet_id''),
      validateManifestRouteFields v,
      assertManifestString (jget v ''tx_id''),
      assertManifestString (jget v ''coordinator_id''),
      assertManifestHash (jget v ''operation_hash''),
      assertSafeInteger 1 (jget v ''decision_epoch''),
      and_then (parseManifestTimestamp (jget v ''reserved_at''))
        (\<lambda>t. invalid (JStr (utc_day t) = jget v ''reservation_utc_day''))]"

text \<open>The frozen fields of a reservation, in the order the code writes them.\<close>

definition reservation_json ::
  "jval \<Rightarrow> manifest_route_v2 \<Rightarrow> jval \<Rightarrow> jval \<Rightarrow> jval \<Rightarrow> jval \<Rightarrow> jval \<Rightarrow> jval" where
  "reservation_json fleet route tx coordinator opHash epoch reservedAt = JObj
     [(''protocol_version'', jint CURRENT_PROTOCOL_VERSION),
      (''format_version'', jint MANIFEST_RESERVATION_FORMAT_VERSION),
      (''fleet_id'', fleet),
      (''reservation_utc_day'', JStr (rt_day route)),
      (''partition'', jint (rt_partition route)),
      (''partition_count'', jint (rt_partition_count route)),
      (''routing_key'', JStr (rt_routing_key route)),
      (''partition_config_hash'', JStr (rt_config_hash route)),
      (''tx_id'', tx),
      (''coordinator_id'', coordinator),
      (''operation_hash'', opHash),
      (''decision_epoch'', epoch),
      (''reserved_at'', reservedAt)]"

definition createManifestReservation :: "digest_fn \<Rightarrow> jval \<Rightarrow> jval \<Rightarrow> js_error + jval" where
  "createManifestReservation dg input trustedReservedAt =
     and_then (manifestReservationRoute dg (jget input ''tx_id'') trustedReservedAt
                 (jget input ''partition_config_hash''))
       (\<lambda>route. let candidate = reservation_json (jget input ''fleet_id'') route (jget input ''tx_id'')
                    (jget input ''coordinator_id'') (jget input ''operation_hash'')
                    (jget input ''decision_epoch'') trustedReservedAt
          in and_then (validateManifestReservation candidate) (\<lambda>_. Inr candidate))"

definition hashManifestReservation :: "digest_fn \<Rightarrow> jval \<Rightarrow> js_error + string" where
  "hashManifestReservation dg v =
     and_then (validateManifestReservation v) (\<lambda>_.
     and_then (manifestReservationRoute dg (jget v ''tx_id'') (jget v ''reserved_at'')
                 (jget v ''partition_config_hash'')) (\<lambda>route.
     and_then (invalid (jget v ''reservation_utc_day'' = JStr (rt_day route)
         \<and> jget v ''partition'' = jint (rt_partition route)
         \<and> jget v ''partition_count'' = jint (rt_partition_count route)
         \<and> jget v ''routing_key'' = JStr (rt_routing_key route)))
       (\<lambda>_. violation (hashCanonicalJson dg v))))"

section \<open>Terminal intents and records\<close>

definition validateManifestFinalizeIntent :: "jval \<Rightarrow> mcheck" where
  "validateManifestFinalizeIntent v = seq_checks
     [violation (assertPlainObject v),
      assertExactKeys v [''protocol_version'', ''format_version'', ''tx_id'', ''reservation_hash'',
        ''redo_envelope_hash'', ''operation_hash'', ''decision_epoch'', ''idempotency_key''],
      assertManifestVersion v MANIFEST_TERMINAL_INTENT_FORMAT_VERSION,
      assertManifestString (jget v ''tx_id''),
      assertManifestHash (jget v ''reservation_hash''),
      assertManifestHash (jget v ''redo_envelope_hash''),
      assertManifestHash (jget v ''operation_hash''),
      assertSafeInteger 1 (jget v ''decision_epoch''),
      assertManifestString (jget v ''idempotency_key'')]"

definition hashManifestFinalizeIntent :: "digest_fn \<Rightarrow> jval \<Rightarrow> js_error + string" where
  "hashManifestFinalizeIntent dg v =
     and_then (validateManifestFinalizeIntent v) (\<lambda>_. violation (hashCanonicalJson dg v))"

definition validateManifestCancelIntent :: "jval \<Rightarrow> mcheck" where
  "validateManifestCancelIntent v = seq_checks
     [violation (assertPlainObject v),
      assertExactKeys v [''protocol_version'', ''format_version'', ''tx_id'', ''reservation_hash'',
        ''operation_hash'', ''decision_epoch'', ''idempotency_key''],
      assertManifestVersion v MANIFEST_TERMINAL_INTENT_FORMAT_VERSION,
      assertManifestString (jget v ''tx_id''),
      assertManifestHash (jget v ''reservation_hash''),
      assertManifestHash (jget v ''operation_hash''),
      assertSafeInteger 1 (jget v ''decision_epoch''),
      assertManifestString (jget v ''idempotency_key'')]"

definition RECORD_V2_KEYS :: "string list" where
  "RECORD_V2_KEYS = [''protocol_version'', ''format_version'', ''fleet_id''] @ ROUTE_KEYS
     @ [''tx_id'', ''coordinator_id'', ''operation_hash'', ''decision_epoch'', ''reserved_at'',
        ''reservation_hash'', ''envelope_hash'', ''commit_decided_at'', ''commit_decided_at_ms'',
        ''decision_sequence'', ''retention_deadline'']"

definition validateManifestRecordV2 :: "jval \<Rightarrow> mcheck" where
  "validateManifestRecordV2 v = seq_checks
     [violation (assertPlainObject v),
      assertExactKeys v RECORD_V2_KEYS,
      assertManifestVersion v MANIFEST_RECORD_V2_FORMAT_VERSION,
      assertManifestString (jget v ''fleet_id''),
      validateManifestRouteFields v,
      assertManifestString (jget v ''tx_id''),
      assertManifestString (jget v ''coordinator_id''),
      assertManifestHash (jget v ''operation_hash''),
      assertSafeInteger 1 (jget v ''decision_epoch''),
      checkManifestTimestamp (jget v ''reserved_at''),
      assertManifestHash (jget v ''reservation_hash''),
      assertManifestHash (jget v ''envelope_hash''),
      and_then (parseManifestTimestamp (jget v ''commit_decided_at'')) (\<lambda>decidedAt. seq_checks
        [assertSafeInteger 0 (jget v ''commit_decided_at_ms''),
         invalid (decidedAt = int_of (jget v ''commit_decided_at_ms'')),
         assertSafeInteger 1 (jget v ''decision_sequence''),
         and_then (parseManifestTimestamp (jget v ''retention_deadline''))
           (\<lambda>deadline. invalid (COORDINATOR_RETENTION_DAYS * 24 * 60 * 60 * 1000 \<le> deadline - decidedAt))])]"

definition record_reservation :: "jval \<Rightarrow> jval" where
  "record_reservation v = JObj
     [(''protocol_version'', jget v ''protocol_version''),
      (''format_version'', jint MANIFEST_RESERVATION_FORMAT_VERSION),
      (''fleet_id'', jget v ''fleet_id''),
      (''reservation_utc_day'', jget v ''reservation_utc_day''),
      (''partition'', jget v ''partition''),
      (''partition_count'', jget v ''partition_count''),
      (''routing_key'', jget v ''routing_key''),
      (''partition_config_hash'', jget v ''partition_config_hash''),
      (''tx_id'', jget v ''tx_id''),
      (''coordinator_id'', jget v ''coordinator_id''),
      (''operation_hash'', jget v ''operation_hash''),
      (''decision_epoch'', jget v ''decision_epoch''),
      (''reserved_at'', jget v ''reserved_at'')]"

definition hashManifestRecordV2 :: "digest_fn \<Rightarrow> jval \<Rightarrow> js_error + string" where
  "hashManifestRecordV2 dg v =
     and_then (validateManifestRecordV2 v) (\<lambda>_.
     and_then (hashManifestReservation dg (record_reservation v)) (\<lambda>expected.
     and_then (require (jget v ''reservation_hash'' = JStr expected)
         (Violation MANIFEST_RESERVATION_CONFLICT))
       (\<lambda>_. violation (hashCanonicalJson dg v))))"

section \<open>Catalog and seal contracts\<close>

definition validatePartitionConfig :: "jval \<Rightarrow> mcheck" where
  "validatePartitionConfig v = seq_checks
     [violation (assertPlainObject v),
      assertExactKeys v [''protocol_version'', ''format_version'', ''effective_from_day'',
        ''partition_count'', ''prior_config_hash'', ''config_hash''],
      assertManifestVersion v MANIFEST_CATALOG_FORMAT_VERSION,
      assertUtcDay (jget v ''effective_from_day''),
      invalid (jget v ''partition_count'' = jint MANIFEST_PARTITION_COUNT),
      assertNullableManifestHash (jget v ''prior_config_hash''),
      assertManifestHash (jget v ''config_hash'')]"

definition validateManifestCatalogActivateRequest :: "jval \<Rightarrow> mcheck" where
  "validateManifestCatalogActivateRequest v = seq_checks
     [violation (assertPlainObject v),
      assertExactKeys v ([''protocol_version'', ''format_version'', ''fleet_id''] @ ROUTE_KEYS
        @ [''activation_key'']),
      assertManifestVersion v MANIFEST_CATALOG_FORMAT_VERSION,
      assertManifestString (jget v ''fleet_id''),
      validateManifestRouteFields v,
      assertManifestString (jget v ''activation_key'')]"

definition validateManifestCatalogSnapshotRequest :: "jval \<Rightarrow> mcheck" where
  "validateManifestCatalogSnapshotRequest v = seq_checks
     [violation (assertPlainObject v),
      assertExactKeys v [''protocol_version'', ''format_version'', ''fleet_id'', ''cutoff'',
        ''partition_config_hash'', ''idempotency_key''],
      assertManifestVersion v MANIFEST_CATALOG_FORMAT_VERSION,
      assertManifestString (jget v ''fleet_id''),
      checkManifestTimestamp (jget v ''cutoff''),
      assertManifestHash (jget v ''partition_config_hash''),
      assertManifestString (jget v ''idempotency_key'')]"

definition validateManifestCatalogRetireRequest :: "jval \<Rightarrow> mcheck" where
  "validateManifestCatalogRetireRequest v = seq_checks
     [violation (assertPlainObject v),
      assertExactKeys v ([''protocol_version'', ''format_version'', ''fleet_id''] @ ROUTE_KEYS
        @ [''safety_certificate_hash'', ''idempotency_key'']),
      assertManifestVersion v MANIFEST_CATALOG_FORMAT_VERSION,
      assertManifestString (jget v ''fleet_id''),
      validateManifestRouteFields v,
      assertManifestHash (jget v ''safety_certificate_hash''),
      assertManifestString (jget v ''idempotency_key'')]"

definition validateManifestSealRequest :: "jval \<Rightarrow> mcheck" where
  "validateManifestSealRequest v = seq_checks
     [violation (assertPlainObject v),
      assertExactKeys v ([''protocol_version'', ''format_version'', ''fleet_id''] @ ROUTE_KEYS
        @ [''cutoff'', ''idempotency_key'']),
      assertManifestVersion v MANIFEST_SEAL_FORMAT_VERSION,
      assertManifestString (jget v ''fleet_id''),
      validateManifestRouteFields v,
      checkManifestTimestamp (jget v ''cutoff''),
      assertManifestString (jget v ''idempotency_key'')]"

definition validateManifestSealReceipt :: "jval \<Rightarrow> mcheck" where
  "validateManifestSealReceipt v = seq_checks
     [violation (assertPlainObject v),
      assertExactKeys v ([''protocol_version'', ''format_version'', ''fleet_id''] @ ROUTE_KEYS
        @ [''cutoff'', ''generation'', ''decision_floor_ms'', ''sealed_through_ms'', ''record_count'',
           ''maximum_decision_sequence'', ''records_deleted_through_ms'', ''retention_epoch'',
           ''records_root'', ''conflict_resolution_root'', ''local_legacy_certificate_hash'',
           ''prior_receipt_hash'', ''receipt_hash'']),
      assertManifestVersion v MANIFEST_SEAL_FORMAT_VERSION,
      assertManifestString (jget v ''fleet_id''),
      validateManifestRouteFields v,
      and_then (parseManifestTimestamp (jget v ''cutoff'')) (\<lambda>cutoff. seq_checks
        [assertSafeInteger 1 (jget v ''generation''),
         assertSafeInteger 0 (jget v ''decision_floor_ms''),
         assertSafeInteger 0 (jget v ''sealed_through_ms''),
         invalid (int_of (jget v ''sealed_through_ms'') = cutoff
           \<and> int_of (jget v ''sealed_through_ms'') \<le> int_of (jget v ''decision_floor_ms'')),
         assertSafeInteger 0 (jget v ''record_count''),
         nullable_safe_integer 1 (jget v ''maximum_decision_sequence''),
         nullable_safe_integer 0 (jget v ''records_deleted_through_ms''),
         assertSafeInteger 0 (jget v ''retention_epoch''),
         assertManifestHash (jget v ''records_root''),
         assertManifestHash (jget v ''conflict_resolution_root''),
         assertManifestHash (jget v ''local_legacy_certificate_hash''),
         assertNullableManifestHash (jget v ''prior_receipt_hash''),
         assertManifestHash (jget v ''receipt_hash'')])]"

section \<open>Cursors, pages and enumerations\<close>

definition validateManifestLocalPageCursor :: "jval \<Rightarrow> mcheck" where
  "validateManifestLocalPageCursor v = seq_checks
     [violation (assertPlainObject v),
      assertExactKeys v [''protocol_version'', ''format_version'', ''request_hash'', ''retention_epoch'',
        ''seal_generation'', ''seal_receipt_hash'', ''last_commit_decided_at_ms'',
        ''last_decision_sequence'', ''last_tx_id''],
      assertManifestVersion v MANIFEST_CURSOR_FORMAT_VERSION,
      assertManifestHash (jget v ''request_hash''),
      assertSafeInteger 0 (jget v ''retention_epoch''),
      assertSafeInteger 1 (jget v ''seal_generation''),
      assertManifestHash (jget v ''seal_receipt_hash''),
      assertSafeInteger 0 (jget v ''last_commit_decided_at_ms''),
      assertSafeInteger 1 (jget v ''last_decision_sequence''),
      assertManifestString (jget v ''last_tx_id'')]"

definition assertManifestPageLimit :: "jval \<Rightarrow> mcheck" where
  "assertManifestPageLimit v = seq_checks
     [assertSafeInteger 1 v, invalid (int_of v \<le> MAX_MANIFEST_PAGE_LIMIT)]"

definition check_window :: "jval \<Rightarrow> mcheck" where
  "check_window v =
     and_then (parseManifestTimestamp (jget v ''coverage_start'')) (\<lambda>start.
     and_then (parseManifestTimestamp (jget v ''cutoff'')) (\<lambda>cutoff. invalid (start \<le> cutoff)))"

definition validateManifestLocalPageRequest :: "jval \<Rightarrow> mcheck" where
  "validateManifestLocalPageRequest v = seq_checks
     [violation (assertPlainObject v),
      assertExactKeys v ([''protocol_version'', ''format_version'', ''fleet_id''] @ ROUTE_KEYS
        @ [''coverage_start'', ''cutoff'', ''expected_retention_epoch'', ''seal_generation'',
           ''seal_receipt_hash'', ''limit'', ''cursor'']),
      assertManifestVersion v MANIFEST_PAGE_FORMAT_VERSION,
      assertManifestString (jget v ''fleet_id''),
      validateManifestRouteFields v,
      check_window v,
      assertSafeInteger 0 (jget v ''expected_retention_epoch''),
      assertSafeInteger 1 (jget v ''seal_generation''),
      assertManifestHash (jget v ''seal_receipt_hash''),
      assertManifestPageLimit (jget v ''limit''),
      (if jget v ''cursor'' = JNull then Inr () else validateManifestLocalPageCursor (jget v ''cursor''))]"

text \<open>
  The shape checks the versioned contracts share: which keys each supported format has, and
  the two root-binding hashes of the current one.
\<close>

definition versioned_shape :: "jval \<Rightarrow> int \<Rightarrow> string list \<Rightarrow> int \<Rightarrow> string list \<Rightarrow> mcheck" where
  "versioned_shape v current currentKeys v1 v1Keys = seq_checks
     [violation (assertPlainObject v),
      require (jget v ''protocol_version'' = jint CURRENT_PROTOCOL_VERSION)
        (Violation MANIFEST_VERSION_UNSUPPORTED),
      (if jget v ''format_version'' = jint current
       then seq_checks [assertExactKeys v currentKeys,
              assertManifestHash (jget v ''catalog_close_key''),
              assertManifestHash (jget v ''fleet_root_hash'')]
       else if jget v ''format_version'' = jint v1 then assertExactKeys v v1Keys
       else Inl (Violation MANIFEST_VERSION_UNSUPPORTED))]"

definition validateManifestEnumerationCursor :: "jval \<Rightarrow> mcheck" where
  "validateManifestEnumerationCursor v = seq_checks
     [versioned_shape v
        MANIFEST_ENUMERATION_CURSOR_FORMAT_VERSION
        [''protocol_version'', ''format_version'', ''request_hash'', ''catalog_close_key'',
         ''fleet_root_hash'', ''catalog_generation'', ''catalog_snapshot_hash'',
         ''reservation_utc_day'', ''partition'', ''local_cursor'']
        MANIFEST_CURSOR_FORMAT_VERSION
        [''protocol_version'', ''format_version'', ''request_hash'', ''catalog_generation'',
         ''catalog_snapshot_hash'', ''reservation_utc_day'', ''partition'', ''local_cursor''],
      assertManifestHash (jget v ''request_hash''),
      assertSafeInteger 1 (jget v ''catalog_generation''),
      assertManifestHash (jget v ''catalog_snapshot_hash''),
      assertUtcDay (jget v ''reservation_utc_day''),
      assertSafeInteger 0 (jget v ''partition''),
      invalid (int_of (jget v ''partition'') < MANIFEST_PARTITION_COUNT),
      (if jget v ''local_cursor'' = JNull then Inr ()
       else validateManifestLocalPageCursor (jget v ''local_cursor''))]"

text \<open>A cursor carried by a request or a result agrees with it in version and close identity.\<close>

definition check_carried_cursor :: "jval \<Rightarrow> jval \<Rightarrow> mcheck" where
  "check_carried_cursor v cursor =
     (if cursor = JNull then Inr ()
      else seq_checks
       [validateManifestEnumerationCursor cursor,
        require (\<not> ((jget v ''format_version'' = jint CURRENT_MANIFEST_ENUMERATION_FORMAT_VERSION
              \<and> jget cursor ''format_version'' \<noteq> jint MANIFEST_ENUMERATION_CURSOR_FORMAT_VERSION)
            \<or> (jget v ''format_version'' = jint MANIFEST_ENUMERATION_V1_FORMAT_VERSION
              \<and> jget cursor ''format_version'' \<noteq> jint MANIFEST_CURSOR_FORMAT_VERSION)))
          (Violation MANIFEST_CURSOR_MISMATCH),
        require (\<not> (jget v ''format_version'' = jint CURRENT_MANIFEST_ENUMERATION_FORMAT_VERSION
            \<and> jget cursor ''format_version'' = jint MANIFEST_ENUMERATION_CURSOR_FORMAT_VERSION
            \<and> (jget cursor ''catalog_close_key'' \<noteq> jget v ''catalog_close_key''
               \<or> jget cursor ''fleet_root_hash'' \<noteq> jget v ''fleet_root_hash'')))
          (Violation MANIFEST_CURSOR_MISMATCH)])"

definition validateManifestEnumerationRequest :: "jval \<Rightarrow> mcheck" where
  "validateManifestEnumerationRequest v = seq_checks
     [versioned_shape v
        CURRENT_MANIFEST_ENUMERATION_FORMAT_VERSION
        [''protocol_version'', ''format_version'', ''fleet_id'', ''coverage_start'', ''cutoff'',
         ''partition_config_hash'', ''catalog_close_key'', ''fleet_root_hash'', ''catalog_generation'',
         ''catalog_snapshot_hash'', ''limit'', ''cursor'']
        MANIFEST_ENUMERATION_V1_FORMAT_VERSION
        [''protocol_version'', ''format_version'', ''fleet_id'', ''coverage_start'', ''cutoff'',
         ''partition_config_hash'', ''catalog_generation'', ''catalog_snapshot_hash'', ''limit'', ''cursor''],
      assertManifestString (jget v ''fleet_id''),
      check_window v,
      assertManifestHash (jget v ''partition_config_hash''),
      assertSafeInteger 1 (jget v ''catalog_generation''),
      assertManifestHash (jget v ''catalog_snapshot_hash''),
      assertManifestPageLimit (jget v ''limit''),
      check_carried_cursor v (jget v ''cursor'')]"

definition validateWritableManifestEnumerationRequest :: "jval \<Rightarrow> mcheck" where
  "validateWritableManifestEnumerationRequest v = seq_checks
     [validateManifestEnumerationRequest v,
      require (jget v ''format_version'' = jint CURRENT_MANIFEST_ENUMERATION_FORMAT_VERSION)
        (Violation MANIFEST_VERSION_UNSUPPORTED)]"

text \<open>\<open>{ ...value, key: x }\<close>.\<close>

fun assoc_set :: "string \<Rightarrow> jval \<Rightarrow> (string \<times> jval) list \<Rightarrow> (string \<times> jval) list" where
  "assoc_set k x [] = [(k, x)]"
| "assoc_set k x ((k', v) # kvs) = (if k' = k then (k, x) # kvs else (k', v) # assoc_set k x kvs)"

fun jset :: "string \<Rightarrow> jval \<Rightarrow> jval \<Rightarrow> jval" where
  "jset k x (JObj kvs) = JObj (assoc_set k x kvs)"
| "jset k x v = v"

definition hashManifestRequest :: "digest_fn \<Rightarrow> jval \<Rightarrow> js_error + string" where
  "hashManifestRequest dg v =
     (if ''expected_retention_epoch'' \<in> set (jkeys v)
      then and_then (validateManifestLocalPageRequest v)
             (\<lambda>_. violation (hashCanonicalJson dg
                (jset ''cursor'' JNull (jomit [''expected_retention_epoch''] v))))
      else and_then (validateManifestEnumerationRequest v)
             (\<lambda>_. violation (hashCanonicalJson dg (jset ''cursor'' JNull v))))"

definition assertManifestCursorMatchesRequest :: "jval \<Rightarrow> jval \<Rightarrow> mcheck" where
  "assertManifestCursorMatchesRequest cursor requestHash = seq_checks
     [assertManifestHash requestHash,
      require (jget cursor ''request_hash'' = requestHash) (Violation MANIFEST_CURSOR_MISMATCH)]"

definition validateManifestCoverageEvidence :: "jval \<Rightarrow> mcheck" where
  "validateManifestCoverageEvidence v = seq_checks
     [violation (assertPlainObject v),
      assertExactKeys v ([''protocol_version'', ''format_version''] @ ROUTE_KEYS
        @ [''cutoff'', ''seal_generation'', ''seal_receipt_hash'', ''retention_epoch'',
           ''records_deleted_through_ms'', ''local_legacy_certificate_hash'']),
      assertManifestVersion v MANIFEST_ENUMERATION_V1_FORMAT_VERSION,
      validateManifestRouteFields v,
      checkManifestTimestamp (jget v ''cutoff''),
      assertSafeInteger 1 (jget v ''seal_generation''),
      assertManifestHash (jget v ''seal_receipt_hash''),
      assertSafeInteger 0 (jget v ''retention_epoch''),
      nullable_safe_integer 0 (jget v ''records_deleted_through_ms''),
      assertManifestHash (jget v ''local_legacy_certificate_hash'')]"

definition MANIFEST_COVERAGE_STATUSES :: "string list" where
  "MANIFEST_COVERAGE_STATUSES =
     [''complete'', ''incomplete'', ''quarantined'', ''unproven_legacy_window'', ''retention_expired'']"

definition validateManifestEnumerationResult :: "jval \<Rightarrow> mcheck" where
  "validateManifestEnumerationResult v = seq_checks
     [versioned_shape v
        CURRENT_MANIFEST_ENUMERATION_FORMAT_VERSION
        [''protocol_version'', ''format_version'', ''request_hash'', ''catalog_close_key'',
         ''fleet_root_hash'', ''coverage'', ''complete'', ''records'', ''evidence'', ''next_cursor'',
         ''diagnostics'']
        MANIFEST_ENUMERATION_V1_FORMAT_VERSION
        [''protocol_version'', ''format_version'', ''request_hash'', ''coverage'', ''complete'',
         ''records'', ''evidence'', ''next_cursor'', ''diagnostics''],
      assertManifestHash (jget v ''request_hash''),
      invalid (is_str (jget v ''coverage'')
        \<and> str_of (jget v ''coverage'') \<in> set MANIFEST_COVERAGE_STATUSES),
      invalid (jget v ''complete'' = JBool (jget v ''coverage'' = JStr ''complete'')),
      invalid (is_arr (jget v ''records'')),
      seq_checks (map validateManifestRecordV2 (arr_of (jget v ''records''))),
      invalid (is_arr (jget v ''evidence'')),
      seq_checks (map validateManifestCoverageEvidence (arr_of (jget v ''evidence''))),
      check_carried_cursor v (jget v ''next_cursor''),
      invalid (\<not> (jget v ''complete'' = JBool True \<and> jget v ''next_cursor'' \<noteq> JNull)),
      violation (assertPlainObject (jget v ''diagnostics'')),
      assertExactKeys (jget v ''diagnostics'')
        [''inspected_buckets'', ''incomplete_buckets'', ''returned_records''],
      assertSafeInteger 0 (jget (jget v ''diagnostics'') ''inspected_buckets''),
      assertSafeInteger 0 (jget (jget v ''diagnostics'') ''incomplete_buckets''),
      assertSafeInteger 0 (jget (jget v ''diagnostics'') ''returned_records''),
      invalid (int_of (jget (jget v ''diagnostics'') ''returned_records'')
        = int (length (arr_of (jget v ''records''))))]"

section \<open>Membership\<close>

text \<open>The only predicate of membership in the history up to a cutoff; times are nullable.\<close>

definition safe_int :: "int \<Rightarrow> bool" where
  "safe_int n \<longleftrightarrow> \<bar>n\<bar> \<le> max_safe_integer"

definition manifestMemberAt :: "string \<Rightarrow> int option \<Rightarrow> int \<Rightarrow> bool" where
  "manifestMemberAt state commitDecidedAtMs cutoffMs \<longleftrightarrow>
     safe_int cutoffMs \<and> state = ''FINALIZED''
     \<and> (case commitDecidedAtMs of None \<Rightarrow> False | Some ms \<Rightarrow> safe_int ms \<and> ms \<le> cutoffMs)"

end
