(* ===== verification/ManifestLaws.thy ===== *)
theory ManifestLaws
  imports ManifestContract
begin

text \<open>
  What the Manifest V2 contracts guarantee: the calendar days they accept, reservations and
  records and the bucket they belong to, the stability of the request hash that page cursors
  carry, and the consistency of enumeration results.
\<close>

section \<open>Calendar days\<close>

definition four_digit_year :: "int \<Rightarrow> bool" where
  "four_digit_year t = (case civil_from_days (t div ms_per_day) of (y, _, _) \<Rightarrow> 0 \<le> y \<and> y \<le> 9999)"

lemma list_four: "length xs = 4 \<longleftrightarrow> (\<exists>a b c d. xs = [a, b, c, d])"
  by (auto simp: eval_nat_numeral length_Suc_conv)

lemma day_parts:
  assumes "civil_from_days n = (y, m, d)" "0 \<le> y" "y \<le> 9999"
  obtains a b c e m1 m2 d1 d2 where "year_text y = [a, b, c, e]" "two m = [m1, m2]" "two d = [d1, d2]"
    "list_all is_digit [a, b, c, e, m1, m2, d1, d2]" "int (digits_val [m1, m2]) = m"
    "int (digits_val [d1, d2]) = d"
proof -
  note cf = civil_from_days_facts [OF assms(1)]
  have y: "length (year_text y) = 4" "list_all is_digit (year_text y)"
    using assms(2,3) length_nat_text_bound [of "nat y" 3]
    by (simp_all add: year_text_def length_pad pad_digits nat_less_iff)
  have md: "length (two m) = 2" "length (two d) = 2" "list_all is_digit (two m)" "list_all is_digit (two d)"
    using cf by (simp_all add: length_two) (simp_all add: two_def pad_digits)
  have v: "int (digits_val (two m)) = m" "int (digits_val (two d)) = d"
    using cf by (simp_all add: digits_two)
  from y(1) md(1,2) obtain a b c e m1 m2 d1 d2
    where eqs: "year_text y = [a, b, c, e]" "two m = [m1, m2]" "two d = [d1, d2]"
    unfolding list_four list_two by blast
  show ?thesis
    using that [OF eqs] y(2) md(3,4) v unfolding eqs by simp
qed

lemma utc_day_text: "four_digit_year t \<Longrightarrow> utc_day t = day_text (t div ms_per_day)"
proof -
  assume f: "four_digit_year t"
  obtain y m d where civ: "civil_from_days (t div ms_per_day) = (y, m, d)" by (metis prod_cases3)
  with f have "0 \<le> y" "y \<le> 9999" by (auto simp: four_digit_year_def)
  from day_parts [OF civ this] obtain a b c e m1 m2 d1 d2 where
    "year_text y = [a, b, c, e]" "two m = [m1, m2]" "two d = [d1, d2]" .
  then show ?thesis by (simp add: utc_day_def toISOString_def day_text_def civ)
qed

lemma midnight_text:
  "toISOString (n * ms_per_day) = day_text n @ ''T00:00:00.000Z''"
proof -
  have "n * ms_per_day div ms_per_day = n" "n * ms_per_day mod ms_per_day = 0"
    by (simp_all add: ms_per_day_def)
  moreover have "clock_text 0 = ''00:00:00.000Z''" by code_simp
  ultimately show ?thesis by (simp add: toISOString_def)
qed

lemma midnight_in_range: "time_in_range t \<Longrightarrow> time_in_range (t div ms_per_day * ms_per_day)"
proof -
  assume r: "time_in_range t"
  have "- 100000000 \<le> t div ms_per_day" "t div ms_per_day \<le> 100000000"
    using r zdiv_mono1 [of "- 8640000000000000" t 86400000] zdiv_mono1 [of t 8640000000000000 86400000]
    by (simp_all add: time_in_range_def ms_per_day_def)
  then show ?thesis by (simp add: time_in_range_def ms_per_day_def)
qed

lemma utc_day_accepted:
  assumes "time_in_range t" "four_digit_year t"
  shows "assertUtcDay (JStr (utc_day t)) = Inr ()"
proof -
  obtain y m d where civ: "civil_from_days (t div ms_per_day) = (y, m, d)" by (metis prod_cases3)
  with assms(2) have yr: "0 \<le> y" "y \<le> 9999" by (auto simp: four_digit_year_def)
  note cf = civil_from_days_facts [OF civ]
  have can: "day_canonical (utc_day t)"
    unfolding day_canonical_def utc_day_text [OF assms(2)] midnight_text [symmetric]
    using midnight_in_range [OF assms(1)] parse_iso_iff by (metis option.distinct(1))
  from day_parts [OF civ yr] obtain a b c e m1 m2 d1 d2 where
    parts: "year_text y = [a, b, c, e]" "two m = [m1, m2]" "two d = [d1, d2]"
    "list_all is_digit [a, b, c, e, m1, m2, d1, d2]"
    "int (digits_val [m1, m2]) = m" "int (digits_val [d1, d2]) = d" .
  have u: "utc_day t = [a, b, c, e, CHR ''-'', m1, m2, CHR ''-'', d1, d2]"
    by (simp add: utc_day_text [OF assms(2)] day_text_def civ parts(1-3))
  have "day_shape (utc_day t)"
    using parts(4) by (simp add: u day_shape_def upt_rec)
  moreover have "date_constructible (utc_day t)"
    using cf parts(5,6) by (simp add: u date_constructible_def num_at_def)
  ultimately show ?thesis
    using can by (simp add: assertUtcDay_def assertManifestString_def utc_day_nonempty)
qed

lemma assertUtcDay_iff:
  "assertUtcDay v = Inr () \<longleftrightarrow> (\<exists>t. time_in_range t \<and> four_digit_year t \<and> v = JStr (utc_day t))"
proof
  assume ok: "assertUtcDay v = Inr ()"
  then have ne: "nonempty_str v" and sh: "day_shape (str_of v)" and can: "day_canonical (str_of v)"
    by (simp_all add: assertUtcDay_def assertManifestString_def)
  obtain s where v: "v = JStr s" using nonempty_strD [OF ne] by blast
  have len: "length s = 10" using sh by (simp add: v day_shape_def)
  have "\<forall>i\<in>set [0..<10]. if i = 4 \<or> i = 7 then s ! i = CHR ''-'' else is_digit (s ! i)"
    using sh unfolding v day_shape_def list_all_iff str_of.simps by blast
  from bspec [OF this, of 0] have d0: "is_digit (s ! 0)" by simp
  obtain t where "parse_iso (s @ ''T00:00:00.000Z'') = Some t"
    using can unfolding v day_canonical_def str_of.simps by blast
  then have t: "time_in_range t" "s @ ''T00:00:00.000Z'' = toISOString t"
    unfolding parse_iso_iff by blast+
  have "s = take 10 (s @ ''T00:00:00.000Z'')" using len by simp
  then have s: "s = utc_day t" unfolding t(2) utc_day_def .
  have "four_digit_year t"
  proof (rule ccontr)
    assume nf: "\<not> four_digit_year t"
    obtain y m d where civ: "civil_from_days (t div ms_per_day) = (y, m, d)" by (metis prod_cases3)
    have "\<not> (0 \<le> y \<and> y \<le> 9999)" using nf by (simp add: four_digit_year_def civ)
    then have "hd (year_text y) \<in> {CHR ''-'', CHR ''+''}" "year_text y \<noteq> []"
      unfolding year_text_def by (simp_all split: if_splits)
    then have "hd (toISOString t) \<in> {CHR ''-'', CHR ''+''}"
      by (simp add: toISOString_def day_text_def civ)
    moreover have "hd (toISOString t) = s ! 0"
      using len unfolding t(2) [symmetric] by (cases s) simp_all
    ultimately show False using d0 by (auto simp: is_digit_def)
  qed
  with t(1) s v show "\<exists>t. time_in_range t \<and> four_digit_year t \<and> v = JStr (utc_day t)" by blast
qed (use utc_day_accepted in blast)

text \<open>
  Calendar days. \<open>assertUtcDay\<close> accepts exactly the days that \<open>toISOString\<close> prints for
  some moment of the years 0 to 9999. Its rejection is not always a contract violation: a
  well-shaped text with a month above 12, a day above 31, or a zero month or day makes
  \<open>toISOString\<close> throw an untyped \<open>RangeError\<close>.
\<close>

theorem utc_day_exact:
  "(assertUtcDay v = Inr () \<longleftrightarrow> (\<exists>t. time_in_range t \<and> four_digit_year t \<and> v = JStr (utc_day t)))
   \<and> (assertUtcDay v = Inl RangeError \<longleftrightarrow>
        is_str v \<and> day_shape (str_of v) \<and> \<not> date_constructible (str_of v))
   \<and> assertUtcDay (JStr ''2026-13-01'') = Inl RangeError"
proof (intro conjI)
  show "assertUtcDay v = Inl RangeError \<longleftrightarrow>
      is_str v \<and> day_shape (str_of v) \<and> \<not> date_constructible (str_of v)"
    by (auto simp: assertUtcDay_def assertManifestString_def nonempty_str_def day_shape_def require_def)
  show "assertUtcDay (JStr ''2026-13-01'') = Inl RangeError" by code_simp
qed (rule assertUtcDay_iff)

section \<open>Reservations: created, hashed, routed\<close>

lemmas manifest_asserts =
  assertManifestString_def assertManifestHash_def assertSafeInteger_def assertManifestVersion_def

lemma toISOString_eq_iff:
  "time_in_range t \<Longrightarrow> time_in_range u \<Longrightarrow> toISOString t = toISOString u \<longleftrightarrow> t = u"
  using toISOString_inj by blast

lemma manifest_timestamp_iff:
  "parseManifestTimestamp v = Inr t \<longleftrightarrow> v = JStr (toISOString t) \<and> time_in_range t"
  using parse_iso_iff [of "str_of v" t]
  by (cases v) (auto simp: parseManifestTimestamp_def assertManifestString_def and_then_ok
      nonempty_str_def split: option.splits)

lemma reservationRoute_iff:
  "manifestReservationRoute dg tx at c = Inr route \<longleftrightarrow>
     nonempty_str tx \<and> sha256_hex_val c \<and> (\<exists>t. at = JStr (toISOString t) \<and> time_in_range t \<and>
       route = \<lparr>rt_day = utc_day t, rt_partition = digest_partition dg (str_of tx),
         rt_partition_count = 16,
         rt_routing_key = routing_key_of (utc_day t) (digest_partition dg (str_of tx)),
         rt_config_hash = str_of c\<rparr>)"
  by (auto simp: manifestReservationRoute_def and_then_ok manifest_timestamp_iff Let_def
      assertManifestString_def assertManifestHash_def MANIFEST_PARTITION_COUNT_def)

lemma reservation_fields:
  "jget (reservation_json f r tx co op ep at) ''protocol_version'' = jint CURRENT_PROTOCOL_VERSION"
  "jget (reservation_json f r tx co op ep at) ''format_version'' = jint MANIFEST_RESERVATION_FORMAT_VERSION"
  "jget (reservation_json f r tx co op ep at) ''fleet_id'' = f"
  "jget (reservation_json f r tx co op ep at) ''reservation_utc_day'' = JStr (rt_day r)"
  "jget (reservation_json f r tx co op ep at) ''partition'' = jint (rt_partition r)"
  "jget (reservation_json f r tx co op ep at) ''partition_count'' = jint (rt_partition_count r)"
  "jget (reservation_json f r tx co op ep at) ''routing_key'' = JStr (rt_routing_key r)"
  "jget (reservation_json f r tx co op ep at) ''partition_config_hash'' = JStr (rt_config_hash r)"
  "jget (reservation_json f r tx co op ep at) ''tx_id'' = tx"
  "jget (reservation_json f r tx co op ep at) ''coordinator_id'' = co"
  "jget (reservation_json f r tx co op ep at) ''operation_hash'' = op"
  "jget (reservation_json f r tx co op ep at) ''decision_epoch'' = ep"
  "jget (reservation_json f r tx co op ep at) ''reserved_at'' = at"
  by (simp_all add: reservation_json_def)

lemma reservation_keys: "jkeys (reservation_json f r tx co op ep at) = RESERVATION_KEYS"
  by (simp add: reservation_json_def RESERVATION_KEYS_def ROUTE_KEYS_def)

lemma exact_keys_same: "jkeys v = ks \<Longrightarrow> assertExactKeys v ks = Inr ()"
  by (simp add: assertExactKeys_def list_all_iff)

lemma created_reservation_valid_iff:
  assumes route: "manifestReservationRoute dg tx at c = Inr r" and at: "at = JStr (toISOString t)"
    and t: "time_in_range t"
  shows "validateManifestReservation (reservation_json f r tx co op ep at) = Inr ()
    \<longleftrightarrow> nonempty_str f \<and> nonempty_str co \<and> sha256_hex_val op \<and> safe_int_from 1 ep \<and> four_digit_year t"
proof -
  have r: "nonempty_str tx" "sha256_hex_val c" "rt_day r = utc_day t"
    "rt_partition r = digest_partition dg (str_of tx)" "rt_partition_count r = 16"
    "rt_routing_key r = routing_key_of (utc_day t) (digest_partition dg (str_of tx))"
    "rt_config_hash r = str_of c"
    using route t by (auto simp: reservationRoute_iff at toISOString_eq_iff)
  have day: "assertUtcDay (JStr (utc_day t)) = Inr () \<longleftrightarrow> four_digit_year t"
  proof
    assume a: "assertUtcDay (JStr (utc_day t)) = Inr ()"
    then obtain u where u: "four_digit_year u" "utc_day t = utc_day u" by (auto simp: assertUtcDay_iff)
    show "four_digit_year t"
    proof (rule ccontr)
      assume nf: "\<not> four_digit_year t"
      obtain y m d where civ: "civil_from_days (t div ms_per_day) = (y, m, d)" by (metis prod_cases3)
      have "hd (year_text y) \<in> {CHR ''-'', CHR ''+''}" "year_text y \<noteq> []"
        using nf by (auto simp: four_digit_year_def civ year_text_def)
      then have "hd (utc_day t) \<in> {CHR ''-'', CHR ''+''}"
        by (cases "year_text y") (simp_all add: utc_day_def toISOString_def day_text_def civ)
      moreover have "is_digit (hd (utc_day t))"
      proof -
        have sh: "day_shape (utc_day t)" using a by (simp add: assertUtcDay_def)
        then have "\<forall>i\<in>set [0..<10]. if i = 4 \<or> i = 7 then utc_day t ! i = CHR ''-'' else is_digit (utc_day t ! i)"
          unfolding day_shape_def list_all_iff by blast
        from bspec [OF this, of 0] have "is_digit (utc_day t ! 0)" by simp
        then show ?thesis using utc_day_nonempty [of t] by (simp add: hd_conv_nth)
      qed
      ultimately show False by (auto simp: is_digit_def)
    qed
  qed (simp add: utc_day_accepted t)
  have part: "0 \<le> digest_partition dg s" "digest_partition dg s \<le> max_safe_integer"
    "digest_partition dg s < 16" for s
    using digest_partition_range [of dg s] by (simp_all add: max_safe_integer_def)
  have ts: "parseManifestTimestamp at = Inr t" by (simp add: manifest_timestamp_iff at t)
  have ch: "sha256_text (str_of c)" using sha256_hex_valD [OF r(2)] by blast
  have rk: "routing_key_of (utc_day t) k \<noteq> []" for k by (simp add: routing_key_of_def)
  have rf: "validateManifestRouteFields (reservation_json f r tx co op ep at) = Inr () \<longleftrightarrow> four_digit_year t"
    unfolding validateManifestRouteFields_def seq_checks_Cons reservation_fields r day
    using part ch rk by (simp add: manifest_asserts MANIFEST_PARTITION_COUNT_def)
  show ?thesis
    unfolding validateManifestReservation_def seq_checks_Cons reservation_fields rf ts and_then.simps r(3)
      exact_keys_same [OF reservation_keys]
    using r(1)
    by (simp add: manifest_asserts reservation_json_def assertPlainObject_def) auto
qed

lemma create_reservation_iff:
  assumes "time_in_range t"
  shows "createManifestReservation dg input (JStr (toISOString t)) = Inr res \<longleftrightarrow>
     nonempty_str (jget input ''fleet_id'') \<and> nonempty_str (jget input ''tx_id'')
     \<and> nonempty_str (jget input ''coordinator_id'') \<and> sha256_hex_val (jget input ''operation_hash'')
     \<and> safe_int_from 1 (jget input ''decision_epoch'') \<and> sha256_hex_val (jget input ''partition_config_hash'')
     \<and> four_digit_year t
     \<and> (\<exists>route. manifestReservationRoute dg (jget input ''tx_id'') (JStr (toISOString t))
            (jget input ''partition_config_hash'') = Inr route
          \<and> res = reservation_json (jget input ''fleet_id'') route (jget input ''tx_id'')
               (jget input ''coordinator_id'') (jget input ''operation_hash'')
               (jget input ''decision_epoch'') (JStr (toISOString t)))"
  (is "?L \<longleftrightarrow> ?R")
proof
  assume ?L
  then obtain route where r: "manifestReservationRoute dg (jget input ''tx_id'') (JStr (toISOString t))
      (jget input ''partition_config_hash'') = Inr route"
    and v: "validateManifestReservation (reservation_json (jget input ''fleet_id'') route (jget input ''tx_id'')
               (jget input ''coordinator_id'') (jget input ''operation_hash'')
               (jget input ''decision_epoch'') (JStr (toISOString t))) = Inr ()"
    and res: "res = reservation_json (jget input ''fleet_id'') route (jget input ''tx_id'')
               (jget input ''coordinator_id'') (jget input ''operation_hash'')
               (jget input ''decision_epoch'') (JStr (toISOString t))"
    by (auto simp: createManifestReservation_def and_then_ok Let_def)
  have "nonempty_str (jget input ''tx_id'')" "sha256_hex_val (jget input ''partition_config_hash'')"
    using r by (auto simp: reservationRoute_iff)
  then show ?R
    using v r res unfolding created_reservation_valid_iff [OF r refl assms] by blast
next
  assume R: ?R
  then obtain route where r: "manifestReservationRoute dg (jget input ''tx_id'') (JStr (toISOString t))
      (jget input ''partition_config_hash'') = Inr route"
    and res: "res = reservation_json (jget input ''fleet_id'') route (jget input ''tx_id'')
               (jget input ''coordinator_id'') (jget input ''operation_hash'')
               (jget input ''decision_epoch'') (JStr (toISOString t))"
    by blast
  have "validateManifestReservation res = Inr ()"
    unfolding res created_reservation_valid_iff [OF r refl assms] using R by blast
  then show ?L by (simp add: createManifestReservation_def r Let_def flip: res)
qed

lemma valid_reservation_route:
  assumes "validateManifestReservation v = Inr ()"
  obtains t route where "jget v ''reserved_at'' = JStr (toISOString t)" "time_in_range t"
    "manifestReservationRoute dg (jget v ''tx_id'') (jget v ''reserved_at'')
       (jget v ''partition_config_hash'') = Inr route"
    "rt_day route = utc_day t" "jget v ''reservation_utc_day'' = JStr (utc_day t)"
    "rt_partition route = digest_partition dg (str_of (jget v ''tx_id''))"
    "rt_partition_count route = 16" "jget v ''partition_count'' = jint 16"
    "rt_routing_key route = routing_key_of (utc_day t) (rt_partition route)"
    "jget v ''routing_key'' = JStr (routing_key_of (utc_day t) (int_of (jget v ''partition'')))"
    "jget v ''partition'' = jint (int_of (jget v ''partition''))"
proof -
  note v = assms [unfolded validateManifestReservation_def seq_checks_Cons]
  note rf = conjunct1 [OF conjunct2 [OF conjunct2 [OF conjunct2 [OF conjunct2 [OF v]]]]]
  obtain t where t: "jget v ''reserved_at'' = JStr (toISOString t)" "time_in_range t"
    "jget v ''reservation_utc_day'' = JStr (utc_day t)"
    using v by (auto simp: and_then_ok manifest_timestamp_iff)
  have ids: "nonempty_str (jget v ''tx_id'')" using v by (simp add: assertManifestString_def)
  have cfg: "sha256_hex_val (jget v ''partition_config_hash'')"
    and pc: "jget v ''partition_count'' = jint 16"
    and rk: "jget v ''routing_key'' = JStr (routing_key_of (utc_day t) (int_of (jget v ''partition'')))"
    and part: "safe_int_from 0 (jget v ''partition'')"
    using rf by (simp_all add: validateManifestRouteFields_def manifest_asserts t(3) MANIFEST_PARTITION_COUNT_def)
  define route where "route = \<lparr>rt_day = utc_day t,
      rt_partition = digest_partition dg (str_of (jget v ''tx_id'')), rt_partition_count = 16,
      rt_routing_key = routing_key_of (utc_day t) (digest_partition dg (str_of (jget v ''tx_id''))),
      rt_config_hash = str_of (jget v ''partition_config_hash'')\<rparr>"
  have "manifestReservationRoute dg (jget v ''tx_id'') (jget v ''reserved_at'')
       (jget v ''partition_config_hash'') = Inr route"
    using ids cfg t by (auto simp: reservationRoute_iff route_def)
  with t pc rk safe_int_fromD [OF part] show ?thesis by (intro that [of t route]) (simp_all add: route_def)
qed

lemma hash_reservation_iff:
  "hashManifestReservation dg v = Inr h \<longleftrightarrow>
     validateManifestReservation v = Inr ()
     \<and> jget v ''partition'' = jint (digest_partition dg (str_of (jget v ''tx_id'')))
     \<and> hashCanonicalJson dg v = Inr h"
proof (cases "validateManifestReservation v = Inr ()")
  case True
  show ?thesis
  proof (rule valid_reservation_route [OF True, of dg])
    fix t route
    assume *: "manifestReservationRoute dg (jget v ''tx_id'') (jget v ''reserved_at'')
         (jget v ''partition_config_hash'') = Inr route"
      "rt_day route = utc_day t" "jget v ''reservation_utc_day'' = JStr (utc_day t)"
      "rt_partition route = digest_partition dg (str_of (jget v ''tx_id''))"
      "rt_partition_count route = 16" "jget v ''partition_count'' = jint 16"
      "rt_routing_key route = routing_key_of (utc_day t) (rt_partition route)"
      "jget v ''routing_key'' = JStr (routing_key_of (utc_day t) (int_of (jget v ''partition'')))"
    show ?thesis
    proof (cases "jget v ''partition'' = jint (digest_partition dg (str_of (jget v ''tx_id'')))")
      case p: True
      then show ?thesis by (simp add: hashManifestReservation_def True * require_def)
    next
      case False
      then show ?thesis by (simp add: hashManifestReservation_def True * and_then_ok)
    qed
  qed
next
  case False
  then show ?thesis by (auto simp: hashManifestReservation_def and_then_ok)
qed

lemma created_reservation_text:
  assumes "is_str f" "is_str tx" "is_str co" "is_str op" "ep = jint n" "is_str at"
  shows "\<exists>t. canonicalJson (reservation_json f r tx co op ep at) = Inr t"
  unfolding reservation_json_def canonicalJson_JObj_ok
  using assms canonical_string_ok by auto

text \<open>
  C36: Reservations. For a trusted time, \<open>createManifestReservation\<close> succeeds exactly on
  well-formed input in a four-digit year; the reservation is then accepted by
  \<open>hashManifestReservation\<close>, which recomputes its route, and lands in the bucket of its UTC day
  and of the last digest byte of its transaction identifier.
\<close>

theorem reservation_created:
  assumes "time_in_range t"
  shows "((\<exists>res. createManifestReservation dg input (JStr (toISOString t)) = Inr res) \<longleftrightarrow>
       nonempty_str (jget input ''fleet_id'') \<and> nonempty_str (jget input ''tx_id'')
       \<and> nonempty_str (jget input ''coordinator_id'') \<and> sha256_hex_val (jget input ''operation_hash'')
       \<and> safe_int_from 1 (jget input ''decision_epoch'')
       \<and> sha256_hex_val (jget input ''partition_config_hash'') \<and> four_digit_year t)
    \<and> (\<forall>res. createManifestReservation dg input (JStr (toISOString t)) = Inr res \<longrightarrow>
         (\<exists>h. hashManifestReservation dg res = Inr h)
         \<and> jget res ''routing_key'' = JStr (utc_day t @ '':'' @
              two (int (last (sha256Bytes dg (str_of (jget input ''tx_id'')))) mod 16)))"
proof (intro conjI allI impI)
  show "(\<exists>res. createManifestReservation dg input (JStr (toISOString t)) = Inr res) \<longleftrightarrow>
       nonempty_str (jget input ''fleet_id'') \<and> nonempty_str (jget input ''tx_id'')
       \<and> nonempty_str (jget input ''coordinator_id'') \<and> sha256_hex_val (jget input ''operation_hash'')
       \<and> safe_int_from 1 (jget input ''decision_epoch'')
       \<and> sha256_hex_val (jget input ''partition_config_hash'') \<and> four_digit_year t"
    unfolding create_reservation_iff [OF assms] using assms by (auto simp: reservationRoute_iff)
next
  fix res
  assume "createManifestReservation dg input (JStr (toISOString t)) = Inr res"
  then obtain route where
    ok: "nonempty_str (jget input ''fleet_id'')" "nonempty_str (jget input ''tx_id'')"
      "nonempty_str (jget input ''coordinator_id'')" "sha256_hex_val (jget input ''operation_hash'')"
      "safe_int_from 1 (jget input ''decision_epoch'')" "four_digit_year t"
    and route: "manifestReservationRoute dg (jget input ''tx_id'') (JStr (toISOString t))
      (jget input ''partition_config_hash'') = Inr route"
    and res: "res = reservation_json (jget input ''fleet_id'') route (jget input ''tx_id'')
               (jget input ''coordinator_id'') (jget input ''operation_hash'')
               (jget input ''decision_epoch'') (JStr (toISOString t))"
    unfolding create_reservation_iff [OF assms] by blast
  have valid: "validateManifestReservation res = Inr ()"
    unfolding res created_reservation_valid_iff [OF route refl assms] using ok by blast
  have fields: "rt_partition route = digest_partition dg (str_of (jget input ''tx_id''))"
      "rt_routing_key route = routing_key_of (utc_day t) (digest_partition dg (str_of (jget input ''tx_id'')))"
    using route assms by (auto simp: reservationRoute_iff toISOString_eq_iff)
  have "\<exists>x. canonicalJson res = Inr x"
    unfolding res by (rule created_reservation_text)
      (use ok safe_int_fromD [OF ok(5)] in \<open>auto simp: nonempty_str_def sha256_hex_val_def\<close>)
  then obtain h where "hashCanonicalJson dg res = Inr h" using hashCanonicalJson_ok by blast
  with valid show "\<exists>h. hashManifestReservation dg res = Inr h"
    by (auto simp: hash_reservation_iff res reservation_fields fields)
  show "jget res ''routing_key'' = JStr (utc_day t @ '':'' @
      two (int (last (sha256Bytes dg (str_of (jget input ''tx_id'')))) mod 16))"
    by (simp add: res reservation_fields fields routing_key_of_def digest_partition_def
        MANIFEST_PARTITION_COUNT_def)
qed

theorem reservation_created_witness:
  "(\<exists>res. createManifestReservation zero_digest (JObj [(''fleet_id'', JStr ''f''), (''tx_id'', JStr ''tx''),
      (''coordinator_id'', JStr ''c''), (''operation_hash'', JStr (replicate 64 (CHR ''a''))),
      (''decision_epoch'', jint 1), (''partition_config_hash'', JStr (replicate 64 (CHR ''b'')))])
      (JStr (toISOString 0)) = Inr res)"
proof -
  have t: "time_in_range 0" by (simp add: time_in_range_def)
  have y: "four_digit_year 0" by code_simp
  have h: "sha256_text (replicate 64 (CHR ''a''))" "sha256_text (replicate 64 (CHR ''b''))" by code_simp+
  show ?thesis
    unfolding reservation_created [OF t, THEN conjunct1]
    using y h by (simp add: max_safe_integer_def del: replicate.simps)
qed

section \<open>Accepted records\<close>

lemma record_reservation_fields:
  "jget (record_reservation v) ''reserved_at'' = jget v ''reserved_at''"
  "jget (record_reservation v) ''reservation_utc_day'' = jget v ''reservation_utc_day''"
  "jget (record_reservation v) ''partition'' = jget v ''partition''"
  "jget (record_reservation v) ''routing_key'' = jget v ''routing_key''"
  "jget (record_reservation v) ''tx_id'' = jget v ''tx_id''"
  "jget (record_reservation v) ''operation_hash'' = jget v ''operation_hash''"
  "jget (record_reservation v) ''coordinator_id'' = jget v ''coordinator_id''"
  "jget (record_reservation v) ''decision_epoch'' = jget v ''decision_epoch''"
  "jget (record_reservation v) ''fleet_id'' = jget v ''fleet_id''"
  by (simp_all add: record_reservation_def)

lemma record_times:
  assumes "validateManifestRecordV2 v = Inr ()"
  obtains d r where "jget v ''commit_decided_at'' = JStr (toISOString d)"
    "jget v ''commit_decided_at_ms'' = jint d" "0 \<le> d"
    "jget v ''retention_deadline'' = JStr (toISOString r)" "d + 35 * 86400000 \<le> r"
proof -
  note v = assms [unfolded validateManifestRecordV2_def]
  from v obtain d where d: "parseManifestTimestamp (jget v ''commit_decided_at'') = Inr d"
    and rest: "assertSafeInteger 0 (jget v ''commit_decided_at_ms'') = Inr ()"
      "d = int_of (jget v ''commit_decided_at_ms'')"
      "and_then (parseManifestTimestamp (jget v ''retention_deadline''))
         (\<lambda>deadline. invalid (COORDINATOR_RETENTION_DAYS * 24 * 60 * 60 * 1000 \<le> deadline - d)) = Inr ()"
    by (auto simp: and_then_ok)
  from rest(3) obtain r where r: "jget v ''retention_deadline'' = JStr (toISOString r)" "d + 35 * 86400000 \<le> r"
    by (auto simp: and_then_ok manifest_timestamp_iff COORDINATOR_RETENTION_DAYS_def)
  have "safe_int_from 0 (jget v ''commit_decided_at_ms'')"
    using rest(1) by (simp add: assertSafeInteger_def)
  from safe_int_fromD [OF this] rest(2)
  have "jget v ''commit_decided_at_ms'' = jint d \<and> 0 \<le> d" by simp
  with d r that show ?thesis by (simp add: manifest_timestamp_iff)
qed

text \<open>
  C37: Records. A record \<open>hashManifestRecordV2\<close> accepts carries the hash of its own frozen
  reservation fields, sits in the bucket that the reservation time and the transaction
  identifier determine, states its decision time twice consistently, and is retained at least
  35 days after it.
\<close>

theorem accepted_record:
  assumes "hashManifestRecordV2 dg v = Inr h"
  shows "\<exists>t d r. jget v ''reserved_at'' = JStr (toISOString t)
      \<and> jget v ''reservation_utc_day'' = JStr (utc_day t)
      \<and> jget v ''partition'' = jint (digest_partition dg (str_of (jget v ''tx_id'')))
      \<and> jget v ''routing_key'' = JStr (routing_key_of (utc_day t) (digest_partition dg (str_of (jget v ''tx_id''))))
      \<and> hashManifestReservation dg (record_reservation v) = Inr (str_of (jget v ''reservation_hash''))
      \<and> jget v ''commit_decided_at'' = JStr (toISOString d) \<and> jget v ''commit_decided_at_ms'' = jint d
      \<and> jget v ''retention_deadline'' = JStr (toISOString r) \<and> d + 35 * 86400000 \<le> r"
proof -
  from assms obtain rh where valid: "validateManifestRecordV2 v = Inr ()"
    and rh: "hashManifestReservation dg (record_reservation v) = Inr rh"
    and eq: "jget v ''reservation_hash'' = JStr rh"
    by (auto simp: hashManifestRecordV2_def and_then_ok)
  have vr: "validateManifestReservation (record_reservation v) = Inr ()"
    and part: "jget v ''partition'' = jint (digest_partition dg (str_of (jget v ''tx_id'')))"
    using rh unfolding hash_reservation_iff record_reservation_fields by blast+
  from record_times [OF valid] obtain d r where dr: "jget v ''commit_decided_at'' = JStr (toISOString d)"
    "jget v ''commit_decided_at_ms'' = jint d"
    "jget v ''retention_deadline'' = JStr (toISOString r)" "d + 35 * 86400000 \<le> r" by metis
  from valid_reservation_route [OF vr, of dg, unfolded record_reservation_fields]
  obtain t where t: "jget v ''reserved_at'' = JStr (toISOString t)"
    "jget v ''reservation_utc_day'' = JStr (utc_day t)"
    "jget v ''routing_key'' = JStr (routing_key_of (utc_day t) (int_of (jget v ''partition'')))" by metis
  show ?thesis using dr t part rh eq by auto
qed

end
