(* ===== verification/JournalState.thy ===== *)
theory JournalState
  imports ManifestLaws "HOL-Library.Product_Lexorder"
begin

text \<open>
  The durable state of one journal bucket (\<open>JournalManifestDO\<close>,
  \<open>workers/control-plane/src/journal-manifest.ts\<close>): one record per SQL table row, one
  record for the whole database, and the queries the handlers share. A JSON column is the
  value it was written from (its text is canonical, which loses only key order). Columns that
  repeat a field of the JSON column are read from it. SQL \<open>NULL\<close> is \<open>None\<close>; integers are
  the safe integers of the source.
\<close>

section \<open>Rows\<close>

datatype res_state = RESERVED | FINALIZED | CANCELLED

datatype quarantine = NoQuarantine | UNRESOLVED | RESOLVED

record reservation_row =
  rv_tx :: string
  rv_hash :: string
  rv_json :: jval
  rv_state :: res_state
  rv_intent_hash :: "string option"
  rv_intent :: "jval option"
  rv_record_hash :: "string option"
  rv_record :: "jval option"
  rv_decided :: "int option"
  rv_sequence :: "int option"
  rv_deadline :: "int option"
  rv_released :: bool
  rv_quarantine :: quarantine
  rv_conflict_root :: string
  rv_attestation :: "string option"
  rv_updated :: int

record bucket_state =
  bk_config :: "string option"
  bk_floor :: int
  bk_sealed :: int
  bk_last_assigned :: int
  bk_next_sequence :: int
  bk_next_generation :: int
  bk_deleted_through :: int
  bk_retention_epoch :: int
  bk_retention_root :: string
  bk_evidence_revision :: int
  bk_certificate :: "string option"
  bk_certificate_json :: "jval option"
  bk_legacy_max :: "int option"
  bk_legacy_closed :: bool

datatype seal_mode = ADVANCE | EXACT_PREFIX

datatype seal_status = DRAINING | COMPLETE | QUARANTINED

type_synonym member_key = "int \<times> int \<times> string"

text \<open>The three cursor columns are written together, so they are one nullable triple.\<close>

record seal_row =
  sg_generation :: int
  sg_key :: string
  sg_cutoff :: int
  sg_mode :: seal_mode
  sg_status :: seal_status
  sg_cursor :: "member_key option"
  sg_count :: int
  sg_root :: string
  sg_receipt_hash :: "string option"
  sg_receipt :: "jval option"
  sg_evidence :: int
  sg_updated :: int

record partition_metadata =
  pm_fleet :: jval
  pm_day :: jval
  pm_partition :: jval
  pm_count :: jval
  pm_routing_key :: jval

record conflict_row =
  cf_tx :: string
  cf_hash :: string
  cf_json :: jval
  cf_kind :: string

record resolution_row =
  qr_key :: string
  qr_tx :: string
  qr_request_hash :: string
  qr_attestation_hash :: string

record page_cursor_row =
  pc_json :: string
  pc_request_hash :: string
  pc_expires :: int
  pc_start :: int
  pc_cutoff :: int

record alarm_row =
  al_purpose :: string
  al_fire_at :: int
  al_generation :: int

record v1_row =
  vr_tx :: string
  vr_hash :: string
  vr_record :: jval
  vr_deadline :: int
  vr_released :: bool
  vr_quarantined :: bool

record v1_conflict_row =
  vc_tx :: string
  vc_original :: string
  vc_hash :: string
  vc_observed :: int

record journal =
  j_meta :: "partition_metadata option"
  j_bucket :: bucket_state
  j_rows :: "reservation_row list"
  j_conflicts :: "conflict_row list"
  j_seals :: "seal_row list"
  j_alarms :: "alarm_row list"
  j_physical_alarm :: "int option"
  j_cursors :: "page_cursor_row list"
  j_resolutions :: "resolution_row list"
  j_v1 :: "v1_row list"
  j_v1_conflicts :: "v1_conflict_row list"

definition ZERO_HASH :: string where "ZERO_HASH = replicate 64 (CHR ''0'')"

definition DAY_MS :: int where "DAY_MS = 24 * 60 * 60 * 1000"
definition V2_HISTORY_RETENTION_MS :: int where
  "V2_HISTORY_RETENTION_MS = COORDINATOR_RETENTION_DAYS * DAY_MS"
definition LIFECYCLE_FAILURE_RETRY_MS :: int where "LIFECYCLE_FAILURE_RETRY_MS = 5 * 60 * 1000"
definition MANIFEST_CURSOR_LEASE_MS :: int where "MANIFEST_CURSOR_LEASE_MS = 15 * 60 * 1000"
definition HELD_RETENTION_RECHECK_MS :: int where "HELD_RETENTION_RECHECK_MS = 24 * 60 * 60 * 1000"

text \<open>What the migrations leave in a new bucket.\<close>

definition empty_bucket :: bucket_state where
  "empty_bucket =
     \<lparr>bk_config = None, bk_floor = 0, bk_sealed = 0, bk_last_assigned = 0, bk_next_sequence = 1,
      bk_next_generation = 1, bk_deleted_through = 0, bk_retention_epoch = 0, bk_retention_root = [],
      bk_evidence_revision = 0, bk_certificate = None, bk_certificate_json = None,
      bk_legacy_max = None, bk_legacy_closed = False\<rparr>"

definition empty_journal :: journal where
  "empty_journal =
     \<lparr>j_meta = None, j_bucket = empty_bucket, j_rows = [], j_conflicts = [], j_seals = [],
      j_alarms = [], j_physical_alarm = None, j_cursors = [], j_resolutions = [], j_v1 = [],
      j_v1_conflicts = []\<rparr>"

section \<open>Queries\<close>

abbreviation row_of :: "string \<Rightarrow> journal \<Rightarrow> reservation_row option" where
  "row_of tx st \<equiv> tbl_get rv_tx tx (j_rows st)"

abbreviation seal_of :: "int \<Rightarrow> journal \<Rightarrow> seal_row option" where
  "seal_of g st \<equiv> tbl_get sg_generation g (j_seals st)"

definition put_row :: "reservation_row \<Rightarrow> journal \<Rightarrow> journal" where
  "put_row r st = st\<lparr>j_rows := tbl_put rv_tx r (j_rows st)\<rparr>"

definition put_seal :: "seal_row \<Rightarrow> journal \<Rightarrow> journal" where
  "put_seal g st = st\<lparr>j_seals := tbl_put sg_generation g (j_seals st)\<rparr>"

definition set_bucket :: "(bucket_state \<Rightarrow> bucket_state) \<Rightarrow> journal \<Rightarrow> journal" where
  "set_bucket f st = st\<lparr>j_bucket := f (j_bucket st)\<rparr>"

definition bump_evidence :: "journal \<Rightarrow> journal" where
  "bump_evidence = set_bucket (\<lambda>b. b\<lparr>bk_evidence_revision := bk_evidence_revision b + 1\<rparr>)"

text \<open>\<open>INSERT OR IGNORE\<close> on the primary key (transaction, candidate hash).\<close>

definition add_conflict :: "conflict_row \<Rightarrow> journal \<Rightarrow> journal" where
  "add_conflict c st =
     (if \<exists>d\<in>set (j_conflicts st). cf_tx d = cf_tx c \<and> cf_hash d = cf_hash c then st
      else st\<lparr>j_conflicts := j_conflicts st @ [c]\<rparr>)"

text \<open>
  The members of the history up to a cutoff: \<open>state = 'FINALIZED' AND
  commit_decided_at_ms <= ?\<close>, in the order of the (time, sequence, transaction) index.
\<close>

definition member :: "int \<Rightarrow> reservation_row \<Rightarrow> bool" where
  "member cutoff r \<longleftrightarrow> rv_state r = FINALIZED
     \<and> (case rv_decided r of None \<Rightarrow> False | Some d \<Rightarrow> d \<le> cutoff)"

definition row_key :: "reservation_row \<Rightarrow> member_key" where
  "row_key r = (case rv_decided r of None \<Rightarrow> 0 | Some d \<Rightarrow> d,
                case rv_sequence r of None \<Rightarrow> 0 | Some s \<Rightarrow> s, rv_tx r)"

definition members :: "int \<Rightarrow> journal \<Rightarrow> reservation_row list" where
  "members cutoff st = sort_key row_key (filter (member cutoff) (j_rows st))"

definition after_cursor :: "member_key option \<Rightarrow> reservation_row \<Rightarrow> bool" where
  "after_cursor cursor r =
     (case (case cursor of None \<Rightarrow> (-1, -1, []) | Some k \<Rightarrow> k) of (d, s, t) \<Rightarrow>
      case row_key r of (rd, rs, rt) \<Rightarrow>
        rd > d \<or> (rd = d \<and> rs > s) \<or> (rd = d \<and> rs = s \<and> rt > t))"

definition unresolved_through :: "int \<Rightarrow> journal \<Rightarrow> reservation_row list" where
  "unresolved_through cutoff st =
     filter (\<lambda>r. member cutoff r \<and> rv_quarantine r = UNRESOLVED) (j_rows st)"

section \<open>Alarms\<close>

text \<open>\<open>rearmPhysicalAlarm\<close>: the earliest logical wake-up, or none.\<close>

definition rearmPhysicalAlarm :: "journal \<Rightarrow> journal" where
  "rearmPhysicalAlarm st =
     st\<lparr>j_physical_alarm :=
        (if j_alarms st = [] then None else Some (Min (al_fire_at ` set (j_alarms st))))\<rparr>"

definition scheduleAlarmPurpose :: "string \<Rightarrow> int \<Rightarrow> int \<Rightarrow> journal \<Rightarrow> journal" where
  "scheduleAlarmPurpose purpose t gen st =
     rearmPhysicalAlarm (st\<lparr>j_alarms :=
       tbl_put al_purpose
         \<lparr>al_purpose = purpose,
          al_fire_at = (case tbl_get al_purpose purpose (j_alarms st) of
              None \<Rightarrow> t | Some a \<Rightarrow> min (al_fire_at a) t),
          al_generation = gen\<rparr> (j_alarms st)\<rparr>)"

definition clearAlarmPurpose :: "string \<Rightarrow> journal \<Rightarrow> journal" where
  "clearAlarmPurpose purpose st =
     rearmPhysicalAlarm (st\<lparr>j_alarms := tbl_del al_purpose purpose (j_alarms st)\<rparr>)"

definition ensureAlarmAtOrBefore :: "int \<Rightarrow> journal \<Rightarrow> journal" where
  "ensureAlarmAtOrBefore t = scheduleAlarmPurpose ''retention'' t 0"

definition seal_purpose :: "int \<Rightarrow> string" where
  "seal_purpose g = ''seal:'' @ int_text g"

definition seal_alarm :: "int \<Rightarrow> int \<Rightarrow> journal \<Rightarrow> journal" where
  "seal_alarm now g = scheduleAlarmPurpose (seal_purpose g) (now + 1000) g"

section \<open>Errors and instants\<close>

text \<open>What a \<open>catch\<close> clause turns an exception into: its code, or the handler's fallback code.\<close>

fun caught :: "tx_code \<Rightarrow> js_error \<Rightarrow> tx_code" where
  "caught fallback (Violation c) = c"
| "caught fallback RangeError = fallback"
| "caught fallback TypeError = fallback"

definition retryable :: "tx_code \<Rightarrow> bool" where
  "retryable c \<longleftrightarrow> c \<in> set RETRYABLE_ERRORS"

definition iso_text :: "int \<Rightarrow> js_error + string" where
  "iso_text t = (if time_in_range t then Inr (toISOString t) else Inl RangeError)"

section \<open>Lemmas\<close>

lemmas state_updates = put_row_def put_seal_def set_bucket_def bump_evidence_def

lemma row_of_put: "row_of tx (put_row r st) = (if tx = rv_tx r then Some r else row_of tx st)"
  by (simp add: put_row_def tbl.lookup_put)

lemma seal_of_put: "seal_of g (put_seal s st) = (if g = sg_generation s then Some s else seal_of g st)"
  by (simp add: put_seal_def tbl.lookup_put)

lemma alarm_frame:
  "j_rows (scheduleAlarmPurpose p t g st) = j_rows st" "j_rows (clearAlarmPurpose p st) = j_rows st"
  "j_bucket (scheduleAlarmPurpose p t g st) = j_bucket st" "j_bucket (clearAlarmPurpose p st) = j_bucket st"
  "j_seals (scheduleAlarmPurpose p t g st) = j_seals st" "j_seals (clearAlarmPurpose p st) = j_seals st"
  "j_v1 (scheduleAlarmPurpose p t g st) = j_v1 st" "j_v1 (clearAlarmPurpose p st) = j_v1 st"
  "j_meta (scheduleAlarmPurpose p t g st) = j_meta st" "j_meta (clearAlarmPurpose p st) = j_meta st"
  "j_cursors (scheduleAlarmPurpose p t g st) = j_cursors st" "j_cursors (clearAlarmPurpose p st) = j_cursors st"
  "j_conflicts (scheduleAlarmPurpose p t g st) = j_conflicts st"
  "j_conflicts (clearAlarmPurpose p st) = j_conflicts st"
  "j_resolutions (scheduleAlarmPurpose p t g st) = j_resolutions st"
  "j_resolutions (clearAlarmPurpose p st) = j_resolutions st"
  by (simp_all add: scheduleAlarmPurpose_def clearAlarmPurpose_def rearmPhysicalAlarm_def)

lemma conflict_frame:
  "j_rows (add_conflict c st) = j_rows st" "j_bucket (add_conflict c st) = j_bucket st"
  "j_seals (add_conflict c st) = j_seals st" "j_v1 (add_conflict c st) = j_v1 st"
  "j_meta (add_conflict c st) = j_meta st" "j_cursors (add_conflict c st) = j_cursors st"
  by (simp_all add: add_conflict_def)

lemma after_cursor_iff:
  "after_cursor c r \<longleftrightarrow> (case c of None \<Rightarrow> (-1, -1, []) | Some k \<Rightarrow> k) < row_key r"
  by (auto simp: after_cursor_def row_key_def less_prod_def split: option.splits)

lemma set_members: "set (members c st) = {r \<in> set (j_rows st). member c r}"
  by (auto simp: members_def)

lemma sorted_members: "sorted (map row_key (members c st))"
  by (simp add: members_def)

end
