(* ===== verification/JournalTerminal.thy ===== *)
theory JournalTerminal
  imports JournalState
begin

text \<open>
  The write path of a journal bucket (\<open>JournalManifestDO\<close>): the legacy certificate, and
  \<open>reserve\<close>, \<open>finalize\<close>, \<open>cancel\<close> and \<open>resolveQuarantine\<close>. Each \<open>transactionSync\<close> block is a
  function of its own, because other requests may run at the \<open>await\<close>s between them; the
  handler composes them for a request that is not interrupted. \<open>now\<close> is \<open>Date.now()\<close>.
\<close>

section \<open>Legacy certificate\<close>

definition v1_time :: "v1_row \<Rightarrow> int option" where
  "v1_time r = parse_iso (str_of (jget (vr_record r) ''commit_decided_at''))"

definition legacy_row_json :: "v1_row \<Rightarrow> jval" where
  "legacy_row_json r = JObj
     [(''tx_id'', JStr (vr_tx r)), (''record_hash'', JStr (vr_hash r)),
      (''commit_decided_at'', jget (vr_record r) ''commit_decided_at'')]"

text \<open>The fence: close V1 insertion and read the ledger, in one transaction.\<close>

definition legacy_fence :: "journal \<Rightarrow> v1_row list \<times> journal" where
  "legacy_fence st =
     (sort_key vr_tx (filter (\<lambda>r. jget (vr_record r) ''protocol_version'' = jint 1) (j_v1 st)),
      set_bucket (\<lambda>b. b\<lparr>bk_legacy_closed := True\<rparr>) st)"

definition legacy_maximum :: "v1_row list \<Rightarrow> int" where
  "legacy_maximum rows =
     foldl (\<lambda>m r. case v1_time r of None \<Rightarrow> m | Some t \<Rightarrow> max m t) (-1) rows"

definition certificate_json :: "v1_row list \<Rightarrow> string \<Rightarrow> jval" where
  "certificate_json rows root = JObj
     [(''schema_version'', jint 2),
      (''status'', JStr (if rows = [] then ''NO_LEGACY'' else ''IMPORTED'')),
      (''record_count'', jint (int (length rows))),
      (''records_root'', JStr root),
      (''maximum_commit_decided_at_ms'', jint (legacy_maximum rows))]"

record certificate =
  ce_hash :: string
  ce_json :: jval
  ce_maximum :: int

definition certify_rows :: "digest_fn \<Rightarrow> v1_row list \<Rightarrow> js_error + certificate" where
  "certify_rows dg rows =
     and_then (violation (hashCanonicalJson dg (JArr (map legacy_row_json rows)))) (\<lambda>root.
     and_then (violation (hashCanonicalJson dg (certificate_json rows root)))
       (\<lambda>h. Inr \<lparr>ce_hash = h, ce_json = certificate_json rows root, ce_maximum = legacy_maximum rows\<rparr>))"

definition certificate_done :: "journal \<Rightarrow> string option" where
  "certificate_done st =
     (if bk_legacy_max (j_bucket st) = None then None else bk_certificate (j_bucket st))"

definition store_certificate :: "certificate \<Rightarrow> journal \<Rightarrow> string \<times> journal" where
  "store_certificate c st =
     (case certificate_done st of
        Some h \<Rightarrow> (h, st)
      | None \<Rightarrow> (ce_hash c, set_bucket (\<lambda>b. b\<lparr>bk_certificate := Some (ce_hash c),
          bk_certificate_json := Some (ce_json c), bk_legacy_max := Some (ce_maximum c)\<rparr>) st))"

definition ensureLegacyCertificate :: "digest_fn \<Rightarrow> journal \<Rightarrow> (js_error + string) \<times> journal" where
  "ensureLegacyCertificate dg st =
     (case certificate_done st of
        Some h \<Rightarrow> (Inr h, st)
      | None \<Rightarrow> (case legacy_fence st of (rows, st1) \<Rightarrow>
          (case certify_rows dg rows of
             Inl e \<Rightarrow> (Inl e, st1)
           | Inr c \<Rightarrow> (case store_certificate c st1 of (h, st2) \<Rightarrow> (Inr h, st2)))))"

section \<open>Reserve\<close>

datatype reserve_reply =
    Reserved string int string
  | AlreadyReserved string int string
  | ReserveRefused string bool int tx_code

fun reserve_ok :: "reserve_reply \<Rightarrow> bool" where
  "reserve_ok (ReserveRefused _ _ _ _) = False"
| "reserve_ok _ = True"

definition metadata_of :: "jval \<Rightarrow> partition_metadata" where
  "metadata_of v = \<lparr>pm_fleet = jget v ''fleet_id'', pm_day = jget v ''reservation_utc_day'',
     pm_partition = jget v ''partition'', pm_count = jget v ''partition_count'',
     pm_routing_key = jget v ''routing_key''\<rparr>"

definition new_row :: "string \<Rightarrow> jval \<Rightarrow> int \<Rightarrow> reservation_row" where
  "new_row h reservation now =
     \<lparr>rv_tx = str_of (jget reservation ''tx_id''), rv_hash = h, rv_json = reservation,
      rv_state = RESERVED, rv_intent_hash = None, rv_intent = None, rv_record_hash = None,
      rv_record = None, rv_decided = None, rv_sequence = None, rv_deadline = None,
      rv_released = False, rv_quarantine = NoQuarantine, rv_conflict_root = [],
      rv_attestation = None, rv_updated = now\<rparr>"

text \<open>Conflicting evidence: the row is parked, the evidence revision moves, the candidate is kept.\<close>

definition quarantine_row ::
  "reservation_row \<Rightarrow> string \<Rightarrow> jval \<Rightarrow> string \<Rightarrow> int \<Rightarrow> journal \<Rightarrow> journal" where
  "quarantine_row row h candidate kind now st =
     add_conflict \<lparr>cf_tx = rv_tx row, cf_hash = h, cf_json = candidate, cf_kind = kind\<rparr>
       (bump_evidence (put_row
          (row\<lparr>rv_quarantine := UNRESOLVED, rv_conflict_root := h, rv_updated := now\<rparr>) st))"

text \<open>Identity and configuration checks shared by the handlers that may initialise the bucket.\<close>

definition bucket_identity_ok :: "jval \<Rightarrow> journal \<Rightarrow> bool" where
  "bucket_identity_ok v st = (case j_meta st of None \<Rightarrow> True | Some m \<Rightarrow> m = metadata_of v)"

definition adopt_identity :: "jval \<Rightarrow> journal \<Rightarrow> journal" where
  "adopt_identity v st =
     (case j_meta st of None \<Rightarrow> st\<lparr>j_meta := Some (metadata_of v)\<rparr> | Some _ \<Rightarrow> st)"

definition config_ok :: "jval \<Rightarrow> journal \<Rightarrow> bool" where
  "config_ok v st =
     (case bk_config (j_bucket st) of None \<Rightarrow> True | Some c \<Rightarrow> JStr c = jget v ''partition_config_hash'')"

definition pin_bucket :: "jval \<Rightarrow> int \<Rightarrow> journal \<Rightarrow> journal" where
  "pin_bucket v floor = set_bucket (\<lambda>b. b\<lparr>
     bk_config := (case bk_config b of None \<Rightarrow> Some (str_of (jget v ''partition_config_hash'')) | c \<Rightarrow> c),
     bk_floor := max (bk_floor b) floor\<rparr>)"

definition reserve_tx ::
  "string \<Rightarrow> int \<Rightarrow> string \<Rightarrow> int \<Rightarrow> jval \<Rightarrow> journal \<Rightarrow> reserve_reply \<times> journal" where
  "reserve_tx h floor cert now reservation st =
     (if \<not> bucket_identity_ok reservation st
      then (ReserveRefused ''rejected_absent'' False 409 MANIFEST_RESERVATION_CONFLICT, st)
      else let st1 = adopt_identity reservation st in
      if \<not> config_ok reservation st1
      then (ReserveRefused ''rejected_absent'' False 409 MANIFEST_RESERVATION_CONFLICT, st1)
      else let st2 = pin_bucket reservation floor st1;
               answered_floor = max (bk_floor (j_bucket st1)) floor in
      case row_of (str_of (jget reservation ''tx_id'')) st2 of
        None \<Rightarrow> (Reserved h answered_floor cert, put_row (new_row h reservation now) st2)
      | Some row \<Rightarrow>
          if rv_hash row = h
          then if rv_quarantine row = UNRESOLVED
               then (ReserveRefused ''quarantined'' True 409 MANIFEST_RESERVATION_CONFLICT, st2)
               else (AlreadyReserved h answered_floor cert, st2)
          else (ReserveRefused ''quarantined'' True 409 MANIFEST_RESERVATION_CONFLICT,
                quarantine_row row h reservation ''RESERVE'' now st2))"

text \<open>What \<open>reserve\<close> decides before it touches the database: a refusal or the reservation's hash.\<close>

definition reserve_admit :: "digest_fn \<Rightarrow> jval \<Rightarrow> jval \<Rightarrow> jval \<Rightarrow> js_error + (reserve_reply + string)" where
  "reserve_admit dg input claimed floor =
     and_then (validateManifestReservation input) (\<lambda>_.
     and_then (hashManifestReservation dg input) (\<lambda>h. Inr
       (if JStr h \<noteq> claimed
        then Inl (ReserveRefused ''rejected_absent'' False 409 MANIFEST_RESERVATION_CONFLICT)
        else if \<not> safe_int_from 0 floor
        then Inl (ReserveRefused ''rejected_absent'' False 400 MANIFEST_INVALID_REQUEST)
        else Inr h)))"

definition reserve_failure :: "js_error \<Rightarrow> reserve_reply" where
  "reserve_failure e =
     (let c = caught LEGACY_CERTIFICATION_UNAVAILABLE e
      in ReserveRefused (if retryable c then ''unavailable'' else ''rejected_absent'') False
           (ERROR_HTTP_STATUS c) c)"

definition reserve ::
  "digest_fn \<Rightarrow> int \<Rightarrow> jval \<Rightarrow> jval \<Rightarrow> jval \<Rightarrow> journal \<Rightarrow> reserve_reply \<times> journal" where
  "reserve dg now input claimed floor st =
     (case reserve_admit dg input claimed floor of
        Inl e \<Rightarrow> (reserve_failure e, st)
      | Inr (Inl refusal) \<Rightarrow> (refusal, st)
      | Inr (Inr h) \<Rightarrow> (case ensureLegacyCertificate dg st of
          (Inl e, st1) \<Rightarrow> (reserve_failure e, st1)
        | (Inr cert, st1) \<Rightarrow> (case reserve_tx h (int_of floor) cert now input st1 of (reply, st2) \<Rightarrow>
            (reply, if reserve_ok reply then ensureAlarmAtOrBefore (now + V2_HISTORY_RETENTION_MS) st2
                    else st2))))"

section \<open>Finalize\<close>

datatype finalize_reply =
    Finalized jval string
  | AlreadyFinalized jval string
  | FinalizeRefused string int tx_code

datatype assignment =
    Assigned jval int int
  | AssignedBefore jval string
  | AssignRefused finalize_reply

definition finalize_assign ::
  "string \<Rightarrow> int \<Rightarrow> jval \<Rightarrow> journal \<Rightarrow> assignment \<times> journal" where
  "finalize_assign intentHash now intent st =
     (let conflict = FinalizeRefused ''conflict'' 409 MANIFEST_TERMINAL_CONFLICT in
      case row_of (str_of (jget intent ''tx_id'')) st of
        None \<Rightarrow> (AssignRefused conflict, st)
      | Some row \<Rightarrow>
        if JStr (rv_hash row) \<noteq> jget intent ''reservation_hash'' then (AssignRefused conflict, st)
        else if rv_quarantine row = UNRESOLVED
        then (AssignRefused (FinalizeRefused ''quarantined'' 409 MANIFEST_QUARANTINED), st)
        else if rv_state row = CANCELLED \<or> (rv_intent_hash row \<noteq> None \<and> rv_intent_hash row \<noteq> Some intentHash)
        then (AssignRefused conflict, quarantine_row row intentHash intent ''FINALIZE'' now st)
        else if rv_state row = FINALIZED \<and> rv_record row \<noteq> None \<and> rv_record_hash row \<noteq> None
        then (AssignedBefore (the (rv_record row)) (the (rv_record_hash row)), st)
        else if jget (rv_json row) ''operation_hash'' \<noteq> jget intent ''operation_hash''
             \<or> jget (rv_json row) ''decision_epoch'' \<noteq> jget intent ''decision_epoch''
        then (AssignRefused conflict, st)
        else if rv_state row = FINALIZED \<and> rv_decided row \<noteq> None \<and> rv_sequence row \<noteq> None
        then (Assigned (rv_json row) (the (rv_decided row)) (the (rv_sequence row)), st)
        else let bucket = j_bucket st;
                 decidedAt = max now (max (bk_last_assigned bucket + 1) (bk_floor bucket + 1));
                 sequence = bk_next_sequence bucket
             in (Assigned (rv_json row) decidedAt sequence,
                 put_row (row\<lparr>rv_state := FINALIZED, rv_intent_hash := Some intentHash,
                     rv_intent := Some intent, rv_decided := Some decidedAt,
                     rv_sequence := Some sequence, rv_updated := now\<rparr>)
                   (set_bucket (\<lambda>b. b\<lparr>bk_last_assigned := decidedAt, bk_next_sequence := sequence + 1\<rparr>) st)))"

definition finalize_record :: "jval \<Rightarrow> jval \<Rightarrow> int \<Rightarrow> int \<Rightarrow> string \<Rightarrow> string \<Rightarrow> jval" where
  "finalize_record intent reservation decidedAt sequence decidedText deadlineText = JObj
     [(''protocol_version'', jint CURRENT_PROTOCOL_VERSION),
      (''format_version'', jint MANIFEST_RECORD_V2_FORMAT_VERSION),
      (''fleet_id'', jget reservation ''fleet_id''),
      (''reservation_utc_day'', jget reservation ''reservation_utc_day''),
      (''partition'', jget reservation ''partition''),
      (''partition_count'', jget reservation ''partition_count''),
      (''routing_key'', jget reservation ''routing_key''),
      (''partition_config_hash'', jget reservation ''partition_config_hash''),
      (''tx_id'', jget reservation ''tx_id''),
      (''coordinator_id'', jget reservation ''coordinator_id''),
      (''operation_hash'', jget reservation ''operation_hash''),
      (''decision_epoch'', jget reservation ''decision_epoch''),
      (''reserved_at'', jget reservation ''reserved_at''),
      (''reservation_hash'', jget intent ''reservation_hash''),
      (''envelope_hash'', jget intent ''redo_envelope_hash''),
      (''commit_decided_at'', JStr decidedText),
      (''commit_decided_at_ms'', jint decidedAt),
      (''decision_sequence'', jint sequence),
      (''retention_deadline'', JStr deadlineText)]"

definition retention_deadline_of :: "int \<Rightarrow> int" where
  "retention_deadline_of decidedAt = decidedAt + COORDINATOR_RETENTION_DAYS * DAY_MS"

text \<open>Both instants as text, the record and its hash; what may throw after the assignment.\<close>

definition build_record :: "digest_fn \<Rightarrow> jval \<Rightarrow> jval \<Rightarrow> int \<Rightarrow> int \<Rightarrow> js_error + jval \<times> string" where
  "build_record dg intent reservation decidedAt sequence =
     and_then (iso_text decidedAt) (\<lambda>decidedText.
     and_then (iso_text (retention_deadline_of decidedAt)) (\<lambda>deadlineText.
       let r = finalize_record intent reservation decidedAt sequence decidedText deadlineText
       in and_then (hashManifestRecordV2 dg r) (\<lambda>h. Inr (r, h))))"

text \<open>The second transaction; \<open>None\<close> when \<open>one()\<close> throws because the row is gone.\<close>

definition finalize_persist ::
  "string \<Rightarrow> int \<Rightarrow> jval \<Rightarrow> int \<Rightarrow> int \<Rightarrow> jval \<Rightarrow> string \<Rightarrow> journal \<Rightarrow> bool option \<times> journal" where
  "finalize_persist intentHash now intent decidedAt sequence r recordHash st =
     (case row_of (str_of (jget intent ''tx_id'')) st of
        None \<Rightarrow> (None, st)
      | Some row \<Rightarrow>
        if rv_state row \<noteq> FINALIZED \<or> rv_intent_hash row \<noteq> Some intentHash
           \<or> rv_decided row \<noteq> Some decidedAt \<or> rv_sequence row \<noteq> Some sequence
        then (Some False, st)
        else if rv_record_hash row \<noteq> None then (Some (rv_record_hash row = Some recordHash), st)
        else (Some True, put_row (row\<lparr>rv_record_hash := Some recordHash, rv_record := Some r,
                rv_deadline := Some (retention_deadline_of decidedAt), rv_updated := now\<rparr>) st))"

definition finalize_answer :: "jval \<Rightarrow> jval \<Rightarrow> string \<Rightarrow> bool option \<Rightarrow> journal \<Rightarrow> finalize_reply" where
  "finalize_answer intent r recordHash persisted st =
     (let unavailable = FinalizeRefused ''unavailable'' 503 MANIFEST_TEMPORARILY_UNAVAILABLE;
          parked = FinalizeRefused ''quarantined'' 409 MANIFEST_QUARANTINED in
      case persisted of None \<Rightarrow> unavailable
      | Some False \<Rightarrow> parked
      | Some True \<Rightarrow> (case row_of (str_of (jget intent ''tx_id'')) st of
          None \<Rightarrow> unavailable
        | Some row \<Rightarrow> if rv_quarantine row = UNRESOLVED then parked else Finalized r recordHash))"

definition finalize_failure :: "js_error \<Rightarrow> finalize_reply" where
  "finalize_failure e =
     (let c = caught MANIFEST_TEMPORARILY_UNAVAILABLE e
      in FinalizeRefused (if retryable c then ''unavailable'' else ''conflict'') (ERROR_HTTP_STATUS c) c)"

definition finalize :: "digest_fn \<Rightarrow> int \<Rightarrow> jval \<Rightarrow> journal \<Rightarrow> finalize_reply \<times> journal" where
  "finalize dg now intent st =
     (case hashManifestFinalizeIntent dg intent of
        Inl e \<Rightarrow> (finalize_failure e, st)
      | Inr intentHash \<Rightarrow> (case finalize_assign intentHash now intent st of
          (AssignRefused reply, st1) \<Rightarrow> (reply, st1)
        | (AssignedBefore r h, st1) \<Rightarrow> (AlreadyFinalized r h, st1)
        | (Assigned reservation decidedAt sequence, st1) \<Rightarrow>
            (case iso_text decidedAt of
               Inl e \<Rightarrow> (finalize_failure e, st1)
             | Inr _ \<Rightarrow>
               (let st2 = ensureAlarmAtOrBefore (retention_deadline_of decidedAt) st1 in
                case build_record dg intent reservation decidedAt sequence of
                  Inl e \<Rightarrow> (finalize_failure e, st2)
                | Inr (r, recordHash) \<Rightarrow>
                  (case finalize_persist intentHash now intent decidedAt sequence r recordHash st2 of
                     (ok, st3) \<Rightarrow> (finalize_answer intent r recordHash ok st3, st3))))))"

section \<open>Cancel\<close>

datatype cancel_reply = Cancelled | AlreadyCancelled | CancelRefused string int tx_code

fun cancel_ok :: "cancel_reply \<Rightarrow> bool" where
  "cancel_ok (CancelRefused _ _ _) = False"
| "cancel_ok _ = True"

definition cancel_tx :: "string \<Rightarrow> int \<Rightarrow> jval \<Rightarrow> journal \<Rightarrow> cancel_reply \<times> journal" where
  "cancel_tx intentHash now intent st =
     (let conflict = CancelRefused ''conflict'' 409 MANIFEST_TERMINAL_CONFLICT in
      case row_of (str_of (jget intent ''tx_id'')) st of
        None \<Rightarrow> (conflict, st)
      | Some row \<Rightarrow>
        if JStr (rv_hash row) \<noteq> jget intent ''reservation_hash'' then (conflict, st)
        else if rv_quarantine row = UNRESOLVED
        then (CancelRefused ''quarantined_pending_resolution'' 409 MANIFEST_QUARANTINED, st)
        else if rv_state row = CANCELLED \<and> rv_intent_hash row = Some intentHash then (AlreadyCancelled, st)
        else if rv_state row = FINALIZED \<or> (rv_intent_hash row \<noteq> None \<and> rv_intent_hash row \<noteq> Some intentHash)
        then (conflict, quarantine_row row intentHash intent ''CANCEL'' now st)
        else if jget (rv_json row) ''operation_hash'' \<noteq> jget intent ''operation_hash''
             \<or> jget (rv_json row) ''decision_epoch'' \<noteq> jget intent ''decision_epoch''
        then (conflict, st)
        else (Cancelled, put_row (row\<lparr>rv_state := CANCELLED, rv_intent_hash := Some intentHash,
                rv_intent := Some intent, rv_updated := now\<rparr>) st))"

definition cancel_failure :: "js_error \<Rightarrow> cancel_reply" where
  "cancel_failure e =
     (let c = caught MANIFEST_TEMPORARILY_UNAVAILABLE e
      in CancelRefused (if retryable c then ''unavailable'' else ''conflict'') (ERROR_HTTP_STATUS c) c)"

definition hash_cancel_intent :: "digest_fn \<Rightarrow> jval \<Rightarrow> js_error + string" where
  "hash_cancel_intent dg intent =
     and_then (validateManifestCancelIntent intent) (\<lambda>_. violation (hashCanonicalJson dg intent))"

definition cancel :: "digest_fn \<Rightarrow> int \<Rightarrow> jval \<Rightarrow> journal \<Rightarrow> cancel_reply \<times> journal" where
  "cancel dg now intent st =
     (case hash_cancel_intent dg intent of
        Inl e \<Rightarrow> (cancel_failure e, st)
      | Inr intentHash \<Rightarrow> (case cancel_tx intentHash now intent st of (reply, st1) \<Rightarrow>
          (reply, if cancel_ok reply then ensureAlarmAtOrBefore (now + V2_HISTORY_RETENTION_MS) st1 else st1)))"

section \<open>Quarantine resolution\<close>

definition commit_authorized :: "string list" where
  "commit_authorized = [''commit_deciding'', ''commit_pending_manifest'', ''manifest_registered'',
     ''committing'', ''committed_pending_ack'', ''committed'', ''quarantined'']"

definition cancel_authorized :: "string list" where
  "cancel_authorized =
     [''abort_decided'', ''aborting'', ''aborted_pending_manifest_cancel'', ''aborted'', ''quarantined'']"

definition RESOLUTION_KEYS :: "string list" where
  "RESOLUTION_KEYS = [''actor'', ''coordinator_state'', ''coordinator_state_hash'', ''evidence_hash'',
     ''idempotency_key'', ''reason'', ''reservation'', ''reservation_hash'', ''resolution'',
     ''selected_hash'', ''terminal_intent'']"

text \<open>A string with a character \<open>trim\<close> keeps.\<close>

definition visible_str :: "jval \<Rightarrow> bool" where
  "visible_str v \<longleftrightarrow> is_str v
     \<and> list_ex (\<lambda>c. let n = (of_char c :: nat) in \<not> (9 \<le> n \<and> n \<le> 13) \<and> n \<noteq> 32 \<and> n \<noteq> 160) (str_of v)"

definition str_in :: "jval \<Rightarrow> string list \<Rightarrow> bool" where
  "str_in v ss \<longleftrightarrow> is_str v \<and> str_of v \<in> set ss"

abbreviation type_check :: "bool \<Rightarrow> mcheck" where
  "type_check b \<equiv> require b TypeError"

definition is_finalizing :: "jval \<Rightarrow> bool" where
  "is_finalizing input \<longleftrightarrow> jget input ''resolution'' = JStr ''FINALIZED''"

text \<open>Everything that does not read the database; the value is the hash of the selected intent.\<close>

definition resolution_admit :: "digest_fn \<Rightarrow> jval \<Rightarrow> js_error + string" where
  "resolution_admit dg input =
     (let res = jget input ''reservation''; co = jget input ''coordinator_state'';
          ti = jget input ''terminal_intent'' in
      and_then (type_check (is_plain input
        \<and> join_comma (sort (jkeys input)) = join_comma (sort RESOLUTION_KEYS))) (\<lambda>_.
      and_then (validateManifestReservation res) (\<lambda>_.
      and_then (hashManifestReservation dg res) (\<lambda>resHash.
      and_then (type_check (jget input ''reservation_hash'' = JStr resHash
          \<and> sha256_hex_val (jget input ''selected_hash'')
          \<and> sha256_hex_val (jget input ''evidence_hash'')
          \<and> sha256_hex_val (jget input ''coordinator_state_hash'')
          \<and> visible_str (jget input ''actor'') \<and> visible_str (jget input ''reason'')
          \<and> nonempty_str (jget input ''idempotency_key'')
          \<and> str_in (jget input ''resolution'') [''FINALIZED'', ''CANCELLED''])) (\<lambda>_.
      and_then (violation (hashCanonicalJson dg co)) (\<lambda>coHash.
      and_then (type_check (jget input ''coordinator_state_hash'' = JStr coHash)) (\<lambda>_.
      and_then (type_check (jget co ''tx_id'' = jget res ''tx_id''
          \<and> jget co ''coordinator_id'' = jget res ''coordinator_id''
          \<and> jget co ''epoch'' = jget res ''decision_epoch''
          \<and> jget co ''operation_hash'' = jget res ''operation_hash''
          \<and> jget co ''reservation_hash'' = jget input ''reservation_hash'')) (\<lambda>_.
      and_then (type_check (if is_finalizing input
          then str_in (jget co ''state'') commit_authorized
               \<and> str_in (jget co ''decision'') [''commit'', ''quarantined'']
          else str_in (jget co ''state'') cancel_authorized
               \<and> str_in (jget co ''decision'') [''abort'', ''quarantined''])) (\<lambda>_.
      and_then (if is_finalizing input then validateManifestFinalizeIntent ti
                else validateManifestCancelIntent ti) (\<lambda>_.
      and_then (if is_finalizing input then hashManifestFinalizeIntent dg ti
                else violation (hashCanonicalJson dg ti)) (\<lambda>tiHash.
      and_then (type_check (jget ti ''tx_id'' = jget res ''tx_id''
          \<and> jget ti ''reservation_hash'' = jget input ''reservation_hash''
          \<and> jget ti ''operation_hash'' = jget res ''operation_hash''
          \<and> jget ti ''decision_epoch'' = jget res ''decision_epoch''))
        (\<lambda>_. Inr tiHash))))))))))))"

text \<open>The checks against the durable row and the recorded candidates.\<close>

definition resolution_match :: "jval \<Rightarrow> string \<Rightarrow> journal \<Rightarrow> js_error + reservation_row" where
  "resolution_match input tiHash st =
     (case row_of (str_of (jget (jget input ''reservation'') ''tx_id'')) st of
        None \<Rightarrow> Inl TypeError
      | Some row \<Rightarrow>
        (let selected = jget input ''selected_hash'';
             candidate = find (\<lambda>c. cf_tx c = rv_tx row \<and> JStr (cf_hash c) = selected) (j_conflicts st);
             wanted = (if is_finalizing input then ''FINALIZE'' else ''CANCEL'') in
         if JStr (rv_hash row) \<noteq> jget input ''reservation_hash''
            \<or> jget (jget input ''coordinator_state'') ''authorization_source_hash'' \<noteq> JStr tiHash
         then Inl TypeError
         else if rv_state row = FINALIZED
         then (if \<not> is_finalizing input \<or> Some selected \<noteq> map_option JStr (rv_record_hash row)
                  \<or> rv_intent_hash row \<noteq> Some tiHash then Inl TypeError else Inr row)
         else if rv_state row = CANCELLED
         then (if is_finalizing input \<or> Some selected \<noteq> map_option JStr (rv_intent_hash row)
                  \<or> rv_intent_hash row \<noteq> Some tiHash then Inl TypeError else Inr row)
         else if selected \<noteq> JStr tiHash
              \<or> (case candidate of None \<Rightarrow> False | Some c \<Rightarrow> cf_kind c \<noteq> wanted)
         then Inl TypeError else Inr row))"

definition attestation_json :: "jval \<Rightarrow> reservation_row \<Rightarrow> jval" where
  "attestation_json input row = JObj
     [(''protocol_version'', jint CURRENT_PROTOCOL_VERSION), (''tx_id'', JStr (rv_tx row)),
      (''resolution'', jget input ''resolution''), (''selected_hash'', jget input ''selected_hash''),
      (''evidence_hash'', jget input ''evidence_hash''), (''actor'', jget input ''actor''),
      (''reason'', jget input ''reason''),
      (''coordinator_state_hash'', jget input ''coordinator_state_hash''),
      (''prior_conflict_root'',
         JStr (if rv_conflict_root row = [] then ZERO_HASH else rv_conflict_root row)),
      (''idempotency_key'', jget input ''idempotency_key'')]"

text \<open>The transaction: an idempotent replay, or the resolution of a row that awaits one.\<close>

definition resolution_tx ::
  "jval \<Rightarrow> string \<Rightarrow> string \<Rightarrow> string \<Rightarrow> int \<Rightarrow> journal \<Rightarrow> (js_error + bool) \<times> journal" where
  "resolution_tx input tx requestHash attestationHash now st =
     (case tbl_get qr_key (str_of (jget input ''idempotency_key'')) (j_resolutions st) of
        Some q \<Rightarrow> (if qr_request_hash q \<noteq> requestHash \<or> qr_attestation_hash q \<noteq> attestationHash
                   then Inl TypeError else Inr False, st)
      | None \<Rightarrow> (case row_of tx st of
          None \<Rightarrow> (Inl RangeError, st)
        | Some current \<Rightarrow>
            if rv_quarantine current \<noteq> UNRESOLVED then (Inl TypeError, st)
            else (Inr True, bump_evidence (put_row
                   (current\<lparr>rv_quarantine := RESOLVED, rv_attestation := Some attestationHash,
                      rv_updated := now\<rparr>)
                   (st\<lparr>j_resolutions := tbl_put qr_key
                      \<lparr>qr_key = str_of (jget input ''idempotency_key''), qr_tx = tx,
                       qr_request_hash = requestHash, qr_attestation_hash = attestationHash\<rparr>
                      (j_resolutions st)\<rparr>)))))"

datatype resolution_reply =
    Resolved bool string string "(jval \<times> string) option"
  | ResolutionRefused string int tx_code

definition resolution_failure :: "js_error \<Rightarrow> resolution_reply" where
  "resolution_failure e =
     (let c = (if e = TypeError then MANIFEST_TERMINAL_CONFLICT else MANIFEST_TEMPORARILY_UNAVAILABLE)
      in ResolutionRefused (if retryable c then ''unavailable'' else ''conflict'') (ERROR_HTTP_STATUS c) c)"

definition resolution_done :: "jval \<Rightarrow> bool \<Rightarrow> string \<Rightarrow> reservation_row \<Rightarrow> resolution_reply" where
  "resolution_done input fresh attestationHash terminal =
     Resolved fresh (str_of (jget input ''resolution'')) attestationHash
       (case (rv_record terminal, rv_record_hash terminal) of
          (Some r, Some h) \<Rightarrow> Some (r, h) | _ \<Rightarrow> None)"

text \<open>After the resolution, a row still reserved takes the selected terminal transition.\<close>

definition resolution_apply ::
  "digest_fn \<Rightarrow> int \<Rightarrow> jval \<Rightarrow> string \<Rightarrow> journal \<Rightarrow> resolution_reply option \<times> journal" where
  "resolution_apply dg now input tx st =
     (case row_of tx st of
        None \<Rightarrow> (Some (resolution_failure RangeError), st)
      | Some terminal \<Rightarrow>
        if rv_state terminal \<noteq> RESERVED then (None, st)
        else if is_finalizing input
        then (case finalize dg now (jget input ''terminal_intent'') st of
            (FinalizeRefused status http code, st1) \<Rightarrow>
              (Some (ResolutionRefused (if status = ''unavailable'' then ''unavailable'' else ''conflict'')
                 http code), st1)
          | (_, st1) \<Rightarrow> (None, st1))
        else (case cancel dg now (jget input ''terminal_intent'') st of
            (CancelRefused status http code, st1) \<Rightarrow>
              (Some (ResolutionRefused (if status = ''unavailable'' then ''unavailable'' else ''conflict'')
                 http code), st1)
          | (_, st1) \<Rightarrow> (None, st1)))"

definition resolveQuarantine ::
  "digest_fn \<Rightarrow> int \<Rightarrow> jval \<Rightarrow> journal \<Rightarrow> resolution_reply \<times> journal" where
  "resolveQuarantine dg now input st =
     (case and_then (resolution_admit dg input) (\<lambda>tiHash.
           and_then (resolution_match input tiHash st) (\<lambda>row.
           and_then (violation (hashCanonicalJson dg input)) (\<lambda>requestHash.
           and_then (violation (hashCanonicalJson dg (attestation_json input row)))
             (\<lambda>attestationHash. Inr (rv_tx row, requestHash, attestationHash))))) of
        Inl e \<Rightarrow> (resolution_failure e, st)
      | Inr (tx, requestHash, attestationHash) \<Rightarrow>
        (case resolution_tx input tx requestHash attestationHash now st of
           (Inl e, st1) \<Rightarrow> (resolution_failure e, st1)
         | (Inr fresh, st1) \<Rightarrow> (case resolution_apply dg now input tx st1 of
             (Some refusal, st2) \<Rightarrow> (refusal, st2)
           | (None, st2) \<Rightarrow> (case row_of tx st2 of
               None \<Rightarrow> (resolution_failure RangeError, st2)
             | Some terminal \<Rightarrow> (resolution_done input fresh attestationHash terminal, st2)))))"

end
