(* ===== verification/JournalSeal.thy ===== *)
theory JournalSeal
  imports JournalTerminal
begin

text \<open>
  Sealing a journal bucket (\<open>JournalManifestDO.closeThrough\<close>, \<open>initializeForSeal\<close>,
  \<open>resumeSeal\<close>, \<open>sealReceipt\<close>): a generation is opened at a cutoff, its members are digested
  page by page in index order, and a receipt is published when the digest covers all of them.
  \<open>resumeSeal\<close> hashes between its transactions, so each is a step of its own:
  \<open>seal_scan\<close>, \<open>seal_progress\<close>, \<open>seal_final\<close> and \<open>seal_publish\<close>.
\<close>

section \<open>Opening a generation\<close>

datatype seal_reply =
    SealPending int int
  | SealComplete int int jval
  | SealRefused string int tx_code "int option"

datatype seal_start = StartResume int | StartComplete int jval | StartReply seal_reply

definition names_bucket :: "jval \<Rightarrow> journal \<Rightarrow> bool" where
  "names_bucket v st \<longleftrightarrow> j_meta st = Some (metadata_of v)"

definition reset_progress :: "int \<Rightarrow> int \<Rightarrow> seal_row \<Rightarrow> seal_row" where
  "reset_progress evidence now g =
     g\<lparr>sg_status := DRAINING, sg_cursor := None, sg_count := 0, sg_root := ZERO_HASH,
       sg_receipt_hash := None, sg_receipt := None, sg_evidence := evidence, sg_updated := now\<rparr>"

definition new_seal :: "jval \<Rightarrow> int \<Rightarrow> int \<Rightarrow> journal \<Rightarrow> seal_row" where
  "new_seal request cutoff now st =
     \<lparr>sg_generation = bk_next_generation (j_bucket st),
      sg_key = str_of (jget request ''idempotency_key''), sg_cutoff = cutoff,
      sg_mode = (if cutoff < bk_sealed (j_bucket st) then EXACT_PREFIX else ADVANCE),
      sg_status = DRAINING, sg_cursor = None, sg_count = 0, sg_root = ZERO_HASH,
      sg_receipt_hash = None, sg_receipt = None,
      sg_evidence = bk_evidence_revision (j_bucket st), sg_updated = now\<rparr>"

definition replay_seal :: "seal_row \<Rightarrow> int \<Rightarrow> int \<Rightarrow> journal \<Rightarrow> seal_start \<times> journal" where
  "replay_seal replay cutoff now st =
     (if sg_cutoff replay \<noteq> cutoff
      then (StartReply (SealRefused ''rejected'' 409 MANIFEST_NONMONOTONIC_CUTOFF None), st)
      else if sg_status replay = COMPLETE \<and> sg_receipt replay \<noteq> None
      then (StartComplete (sg_generation replay) (the (sg_receipt replay)), st)
      else if sg_status replay = QUARANTINED
      then (if unresolved_through (sg_cutoff replay) st = []
            then (StartResume (sg_generation replay),
                  put_seal (reset_progress (bk_evidence_revision (j_bucket st)) now replay) st)
            else (StartReply (SealRefused ''quarantined'' 409 MANIFEST_QUARANTINED
                    (Some (sg_generation replay))), st))
      else (StartResume (sg_generation replay), st))"

text \<open>\<open>ORDER BY generation DESC LIMIT 1\<close> and \<open>ORDER BY generation LIMIT 1\<close>.\<close>

definition latest_seal :: "(seal_row \<Rightarrow> bool) \<Rightarrow> journal \<Rightarrow> seal_row option" where
  "latest_seal p st =
     (case sort_key sg_generation (filter p (j_seals st)) of [] \<Rightarrow> None | gs \<Rightarrow> Some (last gs))"

definition earliest_seal :: "(seal_row \<Rightarrow> bool) \<Rightarrow> journal \<Rightarrow> seal_row option" where
  "earliest_seal p st =
     (case sort_key sg_generation (filter p (j_seals st)) of [] \<Rightarrow> None | g # _ \<Rightarrow> Some g)"

definition open_seal :: "jval \<Rightarrow> int \<Rightarrow> int \<Rightarrow> journal \<Rightarrow> seal_start \<times> journal" where
  "open_seal request cutoff now st =
     (case (case latest_seal (\<lambda>g. sg_cutoff g = cutoff \<and> sg_status g = COMPLETE) st of
              None \<Rightarrow> None | Some exact \<Rightarrow> map_option (Pair (sg_generation exact)) (sg_receipt exact)) of
        Some (g, receipt) \<Rightarrow> (StartComplete g receipt, st)
      | None \<Rightarrow> (case earliest_seal (\<lambda>g. sg_status g = DRAINING) st of
          Some g \<Rightarrow> (StartReply (SealRefused ''seal_in_progress'' 409 MANIFEST_SEAL_IN_PROGRESS
                      (Some (sg_generation g))), st)
        | None \<Rightarrow>
            (let g = bk_next_generation (j_bucket st) in
             (StartResume g,
              set_bucket (\<lambda>b. b\<lparr>bk_next_generation := g + 1, bk_floor := max (bk_floor b) cutoff\<rparr>)
                (put_seal (new_seal request cutoff now st) st)))))"

definition close_start :: "jval \<Rightarrow> int \<Rightarrow> int \<Rightarrow> journal \<Rightarrow> seal_start \<times> journal" where
  "close_start request cutoff now st =
     (if \<not> names_bucket request st
      then (StartReply (SealRefused ''rejected'' 409 MANIFEST_RESERVATION_CONFLICT None), st)
      else if map_option JStr (bk_config (j_bucket st)) \<noteq> Some (jget request ''partition_config_hash'')
      then (StartReply (SealRefused ''rejected'' 409 MANIFEST_RESERVATION_CONFLICT None), st)
      else case tbl_get sg_key (str_of (jget request ''idempotency_key'')) (j_seals st) of
        Some replay \<Rightarrow> replay_seal replay cutoff now st
      | None \<Rightarrow> open_seal request cutoff now st)"

section \<open>Draining a generation\<close>

text \<open>What a page of the digest reads: the row's record hash and resolution attestation.\<close>

definition page_of :: "seal_row \<Rightarrow> nat \<Rightarrow> journal \<Rightarrow> reservation_row list" where
  "page_of g pageSize st = take pageSize (filter (after_cursor (sg_cursor g)) (members (sg_cutoff g) st))"

datatype scan_outcome =
    ScanReply seal_reply
  | ScanRows seal_row "reservation_row list"

definition seal_scan :: "nat \<Rightarrow> int \<Rightarrow> int \<Rightarrow> journal \<Rightarrow> (js_error + scan_outcome) \<times> journal" where
  "seal_scan pageSize now gen st =
     (case seal_of gen st of
        None \<Rightarrow> (Inl RangeError, st)
      | Some g \<Rightarrow>
        (let quarantined = Inr (ScanReply (SealRefused ''quarantined'' 409 MANIFEST_QUARANTINED (Some gen)));
             pending = Inr (ScanReply (SealPending gen (sg_cutoff g))) in
         if sg_status g = COMPLETE \<and> sg_receipt g \<noteq> None
         then (Inr (ScanReply (SealComplete gen (sg_cutoff g) (the (sg_receipt g)))),
               clearAlarmPurpose (seal_purpose gen) st)
         else if sg_status g = QUARANTINED
         then (quarantined, clearAlarmPurpose (seal_purpose gen) st)
         else if unresolved_through (sg_cutoff g) st \<noteq> []
         then (quarantined, clearAlarmPurpose (seal_purpose gen)
                (if sg_status g = DRAINING
                 then put_seal (g\<lparr>sg_status := QUARANTINED, sg_updated := now\<rparr>) st else st))
         else if bk_evidence_revision (j_bucket st) \<noteq> sg_evidence g
         then (pending, seal_alarm now gen
                (if sg_status g = DRAINING
                 then put_seal (reset_progress (bk_evidence_revision (j_bucket st)) now g) st else st))
         else let rows = page_of g pageSize st in
           if \<exists>r\<in>set rows. rv_record_hash r = None then (pending, seal_alarm now gen st)
           else (Inr (ScanRows g rows), st)))"

definition entry_hash :: "digest_fn \<Rightarrow> reservation_row \<Rightarrow> js_error + string" where
  "entry_hash dg r = violation (hashCanonicalJson dg (JArr
     [(case rv_record_hash r of None \<Rightarrow> JNull | Some h \<Rightarrow> JStr h),
      JStr (case rv_attestation r of None \<Rightarrow> ZERO_HASH | Some a \<Rightarrow> a)]))"

fun roll_root :: "digest_fn \<Rightarrow> string \<Rightarrow> reservation_row list \<Rightarrow> js_error + string" where
  "roll_root dg root [] = Inr root"
| "roll_root dg root (r # rs) =
     and_then (entry_hash dg r) (\<lambda>e.
     and_then (violation (hashCanonicalJson dg (JArr [JStr root, JStr e]))) (\<lambda>root'.
       roll_root dg root' rs))"

text \<open>
  The page is folded into the digest only if the generation is still where it was read:
  draining, at the same evidence revision and the same cursor.
\<close>

definition seal_progress ::
  "seal_row \<Rightarrow> reservation_row list \<Rightarrow> string \<Rightarrow> int \<Rightarrow> journal \<Rightarrow> bool option \<times> journal" where
  "seal_progress snap rows root now st =
     (case seal_of (sg_generation snap) st of
        None \<Rightarrow> (None, st)
      | Some current \<Rightarrow>
        if sg_status current \<noteq> DRAINING \<or> sg_evidence current \<noteq> sg_evidence snap
           \<or> bk_evidence_revision (j_bucket st) \<noteq> sg_evidence current
           \<or> sg_cursor current \<noteq> sg_cursor snap
        then (Some False, st)
        else (Some True, put_seal (current\<lparr>
            sg_cursor := (if rows = [] then sg_cursor current else Some (row_key (last rows))),
            sg_count := sg_count current + int (length rows), sg_root := root, sg_updated := now\<rparr>) st))"

section \<open>Publishing a receipt\<close>

record final_state =
  fs_current :: seal_row
  fs_count :: int
  fs_max_sequence :: "int option"
  fs_bucket :: bucket_state
  fs_prior :: "string option"
  fs_conflicts :: jval

definition max_sequence :: "reservation_row list \<Rightarrow> int option" where
  "max_sequence rows =
     (case map the (filter (\<lambda>s. s \<noteq> None) (map rv_sequence rows)) of
        [] \<Rightarrow> None | s # ss \<Rightarrow> Some (foldl max s ss))"

definition conflict_roots :: "journal \<Rightarrow> jval" where
  "conflict_roots st = JArr (map (\<lambda>r. JObj
     [(''conflict_root'', JStr (rv_conflict_root r)),
      (''resolution_attestation_hash'',
         case rv_attestation r of None \<Rightarrow> JNull | Some a \<Rightarrow> JStr a)])
     (sort_key rv_tx (filter (\<lambda>r. rv_conflict_root r \<noteq> []) (j_rows st))))"

definition seal_final :: "int \<Rightarrow> journal \<Rightarrow> js_error + final_state option" where
  "seal_final gen st =
     (case seal_of gen st of
        None \<Rightarrow> Inl RangeError
      | Some current \<Rightarrow>
        (let eligible = members (sg_cutoff current) st in
         if (\<exists>r\<in>set eligible. rv_record_hash r = None) \<or> int (length eligible) \<noteq> sg_count current
            \<or> bk_evidence_revision (j_bucket st) \<noteq> sg_evidence current
         then Inr None
         else Inr (Some \<lparr>fs_current = current, fs_count = int (length eligible),
             fs_max_sequence = max_sequence eligible, fs_bucket = j_bucket st,
             fs_prior = (case latest_seal (\<lambda>g. sg_status g = COMPLETE \<and> sg_generation g < gen) st of
                None \<Rightarrow> None | Some g \<Rightarrow> sg_receipt_hash g),
             fs_conflicts = conflict_roots st\<rparr>)))"

definition nullable :: "('a \<Rightarrow> jval) \<Rightarrow> 'a option \<Rightarrow> jval" where
  "nullable f v = (case v of None \<Rightarrow> JNull | Some x \<Rightarrow> f x)"

definition receipt_json :: "jval \<Rightarrow> int \<Rightarrow> final_state \<Rightarrow> string \<Rightarrow> string \<Rightarrow> string \<Rightarrow> jval" where
  "receipt_json request gen fs cutoffText conflictRoot certHash = JObj
     [(''protocol_version'', jint CURRENT_PROTOCOL_VERSION),
      (''format_version'', jint MANIFEST_SEAL_FORMAT_VERSION),
      (''fleet_id'', jget request ''fleet_id''),
      (''reservation_utc_day'', jget request ''reservation_utc_day''),
      (''partition'', jget request ''partition''),
      (''partition_count'', jget request ''partition_count''),
      (''routing_key'', jget request ''routing_key''),
      (''partition_config_hash'', jget request ''partition_config_hash''),
      (''cutoff'', JStr cutoffText),
      (''generation'', jint gen),
      (''decision_floor_ms'', jint (bk_floor (fs_bucket fs))),
      (''sealed_through_ms'', jint (sg_cutoff (fs_current fs))),
      (''record_count'', jint (fs_count fs)),
      (''maximum_decision_sequence'', nullable jint (fs_max_sequence fs)),
      (''records_deleted_through_ms'',
         if bk_deleted_through (fs_bucket fs) = 0 then JNull else jint (bk_deleted_through (fs_bucket fs))),
      (''retention_epoch'', jint (bk_retention_epoch (fs_bucket fs))),
      (''records_root'', JStr (sg_root (fs_current fs))),
      (''conflict_resolution_root'', JStr conflictRoot),
      (''local_legacy_certificate_hash'', JStr certHash),
      (''prior_receipt_hash'', nullable JStr (fs_prior fs))]"

definition build_receipt ::
  "digest_fn \<Rightarrow> jval \<Rightarrow> int \<Rightarrow> final_state \<Rightarrow> string \<Rightarrow> js_error + jval \<times> string" where
  "build_receipt dg request gen fs certHash =
     and_then (if fs_conflicts fs = JArr [] then Inr ZERO_HASH
               else violation (hashCanonicalJson dg (fs_conflicts fs))) (\<lambda>conflictRoot.
     and_then (iso_text (sg_cutoff (fs_current fs))) (\<lambda>cutoffText.
       let body = receipt_json request gen fs cutoffText conflictRoot certHash
       in and_then (violation (hashCanonicalJson dg body))
            (\<lambda>h. Inr (jset ''receipt_hash'' (JStr h) body, h))))"

definition seal_publish ::
  "int \<Rightarrow> final_state \<Rightarrow> jval \<Rightarrow> string \<Rightarrow> int \<Rightarrow> journal \<Rightarrow> bool option \<times> journal" where
  "seal_publish gen fs receipt receiptHash now st =
     (case seal_of gen st of
        None \<Rightarrow> (None, st)
      | Some current \<Rightarrow>
        (let eligible = members (sg_cutoff current) st in
         if sg_status current \<noteq> DRAINING \<or> sg_evidence current \<noteq> sg_evidence (fs_current fs)
            \<or> bk_evidence_revision (j_bucket st) \<noteq> sg_evidence current
            \<or> sg_count current \<noteq> sg_count (fs_current fs) \<or> sg_root current \<noteq> sg_root (fs_current fs)
            \<or> int (length eligible) \<noteq> sg_count current
            \<or> (\<exists>r\<in>set eligible. rv_quarantine r = UNRESOLVED)
            \<or> (\<exists>r\<in>set eligible. rv_record_hash r = None)
         then (Some False, st)
         else let st1 = put_seal (current\<lparr>sg_status := COMPLETE, sg_receipt_hash := Some receiptHash,
                    sg_receipt := Some receipt, sg_updated := now\<rparr>) st;
                  st2 = (if sg_mode current = ADVANCE
                    then set_bucket (\<lambda>b. b\<lparr>bk_sealed := max (bk_sealed b) (sg_cutoff current)\<rparr>) st1 else st1)
              in (Some True, st2\<lparr>j_alarms := tbl_del al_purpose (seal_purpose gen) (j_alarms st2)\<rparr>)))"

definition SEAL_PAGE_SIZE :: nat where "SEAL_PAGE_SIZE = 128"

definition resumeSeal ::
  "digest_fn \<Rightarrow> nat \<Rightarrow> int \<Rightarrow> int \<Rightarrow> jval \<Rightarrow> journal \<Rightarrow> (js_error + seal_reply) \<times> journal" where
  "resumeSeal dg pageSize now gen request st =
     (case seal_scan pageSize now gen st of
        (Inl e, st1) \<Rightarrow> (Inl e, st1)
      | (Inr (ScanReply reply), st1) \<Rightarrow> (Inr reply, st1)
      | (Inr (ScanRows snap rows), st1) \<Rightarrow>
        (let pending = Inr (SealPending gen (sg_cutoff snap)) in
         case roll_root dg (sg_root snap) rows of
           Inl e \<Rightarrow> (Inl e, st1)
         | Inr root \<Rightarrow> (case seal_progress snap rows root now st1 of
             (None, st2) \<Rightarrow> (Inl RangeError, st2)
           | (Some progressed, st2) \<Rightarrow>
             if \<not> progressed \<or> length rows = pageSize then (pending, seal_alarm now gen st2)
             else (case seal_final gen st2 of
                 Inl e \<Rightarrow> (Inl e, st2)
               | Inr None \<Rightarrow> (pending, seal_alarm now gen st2)
               | Inr (Some fs) \<Rightarrow> (case bk_certificate (fs_bucket fs) of
                   None \<Rightarrow> (pending, seal_alarm now gen st2)
                 | Some cert \<Rightarrow> (case build_receipt dg request gen fs cert of
                     Inl e \<Rightarrow> (Inl e, st2)
                   | Inr (receipt, h) \<Rightarrow> (case seal_publish gen fs receipt h now st2 of
                       (None, st3) \<Rightarrow> (Inl RangeError, st3)
                     | (Some False, st3) \<Rightarrow> (pending, seal_alarm now gen st3)
                     | (Some True, st3) \<Rightarrow> (Inr (SealComplete gen (sg_cutoff snap) receipt),
                         ensureAlarmAtOrBefore (now + V2_HISTORY_RETENTION_MS)
                           (rearmPhysicalAlarm st3)))))))))"

section \<open>The handlers\<close>

definition seal_failure :: "js_error \<Rightarrow> seal_reply" where
  "seal_failure e =
     (let c = caught MANIFEST_TEMPORARILY_UNAVAILABLE e
      in SealRefused (if retryable c then ''unavailable'' else ''rejected'') (ERROR_HTTP_STATUS c) c None)"

definition closeThrough :: "digest_fn \<Rightarrow> int \<Rightarrow> jval \<Rightarrow> journal \<Rightarrow> seal_reply \<times> journal" where
  "closeThrough dg now input st =
     (case and_then (validateManifestSealRequest input)
             (\<lambda>_. parseManifestTimestamp (jget input ''cutoff'')) of
        Inl e \<Rightarrow> (seal_failure e, st)
      | Inr cutoff \<Rightarrow>
        if cutoff > now then (SealRefused ''rejected'' 409 MANIFEST_FUTURE_CUTOFF None, st)
        else (case ensureLegacyCertificate dg st of
            (Inl e, st1) \<Rightarrow> (seal_failure e, st1)
          | (Inr _, st1) \<Rightarrow> (case close_start input cutoff now st1 of
              (StartReply reply, st2) \<Rightarrow>
                (reply, (case reply of
                   SealRefused status _ _ (Some g) \<Rightarrow>
                     if status = ''quarantined'' then clearAlarmPurpose (seal_purpose g) st2 else st2
                 | _ \<Rightarrow> st2))
            | (StartComplete g receipt, st2) \<Rightarrow>
                (SealComplete g cutoff receipt, clearAlarmPurpose (seal_purpose g) st2)
            | (StartResume g, st2) \<Rightarrow> (case resumeSeal dg SEAL_PAGE_SIZE now g input st2 of
                (Inl e, st3) \<Rightarrow> (seal_failure e, st3)
              | (Inr reply, st3) \<Rightarrow> (reply, st3)))))"

datatype init_reply = Initialized string int | InitRefused int tx_code

text \<open>The transaction of \<open>initializeForSeal\<close>; a throw inside it rolls everything back.\<close>

definition initialize_tx :: "jval \<Rightarrow> int \<Rightarrow> journal \<Rightarrow> (js_error + int) \<times> journal" where
  "initialize_tx request floor st =
     (if \<not> bucket_identity_ok request st then (Inl (Violation MANIFEST_RESERVATION_CONFLICT), st)
      else let st1 = adopt_identity request st in
      if \<not> config_ok request st1 then (Inl (Violation MANIFEST_RESERVATION_CONFLICT), st)
      else let st2 = pin_bucket request floor st1 in (Inr (bk_floor (j_bucket st2)), st2))"

definition initializeForSeal ::
  "digest_fn \<Rightarrow> jval \<Rightarrow> jval \<Rightarrow> jval \<Rightarrow> journal \<Rightarrow> (js_error + init_reply) \<times> journal" where
  "initializeForSeal dg input floor requiredSince st =
     (case seq_checks [validateManifestSealRequest input,
             invalid (safe_int_from 0 floor), invalid (safe_int_from 0 requiredSince)] of
        Inl e \<Rightarrow> (Inl e, st)
      | Inr _ \<Rightarrow> (case ensureLegacyCertificate dg st of
          (Inl e, st1) \<Rightarrow> (Inl e, st1)
        | (Inr cert, st1) \<Rightarrow>
          if (case bk_legacy_max (j_bucket st1) of None \<Rightarrow> True | Some m \<Rightarrow> int_of requiredSince \<le> m)
          then (Inr (InitRefused (ERROR_HTTP_STATUS MANIFEST_UNPROVEN_LEGACY_WINDOW)
                  MANIFEST_UNPROVEN_LEGACY_WINDOW), st1)
          else (case initialize_tx input (int_of floor) st1 of
              (Inl e, st2) \<Rightarrow> (Inl e, st2)
            | (Inr f, st2) \<Rightarrow> (Inr (Initialized cert f), st2))))"

definition sealReceipt :: "string \<Rightarrow> journal \<Rightarrow> jval option" where
  "sealReceipt receiptHash st =
     (if \<not> sha256_text receiptHash then None
      else case find (\<lambda>g. sg_receipt_hash g = Some receiptHash \<and> sg_status g = COMPLETE) (j_seals st) of
        None \<Rightarrow> None | Some g \<Rightarrow> sg_receipt g)"

end
