(* ===== verification/JournalPage.thy ===== *)
theory JournalPage
  imports JournalSeal
begin

text \<open>
  Reading a sealed bucket page by page (\<open>JournalManifestDO.localPage\<close>). The page transaction
  checks the bucket's identity, the retention epoch, the deleted prefix, the exact seal and
  unresolved evidence, then returns up to \<open>limit\<close> records in index order after the cursor and
  leases the window against retention.
\<close>

datatype page_reply =
    Page "jval list" "jval option" bool int "int option" int jval
  | PageRefused string int tx_code

record page_request =
  pr_json :: jval
  pr_hash :: string
  pr_start :: int
  pr_cutoff :: int

definition pr_cursor :: "page_request \<Rightarrow> jval" where
  "pr_cursor p = jget (pr_json p) ''cursor''"

definition cursor_key :: "jval \<Rightarrow> member_key option" where
  "cursor_key c = (if c = JNull then None
     else Some (int_of (jget c ''last_commit_decided_at_ms''), int_of (jget c ''last_decision_sequence''),
                str_of (jget c ''last_tx_id'')))"

definition in_window :: "int \<Rightarrow> int \<Rightarrow> reservation_row \<Rightarrow> bool" where
  "in_window lo hi r \<longleftrightarrow> rv_state r = FINALIZED
     \<and> (case rv_decided r of None \<Rightarrow> False | Some d \<Rightarrow> lo \<le> d \<and> d \<le> hi)"

definition window_rows :: "int \<Rightarrow> int \<Rightarrow> journal \<Rightarrow> reservation_row list" where
  "window_rows lo hi st =
     sort_key row_key (filter (\<lambda>r. in_window lo hi r \<and> rv_record r \<noteq> None) (j_rows st))"

definition page_cursor_json :: "string \<Rightarrow> int \<Rightarrow> seal_row \<Rightarrow> reservation_row \<Rightarrow> jval" where
  "page_cursor_json requestHash epoch g r = (case row_key r of (d, s, t) \<Rightarrow> JObj
     [(''protocol_version'', jint CURRENT_PROTOCOL_VERSION),
      (''format_version'', jint MANIFEST_CURSOR_FORMAT_VERSION),
      (''request_hash'', JStr requestHash),
      (''retention_epoch'', jint epoch),
      (''seal_generation'', jint (sg_generation g)),
      (''seal_receipt_hash'', nullable JStr (sg_receipt_hash g)),
      (''last_commit_decided_at_ms'', jint d),
      (''last_decision_sequence'', jint s),
      (''last_tx_id'', JStr t)])"

definition cursor_text :: "jval \<Rightarrow> string" where
  "cursor_text c = (case canonicalJson c of Inr t \<Rightarrow> t | Inl _ \<Rightarrow> [])"

text \<open>\<open>INSERT ... ON CONFLICT(cursor_json) DO UPDATE\<close> of a lease.\<close>

definition lease :: "string \<Rightarrow> page_request \<Rightarrow> int \<Rightarrow> journal \<Rightarrow> journal" where
  "lease key p expires st = st\<lparr>j_cursors := tbl_put pc_json
     \<lparr>pc_json = key, pc_request_hash = pr_hash p, pc_expires = expires,
      pc_start = pr_start p, pc_cutoff = pr_cutoff p\<rparr> (j_cursors st)\<rparr>"

definition cursor_issued :: "page_request \<Rightarrow> int \<Rightarrow> journal \<Rightarrow> bool" where
  "cursor_issued p now st \<longleftrightarrow>
     (case tbl_get pc_json (cursor_text (pr_cursor p)) (j_cursors st) of
        None \<Rightarrow> False | Some c \<Rightarrow> pc_request_hash c = pr_hash p \<and> pc_expires c > now)"

definition page_seal :: "page_request \<Rightarrow> journal \<Rightarrow> seal_row option" where
  "page_seal p st =
     (case find (\<lambda>g. jint (sg_generation g) = jget (pr_json p) ''seal_generation''
               \<and> sg_cutoff g = pr_cutoff p \<and> sg_status g = COMPLETE) (j_seals st) of
        None \<Rightarrow> None
      | Some g \<Rightarrow> if map_option JStr (sg_receipt_hash g) \<noteq> Some (jget (pr_json p) ''seal_receipt_hash'')
             \<or> sg_receipt g = None then None else Some g)"

text \<open>The refusals, in order; the seal that proves the page otherwise.\<close>

definition page_admit :: "page_request \<Rightarrow> int \<Rightarrow> journal \<Rightarrow> page_reply + seal_row" where
  "page_admit p now st =
     (let v = pr_json p; bucket = j_bucket st in
      if pr_cursor p \<noteq> JNull \<and> \<not> cursor_issued p now st
      then Inl (PageRefused ''cursor_mismatch'' 400 MANIFEST_CURSOR_MISMATCH)
      else if \<not> names_bucket v st
         \<or> map_option JStr (bk_config bucket) \<noteq> Some (jget v ''partition_config_hash'')
      then Inl (PageRefused ''coverage_gap'' 409 MANIFEST_COVERAGE_GAP)
      else if jget v ''expected_retention_epoch'' \<noteq> jint (bk_retention_epoch bucket)
      then Inl (PageRefused ''cursor_mismatch'' 400 MANIFEST_CURSOR_MISMATCH)
      else if bk_deleted_through bucket > 0 \<and> pr_start p \<le> bk_deleted_through bucket
      then Inl (PageRefused ''retention_expired'' 410 MANIFEST_RETENTION_EXPIRED)
      else case page_seal p st of
        None \<Rightarrow> Inl (PageRefused ''coverage_gap'' 409 MANIFEST_COVERAGE_GAP)
      | Some g \<Rightarrow>
          if pr_cursor p \<noteq> JNull \<and> (jget (pr_cursor p) ''seal_generation'' \<noteq> jint (sg_generation g)
               \<or> Some (jget (pr_cursor p) ''seal_receipt_hash'') \<noteq> map_option JStr (sg_receipt_hash g))
          then Inl (PageRefused ''cursor_mismatch'' 400 MANIFEST_CURSOR_MISMATCH)
          else if \<exists>r\<in>set (j_rows st). in_window (pr_start p) (pr_cutoff p) r \<and> rv_quarantine r = UNRESOLVED
          then Inl (PageRefused ''quarantined'' 409 MANIFEST_QUARANTINED)
          else Inr g)"

definition page_rows :: "page_request \<Rightarrow> nat \<Rightarrow> journal \<Rightarrow> reservation_row list" where
  "page_rows p n st =
     take n (filter (after_cursor (cursor_key (pr_cursor p))) (window_rows (pr_start p) (pr_cutoff p) st))"

definition page_tx :: "page_request \<Rightarrow> int \<Rightarrow> int \<Rightarrow> journal \<Rightarrow> page_reply \<times> journal" where
  "page_tx p now expires st =
     (case page_admit p now st of
        Inl refusal \<Rightarrow> (refusal, st)
      | Inr g \<Rightarrow>
        (let limit = nat (int_of (jget (pr_json p) ''limit''));
             rows = page_rows p (limit + 1) st;
             hasMore = (limit < length rows);
             pageRows = (if hasMore then take limit rows else rows);
             bucket = j_bucket st;
             next = (if hasMore \<and> pageRows \<noteq> []
                     then Some (page_cursor_json (pr_hash p) (bk_retention_epoch bucket) g (last pageRows))
                     else None);
             st1 = lease (''lease:'' @ pr_hash p) p expires st;
             st2 = (case next of None \<Rightarrow> st1 | Some c \<Rightarrow> lease (cursor_text c) p expires st1)
         in (Page (map (\<lambda>r. the (rv_record r)) pageRows) next (\<not> hasMore) (bk_retention_epoch bucket)
               (if bk_deleted_through bucket = 0 then None else Some (bk_deleted_through bucket))
               expires (the (sg_receipt g)), st2)))"

definition page_prepare :: "digest_fn \<Rightarrow> jval \<Rightarrow> js_error + page_request" where
  "page_prepare dg input =
     and_then (validateManifestLocalPageRequest input) (\<lambda>_.
     and_then (hashManifestRequest dg input) (\<lambda>h.
     and_then (if jget input ''cursor'' = JNull then Inr ()
               else assertManifestCursorMatchesRequest (jget input ''cursor'') (JStr h)) (\<lambda>_.
     and_then (parseManifestTimestamp (jget input ''coverage_start'')) (\<lambda>start.
     and_then (parseManifestTimestamp (jget input ''cutoff'')) (\<lambda>cutoff.
       Inr \<lparr>pr_json = input, pr_hash = h, pr_start = start, pr_cutoff = cutoff\<rparr>)))))"

definition page_failure :: "js_error \<Rightarrow> page_reply" where
  "page_failure e =
     (let c = caught MANIFEST_INVALID_REQUEST e
      in PageRefused (if c = MANIFEST_CURSOR_MISMATCH then ''cursor_mismatch'' else ''rejected'')
           (ERROR_HTTP_STATUS c) c)"

definition localPage :: "digest_fn \<Rightarrow> int \<Rightarrow> jval \<Rightarrow> journal \<Rightarrow> page_reply \<times> journal" where
  "localPage dg now input st =
     (case page_prepare dg input of
        Inl e \<Rightarrow> (page_failure e, st)
      | Inr p \<Rightarrow> page_tx p now (now + MANIFEST_CURSOR_LEASE_MS)
                   (ensureAlarmAtOrBefore (now + MANIFEST_CURSOR_LEASE_MS) st))"

end
