(* ===== verification/JournalLedger.thy ===== *)
theory JournalLedger
  imports JournalPage
begin

text \<open>
  The V1 ledger of a journal bucket and the release of retention holds
  (\<open>JournalManifestDO.register\<close>, \<open>lookup\<close>, \<open>release\<close>, \<open>releaseV2\<close>, and
  \<open>validatedManifestRegistration\<close> of \<open>service.ts\<close>).
\<close>

section \<open>Register\<close>

fun is_num :: "jval \<Rightarrow> bool" where
  "is_num (JNum _) = True"
| "is_num _ = False"

definition validatedManifestRegistration :: "digest_fn \<Rightarrow> jval \<Rightarrow> tx_code + jval" where
  "validatedManifestRegistration dg v =
     (if is_plain v \<and> is_plain (jget v ''record'')
         \<and> \<not> (is_num (jget (jget v ''record'') ''protocol_version'')
              \<and> is_num (jget (jget v ''record'') ''format_version''))
      then Inl TX_ENVELOPE_INVALID
      else and_then (validateManifestRegistration dg v None) (\<lambda>_. Inr v))"

datatype register_reply =
    Registered string
  | AlreadyRegistered string
  | RegisterQuarantined string "string option"
  | RegisterRefused string int tx_code

definition v1_metadata :: "jval \<Rightarrow> partition_metadata" where
  "v1_metadata record = \<lparr>pm_fleet = jget record ''fleet_id'', pm_day = jget record ''utc_day'',
     pm_partition = jget record ''partition'', pm_count = jget record ''partition_count'',
     pm_routing_key = jget record ''routing_key''\<rparr>"

definition add_v1_conflict :: "v1_conflict_row \<Rightarrow> journal \<Rightarrow> journal" where
  "add_v1_conflict c st =
     (if \<exists>d\<in>set (j_v1_conflicts st). vc_tx d = vc_tx c \<and> vc_hash d = vc_hash c then st
      else st\<lparr>j_v1_conflicts := j_v1_conflicts st @ [c]\<rparr>)"

text \<open>\<open>ORDER BY observed_at_ms DESC LIMIT 1\<close>.\<close>

definition latest_v1_conflict :: "string \<Rightarrow> journal \<Rightarrow> string option" where
  "latest_v1_conflict tx st =
     (case sort_key (\<lambda>c. - vc_observed c) (filter (\<lambda>c. vc_tx c = tx) (j_v1_conflicts st)) of
        [] \<Rightarrow> None | c # _ \<Rightarrow> Some (vc_hash c))"

definition register_tx :: "jval \<Rightarrow> string \<Rightarrow> int \<Rightarrow> int \<Rightarrow> journal \<Rightarrow> register_reply \<times> journal" where
  "register_tx record recordHash deadline now st =
     (let tx = str_of (jget record ''tx_id'') in
      if (case j_meta st of None \<Rightarrow> False | Some m \<Rightarrow> m \<noteq> v1_metadata record)
      then (RegisterRefused ''rejected'' 409 TX_MANIFEST_CONFLICT, st)
      else let st1 = (case j_meta st of None \<Rightarrow> st\<lparr>j_meta := Some (v1_metadata record)\<rparr> | Some _ \<Rightarrow> st) in
      case tbl_get vr_tx tx (j_v1 st1) of
        Some existing \<Rightarrow>
          if vr_hash existing = recordHash \<and> \<not> vr_quarantined existing
          then (AlreadyRegistered (vr_hash existing), st1)
          else let st2 = (if vr_hash existing \<noteq> recordHash
              then add_v1_conflict \<lparr>vc_tx = tx, vc_original = vr_hash existing, vc_hash = recordHash,
                       vc_observed = now\<rparr>
                     (st1\<lparr>j_v1 := tbl_put vr_tx (existing\<lparr>vr_quarantined := True\<rparr>) (j_v1 st1)\<rparr>)
              else st1)
            in (RegisterQuarantined (vr_hash existing) (latest_v1_conflict tx st2), st2)
      | None \<Rightarrow>
          if bk_legacy_closed (j_bucket st1) then (RegisterRefused ''rejected'' 409 V1_CLOSED, st1)
          else (Registered recordHash, st1\<lparr>j_v1 := tbl_put vr_tx
                 \<lparr>vr_tx = tx, vr_hash = recordHash, vr_record = record, vr_deadline = deadline,
                  vr_released = False, vr_quarantined = False\<rparr> (j_v1 st1)\<rparr>))"

definition register_failure :: "js_error \<Rightarrow> register_reply" where
  "register_failure e =
     (let c = caught TX_MANIFEST_UNAVAILABLE e
      in RegisterRefused (if c = TX_MANIFEST_UNAVAILABLE then ''unavailable'' else ''rejected'')
           (ERROR_HTTP_STATUS c) c)"

definition register :: "digest_fn \<Rightarrow> int \<Rightarrow> jval \<Rightarrow> journal \<Rightarrow> register_reply \<times> journal" where
  "register dg now input st =
     (case validatedManifestRegistration dg input of
        Inl c \<Rightarrow> (register_failure (Violation c), st)
      | Inr registration \<Rightarrow>
        (let record = jget registration ''record'' in
         case parse_iso (str_of (jget record ''retention_deadline'')) of
           None \<Rightarrow> (register_failure RangeError, st)
         | Some deadline \<Rightarrow> register_tx record (str_of (jget registration ''record_hash'')) deadline now
             (ensureAlarmAtOrBefore deadline st)))"

section \<open>Lookup\<close>

record lookup_found =
  lf_record :: jval
  lf_hash :: string
  lf_quarantined :: bool
  lf_conflicts :: "string list"
  lf_released :: bool

definition lookup :: "string \<Rightarrow> journal \<Rightarrow> lookup_found option" where
  "lookup tx st =
     (case tbl_get vr_tx tx (j_v1 st) of
        None \<Rightarrow> None
      | Some r \<Rightarrow> Some \<lparr>lf_record = vr_record r, lf_hash = vr_hash r, lf_quarantined = vr_quarantined r,
          lf_conflicts = sort (map vc_hash (filter (\<lambda>c. vc_tx c = tx) (j_v1_conflicts st))),
          lf_released = vr_released r\<rparr>)"

section \<open>Release\<close>

datatype release_reply =
    Released int
  | AlreadyReleased int
  | ReleaseNotFound
  | ReleaseRefused string int tx_code

definition release_tx :: "string \<Rightarrow> string \<Rightarrow> journal \<Rightarrow> release_reply \<times> journal" where
  "release_tx tx recordHash st =
     (case tbl_get vr_tx tx (j_v1 st) of
        None \<Rightarrow> (ReleaseNotFound, st)
      | Some r \<Rightarrow>
        if vr_quarantined r \<or> vr_hash r \<noteq> recordHash
        then (ReleaseRefused ''quarantined'' 409 TX_MANIFEST_CONFLICT, st)
        else if vr_released r then (AlreadyReleased (vr_deadline r), st)
        else (Released (vr_deadline r),
              st\<lparr>j_v1 := tbl_put vr_tx (r\<lparr>vr_released := True\<rparr>) (j_v1 st)\<rparr>))"

definition release_alarm :: "int \<Rightarrow> release_reply \<times> journal \<Rightarrow> release_reply \<times> journal" where
  "release_alarm now res =
     (case res of
        (Released d, st) \<Rightarrow> (Released d, ensureAlarmAtOrBefore (max now d) st)
      | (AlreadyReleased d, st) \<Rightarrow> (AlreadyReleased d, ensureAlarmAtOrBefore (max now d) st)
      | _ \<Rightarrow> res)"

definition release :: "int \<Rightarrow> string \<Rightarrow> string \<Rightarrow> journal \<Rightarrow> release_reply \<times> journal" where
  "release now tx recordHash st =
     (if \<not> sha256_text recordHash then (ReleaseRefused ''rejected'' 400 TX_ENVELOPE_INVALID, st)
      else release_alarm now (release_tx tx recordHash st))"

definition releaseV2_tx :: "string \<Rightarrow> string \<Rightarrow> string \<Rightarrow> int \<Rightarrow> journal \<Rightarrow> release_reply \<times> journal" where
  "releaseV2_tx tx reservationHash recordHash now st =
     (case row_of tx st of
        None \<Rightarrow> (ReleaseNotFound, st)
      | Some r \<Rightarrow>
        (case rv_deadline r of
           None \<Rightarrow> (ReleaseRefused ''quarantined'' 409 MANIFEST_QUARANTINED, st)
         | Some d \<Rightarrow>
           if rv_hash r \<noteq> reservationHash \<or> rv_record_hash r \<noteq> Some recordHash
              \<or> rv_quarantine r = UNRESOLVED
           then (ReleaseRefused ''quarantined'' 409 MANIFEST_QUARANTINED, st)
           else if rv_released r then (AlreadyReleased d, st)
           else (Released d, put_row (r\<lparr>rv_released := True, rv_updated := now\<rparr>) st)))"

definition releaseV2 :: "int \<Rightarrow> string \<Rightarrow> string \<Rightarrow> string \<Rightarrow> journal \<Rightarrow> release_reply \<times> journal" where
  "releaseV2 now tx reservationHash recordHash st =
     (if \<not> sha256_text reservationHash \<or> \<not> sha256_text recordHash
      then (ReleaseRefused ''rejected'' 400 MANIFEST_INVALID_REQUEST, st)
      else release_alarm now (releaseV2_tx tx reservationHash recordHash now st))"

end
