(* ===== verification/JournalRetention.thy ===== *)
theory JournalRetention
  imports JournalLedger
begin

text \<open>
  Retention and wake-ups of a journal bucket (\<open>JournalManifestDO.sweepV2Retention\<close>,
  \<open>sweepV2History\<close>, \<open>alarm\<close> and \<open>executeLifecycleAlarm\<close>). The V2 sweep hashes between
  reading its candidates and deleting them, so the two are steps of their own.
\<close>

section \<open>Sweeping released records\<close>

record sweep_result =
  sw_deleted :: int
  sw_deferred :: "int option"
  sw_cursor :: "int option"
  sw_more :: bool

definition opt_min :: "int list \<Rightarrow> int option" where
  "opt_min xs = (case xs of [] \<Rightarrow> None | y # ys \<Rightarrow> Some (foldl min y ys))"

definition expire_cursors :: "int \<Rightarrow> nat \<Rightarrow> journal \<Rightarrow> journal" where
  "expire_cursors now limit st =
     (let gone = map pc_json (take limit (sort_key pc_expires
                   (filter (\<lambda>c. pc_expires c \<le> now) (j_cursors st))))
      in st\<lparr>j_cursors := filter (\<lambda>c. pc_json c \<notin> set gone) (j_cursors st)\<rparr>)"

definition due_record :: "int \<Rightarrow> reservation_row \<Rightarrow> bool" where
  "due_record now r \<longleftrightarrow> rv_state r = FINALIZED \<and> rv_quarantine r \<noteq> UNRESOLVED \<and> rv_released r
     \<and> (case rv_deadline r of None \<Rightarrow> False | Some d \<Rightarrow> d \<le> now)"

definition due_records :: "int \<Rightarrow> nat \<Rightarrow> journal \<Rightarrow> reservation_row list" where
  "due_records now limit st = take limit (sort_key row_key (filter (due_record now) (j_rows st)))"

definition candidate_json :: "reservation_row \<Rightarrow> jval" where
  "candidate_json r = JObj
     [(''tx_id'', JStr (rv_tx r)), (''record_hash'', nullable JStr (rv_record_hash r)),
      (''commit_decided_at_ms'', nullable jint (rv_decided r))]"

definition leases_over :: "int \<Rightarrow> reservation_row list \<Rightarrow> journal \<Rightarrow> page_cursor_row list" where
  "leases_over now rows st =
     (let lo = fst (row_key (hd rows)); hi = fst (row_key (last rows))
      in filter (\<lambda>c. pc_expires c > now \<and> pc_start c \<le> hi \<and> pc_cutoff c \<ge> lo) (j_cursors st))"

definition draining :: "journal \<Rightarrow> bool" where
  "draining st \<longleftrightarrow> (\<exists>g\<in>set (j_seals st). sg_status g = DRAINING)"

datatype retention_scan =
    SweepDone sweep_result
  | SweepCandidates "reservation_row list" "int option" string

definition retention_scan :: "int \<Rightarrow> nat \<Rightarrow> journal \<Rightarrow> retention_scan \<times> journal" where
  "retention_scan now limit st0 =
     (let st = expire_cursors now limit st0;
          remaining = opt_min (map pc_expires (j_cursors st));
          rows = due_records now limit st;
          stop = (\<lambda>deferred. SweepDone \<lparr>sw_deleted = 0, sw_deferred = deferred, sw_cursor = remaining,
                    sw_more = False\<rparr>) in
      if draining st then (stop (Some (now + HELD_RETENTION_RECHECK_MS)), st)
      else if rows = [] then (stop None, st)
      else case opt_min (map pc_expires (leases_over now rows st)) of
        Some t \<Rightarrow> (stop (Some (max now t)), st)
      | None \<Rightarrow> (SweepCandidates rows remaining (bk_retention_root (j_bucket st)), st))"

definition evidence_root :: "digest_fn \<Rightarrow> string \<Rightarrow> reservation_row list \<Rightarrow> js_error + string" where
  "evidence_root dg prior rows = violation (hashCanonicalJson dg
     (JArr [JStr (if prior = [] then ZERO_HASH else prior), JArr (map candidate_json rows)]))"

definition drop_tx :: "string \<Rightarrow> journal \<Rightarrow> journal" where
  "drop_tx tx st = st\<lparr>j_conflicts := filter (\<lambda>c. cf_tx c \<noteq> tx) (j_conflicts st),
     j_resolutions := filter (\<lambda>q. qr_tx q \<noteq> tx) (j_resolutions st),
     j_rows := tbl_del rv_tx tx (j_rows st)\<rparr>"

definition drop_all :: "string list \<Rightarrow> journal \<Rightarrow> journal" where
  "drop_all txs st = foldl (\<lambda>s tx. drop_tx tx s) st txs"

text \<open>The deletion; the answer is the number deleted and whether it was deferred.\<close>

definition retention_delete ::
  "int \<Rightarrow> nat \<Rightarrow> reservation_row list \<Rightarrow> string \<Rightarrow> journal \<Rightarrow> (int \<times> bool) \<times> journal" where
  "retention_delete now limit rows root st =
     (if leases_over now rows st \<noteq> [] then ((0, True), st)
      else if draining st then ((0, True), st)
      else if canonicalJson (JArr (map candidate_json (due_records now limit st)))
              \<noteq> canonicalJson (JArr (map candidate_json rows)) then ((0, False), st)
      else ((int (length rows), False),
            set_bucket (\<lambda>b. b\<lparr>bk_deleted_through := max (bk_deleted_through b) (fst (row_key (last rows))),
                bk_retention_epoch := bk_retention_epoch b + 1, bk_retention_root := root\<rparr>)
              (drop_all (map rv_tx rows) st)))"

definition sweepV2Retention ::
  "digest_fn \<Rightarrow> int \<Rightarrow> nat \<Rightarrow> journal \<Rightarrow> (js_error + sweep_result) \<times> journal" where
  "sweepV2Retention dg now limit st =
     (case retention_scan now limit st of
        (SweepDone res, st1) \<Rightarrow> (Inr res, st1)
      | (SweepCandidates rows remaining prior, st1) \<Rightarrow>
        (case evidence_root dg prior rows of
           Inl e \<Rightarrow> (Inl e, st1)
         | Inr root \<Rightarrow> (case retention_delete now limit rows root st1 of
             ((deleted, deferred), st2) \<Rightarrow>
               (Inr \<lparr>sw_deleted = deleted,
                   sw_deferred = (if deferred then Some (now + HELD_RETENTION_RECHECK_MS) else None),
                   sw_cursor = remaining,
                   sw_more = (\<exists>r\<in>set (j_rows st2). due_record now r)\<rparr>, st2))))"

section \<open>Sweeping history\<close>

definition stale_terminal :: "reservation_row \<Rightarrow> bool" where
  "stale_terminal r \<longleftrightarrow> rv_state r \<noteq> FINALIZED \<and> rv_quarantine r \<noteq> UNRESOLVED"

definition superseded_seal :: "journal \<Rightarrow> seal_row \<Rightarrow> bool" where
  "superseded_seal st g \<longleftrightarrow> sg_status g = QUARANTINED
     \<or> (sg_status g = COMPLETE
        \<and> (\<exists>h\<in>set (j_seals st). sg_status h = COMPLETE \<and> sg_generation g < sg_generation h))"

definition sweepV2History :: "int \<Rightarrow> nat \<Rightarrow> journal \<Rightarrow> (int \<times> int option) \<times> journal" where
  "sweepV2History now limit st =
     (let cutoff = now - V2_HISTORY_RETENTION_MS;
          rows = take limit (sort_key (\<lambda>r. (rv_updated r, rv_tx r))
                   (filter (\<lambda>r. stale_terminal r \<and> rv_updated r \<le> cutoff) (j_rows st)));
          st1 = drop_all (map rv_tx rows) st;
          seals = take limit (sort_key sg_generation
                   (filter (\<lambda>g. sg_updated g \<le> cutoff \<and> superseded_seal st1 g) (j_seals st1)));
          st2 = st1\<lparr>j_seals := filter (\<lambda>g. sg_generation g \<notin> sg_generation ` set seals) (j_seals st1)\<rparr>;
          deadlines = map (\<lambda>t. t + V2_HISTORY_RETENTION_MS)
            (map rv_updated (filter stale_terminal (j_rows st2))
             @ map sg_updated (filter (superseded_seal st2) (j_seals st2)))
      in ((int (length rows) + int (length seals), map_option (max now) (opt_min deadlines)), st2))"

section \<open>The lifecycle sweep\<close>

definition v1_sweep :: "int \<Rightarrow> journal \<Rightarrow> (int option \<times> int \<times> int) \<times> journal" where
  "v1_sweep now st =
     (let st1 = st\<lparr>j_v1 := filter (\<lambda>r. \<not> (\<not> vr_quarantined r \<and> vr_released r \<and> vr_deadline r \<le> now)) (j_v1 st)\<rparr>;
          next = opt_min (map vr_deadline (filter (\<lambda>r. \<not> vr_quarantined r \<and> vr_deadline r > now) (j_v1 st1))
                   @ concat (map (\<lambda>r. case rv_deadline r of None \<Rightarrow> [] | Some d \<Rightarrow> if d > now then [d] else [])
                       (filter (\<lambda>r. rv_quarantine r \<noteq> UNRESOLVED) (j_rows st1))));
          held1 = length (filter (\<lambda>r. \<not> vr_quarantined r \<and> \<not> vr_released r \<and> vr_deadline r \<le> now) (j_v1 st1));
          held2 = length (filter (\<lambda>r. rv_quarantine r \<noteq> UNRESOLVED \<and> \<not> rv_released r
                    \<and> (case rv_deadline r of None \<Rightarrow> False | Some d \<Rightarrow> d \<le> now)) (j_rows st1))
      in ((next, int held1 + int held2, int (length (j_v1 st)) - int (length (j_v1 st1))), st1))"

record sweep_schedule =
  ss_next :: "int option"
  ss_deleted :: int
  ss_held :: int

fun min_opt :: "int option \<Rightarrow> int option \<Rightarrow> int option" where
  "min_opt None b = b"
| "min_opt a None = a"
| "min_opt (Some a) (Some b) = Some (min a b)"

definition lifecycle_schedule ::
  "int \<Rightarrow> int option \<times> int \<times> int \<Rightarrow> sweep_result \<Rightarrow> int \<times> int option \<Rightarrow> sweep_schedule" where
  "lifecycle_schedule now sched v2 history =
     (case sched of (next, held, deleted) \<Rightarrow> case history of (historyDeleted, historyNext) \<Rightarrow>
      let n1 = (if held > 0 then min_opt next (Some (now + HELD_RETENTION_RECHECK_MS)) else next);
          n2 = min_opt n1 (sw_deferred v2);
          n3 = min_opt n2 (map_option (max now) (sw_cursor v2));
          n4 = (if sw_more v2 then min_opt n3 (Some now) else n3)
      in \<lparr>ss_next = min_opt n4 historyNext, ss_deleted = deleted + sw_deleted v2 + historyDeleted,
          ss_held = held + (if sw_deferred v2 = None then 0 else 1)\<rparr>)"

definition lifecycle_sweep ::
  "digest_fn \<Rightarrow> int \<Rightarrow> journal \<Rightarrow> (js_error + sweep_schedule) \<times> journal" where
  "lifecycle_sweep dg now st =
     (case sweepV2History now 128 st of (history, st1) \<Rightarrow>
      case sweepV2Retention dg now 128 st1 of
        (Inl e, st2) \<Rightarrow> (Inl e, st2)
      | (Inr v2, st2) \<Rightarrow> (case v1_sweep now st2 of (sched, st3) \<Rightarrow>
          (Inr (lifecycle_schedule now sched v2 history), st3)))"

section \<open>The alarm\<close>

text \<open>
  \<open>executeLifecycleAlarm\<close> over any scheduler whose two operations may throw, threading the
  state \<open>'s\<close> they act on: run the sweep and schedule what it says; if either throws, install
  the fallback, and only if that throws too, rethrow the first error.
\<close>

definition executeLifecycleAlarm ::
  "(int \<Rightarrow> 's \<Rightarrow> ('e + unit) \<times> 's) \<Rightarrow> ('s \<Rightarrow> ('e + unit) \<times> 's)
     \<Rightarrow> ('s \<Rightarrow> ('e + sweep_schedule) \<times> 's) \<Rightarrow> int \<Rightarrow> 's \<Rightarrow> ('e + unit) \<times> 's" where
  "executeLifecycleAlarm setAlarm deleteAlarm sweep now s =
     (let attempt = (case sweep s of
          (Inl e, s1) \<Rightarrow> (Inl e, s1)
        | (Inr sched, s1) \<Rightarrow> (case ss_next sched of None \<Rightarrow> deleteAlarm s1 | Some t \<Rightarrow> setAlarm t s1))
      in case attempt of
          (Inr u, s2) \<Rightarrow> (Inr u, s2)
        | (Inl e, s2) \<Rightarrow> (case setAlarm (now + LIFECYCLE_FAILURE_RETRY_MS) s2 of
            (Inl _, s3) \<Rightarrow> (Inl e, s3)
          | (Inr _, s3) \<Rightarrow> (Inr (), s3)))"

definition due_seal_alarms :: "int \<Rightarrow> journal \<Rightarrow> alarm_row list" where
  "due_seal_alarms now st =
     take 4 (sort_key (\<lambda>a. (al_fire_at a, al_purpose a))
       (filter (\<lambda>a. take 5 (al_purpose a) = ''seal:'' \<and> al_fire_at a \<le> now) (j_alarms st)))"

definition resume_request :: "partition_metadata \<Rightarrow> string \<Rightarrow> string \<Rightarrow> seal_row \<Rightarrow> jval" where
  "resume_request m config cutoffText g = JObj
     [(''protocol_version'', jint CURRENT_PROTOCOL_VERSION),
      (''format_version'', jint MANIFEST_SEAL_FORMAT_VERSION),
      (''fleet_id'', pm_fleet m), (''reservation_utc_day'', pm_day m),
      (''partition'', pm_partition m), (''partition_count'', jint 16),
      (''routing_key'', pm_routing_key m), (''partition_config_hash'', JStr config),
      (''cutoff'', JStr cutoffText), (''idempotency_key'', JStr (sg_key g))]"

definition wake_seal :: "digest_fn \<Rightarrow> int \<Rightarrow> alarm_row \<Rightarrow> journal \<Rightarrow> journal" where
  "wake_seal dg now due st0 =
     (let st = st0\<lparr>j_alarms := tbl_del al_purpose (al_purpose due) (j_alarms st0)\<rparr> in
      case (seal_of (al_generation due) st, j_meta st, bk_config (j_bucket st)) of
        (Some g, Some m, Some config) \<Rightarrow>
          (case iso_text (sg_cutoff g) of
             Inl _ \<Rightarrow> scheduleAlarmPurpose (al_purpose due) (now + LIFECYCLE_FAILURE_RETRY_MS)
                        (al_generation due) st
           | Inr cutoffText \<Rightarrow>
             (case resumeSeal dg SEAL_PAGE_SIZE now (sg_generation g) (resume_request m config cutoffText g) st of
                (Inr _, st1) \<Rightarrow> st1
              | (Inl _, st1) \<Rightarrow> scheduleAlarmPurpose (al_purpose due) (now + LIFECYCLE_FAILURE_RETRY_MS)
                                 (al_generation due) st1))
      | _ \<Rightarrow> st)"

definition alarm :: "digest_fn \<Rightarrow> int \<Rightarrow> journal \<Rightarrow> (js_error + unit) \<times> journal" where
  "alarm dg now st =
     (let st1 = foldl (\<lambda>s due. wake_seal dg now due s) st (due_seal_alarms now st) in
      if (case tbl_get al_purpose ''retention'' (j_alarms st1) of
            None \<Rightarrow> True | Some a \<Rightarrow> al_fire_at a > now)
      then (Inr (), rearmPhysicalAlarm st1)
      else executeLifecycleAlarm
        (\<lambda>t s. (Inr (), scheduleAlarmPurpose ''retention'' t 0 s))
        (\<lambda>s. (Inr (), clearAlarmPurpose ''retention'' s))
        (lifecycle_sweep dg now) now (clearAlarmPurpose ''retention'' st1))"

end
