(* ===== verification/FinalizeLaws.thy ===== *)
theory FinalizeLaws
  imports JournalTerminal
begin

text \<open>
  The canonical record that \<open>finalize\<close> builds from a frozen reservation is always accepted, so
  nothing after the decision is assigned can refuse it except the calendar.
\<close>

section \<open>Records over accepted reservations\<close>

lemma is_plain_cases: "is_plain v \<Longrightarrow> \<exists>kvs. v = JObj kvs"
  by (cases v) auto

lemma route_fields_cong:
  assumes "jget v ''reservation_utc_day'' = jget w ''reservation_utc_day''"
    "jget v ''partition'' = jget w ''partition''" "jget v ''partition_count'' = jget w ''partition_count''"
    "jget v ''routing_key'' = jget w ''routing_key''"
    "jget v ''partition_config_hash'' = jget w ''partition_config_hash''"
  shows "validateManifestRouteFields v = validateManifestRouteFields w"
  unfolding validateManifestRouteFields_def assms ..

lemma hash_record_ok:
  assumes v: "jkeys v = RECORD_V2_KEYS" "is_plain v" "jget v ''protocol_version'' = jint 1"
      "jget v ''format_version'' = jint 2"
    and res: "hashManifestReservation dg (record_reservation v) = Inr rh"
    and rh: "jget v ''reservation_hash'' = JStr rh" "sha256_text rh"
    and env: "sha256_hex_val (jget v ''envelope_hash'')"
    and d: "jget v ''commit_decided_at'' = JStr (toISOString d)" "jget v ''commit_decided_at_ms'' = jint d"
      "0 \<le> d" "d \<le> max_safe_integer" "time_in_range d"
    and s: "safe_int_from 1 (jget v ''decision_sequence'')"
    and r: "jget v ''retention_deadline'' = JStr (toISOString r)" "time_in_range r" "d + 35 * 86400000 \<le> r"
    and ser: "canonicalJson v = Inr t"
  shows "hashManifestRecordV2 dg v = Inr (sha256Hex dg t)"
proof -
  have vr: "validateManifestReservation (record_reservation v) = Inr ()"
    using res by (simp add: hash_reservation_iff)
  note f = vr [unfolded validateManifestReservation_def seq_checks_Cons record_reservation_fields]
  have same: "validateManifestRouteFields v = validateManifestRouteFields (record_reservation v)"
    by (rule route_fields_cong) (simp_all add: record_reservation_def)
  have rf: "validateManifestRouteFields v = Inr ()" unfolding same using f by (elim conjE)
  have checks: "assertManifestString (jget v ''fleet_id'') = Inr ()" "assertManifestString (jget v ''tx_id'') = Inr ()"
    "assertManifestString (jget v ''coordinator_id'') = Inr ()" "assertManifestHash (jget v ''operation_hash'') = Inr ()"
    "assertSafeInteger 1 (jget v ''decision_epoch'') = Inr ()"
    using f by blast+
  from valid_reservation_route [OF vr, of dg, unfolded record_reservation_fields]
  obtain u where u: "jget v ''reserved_at'' = JStr (toISOString u)" "time_in_range u" by metis
  have ts: "checkManifestTimestamp (jget v ''reserved_at'') = Inr ()"
    using manifest_timestamp_iff [of "jget v ''reserved_at''" u] u
    by (simp add: checkManifestTimestamp_def)
  have ps: "parseManifestTimestamp (jget v ''commit_decided_at'') = Inr d"
    "parseManifestTimestamp (jget v ''retention_deadline'') = Inr r"
    using d r by (simp_all add: manifest_timestamp_iff)
  have valid: "validateManifestRecordV2 v = Inr ()"
    unfolding validateManifestRecordV2_def seq_checks_Cons rf ts ps checks exact_keys_same [OF v(1)]
    using v(2-4) rh env d(2-4) s r(3)
    by (simp add: manifest_asserts assertPlainObject_def CURRENT_PROTOCOL_VERSION_def
        MANIFEST_RECORD_V2_FORMAT_VERSION_def COORDINATOR_RETENTION_DAYS_def)
  then show ?thesis
    using res rh ser by (simp add: hashManifestRecordV2_def hashCanonicalJson_def)
qed

text \<open>An object is its fields read in any order of its keys.\<close>

lemma fields_by_key:
  assumes "distinct (map fst kvs)" "distinct ks" "set (map fst kvs) = set ks"
  shows "set kvs = set (map (\<lambda>k. (k, assoc_get k kvs)) ks)"
proof -
  have "assoc_get k kvs = v" if "(k, v) \<in> set kvs" for k v
    using that assms(1) by (induction kvs) force+
  then show ?thesis using assms(3) by (force simp flip: assms(3))
qed

lemma keyed_hash:
  assumes "distinct (map fst kvs)" "distinct ks" "set (map fst kvs) = set ks" "wf_json (JObj kvs)"
  shows "canonicalJson (JObj (map (\<lambda>k. (k, assoc_get k kvs)) ks)) = canonicalJson (JObj kvs)"
proof -
  have s: "set kvs = set (map (\<lambda>k. (k, assoc_get k kvs)) ks)" by (rule fields_by_key [OF assms(1-3)])
  have m: "map fst (map (\<lambda>k. (k, assoc_get k kvs)) ks) = ks" by (simp add: comp_def)
  have d: "distinct (map fst (map (\<lambda>k. (k, assoc_get k kvs)) ks))" unfolding m by (rule assms(2))
  have w: "wf_json (JObj (map (\<lambda>k. (k, assoc_get k kvs)) ks))"
    using assms(4) d unfolding wf_json.simps list_all_iff s by blast
  show ?thesis
    unfolding canonicalJson_eq_iff [OF w assms(4)] by (rule norm_json_perm [OF d assms(1) s [symmetric]])
qed

lemma exact_keys_set: "assertExactKeys v ks = Inr () \<longleftrightarrow> set (jkeys v) = set ks"
  by (auto simp: assertExactKeys_def list_all_iff require_def)

definition flat :: "jval \<Rightarrow> bool" where
  "flat v \<longleftrightarrow> is_str v \<or> (\<exists>n. v = jint n)"

lemma flat_simps [simp]: "flat (JStr s)" "flat (jint n)"
  by (simp_all add: flat_def)

lemma flat_wf: "flat v \<Longrightarrow> wf_json v"
  by (cases v) (auto simp: flat_def)

lemma accepted_reservation_flat:
  assumes "validateManifestReservation v = Inr ()" "k \<in> set RESERVATION_KEYS"
  shows "flat (jget v k)"
proof -
  note f = assms(1) [unfolded validateManifestReservation_def seq_checks_Cons]
  from valid_reservation_route [OF assms(1), of zero_digest]
  obtain t where t: "jget v ''reserved_at'' = JStr (toISOString t)" "jget v ''reservation_utc_day'' = JStr (utc_day t)"
    "jget v ''partition_count'' = jint 16"
    "jget v ''routing_key'' = JStr (routing_key_of (utc_day t) (int_of (jget v ''partition'')))"
    and p: "jget v ''partition'' = jint (int_of (jget v ''partition''))" by metis
  have part: "flat (jget v ''partition'')" unfolding flat_def by (intro disjI2 exI) (rule p)
  have "sha256_hex_val (jget v ''partition_config_hash'')"
    using f by (simp add: validateManifestRouteFields_def manifest_asserts)
  then have c: "flat (jget v ''partition_config_hash'')" by (simp add: flat_def sha256_hex_val_def)
  have ids: "flat (jget v ''fleet_id'')" "flat (jget v ''tx_id'')" "flat (jget v ''coordinator_id'')"
    "flat (jget v ''operation_hash'')" "flat (jget v ''decision_epoch'')" "flat (jget v ''protocol_version'')"
    "flat (jget v ''format_version'')"
    using f safe_int_fromD by (auto simp: manifest_asserts flat_def nonempty_str_def sha256_hex_val_def)
  have "\<forall>k\<in>set RESERVATION_KEYS. flat (jget v k)"
    unfolding RESERVATION_KEYS_def ROUTE_KEYS_def set_simps set_append ball_Un ball_simps
    by (simp add: part c ids t)
  then show ?thesis using assms(2) ..
qed

section \<open>The record of a decision\<close>

lemma assoc_get_map: "k \<in> set ks \<Longrightarrow> assoc_get k (map (\<lambda>k. (k, f k)) ks) = f k"
  by (induction ks) auto

lemma record_reservation_of_record:
  assumes "jget res ''protocol_version'' = jint 1" "jget res ''format_version'' = jint 1"
  shows "record_reservation (finalize_record intent res d s dt rt)
    = JObj (map (\<lambda>k. (k, jget res k)) RESERVATION_KEYS)"
  by (simp add: record_reservation_def finalize_record_def RESERVATION_KEYS_def ROUTE_KEYS_def assms
      CURRENT_PROTOCOL_VERSION_def MANIFEST_RESERVATION_FORMAT_VERSION_def)

lemma record_text:
  assumes "\<And>k. k \<in> set RESERVATION_KEYS \<Longrightarrow> flat (jget res k)"
    "flat (jget intent ''reservation_hash'')" "flat (jget intent ''redo_envelope_hash'')"
  shows "wf_json (finalize_record intent res d s dt rt)"
  using assms by (simp add: finalize_record_def flat_wf RESERVATION_KEYS_def ROUTE_KEYS_def)

lemma build_record_ok:
  assumes res: "hashManifestReservation dg res = Inr rh" "distinct (jkeys res)" and dg: "digest_ok dg"
    and intent: "jget intent ''reservation_hash'' = JStr rh" "sha256_hex_val (jget intent ''redo_envelope_hash'')"
    and d: "0 \<le> d" "time_in_range (retention_deadline_of d)" and s: "1 \<le> s" "s \<le> max_safe_integer"
  shows "\<exists>r h. build_record dg intent res d s = Inr (r, h) \<and> hashManifestRecordV2 dg r = Inr h"
proof -
  have vr: "validateManifestReservation res = Inr ()" and hr: "hashCanonicalJson dg res = Inr rh"
    and pr: "jget res ''partition'' = jint (digest_partition dg (str_of (jget res ''tx_id'')))"
    using res(1) by (simp_all add: hash_reservation_iff)
  note f = vr [unfolded validateManifestReservation_def seq_checks_Cons]
  have ver: "jget res ''protocol_version'' = jint 1" "jget res ''format_version'' = jint 1"
    using f by (simp_all add: assertManifestVersion_def CURRENT_PROTOCOL_VERSION_def
        MANIFEST_RESERVATION_FORMAT_VERSION_def)
  have plain: "is_plain res" using f by (cases res) (simp_all add: assertPlainObject_def)
  then obtain kvs where kvs: "res = JObj kvs" using is_plain_cases by blast
  have keys: "set (jkeys res) = set RESERVATION_KEYS" using f by (simp add: exact_keys_set)
  note fl = accepted_reservation_flat [OF vr]
  define R where "R = JObj (map (\<lambda>k. (k, jget res k)) RESERVATION_KEYS)"
  have dk: "distinct RESERVATION_KEYS" by (simp add: RESERVATION_KEYS_def ROUTE_KEYS_def)
  have "flat (assoc_get k kvs)" if "k \<in> fst ` set kvs" for k
  proof -
    have "k \<in> set RESERVATION_KEYS" using that keys by (simp add: kvs)
    from fl [OF this] show ?thesis by (simp add: kvs jget.simps)
  qed
  moreover have "assoc_get (fst kv) kvs = snd kv" if "kv \<in> set kvs" for kv
    using that res(2) unfolding kvs by (induction kvs) force+
  ultimately have "wf_json res"
    using res(2) by (force simp: kvs list_all_iff intro: flat_wf)
  then have "canonicalJson R = canonicalJson res"
    using keyed_hash [OF _ dk] res(2) keys unfolding R_def kvs jget.simps(1) jkeys.simps(1) by blast
  then have hR: "hashCanonicalJson dg R = Inr rh" using hr by (simp add: hashCanonicalJson_def)
  have same: "jget R k = jget res k" if "k \<in> set RESERVATION_KEYS" for k
    using that by (simp add: R_def jget.simps assoc_get_map)
  note same_fields = same [unfolded RESERVATION_KEYS_def ROUTE_KEYS_def, simplified]
  have rf: "validateManifestRouteFields R = validateManifestRouteFields res"
    by (rule route_fields_cong) (simp_all add: same_fields)
  have Rk: "is_plain R" "jkeys R = RESERVATION_KEYS" by (simp_all add: R_def comp_def)
  have "validateManifestReservation R = Inr ()"
    unfolding validateManifestReservation_def seq_checks_Cons rf
    using f by (simp add: same_fields exact_keys_set assertPlainObject_def assertManifestVersion_def Rk)
  then have hashR: "hashManifestReservation dg R = Inr rh"
    using pr hR by (simp add: hash_reservation_iff same_fields)
  define r where "r = finalize_record intent res d s (toISOString d) (toISOString (retention_deadline_of d))"
  have rr: "record_reservation r = R"
    unfolding r_def R_def by (rule record_reservation_of_record [OF ver])
  have "wf_json r"
    unfolding r_def by (rule record_text [OF fl]) (use intent sha256_hex_valD in \<open>auto simp: flat_def sha256_hex_val_def\<close>)
  then obtain t where t: "canonicalJson r = Inr t" using canonical_wf(1) by blast
  have span: "retention_deadline_of d = d + 35 * 86400000"
    by (simp add: retention_deadline_of_def COORDINATOR_RETENTION_DAYS_def DAY_MS_def)
  have rng: "time_in_range d" "d \<le> max_safe_integer"
    using d by (auto simp: span time_in_range_def max_safe_integer_def)
  have "hashManifestRecordV2 dg r = Inr (sha256Hex dg t)"
  proof (rule hash_record_ok)
    show "jkeys r = RECORD_V2_KEYS" by (simp add: r_def finalize_record_def RECORD_V2_KEYS_def ROUTE_KEYS_def)
    show "hashManifestReservation dg (record_reservation r) = Inr rh" unfolding rr by (rule hashR)
    show "sha256_text rh" using hr dg hashCanonicalJson_text by blast
    show "canonicalJson r = Inr t" by (rule t)
    show "jget r ''retention_deadline'' = JStr (toISOString (retention_deadline_of d))"
      "time_in_range (retention_deadline_of d)" "d + 35 * 86400000 \<le> retention_deadline_of d"
      using d span by (simp_all add: r_def finalize_record_def)
  qed (use intent d(1) rng s in \<open>simp_all add: r_def finalize_record_def safe_int_from_def
      CURRENT_PROTOCOL_VERSION_def MANIFEST_RECORD_V2_FORMAT_VERSION_def\<close>)
  then show ?thesis
    using d(2) rng by (simp add: build_record_def iso_text_def Let_def flip: r_def)
qed

section \<open>Samples\<close>

definition sample_reservation :: "string \<Rightarrow> jval" where
  "sample_reservation tx = reservation_json (JStr ''f'')
     \<lparr>rt_day = utc_day 0, rt_partition = 0, rt_partition_count = 16,
      rt_routing_key = routing_key_of (utc_day 0) 0, rt_config_hash = replicate 64 (CHR ''b'')\<rparr>
     (JStr tx) (JStr ''c'') (JStr (replicate 64 (CHR ''a''))) (jint 1) (JStr (toISOString 0))"

definition sample_finalize :: "string \<Rightarrow> jval" where
  "sample_finalize tx = JObj
     [(''protocol_version'', jint 1), (''format_version'', jint 1), (''tx_id'', JStr tx),
      (''reservation_hash'', JStr ZERO_HASH), (''operation_hash'', JStr (replicate 64 (CHR ''a''))),
      (''redo_envelope_hash'', JStr (replicate 64 (CHR ''e''))), (''decision_epoch'', jint 1),
      (''idempotency_key'', JStr ''k'')]"

lemma zero_hex: "sha256Hex zero_digest s = ZERO_HASH"
proof -
  have "concat (map byte_hex (replicate 32 0)) = ZERO_HASH" by code_simp
  then show ?thesis by (simp add: sha256Hex_def sha256Bytes_def zero_digest_def del: replicate.simps)
qed

lemma sample_hex: "sha256_text (replicate 64 (CHR ''a''))" "sha256_text (replicate 64 (CHR ''b''))"
  "sha256_text (replicate 64 (CHR ''e''))" "sha256_text ZERO_HASH"
  by code_simp+

lemma sample_reservation_hash:
  assumes "tx \<noteq> []"
  shows "hashManifestReservation zero_digest (sample_reservation tx) = Inr ZERO_HASH"
proof -
  have t: "time_in_range 0" by (simp add: time_in_range_def)
  have y: "four_digit_year 0" by code_simp
  have p: "digest_partition zero_digest s = 0" for s by code_simp
  have r: "manifestReservationRoute zero_digest (JStr tx) (JStr (toISOString 0)) (JStr (replicate 64 (CHR ''b'')))
     = Inr \<lparr>rt_day = utc_day 0, rt_partition = 0, rt_partition_count = 16,
      rt_routing_key = routing_key_of (utc_day 0) 0, rt_config_hash = replicate 64 (CHR ''b'')\<rparr>"
    unfolding reservationRoute_iff using assms t sample_hex(2) by (auto simp: p simp del: replicate.simps)
  have v: "validateManifestReservation (sample_reservation tx) = Inr ()"
    unfolding sample_reservation_def created_reservation_valid_iff [OF r refl t]
    using y sample_hex by (simp add: max_safe_integer_def del: replicate.simps)
  have "\<exists>x. canonicalJson (sample_reservation tx) = Inr x"
    unfolding sample_reservation_def by (rule created_reservation_text) simp_all
  then show ?thesis
    using v by (auto simp: hash_reservation_iff p sample_reservation_def reservation_fields
        hashCanonicalJson_def zero_hex)
qed

lemma sample_finalize_hash:
  assumes "tx \<noteq> []"
  shows "hashManifestFinalizeIntent zero_digest (sample_finalize tx) = Inr ZERO_HASH"
proof -
  have "validateManifestFinalizeIntent (sample_finalize tx) = Inr ()"
    unfolding validateManifestFinalizeIntent_def seq_checks_Cons sample_finalize_def
    using assms sample_hex
    by (simp add: manifest_asserts exact_keys_set insert_commute assertPlainObject_def CURRENT_PROTOCOL_VERSION_def
        MANIFEST_TERMINAL_INTENT_FORMAT_VERSION_def max_safe_integer_def del: replicate.simps)
  moreover have "wf_json (sample_finalize tx)" by (simp add: sample_finalize_def del: replicate.simps)
  then have "canonicalJson (sample_finalize tx) = Inr (text_of (sample_finalize tx))" by (rule canonical_wf)
  ultimately show ?thesis
    by (simp add: hashManifestFinalizeIntent_def hashCanonicalJson_def zero_hex)
qed

theorem accepted_record_witness:
  "\<exists>v h. hashManifestRecordV2 zero_digest v = Inr h \<and> jget v ''tx_id'' = JStr ''t''
     \<and> (\<exists>d r. jget v ''commit_decided_at_ms'' = jint d
          \<and> jget v ''retention_deadline'' = JStr (toISOString r) \<and> d + 35 * 86400000 \<le> r)"
proof -
  have "\<exists>r h. build_record zero_digest (sample_finalize ''t'') (sample_reservation ''t'') 5 1 = Inr (r, h)
      \<and> hashManifestRecordV2 zero_digest r = Inr h"
    by (rule build_record_ok [OF sample_reservation_hash _ zero_digest_ok])
       (use sample_hex in \<open>simp_all add: sample_reservation_def reservation_keys sample_finalize_def RESERVATION_KEYS_def
          ROUTE_KEYS_def retention_deadline_of_def time_in_range_def COORDINATOR_RETENTION_DAYS_def DAY_MS_def
          max_safe_integer_def del: replicate.simps\<close>)
  then obtain r h where b: "build_record zero_digest (sample_finalize ''t'') (sample_reservation ''t'') 5 1 = Inr (r, h)"
    and h: "hashManifestRecordV2 zero_digest r = Inr h" by blast
  have "jget r ''tx_id'' = JStr ''t''"
    using b by (auto simp: build_record_def and_then_ok Let_def finalize_record_def sample_reservation_def reservation_fields)
  with accepted_record [OF h] h show ?thesis by metis
qed

end
