(* ===== verification/JournalInv.thy ===== *)
theory JournalInv
  imports JournalRetention FinalizeLaws
begin

text \<open>
  The invariant of a journal bucket (\<open>journal_ok\<close>): the rows (\<open>rows_ok\<close>), the seals
  (\<open>seals_ok\<close>) and the digests (\<open>digests_ok\<close>). \<open>evolves\<close> says how the members below the decision
  floor may change from one state to a later one; whatever only evolves them carries the
  digests along (\<open>journal_ok_advances\<close>).
\<close>

section \<open>The invariant\<close>

text \<open>A stored record is the canonical record of the row's own decision.\<close>

definition record_ok :: "digest_fn \<Rightarrow> reservation_row \<Rightarrow> int \<Rightarrow> int \<Rightarrow> bool" where
  "record_ok dg r d s \<longleftrightarrow>
     (case (rv_record_hash r, rv_record r) of
        (None, None) \<Rightarrow> rv_deadline r = None
      | (Some h, Some v) \<Rightarrow> rv_deadline r = Some (retention_deadline_of d)
          \<and> hashManifestRecordV2 dg v = Inr h \<and> jget v ''tx_id'' = JStr (rv_tx r)
          \<and> jget v ''reservation_hash'' = JStr (rv_hash r)
          \<and> jget v ''commit_decided_at_ms'' = jint d \<and> jget v ''decision_sequence'' = jint s
      | _ \<Rightarrow> False)"

definition row_ok :: "digest_fn \<Rightarrow> bucket_state \<Rightarrow> reservation_row \<Rightarrow> bool" where
  "row_ok dg b r \<longleftrightarrow>
     hashManifestReservation dg (rv_json r) = Inr (rv_hash r) \<and> distinct (jkeys (rv_json r))
     \<and> jget (rv_json r) ''tx_id'' = JStr (rv_tx r) \<and>
     (if rv_state r = FINALIZED
      then (\<exists>d s. rv_decided r = Some d \<and> rv_sequence r = Some s \<and> 0 < d \<and> d \<le> bk_last_assigned b
              \<and> 0 < s \<and> s < bk_next_sequence b \<and> rv_intent_hash r \<noteq> None \<and> record_ok dg r d s)
      else rv_decided r = None \<and> rv_sequence r = None \<and> rv_record_hash r = None \<and> rv_record r = None
         \<and> rv_deadline r = None \<and> (rv_intent_hash r = None \<longleftrightarrow> rv_state r = RESERVED))"

definition ordered_pair :: "reservation_row \<Rightarrow> reservation_row \<Rightarrow> bool" where
  "ordered_pair r r' \<longleftrightarrow>
     (\<forall>s s' d d'. rv_sequence r = Some s \<and> rv_sequence r' = Some s' \<and> rv_decided r = Some d
        \<and> rv_decided r' = Some d' \<longrightarrow> (s < s' \<longleftrightarrow> d < d') \<and> (s = s' \<longrightarrow> rv_tx r = rv_tx r'))"

definition rows_ok :: "digest_fn \<Rightarrow> journal \<Rightarrow> bool" where
  "rows_ok dg st \<longleftrightarrow> tbl_wf rv_tx (j_rows st)
     \<and> (\<forall>r\<in>set (j_rows st). row_ok dg (j_bucket st) r)
     \<and> (\<forall>r\<in>set (j_rows st). \<forall>r'\<in>set (j_rows st). ordered_pair r r')
     \<and> 0 \<le> bk_floor (j_bucket st) \<and> 0 \<le> bk_last_assigned (j_bucket st)
     \<and> 0 < bk_next_sequence (j_bucket st)"

text \<open>A generation lies below the floor; a complete one has a receipt and only complete members.\<close>

definition seal_ok :: "journal \<Rightarrow> seal_row \<Rightarrow> bool" where
  "seal_ok st g \<longleftrightarrow> sg_cutoff g \<le> bk_floor (j_bucket st)
     \<and> sg_evidence g \<le> bk_evidence_revision (j_bucket st)
     \<and> sg_generation g < bk_next_generation (j_bucket st)
     \<and> (sg_status g = COMPLETE \<longrightarrow> sg_receipt g \<noteq> None \<and> sg_receipt_hash g \<noteq> None
          \<and> (\<forall>r\<in>set (members (sg_cutoff g) st). rv_record_hash r \<noteq> None))"

definition seals_ok :: "journal \<Rightarrow> bool" where
  "seals_ok st \<longleftrightarrow> tbl_wf sg_generation (j_seals st) \<and> (\<forall>g\<in>set (j_seals st). seal_ok st g)"

text \<open>The members a draining generation has digested: those at or before its cursor.\<close>

definition digested :: "journal \<Rightarrow> seal_row \<Rightarrow> reservation_row list" where
  "digested st g = filter (\<lambda>r. \<not> after_cursor (sg_cursor g) r) (members (sg_cutoff g) st)"

definition live_drain :: "journal \<Rightarrow> seal_row \<Rightarrow> bool" where
  "live_drain st g \<longleftrightarrow> sg_status g = DRAINING \<and> sg_evidence g = bk_evidence_revision (j_bucket st)"

definition digest_exact :: "digest_fn \<Rightarrow> journal \<Rightarrow> seal_row \<Rightarrow> bool" where
  "digest_exact dg st g \<longleftrightarrow>
     (\<forall>r\<in>set (digested st g). rv_record_hash r \<noteq> None)
     \<and> roll_root dg ZERO_HASH (digested st g) = Inr (sg_root g)
     \<and> sg_count g = int (length (digested st g))"

definition parked :: "journal \<Rightarrow> seal_row \<Rightarrow> bool" where
  "parked st g \<longleftrightarrow> sg_status g = QUARANTINED \<and> sg_evidence g = bk_evidence_revision (j_bucket st)"

definition digests_ok :: "digest_fn \<Rightarrow> journal \<Rightarrow> bool" where
  "digests_ok dg st \<longleftrightarrow>
     (\<forall>g\<in>set (j_seals st). live_drain st g \<longrightarrow> digest_exact dg st g)
     \<and> (\<forall>g\<in>set (j_seals st). parked st g \<longrightarrow> unresolved_through (sg_cutoff g) st \<noteq> [])"

definition journal_ok :: "digest_fn \<Rightarrow> journal \<Rightarrow> bool" where
  "journal_ok dg st \<longleftrightarrow> rows_ok dg st \<and> seals_ok st \<and> digests_ok dg st"

lemma journal_okD: "journal_ok dg st \<Longrightarrow> rows_ok dg st" "journal_ok dg st \<Longrightarrow> seals_ok st"
  "journal_ok dg st \<Longrightarrow> digests_ok dg st"
  by (simp_all add: journal_ok_def)

section \<open>Members under row updates\<close>

lemma row_of_in: "rows_ok dg st \<Longrightarrow> row_of tx st = Some r \<longleftrightarrow> r \<in> set (j_rows st) \<and> rv_tx r = tx"
  by (simp add: rows_ok_def tbl.lookup_rows)

lemma put_row_rows: "rows_ok dg st \<Longrightarrow>
    set (j_rows (put_row r st)) = insert r {x \<in> set (j_rows st). rv_tx x \<noteq> rv_tx r}"
  by (simp add: rows_ok_def put_row_def tbl.rows_put)

lemma distinct_row_keys: "tbl_wf rv_tx (j_rows st) \<Longrightarrow> distinct (map row_key (filter p (j_rows st)))"
proof -
  assume "tbl_wf rv_tx (j_rows st)"
  then have "distinct (map rv_tx (filter p (j_rows st)))"
    by (simp add: tbl_wf_def distinct_map_filter)
  moreover have "map rv_tx (filter p (j_rows st)) = map (snd \<circ> snd) (map row_key (filter p (j_rows st)))"
    by (simp add: row_key_def)
  ultimately show ?thesis by (metis distinct_map)
qed

lemma members_eqI:
  assumes "tbl_wf rv_tx (j_rows st)" "tbl_wf rv_tx (j_rows st')"
    and "{r \<in> set (j_rows st). member c r} = {r \<in> set (j_rows st'). member c r}"
  shows "members c st = members c st'"
  unfolding members_def
  by (rule sort_key_perm) (use assms distinct_row_keys in auto)

lemma members_cong: "j_rows st = j_rows st' \<Longrightarrow> members c st = members c st'"
  by (simp add: members_def)

lemma wf_put_row: "tbl_wf rv_tx (j_rows st) \<Longrightarrow> tbl_wf rv_tx (j_rows (put_row r st))"
  by (simp add: put_row_def tbl.wf_put)

lemma members_put_outside:
  assumes "rows_ok dg st" "\<not> member c r" "\<And>old. row_of (rv_tx r) st = Some old \<Longrightarrow> \<not> member c old"
  shows "members c (put_row r st) = members c st"
proof (rule members_eqI)
  show "tbl_wf rv_tx (j_rows (put_row r st))" "tbl_wf rv_tx (j_rows st)"
    using assms(1) wf_put_row by (auto simp: rows_ok_def)
  show "{x \<in> set (j_rows (put_row r st)). member c x} = {x \<in> set (j_rows st). member c x}"
    unfolding put_row_rows [OF assms(1)] using assms(2,3) row_of_in [OF assms(1)] by auto
qed

lemma distinct_members: "rows_ok dg st \<Longrightarrow> distinct (map row_key (members c st))"
  using distinct_row_keys [of st "member c"]
  by (simp add: rows_ok_def members_def distinct_map)

lemma members_put_same_key:
  assumes "rows_ok dg st" "row_of (rv_tx r) st = Some old" "row_key r = row_key old" "rv_state r = rv_state old"
    and "rv_decided r = rv_decided old"
  shows "members c (put_row r st) = map (\<lambda>x. if rv_tx x = rv_tx r then r else x) (members c st)"
    (is "_ = map ?f _")
proof -
  have old: "old \<in> set (j_rows st)" "rv_tx old = rv_tx r" using assms(1,2) row_of_in by blast+
  have same: "x = old" if "x \<in> set (j_rows st)" "rv_tx x = rv_tx r" for x
    using that old assms(1) by (auto simp: rows_ok_def tbl_wf_def distinct_map inj_on_def)
  have f: "row_key (?f x) = row_key x" "member c (?f x) = member c x" if "x \<in> set (j_rows st)" for x
  proof -
    have "rv_tx x = rv_tx r \<Longrightarrow> x = old" by (rule same [OF that])
    then show "row_key (?f x) = row_key x" "member c (?f x) = member c x"
      using assms(3-5) by (auto simp: member_def)
  qed
  have keys: "map row_key (map ?f (members c st)) = map row_key (members c st)"
    using f(1) by (simp add: set_members)
  have "sort_key row_key (filter (member c) (j_rows (put_row r st)))
      = sort_key row_key (map ?f (members c st))"
  proof (rule sort_key_perm)
    show "distinct (map row_key (filter (member c) (j_rows (put_row r st))))"
      using assms(1) by (intro distinct_row_keys wf_put_row) (simp add: rows_ok_def)
    show "distinct (map row_key (map ?f (members c st)))"
      unfolding keys by (rule distinct_members [OF assms(1)])
    have "member c r = member c old" using assms(4,5) by (simp add: member_def)
    moreover have "?f ` {x \<in> set (j_rows st). member c x}
        = {x \<in> insert r {x \<in> set (j_rows st). rv_tx x \<noteq> rv_tx r}. member c x}" (is "?L = ?R")
    proof (intro set_eqI iffI)
      fix x assume "x \<in> ?L"
      then obtain y where y: "y \<in> set (j_rows st)" "member c y" "x = ?f y" by blast
      then show "x \<in> ?R" using f(2) [OF y(1)] by (cases "rv_tx y = rv_tx r") auto
    next
      fix x assume x: "x \<in> ?R"
      show "x \<in> ?L"
      proof (cases "x = r")
        case True
        then have "x = ?f old" "member c old" using x old \<open>member c r = member c old\<close> by auto
        then show ?thesis using old(1) by blast
      next
        case False
        then have "x = ?f x" "x \<in> set (j_rows st)" "member c x" using x by auto
        then show ?thesis by blast
      qed
    qed
    ultimately show "set (filter (member c) (j_rows (put_row r st))) = set (map ?f (members c st))"
      by (simp only: set_filter set_map set_members put_row_rows [OF assms(1)])
  qed
  also have "\<dots> = map ?f (members c st)"
    by (rule sort_key_sorted_id) (simp only: keys sorted_members)
  finally show ?thesis by (simp add: members_def)
qed

section \<open>How members evolve\<close>

text \<open>
  \<open>grows\<close>: the counters a bucket keeps between two states with no retention deletion in
  between. \<open>keeps\<close>: a row a later state may hold in place of \<open>r\<close>: the decision stands, a record is never replaced,
  and, unless the evidence revision moved, neither is the quarantine nor the attestation.
\<close>

definition keeps :: "bool \<Rightarrow> reservation_row \<Rightarrow> reservation_row \<Rightarrow> bool" where
  "keeps quiet r r' \<longleftrightarrow> rv_tx r' = rv_tx r \<and> rv_state r' = rv_state r
     \<and> rv_hash r' = rv_hash r \<and> rv_json r' = rv_json r \<and> rv_intent_hash r' = rv_intent_hash r
     \<and> rv_decided r' = rv_decided r \<and> rv_sequence r' = rv_sequence r
     \<and> (rv_record_hash r \<noteq> None \<longrightarrow> rv_record_hash r' = rv_record_hash r \<and> rv_record r' = rv_record r)
     \<and> (quiet \<longrightarrow> rv_quarantine r' = rv_quarantine r \<and> rv_attestation r' = rv_attestation r)"

definition grows :: "bucket_state \<Rightarrow> bucket_state \<Rightarrow> bool" where
  "grows b b' \<longleftrightarrow> bk_floor b \<le> bk_floor b' \<and> bk_evidence_revision b \<le> bk_evidence_revision b'
     \<and> bk_last_assigned b \<le> bk_last_assigned b' \<and> bk_next_sequence b \<le> bk_next_sequence b'
     \<and> bk_next_generation b \<le> bk_next_generation b'
     \<and> bk_retention_epoch b' = bk_retention_epoch b \<and> bk_deleted_through b' = bk_deleted_through b"

definition same_evidence :: "journal \<Rightarrow> journal \<Rightarrow> bool" where
  "same_evidence st st' \<longleftrightarrow> bk_evidence_revision (j_bucket st') = bk_evidence_revision (j_bucket st)"

text \<open>No decision will be taken at or below the horizon any more.\<close>

definition horizon :: "bucket_state \<Rightarrow> int" where
  "horizon b = max (bk_floor b) (bk_last_assigned b)"

lemma floor_horizon: "c \<le> bk_floor b \<Longrightarrow> c \<le> horizon b"
  by (simp add: horizon_def)

lemma grows_horizon: "grows b b' \<Longrightarrow> horizon b \<le> horizon b'"
  by (auto simp: grows_def horizon_def)

definition evolves :: "journal \<Rightarrow> journal \<Rightarrow> bool" where
  "evolves st st' \<longleftrightarrow> grows (j_bucket st) (j_bucket st')
     \<and> (\<forall>c \<le> horizon (j_bucket st).
          list_all2 (keeps (same_evidence st st')) (members c st) (members c st'))"

lemma keeps_refl [simp]: "keeps q r r"
  by (simp add: keeps_def)

lemma keeps_trans: "keeps p r s \<Longrightarrow> keeps q s t \<Longrightarrow> (o' \<Longrightarrow> p \<and> q) \<Longrightarrow> keeps o' r t"
  by (auto simp: keeps_def)

lemma grows_refl [simp]: "grows b b"
  by (simp add: grows_def)

lemma evolves_same: "j_rows st' = j_rows st \<Longrightarrow> grows (j_bucket st) (j_bucket st') \<Longrightarrow> evolves st st'"
  by (simp add: evolves_def members_cong [of st' st] list_all2_same)

lemma evolves_refl [simp]: "evolves st st"
  by (rule evolves_same) simp_all

lemma evolves_trans:
  assumes "evolves a b" "evolves b c" shows "evolves a c"
  unfolding evolves_def
proof (intro conjI allI impI)
  show "grows (j_bucket a) (j_bucket c)" using assms by (auto simp: evolves_def grows_def)
  fix t assume t: "t \<le> horizon (j_bucket a)"
  have ab: "list_all2 (keeps (same_evidence a b)) (members t a) (members t b)"
    using assms(1) t by (simp add: evolves_def)
  have bc: "list_all2 (keeps (same_evidence b c)) (members t b) (members t c)"
    using assms t grows_horizon by (fastforce simp: evolves_def)
  have q: "same_evidence a c \<Longrightarrow> same_evidence a b \<and> same_evidence b c"
    using assms by (simp add: evolves_def grows_def same_evidence_def)
  show "list_all2 (keeps (same_evidence a c)) (members t a) (members t c)"
    by (rule list_all2_trans [OF _ ab bc]) (rule keeps_trans [OF _ _ q])
qed

lemma list_all2_filter:
  "list_all2 R xs ys \<Longrightarrow> (\<And>x y. R x y \<Longrightarrow> p x = q y) \<Longrightarrow> list_all2 R (filter p xs) (filter q ys)"
  by (induction rule: list_all2_induct) auto

lemma keeps_key: "keeps q r r' \<Longrightarrow> row_key r' = row_key r"
  by (simp add: keeps_def row_key_def)

lemma keeps_entry: "keeps True r r' \<Longrightarrow> rv_record_hash r \<noteq> None \<Longrightarrow> entry_hash dg r' = entry_hash dg r"
  by (simp add: keeps_def entry_hash_def)

lemma evolves_digested:
  assumes "evolves st st'" "sg_cutoff g \<le> bk_floor (j_bucket st)"
  shows "list_all2 (keeps (same_evidence st st')) (digested st g) (digested st' g)"
  unfolding digested_def
  by (rule list_all2_filter)
     (use assms in \<open>auto simp: evolves_def floor_horizon after_cursor_iff dest: keeps_key\<close>)

lemma roll_root_keeps:
  "list_all2 (keeps True) rs rs' \<Longrightarrow> \<forall>r\<in>set rs. rv_record_hash r \<noteq> None \<Longrightarrow>
   roll_root dg root rs' = roll_root dg root rs"
proof (induction arbitrary: root rule: list_all2_induct)
  case (Cons r rs r' rs')
  have "entry_hash dg r' = entry_hash dg r" using Cons by (simp add: keeps_entry)
  then show ?case using Cons by simp
qed simp

lemma digest_exact_evolves:
  assumes "evolves st st'" "same_evidence st st'" "sg_cutoff g \<le> bk_floor (j_bucket st)"
    and ex: "digest_exact dg st g"
  shows "digest_exact dg st' g"
proof -
  have d: "list_all2 (keeps True) (digested st g) (digested st' g)"
    using evolves_digested [OF assms(1,3)] assms(2) by simp
  have "rv_record_hash r' \<noteq> None" if "r' \<in> set (digested st' g)" for r'
    using d ex that by (fastforce simp: digest_exact_def list_all2_conv_all_nth in_set_conv_nth keeps_def)
  then show ?thesis
    using ex roll_root_keeps [OF d] list_all2_lengthD [OF d] by (simp add: digest_exact_def)
qed

lemma unresolved_iff:
  "unresolved_through c st \<noteq> [] \<longleftrightarrow> (\<exists>r\<in>set (members c st). rv_quarantine r = UNRESOLVED)"
  by (auto simp: unresolved_through_def set_members filter_empty_conv)

lemma list_all2_ball:
  "list_all2 R xs ys \<Longrightarrow> y \<in> set ys \<Longrightarrow> \<exists>x\<in>set xs. R x y"
  "list_all2 R xs ys \<Longrightarrow> x \<in> set xs \<Longrightarrow> \<exists>y\<in>set ys. R x y"
  by (induction rule: list_all2_induct) auto

lemma unresolved_evolves:
  assumes "evolves st st'" "same_evidence st st'" "c \<le> bk_floor (j_bucket st)"
  shows "unresolved_through c st' \<noteq> [] \<longleftrightarrow> unresolved_through c st \<noteq> []"
proof -
  have "list_all2 (keeps True) (members c st) (members c st')"
    using assms by (simp add: evolves_def floor_horizon)
  from list_all2_ball [OF this] show ?thesis
    unfolding unresolved_iff keeps_def by (metis (full_types))
qed

lemma complete_evolves:
  assumes "evolves st st'" "c \<le> bk_floor (j_bucket st)"
    and "\<forall>r\<in>set (members c st). rv_record_hash r \<noteq> None"
  shows "\<forall>r\<in>set (members c st'). rv_record_hash r \<noteq> None"
proof
  fix r' assume r': "r' \<in> set (members c st')"
  have "list_all2 (keeps (same_evidence st st')) (members c st) (members c st')"
    using assms by (simp add: evolves_def floor_horizon)
  from list_all2_ball(1) [OF this r'] assms(3) show "rv_record_hash r' \<noteq> None"
    by (auto simp: keeps_def)
qed

section \<open>Steps that leave the seals alone\<close>

definition advances :: "digest_fn \<Rightarrow> journal \<Rightarrow> journal \<Rightarrow> bool" where
  "advances dg st st' \<longleftrightarrow> rows_ok dg st' \<and> j_seals st' = j_seals st \<and> evolves st st'"

lemma seal_ok_evolves: "seal_ok st g \<Longrightarrow> evolves st st' \<Longrightarrow> seal_ok st' g"
  using complete_evolves [of st st' "sg_cutoff g"] by (auto simp: seal_ok_def evolves_def grows_def)

lemma journal_ok_advances:
  assumes ok: "journal_ok dg st" and adv: "advances dg st st'"
  shows "journal_ok dg st'"
proof -
  have ev: "evolves st st'" and sl: "j_seals st' = j_seals st" using adv by (simp_all add: advances_def)
  have seals: "seals_ok st'"
    using journal_okD(2) [OF ok] seal_ok_evolves [OF _ ev] by (simp add: seals_ok_def sl)
  have floor: "sg_cutoff g \<le> bk_floor (j_bucket st)" "sg_evidence g \<le> bk_evidence_revision (j_bucket st)"
    if "g \<in> set (j_seals st)" for g
    using that journal_okD(2) [OF ok] by (simp_all add: seals_ok_def seal_ok_def)
  have same: "same_evidence st st'"
    if "g \<in> set (j_seals st)" "sg_evidence g = bk_evidence_revision (j_bucket st')" for g
    using floor(2) [OF that(1)] that(2) ev by (simp add: same_evidence_def evolves_def grows_def)
  have "digests_ok dg st'"
    unfolding digests_ok_def sl
  proof (intro conjI ballI impI)
    fix g assume g: "g \<in> set (j_seals st)" and l: "live_drain st' g"
    have q: "same_evidence st st'" using same [OF g] l by (simp add: live_drain_def)
    then have "live_drain st g" using l by (simp add: live_drain_def same_evidence_def)
    then have "digest_exact dg st g" using journal_okD(3) [OF ok] g by (simp add: digests_ok_def)
    then show "digest_exact dg st' g" by (rule digest_exact_evolves [OF ev q floor(1) [OF g]])
  next
    fix g assume g: "g \<in> set (j_seals st)" and l: "parked st' g"
    have q: "same_evidence st st'" using same [OF g] l by (simp add: parked_def)
    then have "parked st g" using l by (simp add: parked_def same_evidence_def)
    then have "unresolved_through (sg_cutoff g) st \<noteq> []"
      using journal_okD(3) [OF ok] g by (simp add: digests_ok_def)
    then show "unresolved_through (sg_cutoff g) st' \<noteq> []"
      using unresolved_evolves [OF ev q floor(1) [OF g]] by simp
  qed
  with seals adv show ?thesis by (simp add: journal_ok_def advances_def)
qed

lemma advances_trans: "advances dg a b \<Longrightarrow> advances dg b c \<Longrightarrow> advances dg a c"
  by (auto simp: advances_def intro: evolves_trans)

lemma advances_refl: "rows_ok dg st \<Longrightarrow> advances dg st st"
  by (simp add: advances_def)

text \<open>Updates that leave the rows, the seals and the decision counters alone.\<close>

definition same_core :: "journal \<Rightarrow> journal \<Rightarrow> bool" where
  "same_core st st' \<longleftrightarrow> j_rows st' = j_rows st \<and> j_seals st' = j_seals st
     \<and> grows (j_bucket st) (j_bucket st')"

lemma row_ok_mono: "row_ok dg b r \<Longrightarrow> grows b b' \<Longrightarrow> row_ok dg b' r"
  by (auto simp: row_ok_def grows_def)

lemma rows_ok_grow:
  assumes "rows_ok dg st" "j_rows st' = j_rows st" "grows (j_bucket st) (j_bucket st')"
  shows "rows_ok dg st'"
proof -
  have "\<forall>r\<in>set (j_rows st). row_ok dg (j_bucket st') r"
    using assms(1) row_ok_mono [OF _ assms(3)] by (simp add: rows_ok_def)
  then show ?thesis using assms by (auto simp: rows_ok_def grows_def)
qed

lemma advances_core: "rows_ok dg st \<Longrightarrow> same_core st st' \<Longrightarrow> advances dg st st'"
  by (simp add: advances_def same_core_def rows_ok_grow evolves_same)

lemma same_core_trans: "same_core a b \<Longrightarrow> same_core b c \<Longrightarrow> same_core a c"
  by (auto simp: same_core_def grows_def)

lemma same_core_refl [simp]: "same_core st st"
  by (simp add: same_core_def)

lemma same_core_alarm [simp]:
  "same_core st (scheduleAlarmPurpose p t g st)" "same_core st (clearAlarmPurpose p st)"
  "same_core st (ensureAlarmAtOrBefore t st)" "same_core st (seal_alarm now g st)"
  "same_core st (rearmPhysicalAlarm st)"
  by (simp_all add: same_core_def alarm_frame ensureAlarmAtOrBefore_def seal_alarm_def rearmPhysicalAlarm_def)

lemma roll_root_append:
  "roll_root dg root (rs @ ss) = and_then (roll_root dg root rs) (\<lambda>root'. roll_root dg root' ss)"
proof (induction rs arbitrary: root)
  case (Cons r rs)
  show ?case
  proof (cases "entry_hash dg r")
    case (Inr e)
    then show ?thesis
      using Cons.IH by (cases "violation (hashCanonicalJson dg (JArr [JStr root, JStr e]))") simp_all
  qed simp
qed simp

end
