(* ===== verification/JournalSteps.thy ===== *)
theory JournalSteps
  imports JournalInv
begin

text \<open>
  The transactions that leave the seals alone advance the journal: the rows stay well-formed
  and the members below the floor only evolve. The first section has one lemma per shape of
  row update; the others apply them handler by handler.
\<close>

section \<open>Row updates\<close>

lemma ordered_pair_self: "ordered_pair r r"
  by (auto simp: ordered_pair_def)

lemma ordered_pair_same:
  "ordered_pair old x \<Longrightarrow> rv_sequence r = rv_sequence old \<Longrightarrow> rv_decided r = rv_decided old
   \<Longrightarrow> rv_tx r = rv_tx old \<Longrightarrow> ordered_pair r x"
  "ordered_pair x old \<Longrightarrow> rv_sequence r = rv_sequence old \<Longrightarrow> rv_decided r = rv_decided old
   \<Longrightarrow> rv_tx r = rv_tx old \<Longrightarrow> ordered_pair x r"
  by (simp_all add: ordered_pair_def)

lemma ordered_pair_None: "rv_sequence r = None \<Longrightarrow> ordered_pair r x" "rv_sequence r = None \<Longrightarrow> ordered_pair x r"
  by (simp_all add: ordered_pair_def)

lemma put_row_fields [simp]:
  "j_bucket (put_row r st) = j_bucket st" "j_seals (put_row r st) = j_seals st"
  "j_meta (put_row r st) = j_meta st"
  by (simp_all add: put_row_def)

lemma row_ok_same:
  assumes "rv_tx r = rv_tx old" "rv_hash r = rv_hash old" "rv_json r = rv_json old" "rv_state r = rv_state old"
    "rv_decided r = rv_decided old" "rv_sequence r = rv_sequence old" "rv_intent_hash r = rv_intent_hash old"
    "rv_record_hash r = rv_record_hash old" "rv_record r = rv_record old" "rv_deadline r = rv_deadline old"
  shows "row_ok dg b r \<longleftrightarrow> row_ok dg b old"
  unfolding row_ok_def record_ok_def assms ..

lemma rows_ok_put:
  assumes "rows_ok dg st" "row_ok dg (j_bucket st) r"
    and "\<And>x. x \<in> set (j_rows st) \<Longrightarrow> rv_tx x \<noteq> rv_tx r \<Longrightarrow> ordered_pair r x \<and> ordered_pair x r"
  shows "rows_ok dg (put_row r st)"
proof -
  have w: "tbl_wf rv_tx (j_rows (put_row r st))"
    using assms(1) by (intro wf_put_row) (simp add: rows_ok_def)
  show ?thesis
    using assms w ordered_pair_self unfolding rows_ok_def put_row_fields put_row_rows [OF assms(1)] by auto
qed

lemma rows_ok_put_same:
  assumes "rows_ok dg st" "row_ok dg (j_bucket st) r" "row_of (rv_tx r) st = Some old"
    and "rv_sequence r = rv_sequence old" "rv_decided r = rv_decided old"
  shows "rows_ok dg (put_row r st)"
proof (rule rows_ok_put [OF assms(1,2)])
  have old: "old \<in> set (j_rows st)" "rv_tx old = rv_tx r" using assms(3) row_of_in [OF assms(1)] by blast+
  fix x assume "x \<in> set (j_rows st)"
  then have "ordered_pair old x" "ordered_pair x old" using assms(1) old by (simp_all add: rows_ok_def)
  then show "ordered_pair r x \<and> ordered_pair x r"
    using ordered_pair_same(1) [of old x r] ordered_pair_same(2) [of x old r] assms(4,5) old by simp
qed

text \<open>A row rewritten with its decision kept; evidence may change only when the revision moves.\<close>

lemma evolves_put_same:
  assumes r: "rows_ok dg st" and old: "row_of (rv_tx r) st = Some old"
    and k: "keeps (same_evidence st st') old r"
    and st': "j_rows st' = j_rows (put_row r st)" "grows (j_bucket st) (j_bucket st')"
  shows "evolves st st'"
proof -
  let ?f = "\<lambda>x. if rv_tx x = rv_tx r then r else x"
  have om: "old \<in> set (j_rows st)" "rv_tx old = rv_tx r" using old row_of_in [OF r] by blast+
  have "x = old" if "x \<in> set (j_rows st)" "rv_tx x = rv_tx r" for x
    using that old row_of_in [OF r] by (metis option.inject)
  then have kf: "keeps (same_evidence st st') x (?f x)" if "x \<in> set (j_rows st)" for x
    using that k by auto
  have "members c st' = map ?f (members c st)" for c
    using members_put_same_key [OF r old keeps_key [OF k]] k members_cong [OF st'(1)]
    by (simp add: keeps_def)
  moreover have "list_all2 (keeps (same_evidence st st')) (members c st) (map ?f (members c st))" for c
    using kf by (simp add: list_all2_map2 list_all2_same set_members)
  ultimately show ?thesis using st'(2) by (simp add: evolves_def)
qed

lemma advances_rewrite:
  assumes "rows_ok dg st" "row_of (rv_tx r) st = Some old" "keeps True old r" "row_ok dg (j_bucket st) r"
  shows "advances dg st (put_row r st)"
proof -
  have "keeps (same_evidence st (put_row r st)) old r" using assms(3) by (simp add: keeps_def)
  then have "evolves st (put_row r st)" by (rule evolves_put_same [OF assms(1,2)]) simp_all
  moreover have "rows_ok dg (put_row r st)"
    using assms by (intro rows_ok_put_same) (simp_all add: keeps_def)
  ultimately show ?thesis by (simp add: advances_def)
qed

text \<open>A row that is not and was not a member: a new reservation, a cancellation.\<close>

lemma advances_outside:
  assumes r: "rows_ok dg st" and old: "\<And>old. row_of (rv_tx r) st = Some old \<Longrightarrow> rv_state old \<noteq> FINALIZED"
    and new: "rv_state r \<noteq> FINALIZED" and rok: "row_ok dg (j_bucket st) r"
  shows "advances dg st (put_row r st)"
proof -
  have "rv_sequence r = None" using rok new by (simp add: row_ok_def)
  then have "rows_ok dg (put_row r st)"
    by (intro rows_ok_put [OF r rok]) (simp add: ordered_pair_None)
  moreover have "members c (put_row r st) = members c st" for c
    by (rule members_put_outside [OF r]) (use new old in \<open>auto simp: member_def\<close>)
  then have "evolves st (put_row r st)" by (simp add: evolves_def list_all2_same)
  ultimately show ?thesis by (simp add: advances_def)
qed

text \<open>New evidence about a row: its quarantine or attestation changes and the revision moves.\<close>

lemma bump_fields [simp]:
  "j_rows (bump_evidence st) = j_rows st" "j_seals (bump_evidence st) = j_seals st"
  "j_meta (bump_evidence st) = j_meta st"
  "bk_evidence_revision (j_bucket (bump_evidence st)) = bk_evidence_revision (j_bucket st) + 1"
  "bk_floor (j_bucket (bump_evidence st)) = bk_floor (j_bucket st)"
  "bk_last_assigned (j_bucket (bump_evidence st)) = bk_last_assigned (j_bucket st)"
  "bk_next_sequence (j_bucket (bump_evidence st)) = bk_next_sequence (j_bucket st)"
  "bk_next_generation (j_bucket (bump_evidence st)) = bk_next_generation (j_bucket st)"
  "bk_retention_epoch (j_bucket (bump_evidence st)) = bk_retention_epoch (j_bucket st)"
  "bk_deleted_through (j_bucket (bump_evidence st)) = bk_deleted_through (j_bucket st)"
  by (simp_all add: bump_evidence_def set_bucket_def)

lemma grows_bump [simp]: "grows (j_bucket st) (j_bucket (bump_evidence st))"
  by (simp add: grows_def)

lemma advances_bump:
  assumes r: "rows_ok dg st" and old: "row_of (rv_tx r) st = Some old"
    and same: "rv_hash r = rv_hash old" "rv_json r = rv_json old" "rv_state r = rv_state old"
      "rv_decided r = rv_decided old" "rv_sequence r = rv_sequence old"
      "rv_intent_hash r = rv_intent_hash old" "rv_record_hash r = rv_record_hash old"
      "rv_record r = rv_record old" "rv_deadline r = rv_deadline old"
  shows "advances dg st (bump_evidence (put_row r st))"
proof -
  have om: "old \<in> set (j_rows st)" "rv_tx r = rv_tx old" using old row_of_in [OF r] by auto
  have "row_ok dg (j_bucket st) old" using r om by (simp add: rows_ok_def)
  then have rok: "row_ok dg (j_bucket st) r" unfolding row_ok_same [OF om(2) same] .
  have "rows_ok dg (put_row r st)" by (rule rows_ok_put_same [OF r rok old same(5,4)])
  then have "rows_ok dg (bump_evidence (put_row r st))" by (rule rows_ok_grow) (simp_all add: grows_def)
  moreover have "evolves st (bump_evidence (put_row r st))"
    by (rule evolves_put_same [OF r old])
       (use same om in \<open>simp_all add: keeps_def same_evidence_def grows_def\<close>)
  ultimately show ?thesis by (simp add: advances_def)
qed

lemma advances_conflict: "rows_ok dg st \<Longrightarrow> advances dg st (add_conflict c st)"
  by (rule advances_core) (simp_all add: same_core_def conflict_frame)

lemma advances_rows: "advances dg a b \<Longrightarrow> rows_ok dg b"
  by (simp add: advances_def)

lemma advances_quarantine:
  assumes "rows_ok dg st" "row_of (rv_tx row) st = Some row"
  shows "advances dg st (quarantine_row row h v k now st)"
proof -
  have b: "advances dg st (bump_evidence (put_row
      (row\<lparr>rv_quarantine := UNRESOLVED, rv_conflict_root := h, rv_updated := now\<rparr>) st))"
    by (rule advances_bump [OF assms(1), where old = row]) (simp_all add: assms(2))
  show ?thesis
    unfolding quarantine_row_def by (rule advances_trans [OF b advances_conflict [OF advances_rows [OF b]]])
qed

text \<open>A decision: a reserved row becomes a member above every assigned time and every floor.\<close>

lemma advances_assign:
  assumes r: "rows_ok dg st" and old: "row_of (rv_tx row) st = Some row"
    and res: "rv_state row = RESERVED"
    and d: "bk_last_assigned (j_bucket st) < d" "bk_floor (j_bucket st) < d"
    and s: "s = bk_next_sequence (j_bucket st)"
  shows "advances dg st (put_row (row\<lparr>rv_state := FINALIZED, rv_intent_hash := Some h, rv_intent := Some i,
       rv_decided := Some d, rv_sequence := Some s, rv_updated := now\<rparr>)
     (set_bucket (\<lambda>b. b\<lparr>bk_last_assigned := d, bk_next_sequence := s + 1\<rparr>) st))"
    (is "advances dg st (put_row ?r ?st)")
proof -
  have b: "j_rows ?st = j_rows st" "j_seals ?st = j_seals st" by (simp_all add: set_bucket_def)
  have gr: "grows (j_bucket st) (j_bucket ?st)" using d s by (simp add: set_bucket_def grows_def)
  have rs: "rows_ok dg ?st" by (rule rows_ok_grow [OF r b(1) gr])
  have row: "row \<in> set (j_rows st)" using old row_of_in [OF r] by blast
  have rowok: "row_ok dg (j_bucket st) row" using r row by (simp add: rows_ok_def)
  have pos: "0 < d" "0 < s" using r d s by (auto simp: rows_ok_def)
  have rok: "row_ok dg (j_bucket ?st) ?r"
    using rowok res pos by (simp add: row_ok_def record_ok_def set_bucket_def)
  have below: "ds \<le> bk_last_assigned (j_bucket st) \<and> sq < s"
    if "x \<in> set (j_rows st)" "rv_decided x = Some ds" "rv_sequence x = Some sq" for x ds sq
  proof -
    have "row_ok dg (j_bucket st) x" using that(1) r by (simp add: rows_ok_def)
    then show ?thesis using that(2,3) s by (cases "rv_state x = FINALIZED") (auto simp: row_ok_def)
  qed
  have "rows_ok dg (put_row ?r ?st)"
  proof (rule rows_ok_put [OF rs rok])
    fix x assume "x \<in> set (j_rows ?st)"
    then have "x \<in> set (j_rows st)" by (simp add: b)
    from below [OF this] d show "ordered_pair ?r x \<and> ordered_pair x ?r"
      by (fastforce simp: ordered_pair_def)
  qed
  moreover have "members c (put_row ?r ?st) = members c st" if "c \<le> horizon (j_bucket st)" for c
  proof -
    have "members c (put_row ?r ?st) = members c ?st"
      by (rule members_put_outside [OF rs]) (use d that old res b in \<open>auto simp: member_def horizon_def\<close>)
    also have "\<dots> = members c st" by (rule members_cong) (simp add: b)
    finally show ?thesis .
  qed
  then have "evolves st (put_row ?r ?st)" using gr by (simp add: evolves_def list_all2_same)
  ultimately show ?thesis using b(2) by (simp add: advances_def)
qed

section \<open>Reserve, finalize, cancel, resolve\<close>

lemma same_core_bucket: "(\<And>b. grows b (f b)) \<Longrightarrow> same_core st (set_bucket f st)"
  by (simp add: same_core_def set_bucket_def)

lemma same_core_certificate:
  "same_core st (snd (legacy_fence st))" "same_core st (snd (store_certificate c st))"
  by (simp_all add: legacy_fence_def store_certificate_def same_core_bucket grows_def split: option.splits)

lemma same_core_adopt: "same_core st (adopt_identity v st)"
  by (simp add: adopt_identity_def same_core_def split: option.splits)

lemma same_core_pin: "same_core st (pin_bucket v f st)"
  unfolding pin_bucket_def by (rule same_core_bucket) (simp add: grows_def)

lemma row_found: "row_of tx st = Some row \<Longrightarrow> row_of (rv_tx row) st = Some row"
  using tbl.lookup_key by fastforce

lemma found_row_ok: "rows_ok dg st \<Longrightarrow> row_of tx st = Some row \<Longrightarrow> row_ok dg (j_bucket st) row"
  by (auto simp: row_of_in rows_ok_def)

lemma advances_reserve_tx:
  assumes r: "rows_ok dg st" and v: "hashManifestReservation dg v = Inr h" "distinct (jkeys v)"
  shows "advances dg st (snd (reserve_tx h floor cert now v st))"
proof -
  define st1 where "st1 = adopt_identity v st"
  define st2 where "st2 = pin_bucket v floor st1"
  have a1: "advances dg st st1" unfolding st1_def by (rule advances_core [OF r same_core_adopt])
  have a2: "advances dg st st2" unfolding st2_def
    by (rule advances_trans [OF a1 advances_core [OF advances_rows [OF a1] same_core_pin]])
  note r2 = advances_rows [OF a2]
  have "validateManifestReservation v = Inr ()" using v(1) by (simp add: hash_reservation_iff)
  then have "nonempty_str (jget v ''tx_id'')"
    by (simp add: validateManifestReservation_def assertManifestString_def)
  then have tx: "jget v ''tx_id'' = JStr (str_of (jget v ''tx_id''))" using nonempty_strD by blast
  have new: "advances dg st (put_row (new_row h v now) st2)"
    if "row_of (str_of (jget v ''tx_id'')) st2 = None"
    by (rule advances_trans [OF a2 advances_outside [OF r2]])
       (use that v tx in \<open>simp_all add: new_row_def row_ok_def\<close>)
  have conflict: "advances dg st (quarantine_row row h v k now st2)"
    if "row_of (str_of (jget v ''tx_id'')) st2 = Some row" for row k
    by (rule advances_trans [OF a2 advances_quarantine [OF r2 row_found [OF that]]])
  show ?thesis
    using advances_refl [OF r] a1 a2 new conflict unfolding reserve_tx_def st1_def st2_def
    by (auto simp: Let_def split: option.splits)
qed

lemma advances_finalize_assign:
  assumes r: "rows_ok dg st" shows "advances dg st (snd (finalize_assign h now i st))"
proof (cases "row_of (str_of (jget i ''tx_id'')) st")
  case None
  then show ?thesis by (simp add: finalize_assign_def Let_def advances_refl [OF r])
next
  case (Some row)
  note tx = row_found [OF Some]
  have "row_ok dg (j_bucket st) row" by (rule found_row_ok [OF r Some])
  then have "rv_state row = RESERVED"
    if "rv_state row \<noteq> CANCELLED" "\<not> (rv_state row = FINALIZED \<and> rv_decided row \<noteq> None \<and> rv_sequence row \<noteq> None)"
    using that by (cases "rv_state row") (auto simp: row_ok_def)
  then show ?thesis
    using advances_refl [OF r] advances_quarantine [OF r tx]
    unfolding finalize_assign_def Let_def Some
    by (auto intro!: advances_assign [OF r tx] simp del: max.bounded_iff)
qed

text \<open>What the persisting transaction is given: the record built for the assigned decision.\<close>

definition record_for :: "digest_fn \<Rightarrow> jval \<Rightarrow> int \<Rightarrow> int \<Rightarrow> jval \<Rightarrow> string \<Rightarrow> bool" where
  "record_for dg i d s v rh \<longleftrightarrow> hashManifestRecordV2 dg v = Inr rh
     \<and> jget v ''tx_id'' = jget i ''tx_id'' \<and> is_str (jget i ''tx_id'')
     \<and> jget v ''reservation_hash'' = jget i ''reservation_hash''
     \<and> jget v ''commit_decided_at_ms'' = jint d \<and> jget v ''decision_sequence'' = jint s"

lemma advances_finalize_persist:
  assumes r: "rows_ok dg st" and v: "record_for dg i d s v rh"
    and h: "\<And>row. row_of (str_of (jget i ''tx_id'')) st = Some row \<Longrightarrow> rv_decided row = Some d
      \<Longrightarrow> jget i ''reservation_hash'' = JStr (rv_hash row)"
  shows "advances dg st (snd (finalize_persist ih now i d s v rh st))"
proof (cases "row_of (str_of (jget i ''tx_id'')) st")
  case None
  then show ?thesis by (simp add: finalize_persist_def advances_refl [OF r])
next
  case (Some row)
  note tx = row_found [OF Some]
  have rok: "row_ok dg (j_bucket st) row" by (rule found_row_ok [OF r Some])
  have key: "jget v ''tx_id'' = JStr (rv_tx row)"
    using v tbl.lookup_key [OF Some] by (auto simp: record_for_def elim: is_strE)
  let ?r = "row\<lparr>rv_record_hash := Some rh, rv_record := Some v,
      rv_deadline := Some (retention_deadline_of d), rv_updated := now\<rparr>"
  have "advances dg st (put_row ?r st)"
    if "rv_state row = FINALIZED" "rv_decided row = Some d" "rv_sequence row = Some s" "rv_record_hash row = None"
    by (rule advances_rewrite [OF r, where old = row])
       (use that tx rok v h [OF Some] key in \<open>auto simp: row_ok_def record_ok_def record_for_def keeps_def\<close>)
  then show ?thesis using advances_refl [OF r] by (simp add: finalize_persist_def Some)
qed

lemma advances_cancel_tx:
  assumes r: "rows_ok dg st" shows "advances dg st (snd (cancel_tx h now i st))"
proof (cases "row_of (str_of (jget i ''tx_id'')) st")
  case None
  then show ?thesis by (simp add: cancel_tx_def Let_def advances_refl [OF r])
next
  case (Some row)
  note tx = row_found [OF Some]
  have rok: "row_ok dg (j_bucket st) row" by (rule found_row_ok [OF r Some])
  let ?r = "row\<lparr>rv_state := CANCELLED, rv_intent_hash := Some h, rv_intent := Some i, rv_updated := now\<rparr>"
  have "advances dg st (put_row ?r st)" if "rv_state row \<noteq> FINALIZED"
    by (rule advances_outside [OF r]) (use that tx rok in \<open>simp_all add: row_ok_def\<close>)
  then show ?thesis
    using advances_refl [OF r] advances_quarantine [OF r tx] by (simp add: cancel_tx_def Let_def Some)
qed

lemma advances_resolution_tx:
  assumes r: "rows_ok dg st" shows "advances dg st (snd (resolution_tx input tx qh ah now st))"
proof -
  define st1 where "st1 = st\<lparr>j_resolutions := tbl_put qr_key
      \<lparr>qr_key = str_of (jget input ''idempotency_key''), qr_tx = tx, qr_request_hash = qh,
       qr_attestation_hash = ah\<rparr> (j_resolutions st)\<rparr>"
  have a1: "advances dg st st1" by (rule advances_core [OF r]) (simp add: st1_def same_core_def)
  have "advances dg st (bump_evidence (put_row (row\<lparr>rv_quarantine := RESOLVED, rv_attestation := Some ah,
      rv_updated := now\<rparr>) st1))" if "row_of tx st = Some row" for row
    by (rule advances_trans [OF a1 advances_bump [OF advances_rows [OF a1], where old = row]])
       (use that row_found [OF that] in \<open>simp_all add: st1_def\<close>)
  then show ?thesis
    using advances_refl [OF r] by (simp add: resolution_tx_def st1_def split: option.splits)
qed

section \<open>Seal initialisation, releases, pages, the V1 ledger\<close>

lemma advances_initialize_tx:
  assumes r: "rows_ok dg st" shows "advances dg st (snd (initialize_tx v floor st))"
proof -
  have "same_core st (pin_bucket v floor (adopt_identity v st))"
    by (rule same_core_trans [OF same_core_adopt same_core_pin])
  then show ?thesis
    using advances_core [OF r] advances_refl [OF r] by (simp add: initialize_tx_def Let_def)
qed

lemma advances_releaseV2_tx:
  assumes r: "rows_ok dg st" shows "advances dg st (snd (releaseV2_tx tx rh h now st))"
proof -
  have "advances dg st (put_row (row\<lparr>rv_released := True, rv_updated := now\<rparr>) st)"
    if row: "row_of tx st = Some row" for row
  proof (rule advances_rewrite [OF r, where old = row])
    show "row_ok dg (j_bucket st) (row\<lparr>rv_released := True, rv_updated := now\<rparr>)"
      using found_row_ok [OF r row] by (subst row_ok_same [where old = row]) simp_all
  qed (use row_found [OF row] in \<open>simp_all add: keeps_def\<close>)
  then show ?thesis
    using advances_refl [OF r] by (simp add: releaseV2_tx_def split: option.splits)
qed

lemma same_core_page_tx: "same_core st (snd (page_tx p now expires st))"
proof -
  have "same_core st (lease k p t s)" if "same_core st s" for k t s
    using that by (simp add: lease_def same_core_def)
  then show ?thesis
    by (auto simp: page_tx_def Let_def split: sum.splits option.splits)
qed

lemma same_core_v1:
  "same_core st (snd (register_tx record h deadline now st))" "same_core st (snd (release_tx tx h st))"
  "same_core st (snd (v1_sweep now st))" "same_core st (expire_cursors now limit st)"
  by (auto simp: register_tx_def release_tx_def v1_sweep_def expire_cursors_def add_v1_conflict_def same_core_def
      Let_def split: option.splits)

end
