(* ===== verification/Keyset.thy ===== *)
theory Keyset
  imports Main
begin

text \<open>
  Keyset pagination: items in strictly increasing key order, read in pages after a cursor.
  The locale states the contract of a page query; a journal bucket provides it twice, for the
  digest of a seal and for the pages of a sealed window.
\<close>

lemma filter_sorted_split:
  fixes key :: "'a \<Rightarrow> 'k::linorder"
  shows "sorted (map key xs) \<Longrightarrow> filter (\<lambda>x. key x \<le> c) xs @ filter (\<lambda>x. c < key x) xs = xs"
proof (induction xs)
  case (Cons x xs)
  then have rest: "filter (\<lambda>x. key x \<le> c) xs @ filter (\<lambda>x. c < key x) xs = xs" by simp
  show ?case
  proof (cases "key x \<le> c")
    case True
    then show ?thesis using rest by (simp add: not_less)
  next
    case False
    then have "\<forall>y\<in>set xs. c < key y" using Cons.prems by auto
    then have "filter (\<lambda>x. key x \<le> c) xs = []" "filter (\<lambda>x. c < key x) xs = xs"
      by (auto simp: filter_empty_conv not_le intro: filter_True)
    then show ?thesis using False by simp
  qed
qed simp

lemma strict_take_drop:
  fixes key :: "'a \<Rightarrow> 'k::linorder"
  assumes "sorted (map key ys)" "distinct (map key ys)" "take n ys \<noteq> []"
  shows "filter (\<lambda>x. key x \<le> key (last (take n ys))) ys = take n ys"
    and "filter (\<lambda>x. key (last (take n ys)) < key x) ys = drop n ys"
proof -
  let ?l = "last (take n ys)"
  have l: "?l \<in> set (take n ys)" using assms(3) by simp
  have st: "sorted (map key (take n ys @ drop n ys))" "distinct (map key (take n ys @ drop n ys))"
    using assms(1,2) by simp_all
  have sorted_take: "sorted (map key (take n ys))"
    using assms(1) by (simp add: take_map [symmetric] sorted_wrt_take)
  have lo: "key x \<le> key ?l" if x: "x \<in> set (take n ys)" for x
  proof -
    define b where "b = butlast (take n ys)"
    have tk: "take n ys = b @ [?l]" using assms(3) by (simp add: b_def)
    have "x \<in> set b \<or> x = ?l" using x by (subst (asm) tk) auto
    moreover have "sorted (map key (b @ [?l]))" using sorted_take by (subst (asm) tk)
    then have "\<forall>y\<in>set b. key y \<le> key ?l" by (simp add: sorted_append)
    ultimately show ?thesis by auto
  qed
  have hi: "key ?l < key x" if "x \<in> set (drop n ys)" for x
  proof -
    have "key ?l \<le> key x" using st(1) l that unfolding map_append sorted_append by auto
    moreover have "key ?l \<noteq> key x"
      using st(2) l that unfolding map_append distinct_append by (metis disjoint_iff image_eqI set_map)
    ultimately show ?thesis by simp
  qed
  have "filter (\<lambda>x. key x \<le> key ?l) (take n ys @ drop n ys) = take n ys"
    unfolding filter_append using lo hi by (auto simp: not_le intro!: filter_True filter_False)
  then show "filter (\<lambda>x. key x \<le> key ?l) ys = take n ys" by simp
  have "filter (\<lambda>x. key ?l < key x) (take n ys @ drop n ys) = drop n ys"
    unfolding filter_append using lo hi by (auto simp: not_less intro!: filter_True filter_False)
  then show "filter (\<lambda>x. key ?l < key x) ys = drop n ys" by simp
qed

text \<open>A client reads pages of \<open>limit\<close> items, asking for one more to learn whether more follow.\<close>

fun walk :: "('k \<Rightarrow> nat \<Rightarrow> 'a list) \<Rightarrow> ('a \<Rightarrow> 'k) \<Rightarrow> nat \<Rightarrow> nat \<Rightarrow> 'k \<Rightarrow> 'a list" where
  "walk page key limit 0 c = []"
| "walk page key limit (Suc fuel) c =
     (let rows = page c (limit + 1) in
      if limit < length rows
      then take limit rows @ walk page key limit fuel (key (last (take limit rows)))
      else rows)"

locale keyset =
  fixes items :: "'s \<Rightarrow> 'a list"
    and key :: "'a \<Rightarrow> 'k::linorder"
    and page :: "'k \<Rightarrow> nat \<Rightarrow> 's \<Rightarrow> 'a list"
    and ok :: "'s \<Rightarrow> bool"
  assumes in_order: "ok s \<Longrightarrow> sorted (map key (items s))"
    and no_ties: "ok s \<Longrightarrow> distinct (map key (items s))"
    and page_after: "page c n s = take n (filter (\<lambda>x. c < key x) (items s))"
begin

lemma after_in_order:
  "ok s \<Longrightarrow> sorted (map key (filter (\<lambda>x. c < key x) (items s)))"
  "ok s \<Longrightarrow> distinct (map key (filter (\<lambda>x. c < key x) (items s)))"
  using in_order no_ties by (simp_all add: sorted_filter distinct_map_filter)

lemma page_extends:
  assumes "ok s" "page c n s \<noteq> []"
  shows "filter (\<lambda>x. key x \<le> key (last (page c n s))) (items s)
       = filter (\<lambda>x. key x \<le> c) (items s) @ page c n s"
    and "filter (\<lambda>x. key (last (page c n s)) < key x) (items s)
       = drop n (filter (\<lambda>x. c < key x) (items s))"
proof -
  let ?ys = "filter (\<lambda>x. c < key x) (items s)" and ?l = "key (last (page c n s))"
  have ne: "take n ?ys \<noteq> []" using assms(2) by (simp add: page_after)
  note td = strict_take_drop [OF after_in_order [OF assms(1)] ne]
  have l: "c < ?l"
  proof -
    have "last (take n ?ys) \<in> set (take n ?ys)" using ne by (rule last_in_set)
    then have "last (take n ?ys) \<in> set ?ys" by (rule in_set_takeD)
    then show ?thesis by (simp add: page_after)
  qed
  note split = filter_sorted_split [OF in_order [OF assms(1)], of c]
  have "filter (\<lambda>x. key x \<le> ?l) (filter (\<lambda>x. key x \<le> c) (items s)) = filter (\<lambda>x. key x \<le> c) (items s)"
    by (rule filter_True) (use l in auto)
  then have "filter (\<lambda>x. key x \<le> ?l) (filter (\<lambda>x. key x \<le> c) (items s) @ ?ys)
      = filter (\<lambda>x. key x \<le> c) (items s) @ take n ?ys"
    using td(1) unfolding filter_append page_after by simp
  then show "filter (\<lambda>x. key x \<le> ?l) (items s) = filter (\<lambda>x. key x \<le> c) (items s) @ page c n s"
    unfolding split by (simp add: page_after)
  have "filter (\<lambda>x. ?l < key x) (filter (\<lambda>x. key x \<le> c) (items s)) = []"
    by (rule filter_False) (use l in auto)
  then have "filter (\<lambda>x. ?l < key x) (filter (\<lambda>x. key x \<le> c) (items s) @ ?ys) = drop n ?ys"
    using td(2) unfolding filter_append page_after by simp
  then show "filter (\<lambda>x. ?l < key x) (items s) = drop n ?ys" unfolding split .
qed

text \<open>Reading to the end yields every item after the cursor, once and in order.\<close>

lemma walk_reads_all:
  assumes "ok s" "0 < limit"
  shows "length (filter (\<lambda>x. c < key x) (items s)) < fuel \<Longrightarrow>
     walk (\<lambda>c n. page c n s) key limit fuel c = filter (\<lambda>x. c < key x) (items s)"
proof (induction fuel arbitrary: c)
  case (Suc fuel)
  let ?ys = "filter (\<lambda>x. c < key x) (items s)"
  show ?case
  proof (cases "limit < length ?ys")
    case False
    then show ?thesis by (simp add: page_after)
  next
    case True
    have first: "take limit (take (limit + 1) ?ys) = page c limit s" by (simp add: page_after min_def)
    have ne: "page c limit s \<noteq> []" using True assms(2) by (cases ?ys) (auto simp: page_after)
    let ?c = "key (last (page c limit s))"
    have rest: "filter (\<lambda>x. ?c < key x) (items s) = drop limit ?ys" by (rule page_extends(2) [OF assms(1) ne])
    have "walk (\<lambda>c n. page c n s) key limit fuel ?c = filter (\<lambda>x. ?c < key x) (items s)"
      by (rule Suc.IH) (use Suc.prems True assms(2) in \<open>simp add: rest\<close>)
    moreover have "limit < length (page c (limit + 1) s)" using True by (simp add: page_after)
    ultimately have "walk (\<lambda>c n. page c n s) key limit (Suc fuel) c
        = page c limit s @ drop limit ?ys"
      using first rest unfolding walk.simps Let_def by (simp only: if_True page_after)
    then show ?thesis by (simp add: page_after)
  qed
qed simp

end

end
