(* ===== verification/JournalSealSteps.thy ===== *)
theory JournalSealSteps
  imports JournalSteps Keyset
begin

text \<open>
  The transactions of a seal: opening, resetting, digesting a page, publishing. \<open>moves\<close> is what
  every transaction of the bucket does to the seals and members of an earlier state; the steps
  in flight (\<open>scan_ok\<close>, \<open>publish_ok\<close>) survive whatever \<open>moves\<close>.
\<close>

section \<open>Pages of the digest\<close>

definition start_key :: "member_key option \<Rightarrow> member_key" where
  "start_key c = (case c of None \<Rightarrow> (-1, -1, []) | Some k \<Rightarrow> k)"

lemma start_key_Some [simp]: "start_key (Some k) = k"
  by (simp add: start_key_def)

lemma after_start: "after_cursor c = (\<lambda>r. start_key c < row_key r)"
  by (rule ext) (simp add: after_cursor_iff start_key_def)

text \<open>The digest reads the members of a cutoff as a keyset.\<close>

interpretation digest_pages: keyset
  "\<lambda>(st, g). members (sg_cutoff g) st" row_key
  "\<lambda>k n (st, g). page_of (g\<lparr>sg_cursor := Some k\<rparr>) n st" "\<lambda>(st, g). \<exists>dg. rows_ok dg st"
  by unfold_locales (auto simp: page_of_def after_start sorted_members intro: distinct_members)

definition fold_page :: "seal_row \<Rightarrow> reservation_row list \<Rightarrow> string \<Rightarrow> int \<Rightarrow> seal_row" where
  "fold_page g rows root now = g\<lparr>
     sg_cursor := (if rows = [] then sg_cursor g else Some (row_key (last rows))),
     sg_count := sg_count g + int (length rows), sg_root := root, sg_updated := now\<rparr>"

lemma fold_page_fields [simp]:
  "sg_generation (fold_page g rows root now) = sg_generation g"
  "sg_cutoff (fold_page g rows root now) = sg_cutoff g"
  "sg_status (fold_page g rows root now) = sg_status g"
  "sg_evidence (fold_page g rows root now) = sg_evidence g"
  "sg_root (fold_page g rows root now) = root"
  "sg_count (fold_page g rows root now) = sg_count g + int (length rows)"
  "sg_receipt (fold_page g rows root now) = sg_receipt g"
  "sg_receipt_hash (fold_page g rows root now) = sg_receipt_hash g"
  "sg_key (fold_page g rows root now) = sg_key g"
  "sg_mode (fold_page g rows root now) = sg_mode g"
  by (simp_all add: fold_page_def)

lemma digested_start: "digested st g = filter (\<lambda>r. row_key r \<le> start_key (sg_cursor g)) (members (sg_cutoff g) st)"
  by (simp add: digested_def after_start not_less)

lemma page_of_start: "page_of g n st = page_of (g\<lparr>sg_cursor := Some (start_key (sg_cursor g))\<rparr>) n st"
  by (simp add: page_of_def after_start)

lemma digested_fold:
  assumes "rows_ok dg st" "rows = page_of g n st"
  shows "digested st (fold_page g rows root now) = digested st g @ rows"
proof (cases "rows = []")
  case False
  have p: "page_of (g\<lparr>sg_cursor := Some (start_key (sg_cursor g))\<rparr>) n st = rows"
    using assms(2) page_of_start by metis
  have "filter (\<lambda>x. row_key x \<le> row_key (last rows)) (members (sg_cutoff g) st)
      = filter (\<lambda>x. row_key x \<le> start_key (sg_cursor g)) (members (sg_cutoff g) st) @ rows"
    using digest_pages.page_extends(1) [of "(st, g)" "start_key (sg_cursor g)" n, unfolded prod.case p]
      False assms(1) by blast
  then show ?thesis using False by (simp add: digested_start fold_page_def)
qed (simp add: digested_start fold_page_def)

lemma digest_exact_fold:
  assumes r: "rows_ok dg st" and g: "digest_exact dg st g" and rows: "rows = page_of g n st"
    and complete: "\<forall>r\<in>set rows. rv_record_hash r \<noteq> None" and root: "roll_root dg (sg_root g) rows = Inr root"
  shows "digest_exact dg st (fold_page g rows root now)"
  unfolding digest_exact_def digested_fold [OF r rows]
  using g complete root by (auto simp: digest_exact_def roll_root_append)

lemma page_after: "r \<in> set (page_of g n st) \<Longrightarrow> after_cursor (sg_cursor g) r"
  by (auto simp: page_of_def dest: in_set_takeD)

text \<open>A generation just reset has digested nothing, correctly.\<close>

lemma digested_none:
  assumes "rows_ok dg st" "sg_cursor g = None" shows "digested st g = []"
proof -
  have "after_cursor None r" if "r \<in> set (members c st)" for r c
  proof -
    from that have "r \<in> set (j_rows st)" "member c r" by (simp_all add: set_members)
    with assms(1) have "row_ok dg (j_bucket st) r" by (simp add: rows_ok_def)
    with \<open>member c r\<close> have "0 < fst (row_key r)" by (auto simp: row_ok_def member_def row_key_def)
    then show ?thesis by (cases "row_key r") (simp add: after_cursor_iff less_prod_def)
  qed
  then show ?thesis by (simp add: digested_def assms(2) filter_empty_conv)
qed

lemma digest_exact_none:
  "rows_ok dg st \<Longrightarrow> sg_cursor g = None \<Longrightarrow> sg_root g = ZERO_HASH \<Longrightarrow> sg_count g = 0 \<Longrightarrow> digest_exact dg st g"
  by (simp add: digest_exact_def digested_none)

section \<open>How seals move\<close>

definition seal_moved :: "seal_row \<Rightarrow> seal_row \<Rightarrow> bool" where
  "seal_moved g g' \<longleftrightarrow> sg_cutoff g' = sg_cutoff g \<and> sg_key g' = sg_key g \<and> sg_evidence g \<le> sg_evidence g'
     \<and> (sg_status g = COMPLETE \<longrightarrow> g' = g)
     \<and> (sg_evidence g' = sg_evidence g \<and> sg_status g' = DRAINING \<longrightarrow>
          sg_status g = DRAINING \<and> start_key (sg_cursor g) \<le> start_key (sg_cursor g')
          \<and> (start_key (sg_cursor g) = start_key (sg_cursor g') \<longrightarrow>
               sg_cursor g' = sg_cursor g \<and> sg_count g' = sg_count g \<and> sg_root g' = sg_root g))"

definition seals_moved :: "journal \<Rightarrow> journal \<Rightarrow> bool" where
  "seals_moved st st' \<longleftrightarrow>
     (\<forall>gen g'. gen < bk_next_generation (j_bucket st) \<and> seal_of gen st' = Some g' \<longrightarrow>
        (\<exists>g. seal_of gen st = Some g \<and> seal_moved g g'))"

definition purges :: "journal \<Rightarrow> journal \<Rightarrow> bool" where
  "purges st st' \<longleftrightarrow>
     (let b = j_bucket st; b' = j_bucket st' in
      bk_floor b' = bk_floor b \<and> bk_evidence_revision b' = bk_evidence_revision b
      \<and> bk_last_assigned b' = bk_last_assigned b \<and> bk_next_sequence b' = bk_next_sequence b
      \<and> bk_next_generation b' = bk_next_generation b
      \<and> bk_retention_epoch b' = bk_retention_epoch b + 1 \<and> j_seals st' = j_seals st \<and> \<not> draining st
      \<and> bk_deleted_through b \<le> bk_deleted_through b'
      \<and> (\<exists>gone. (\<forall>c. members c st' = filter (\<lambda>r. rv_tx r \<notin> gone) (members c st))
           \<and> (\<forall>r\<in>set (j_rows st). rv_tx r \<in> gone \<longrightarrow> fst (row_key r) \<le> bk_deleted_through b')))"

definition moves :: "journal \<Rightarrow> journal \<Rightarrow> bool" where
  "moves st st' \<longleftrightarrow> seals_moved st st' \<and> (evolves st st' \<or> purges st st')"

lemma seal_moved_refl [simp]: "seal_moved g g"
  by (simp add: seal_moved_def)

lemma seal_movedD:
  assumes "seal_moved g g'"
  shows "sg_cutoff g' = sg_cutoff g" "sg_key g' = sg_key g" "sg_evidence g \<le> sg_evidence g'"
    "sg_status g = COMPLETE \<Longrightarrow> g' = g"
  using assms unfolding seal_moved_def by blast+

lemma seal_moved_drain:
  assumes "seal_moved g g'" "sg_evidence g' = sg_evidence g" "sg_status g' = DRAINING"
  shows "sg_status g = DRAINING" "start_key (sg_cursor g) \<le> start_key (sg_cursor g')"
    "start_key (sg_cursor g) = start_key (sg_cursor g') \<Longrightarrow>
       sg_cursor g' = sg_cursor g \<and> sg_count g' = sg_count g \<and> sg_root g' = sg_root g"
  using assms unfolding seal_moved_def by blast+

lemma seals_moved_same: "j_seals st' = j_seals st \<Longrightarrow> seals_moved st st'"
  by (simp add: seals_moved_def)

lemma moves_advances: "advances dg st st' \<Longrightarrow> moves st st'"
  by (simp add: advances_def moves_def seals_moved_same)

lemma moves_purges: "purges st st' \<Longrightarrow> moves st st'"
  by (simp add: moves_def seals_moved_same purges_def Let_def)

lemma moves_counters:
  assumes "moves st st'"
  shows "bk_floor (j_bucket st) \<le> bk_floor (j_bucket st')"
    "bk_evidence_revision (j_bucket st) \<le> bk_evidence_revision (j_bucket st')"
    "bk_last_assigned (j_bucket st) \<le> bk_last_assigned (j_bucket st')"
    "bk_next_sequence (j_bucket st) \<le> bk_next_sequence (j_bucket st')"
    "bk_next_generation (j_bucket st) \<le> bk_next_generation (j_bucket st')"
    "bk_retention_epoch (j_bucket st) \<le> bk_retention_epoch (j_bucket st')"
    "bk_deleted_through (j_bucket st) \<le> bk_deleted_through (j_bucket st')"
  using assms by (auto simp: moves_def evolves_def grows_def purges_def Let_def)

lemma moves_evolves:
  "moves st st' \<Longrightarrow> bk_retention_epoch (j_bucket st') = bk_retention_epoch (j_bucket st) \<Longrightarrow> evolves st st'"
  by (auto simp: moves_def purges_def Let_def)

lemma seal_of_in: "seals_ok st \<Longrightarrow> seal_of gen st = Some g \<longleftrightarrow> g \<in> set (j_seals st) \<and> sg_generation g = gen"
  by (simp add: seals_ok_def tbl.lookup_rows)

lemma found_seal_ok: "seals_ok st \<Longrightarrow> seal_of gen st = Some g \<Longrightarrow> seal_ok st g"
  by (auto simp: seal_of_in seals_ok_def)

section \<open>Steps in flight\<close>

text \<open>\<open>seal_progress\<close> will accept the page: the generation is still where it was read.\<close>

definition resumable :: "journal \<Rightarrow> seal_row \<Rightarrow> seal_row \<Rightarrow> bool" where
  "resumable st snap current \<longleftrightarrow> sg_status current = DRAINING \<and> sg_evidence current = sg_evidence snap
     \<and> bk_evidence_revision (j_bucket st) = sg_evidence current \<and> sg_cursor current = sg_cursor snap"

definition scan_ok :: "digest_fn \<Rightarrow> journal \<Rightarrow> seal_row \<Rightarrow> reservation_row list \<Rightarrow> string \<Rightarrow> bool" where
  "scan_ok dg st snap rows root \<longleftrightarrow>
     sg_generation snap < bk_next_generation (j_bucket st)
     \<and> (\<forall>r\<in>set rows. after_cursor (sg_cursor snap) r)
     \<and> (\<forall>current. seal_of (sg_generation snap) st = Some current \<longrightarrow>
          sg_cutoff current = sg_cutoff snap \<and> sg_evidence snap \<le> sg_evidence current
          \<and> (sg_status current = DRAINING \<and> sg_evidence current = sg_evidence snap \<longrightarrow>
               start_key (sg_cursor snap) \<le> start_key (sg_cursor current))
          \<and> (resumable st snap current \<longrightarrow> (\<forall>now. digest_exact dg st (fold_page current rows root now))))"

lemma digest_exact_same:
  assumes "sg_cutoff g' = sg_cutoff g" "sg_cursor g' = sg_cursor g" "sg_count g' = sg_count g" "sg_root g' = sg_root g"
  shows "digest_exact dg st g' \<longleftrightarrow> digest_exact dg st g"
  by (simp add: digest_exact_def digested_def assms)

lemma scan_ok_moves:
  assumes ok: "seals_ok st" and mv: "moves st st'" and scan: "scan_ok dg st snap rows root"
  shows "scan_ok dg st' snap rows root"
  unfolding scan_ok_def
proof (intro conjI allI impI)
  show "sg_generation snap < bk_next_generation (j_bucket st')"
    using scan moves_counters(5) [OF mv] by (simp add: scan_ok_def)
  show "\<forall>r\<in>set rows. after_cursor (sg_cursor snap) r" using scan by (simp add: scan_ok_def)
next
  fix g' assume g': "seal_of (sg_generation snap) st' = Some g'"
  moreover have "sg_generation snap < bk_next_generation (j_bucket st)" using scan by (simp add: scan_ok_def)
  ultimately obtain g where g: "seal_of (sg_generation snap) st = Some g" and m: "seal_moved g g'"
    using mv by (auto simp: moves_def seals_moved_def)
  have s: "sg_cutoff g = sg_cutoff snap" "sg_evidence snap \<le> sg_evidence g"
    "sg_status g = DRAINING \<and> sg_evidence g = sg_evidence snap \<Longrightarrow>
       start_key (sg_cursor snap) \<le> start_key (sg_cursor g)"
    "\<And>now. resumable st snap g \<Longrightarrow> digest_exact dg st (fold_page g rows root now)"
    using scan g by (auto simp: scan_ok_def)
  show "sg_cutoff g' = sg_cutoff snap" "sg_evidence snap \<le> sg_evidence g'"
    using s(1,2) seal_movedD(1,3) [OF m] by simp_all
  show "start_key (sg_cursor snap) \<le> start_key (sg_cursor g')"
    if "sg_status g' = DRAINING \<and> sg_evidence g' = sg_evidence snap"
  proof -
    have ev: "sg_evidence g' = sg_evidence g" using that s(2) seal_movedD(3) [OF m] by simp
    have "sg_status g = DRAINING" "start_key (sg_cursor g) \<le> start_key (sg_cursor g')"
      using seal_moved_drain [OF m ev] that by blast+
    then show ?thesis using s(3) that ev by simp
  qed
  fix now assume res: "resumable st' snap g'"
  have gok: "seal_ok st g" by (rule found_seal_ok [OF ok g])
  have ev: "sg_evidence g' = sg_evidence g"
    using res s(2) seal_movedD(3) [OF m] by (simp add: resumable_def)
  have "sg_status g' = DRAINING" using res by (simp add: resumable_def)
  note dr = seal_moved_drain(1) [OF m ev this] and le = seal_moved_drain(2) [OF m ev this]
    and eq = seal_moved_drain(3) [OF m ev this]
  have "start_key (sg_cursor snap) \<le> start_key (sg_cursor g)" using s(3) dr ev res by (simp add: resumable_def)
  then have "start_key (sg_cursor g) = start_key (sg_cursor g')" using le res by (simp add: resumable_def)
  from eq [OF this] have same: "sg_cursor g' = sg_cursor g" "sg_count g' = sg_count g" "sg_root g' = sg_root g"
    by simp_all
  have q: "same_evidence st st'"
    using res ev gok moves_counters(2) [OF mv] by (simp add: same_evidence_def resumable_def seal_ok_def)
  then have "resumable st snap g" using res ev dr same by (simp add: resumable_def same_evidence_def)
  then have d: "digest_exact dg st (fold_page g rows root now)" by (rule s(4))
  have "draining st" using g dr seal_of_in [OF ok] by (auto simp: draining_def)
  then have evo: "evolves st st'" using mv by (auto simp: moves_def purges_def Let_def)
  have "digest_exact dg st' (fold_page g rows root now)"
    by (rule digest_exact_evolves [OF evo q _ d]) (use gok in \<open>simp add: seal_ok_def\<close>)
  then show "digest_exact dg st' (fold_page g' rows root now)"
    by (subst digest_exact_same [where g = "fold_page g rows root now"]) (simp_all add: fold_page_def same seal_movedD(1) [OF m])
qed

section \<open>The transactions of a seal\<close>

definition steps_ok :: "digest_fn \<Rightarrow> journal \<Rightarrow> journal \<Rightarrow> bool" where
  "steps_ok dg st st' \<longleftrightarrow> journal_ok dg st' \<and> moves st st'"

lemma steps_ok_advances: "journal_ok dg st \<Longrightarrow> advances dg st st' \<Longrightarrow> steps_ok dg st st'"
  by (simp add: steps_ok_def journal_ok_advances moves_advances)

lemma steps_ok_core: "journal_ok dg st \<Longrightarrow> same_core st st' \<Longrightarrow> steps_ok dg st st'"
  by (intro steps_ok_advances advances_core journal_okD(1))

lemma steps_ok_refl: "journal_ok dg st \<Longrightarrow> steps_ok dg st st"
  by (simp add: steps_ok_core)

lemma steps_ok_put_seal:
  assumes ok: "journal_ok dg st"
    and st': "j_rows st' = j_rows st" "j_seals st' = tbl_put sg_generation g' (j_seals st)"
      "grows (j_bucket st) (j_bucket st')" "same_evidence st st'"
    and gok: "seal_ok st' g'"
    and live: "live_drain st' g' \<Longrightarrow> digest_exact dg st' g'"
    and park: "parked st' g' \<Longrightarrow> unresolved_through (sg_cutoff g') st' \<noteq> []"
    and old: "\<And>g. seal_of (sg_generation g') st = Some g \<Longrightarrow> seal_moved g g'"
    and new: "seal_of (sg_generation g') st = None \<Longrightarrow> bk_next_generation (j_bucket st) \<le> sg_generation g'"
  shows "steps_ok dg st st'"
proof -
  note r = journal_okD(1) [OF ok] and s = journal_okD(2) [OF ok] and d = journal_okD(3) [OF ok]
  have ev: "evolves st st'" by (rule evolves_same [OF st'(1,3)])
  have wf: "tbl_wf sg_generation (j_seals st)" using s by (simp add: seals_ok_def)
  have set': "set (j_seals st') = insert g' {g \<in> set (j_seals st). sg_generation g \<noteq> sg_generation g'}"
    unfolding st'(2) using wf by (simp add: tbl.rows_put)
  have of': "seal_of gen st' = (if gen = sg_generation g' then Some g' else seal_of gen st)" for gen
    by (simp add: st'(2) tbl.lookup_put)
  have "tbl_wf sg_generation (j_seals st')" unfolding st'(2) using wf by (rule tbl.wf_put)
  moreover have "seal_ok st' g" if "g \<in> set (j_seals st)" for g
    using that s seal_ok_evolves [OF _ ev] by (simp add: seals_ok_def)
  ultimately have so: "seals_ok st'" using gok by (auto simp: seals_ok_def set')
  have same: "members c st' = members c st" "digested st' g = digested st g" for c g
    using st'(1) by (simp_all add: digested_def members_def)
  have de: "digest_exact dg st' g \<longleftrightarrow> digest_exact dg st g" for g by (simp add: digest_exact_def same)
  have un: "unresolved_through c st' = unresolved_through c st" for c
    by (simp add: unresolved_through_def st'(1))
  have lp: "live_drain st' g \<longleftrightarrow> live_drain st g" "parked st' g \<longleftrightarrow> parked st g" for g
    using st'(4) by (simp_all add: live_drain_def parked_def same_evidence_def)
  have "digests_ok dg st'"
    using d live park unfolding digests_ok_def set' de un lp by auto
  moreover have "rows_ok dg st'" by (rule rows_ok_grow [OF r st'(1,3)])
  moreover have "seals_moved st st'"
    unfolding seals_moved_def of'
  proof (intro allI impI)
    fix gen h assume h: "gen < bk_next_generation (j_bucket st)
      \<and> (if gen = sg_generation g' then Some g' else seal_of gen st) = Some h"
    show "\<exists>g. seal_of gen st = Some g \<and> seal_moved g h"
    proof (cases "gen = sg_generation g'")
      case True
      then have "seal_of (sg_generation g') st \<noteq> None" using h new by fastforce
      then show ?thesis using True h old by auto
    qed (use h in auto)
  qed
  ultimately show ?thesis using so ev by (simp add: steps_ok_def journal_ok_def moves_def)
qed

lemma members_rows: "j_rows st' = j_rows st \<Longrightarrow> members c st' = members c st"
  by (simp add: members_def)

text \<open>Resetting a generation whose evidence is behind.\<close>

lemma steps_ok_reset:
  assumes ok: "journal_ok dg st" and g: "seal_of gen st = Some g" and ev: "sg_evidence g < bk_evidence_revision (j_bucket st)"
    and nc: "sg_status g \<noteq> COMPLETE"
    and st': "j_rows st' = j_rows st" "j_bucket st' = j_bucket st"
      "j_seals st' = tbl_put sg_generation (reset_progress (bk_evidence_revision (j_bucket st)) now g) (j_seals st)"
  shows "steps_ok dg st st'"
proof -
  let ?g = "reset_progress (bk_evidence_revision (j_bucket st)) now g"
  have gen: "sg_generation g = gen" using g tbl.lookup_key by fastforce
  have gok: "seal_ok st g" by (rule found_seal_ok [OF journal_okD(2) [OF ok] g])
  have r': "rows_ok dg st'" by (rule rows_ok_grow [OF journal_okD(1) [OF ok]]) (simp_all add: st')
  show ?thesis
  proof (rule steps_ok_put_seal [OF ok st'(1,3)])
    show "digest_exact dg st' ?g"
      by (rule digest_exact_none [OF r']) (simp_all add: reset_progress_def)
    show "seal_moved h ?g" if "seal_of (sg_generation ?g) st = Some h" for h
      using that g gen ev nc by (simp add: reset_progress_def seal_moved_def)
    show "seal_ok st' ?g" using gok by (simp add: seal_ok_def reset_progress_def st')
    show "unresolved_through (sg_cutoff ?g) st' \<noteq> []" if "parked st' ?g"
      using that by (simp add: parked_def reset_progress_def)
    show "bk_next_generation (j_bucket st) \<le> sg_generation ?g" if "seal_of (sg_generation ?g) st = None"
      using that g gen by (simp add: reset_progress_def)
  qed (simp_all add: st' same_evidence_def)
qed

lemma fresh_generation:
  assumes "seals_ok st" shows "seal_of (bk_next_generation (j_bucket st)) st = None"
proof (cases "seal_of (bk_next_generation (j_bucket st)) st")
  case (Some g)
  then have "sg_generation g = bk_next_generation (j_bucket st)" "seal_ok st g"
    using assms by (auto simp: seal_of_in found_seal_ok seals_ok_def)
  then show ?thesis by (simp add: seal_ok_def)
qed

lemma steps_ok_close_start:
  assumes ok: "journal_ok dg st"
  shows "steps_ok dg st (snd (close_start req cutoff now st))"
proof -
  note r = journal_okD(1) [OF ok] and s = journal_okD(2) [OF ok]
  have replay: "steps_ok dg st (snd (replay_seal g cutoff now st))"
    if "tbl_get sg_key k (j_seals st) = Some g" for g k
  proof -
    have "g \<in> set (j_seals st)" using that by (auto simp: tbl_get_def find_Some_iff)
    then have g: "seal_of (sg_generation g) st = Some g" using seal_of_in [OF s] by blast
    have gok: "seal_ok st g" by (rule found_seal_ok [OF s g])
    have "steps_ok dg st (put_seal (reset_progress (bk_evidence_revision (j_bucket st)) now g) st)"
      if q: "sg_status g = QUARANTINED" "unresolved_through (sg_cutoff g) st = []"
    proof (rule steps_ok_reset [OF ok g])
      have "\<not> parked st g"
        using journal_okD(3) [OF ok] \<open>g \<in> set (j_seals st)\<close> q(2) by (auto simp: digests_ok_def)
      then show "sg_evidence g < bk_evidence_revision (j_bucket st)"
        using gok q(1) by (simp add: parked_def seal_ok_def)
    qed (simp_all add: q put_seal_def)
    then show ?thesis using steps_ok_refl [OF ok] by (simp add: replay_seal_def)
  qed
  let ?g = "new_seal req cutoff now st"
  let ?st = "set_bucket (\<lambda>b. b\<lparr>bk_next_generation := bk_next_generation (j_bucket st) + 1,
      bk_floor := max (bk_floor b) cutoff\<rparr>) (put_seal ?g st)"
  have b: "j_rows ?st = j_rows st" "j_seals ?st = tbl_put sg_generation ?g (j_seals st)"
    "grows (j_bucket st) (j_bucket ?st)" "same_evidence st ?st"
    by (simp_all add: set_bucket_def put_seal_def grows_def same_evidence_def)
  have "steps_ok dg st ?st"
  proof (rule steps_ok_put_seal [OF ok b])
    have "rows_ok dg ?st" by (rule rows_ok_grow [OF r b(1,3)])
    then show "digest_exact dg ?st ?g" by (rule digest_exact_none) (simp_all add: new_seal_def)
    show "seal_ok ?st ?g" by (simp add: seal_ok_def new_seal_def set_bucket_def put_seal_def)
    show "unresolved_through (sg_cutoff ?g) ?st \<noteq> []" if "parked ?st ?g"
      using that by (simp add: parked_def new_seal_def)
    show "seal_moved g ?g" if "seal_of (sg_generation ?g) st = Some g" for g
      using that fresh_generation [OF s] by (simp add: new_seal_def)
  qed (simp add: new_seal_def)
  then have "steps_ok dg st (snd (open_seal req cutoff now st))"
    using steps_ok_refl [OF ok] by (simp add: open_seal_def Let_def split: option.splits)
  then show ?thesis
    using replay steps_ok_refl [OF ok] by (simp add: close_start_def split: option.splits)
qed

lemma alarm_parts [simp]:
  "j_rows (seal_alarm now gen st) = j_rows st" "j_seals (seal_alarm now gen st) = j_seals st"
  "j_bucket (seal_alarm now gen st) = j_bucket st"
  "j_rows (clearAlarmPurpose p st) = j_rows st" "j_seals (clearAlarmPurpose p st) = j_seals st"
  "j_bucket (clearAlarmPurpose p st) = j_bucket st"
  by (simp_all add: seal_alarm_def alarm_frame)

lemma steps_ok_park:
  assumes ok: "journal_ok dg st" and g: "seal_of gen st = Some g" and d: "sg_status g = DRAINING"
    and un: "unresolved_through (sg_cutoff g) st \<noteq> []"
    and st': "j_rows st' = j_rows st" "j_bucket st' = j_bucket st"
      "j_seals st' = tbl_put sg_generation (g\<lparr>sg_status := QUARANTINED, sg_updated := now\<rparr>) (j_seals st)"
  shows "steps_ok dg st st'"
proof -
  have gen: "sg_generation g = gen" using g tbl.lookup_key by fastforce
  have gok: "seal_ok st g" by (rule found_seal_ok [OF journal_okD(2) [OF ok] g])
  show ?thesis
    by (rule steps_ok_put_seal [OF ok st'(1,3)])
       (use gok g gen d un in \<open>simp_all add: st' same_evidence_def seal_ok_def live_drain_def seal_moved_def
          unresolved_through_def\<close>)
qed

lemma steps_ok_seal_scan:
  assumes ok: "journal_ok dg st"
  shows "steps_ok dg st (snd (seal_scan n now gen st))"
proof (cases "seal_of gen st")
  case None
  then show ?thesis using steps_ok_refl [OF ok] by (simp add: seal_scan_def)
next
  case (Some g)
  have gok: "seal_ok st g" by (rule found_seal_ok [OF journal_okD(2) [OF ok] Some])
  have alarm: "steps_ok dg st (clearAlarmPurpose p st)" "steps_ok dg st (seal_alarm now gen st)" for p
    by (rule steps_ok_core [OF ok], simp)+
  have park: "steps_ok dg st (clearAlarmPurpose p (put_seal (g\<lparr>sg_status := QUARANTINED, sg_updated := now\<rparr>) st))"
    if "sg_status g = DRAINING" "unresolved_through (sg_cutoff g) st \<noteq> []" for p
    by (rule steps_ok_park [OF ok Some that]) (simp_all add: put_seal_def)
  have reset: "steps_ok dg st (seal_alarm now gen
      (put_seal (reset_progress (bk_evidence_revision (j_bucket st)) now g) st))"
    if "sg_status g = DRAINING" "bk_evidence_revision (j_bucket st) \<noteq> sg_evidence g"
    by (rule steps_ok_reset [OF ok Some]) (use that gok in \<open>simp_all add: put_seal_def seal_ok_def\<close>)
  show ?thesis
    using steps_ok_refl [OF ok] alarm park reset by (simp add: seal_scan_def Some Let_def)
qed

text \<open>A page that was read is ready to be folded in.\<close>

lemma seal_scan_rows:
  assumes ok: "journal_ok dg st" and scan: "seal_scan n now gen st = (Inr (ScanRows g rows), st')"
  shows "st' = st" "seal_of gen st = Some g" "live_drain st g" "rows = page_of g n st"
    "\<forall>r\<in>set rows. rv_record_hash r \<noteq> None"
proof -
  from scan obtain h where h: "seal_of gen st = Some h" by (auto simp: seal_scan_def split: option.splits)
  have hok: "seal_ok st h" by (rule found_seal_ok [OF journal_okD(2) [OF ok] h])
  have all: "st' = st \<and> h = g \<and> live_drain st g \<and> rows = page_of g n st \<and> (\<forall>r\<in>set rows. rv_record_hash r \<noteq> None)"
    using scan hok
    by (cases "sg_status h") (auto simp: seal_scan_def h Let_def seal_ok_def live_drain_def split: if_splits)
  with h show "st' = st" "seal_of gen st = Some g" "live_drain st g" "rows = page_of g n st"
    "\<forall>r\<in>set rows. rv_record_hash r \<noteq> None" by auto
qed

lemma scan_ok_start:
  assumes ok: "journal_ok dg st" and scan: "seal_scan n now gen st = (Inr (ScanRows g rows), st')"
    and root: "roll_root dg (sg_root g) rows = Inr root"
  shows "scan_ok dg st g rows root"
proof -
  note f = seal_scan_rows [OF ok scan]
  have gen: "sg_generation g = gen" using f(2) tbl.lookup_key by fastforce
  have gm: "g \<in> set (j_seals st)" using f(2) seal_of_in [OF journal_okD(2) [OF ok]] by blast
  have "digest_exact dg st g" using journal_okD(3) [OF ok] gm f(3) by (simp add: digests_ok_def)
  from digest_exact_fold [OF journal_okD(1) [OF ok] this f(4,5) root]
  have "digest_exact dg st (fold_page g rows root now)" for now .
  then show ?thesis
    using found_seal_ok [OF journal_okD(2) [OF ok] f(2)] page_after f(2,4) gen
    by (auto simp: scan_ok_def seal_ok_def)
qed

lemma steps_ok_seal_progress:
  assumes ok: "journal_ok dg st" and scan: "scan_ok dg st snap rows root"
  shows "steps_ok dg st (snd (seal_progress snap rows root now st))"
proof (cases "seal_of (sg_generation snap) st")
  case None
  then show ?thesis using steps_ok_refl [OF ok] by (simp add: seal_progress_def)
next
  case (Some g)
  let ?st = "put_seal (fold_page g rows root now) st"
  have gen: "sg_generation g = sg_generation snap" using Some tbl.lookup_key by fastforce
  have gm: "g \<in> set (j_seals st)" using Some seal_of_in [OF journal_okD(2) [OF ok]] by blast
  have gok: "seal_ok st g" by (rule found_seal_ok [OF journal_okD(2) [OF ok] Some])
  have "steps_ok dg st ?st" if res: "resumable st snap g"
  proof (rule steps_ok_put_seal [OF ok])
    have ex: "digest_exact dg st (fold_page g rows root now)" using scan Some res by (simp add: scan_ok_def)
    then show "digest_exact dg ?st (fold_page g rows root now)"
      by (simp add: digest_exact_def digested_def members_def put_seal_def)
    show "seal_ok ?st (fold_page g rows root now)"
      using gok res by (simp add: seal_ok_def put_seal_def resumable_def)
    have "digest_exact dg st g"
      using journal_okD(3) [OF ok] gm res by (simp add: digests_ok_def live_drain_def resumable_def)
    then have empty: "root = sg_root g" if "rows = []"
      using ex that by (simp add: digest_exact_def digested_def fold_page_def)
    have later: "start_key (sg_cursor g) < row_key (last rows)" if "rows \<noteq> []"
      using scan that res last_in_set [OF that] by (simp add: scan_ok_def after_start resumable_def)
    show "seal_moved h (fold_page g rows root now)"
      if "seal_of (sg_generation (fold_page g rows root now)) st = Some h" for h
      using that Some gen empty later res
      by (cases "rows = []") (auto simp: seal_moved_def fold_page_def resumable_def)
    show "unresolved_through (sg_cutoff (fold_page g rows root now)) ?st \<noteq> []"
      if "parked ?st (fold_page g rows root now)"
      using that res by (simp add: parked_def resumable_def)
    show "bk_next_generation (j_bucket st) \<le> sg_generation (fold_page g rows root now)"
      if "seal_of (sg_generation (fold_page g rows root now)) st = None" using that Some gen by simp
  qed (simp_all add: put_seal_def same_evidence_def)
  then show ?thesis
    using steps_ok_refl [OF ok] unfolding seal_progress_def Some
    by (simp add: resumable_def flip: fold_page_def)
qed

text \<open>The digest of a generation that covers every member: exactly what the receipt states.\<close>

lemma digest_covers:
  assumes "digest_exact dg st g" "int (length (members (sg_cutoff g) st)) = sg_count g"
  shows "digested st g = members (sg_cutoff g) st"
proof -
  have "length (filter (\<lambda>r. \<not> after_cursor (sg_cursor g) r) (members (sg_cutoff g) st)) = length (members (sg_cutoff g) st)"
    using assms by (simp add: digest_exact_def digested_def)
  then show ?thesis unfolding digested_def by (metis filter_True length_filter_conv_card length_filter_less not_less_iff_gr_or_eq)
qed

lemma seal_publish_guard:
  assumes "seal_publish gen fs receipt h now st = (Some True, st')"
  obtains g where "seal_of gen st = Some g" "live_drain st g" "sg_count g = sg_count (fs_current fs)"
    "sg_root g = sg_root (fs_current fs)" "sg_evidence g = sg_evidence (fs_current fs)"
    "int (length (members (sg_cutoff g) st)) = sg_count g"
    "\<forall>r\<in>set (members (sg_cutoff g) st). rv_quarantine r \<noteq> UNRESOLVED \<and> rv_record_hash r \<noteq> None"
  using assms by (auto simp: seal_publish_def Let_def live_drain_def split: option.splits if_splits)

lemma steps_ok_seal_publish:
  assumes ok: "journal_ok dg st"
  shows "steps_ok dg st (snd (seal_publish gen fs receipt h now st))"
proof (cases "seal_of gen st")
  case None
  then show ?thesis using steps_ok_refl [OF ok] by (simp add: seal_publish_def)
next
  case (Some g)
  have gen: "sg_generation g = gen" using Some tbl.lookup_key by fastforce
  have gok: "seal_ok st g" by (rule found_seal_ok [OF journal_okD(2) [OF ok] Some])
  let ?g = "g\<lparr>sg_status := COMPLETE, sg_receipt_hash := Some h, sg_receipt := Some receipt, sg_updated := now\<rparr>"
  have "steps_ok dg st st'"
    if d: "sg_status g = DRAINING" "\<forall>r\<in>set (members (sg_cutoff g) st). rv_record_hash r \<noteq> None"
      and st': "j_rows st' = j_rows st" "j_seals st' = tbl_put sg_generation ?g (j_seals st)"
        "grows (j_bucket st) (j_bucket st')" "same_evidence st st'" for st'
  proof (rule steps_ok_put_seal [OF ok st'])
    show "seal_ok st' ?g" using gok d(2) st' by (simp add: seal_ok_def grows_def members_rows [OF st'(1)])
    show "seal_moved k ?g" if "seal_of (sg_generation ?g) st = Some k" for k
      using that Some gen d(1) by (simp add: seal_moved_def)
  qed (use Some gen in \<open>simp_all add: live_drain_def parked_def\<close>)
  then show ?thesis
    using steps_ok_refl [OF ok]
    by (auto simp: seal_publish_def Some Let_def put_seal_def set_bucket_def grows_def same_evidence_def)
qed

end
