(* ===== verification/JournalPurge.thy ===== *)
theory JournalPurge
  imports JournalSealSteps
begin

text \<open>
  The deletions of a journal bucket: released records past their retention, stale reservations
  and superseded seals. No deletion touches unresolved evidence, and records go only while no
  seal drains.
\<close>

section \<open>Dropping rows\<close>

lemma drop_tx_parts [simp]:
  "j_seals (drop_tx tx st) = j_seals st" "j_bucket (drop_tx tx st) = j_bucket st"
  "j_rows (drop_tx tx st) = filter (\<lambda>r. rv_tx r \<noteq> tx) (j_rows st)"
  "j_v1 (drop_tx tx st) = j_v1 st"
  by (simp_all add: drop_tx_def tbl_del_def)

lemma drop_all_parts [simp]:
  "j_seals (drop_all txs st) = j_seals st" "j_bucket (drop_all txs st) = j_bucket st"
  "j_rows (drop_all txs st) = filter (\<lambda>r. rv_tx r \<notin> set txs) (j_rows st)"
  "j_v1 (drop_all txs st) = j_v1 st"
proof -
  have "j_seals (foldl (\<lambda>s tx. drop_tx tx s) s txs) = j_seals s
      \<and> j_bucket (foldl (\<lambda>s tx. drop_tx tx s) s txs) = j_bucket s
      \<and> j_v1 (foldl (\<lambda>s tx. drop_tx tx s) s txs) = j_v1 s
      \<and> j_rows (foldl (\<lambda>s tx. drop_tx tx s) s txs) = filter (\<lambda>r. rv_tx r \<notin> set txs) (j_rows s)" for s
    by (induction txs arbitrary: s) (auto intro: filter_cong)
  then show "j_seals (drop_all txs st) = j_seals st" "j_bucket (drop_all txs st) = j_bucket st"
    "j_rows (drop_all txs st) = filter (\<lambda>r. rv_tx r \<notin> set txs) (j_rows st)"
    "j_v1 (drop_all txs st) = j_v1 st"
    by (simp_all add: drop_all_def)
qed

lemma rows_ok_filter:
  assumes "rows_ok dg st" "j_rows st' = filter p (j_rows st)"
    and "bk_floor (j_bucket st') = bk_floor (j_bucket st)"
    "bk_last_assigned (j_bucket st') = bk_last_assigned (j_bucket st)"
    "bk_next_sequence (j_bucket st') = bk_next_sequence (j_bucket st)"
  shows "rows_ok dg st'"
proof -
  have "row_ok dg (j_bucket st') r \<longleftrightarrow> row_ok dg (j_bucket st) r" for r
    by (simp add: row_ok_def assms(4,5))
  then show ?thesis using assms by (auto simp: rows_ok_def tbl_wf_def distinct_map_filter)
qed

lemma members_filter: "j_rows st' = filter p (j_rows st) \<Longrightarrow> members c st' = filter p (members c st)"
  by (simp add: members_def filter_sort conj_commute)

section \<open>Stale history\<close>

lemma steps_ok_sweepV2History:
  assumes ok: "journal_ok dg st"
  shows "steps_ok dg st (snd (sweepV2History now limit st))"
proof -
  note r = journal_okD(1) [OF ok] and s = journal_okD(2) [OF ok] and d = journal_okD(3) [OF ok]
  define rows where "rows = take limit (sort_key (\<lambda>r. (rv_updated r, rv_tx r))
      (filter (\<lambda>r. stale_terminal r \<and> rv_updated r \<le> now - V2_HISTORY_RETENTION_MS) (j_rows st)))"
  define st1 where "st1 = drop_all (map rv_tx rows) st"
  obtain gone where st': "snd (sweepV2History now limit st)
      = st1\<lparr>j_seals := filter (\<lambda>g. sg_generation g \<notin> gone) (j_seals st1)\<rparr>"
    by (simp add: sweepV2History_def Let_def rows_def st1_def)
  define st2 where "st2 = st1\<lparr>j_seals := filter (\<lambda>g. sg_generation g \<notin> gone) (j_seals st1)\<rparr>"
  have rows: "x \<in> set (j_rows st) \<and> rv_state x \<noteq> FINALIZED" if "x \<in> set rows" for x
    using in_set_takeD [OF that [unfolded rows_def]] by (simp add: stale_terminal_def)
  have parts: "j_rows st2 = filter (\<lambda>x. rv_tx x \<notin> rv_tx ` set rows) (j_rows st)" "j_bucket st2 = j_bucket st"
    "j_seals st2 = filter (\<lambda>g. sg_generation g \<notin> gone) (j_seals st)"
    by (simp_all add: st2_def st1_def)
  have keep: "rv_tx x \<notin> rv_tx ` set rows" if "x \<in> set (members c st)" for x c
  proof
    assume "rv_tx x \<in> rv_tx ` set rows"
    then obtain y where y: "y \<in> set rows" "rv_tx y = rv_tx x" by auto
    have "x \<in> set (j_rows st)" "rv_state x = FINALIZED" using that by (auto simp: set_members member_def)
    moreover from this have "y = x" using rows [OF y(1)] y(2) r by (auto simp: rows_ok_def tbl_wf_def distinct_map inj_on_def)
    ultimately show False using rows [OF y(1)] by simp
  qed
  then have mem: "members c st2 = members c st" for c
    using members_filter [OF parts(1)] by (simp add: filter_id_conv)
  then have dig: "digested st2 g = digested st g" "unresolved_through c st2 \<noteq> [] \<longleftrightarrow> unresolved_through c st \<noteq> []" for g c
    by (simp_all add: digested_def unresolved_iff)
  have ev: "evolves st st2" by (simp add: evolves_def mem parts(2) list_all2_same)
  have "rows_ok dg st2" by (rule rows_ok_filter [OF r parts(1)]) (simp_all add: parts(2))
  moreover have "seals_ok st2"
    using s by (auto simp: seals_ok_def seal_ok_def parts(2,3) mem tbl_wf_def distinct_map_filter)
  moreover have "digests_ok dg st2"
    using d by (auto simp: digests_ok_def digest_exact_def live_drain_def parked_def dig parts(2,3))
  moreover have "seals_moved st st2"
    unfolding seals_moved_def
  proof (intro allI impI)
    fix gen g' assume "gen < bk_next_generation (j_bucket st) \<and> seal_of gen st2 = Some g'"
    then have "g' \<in> set (j_seals st2)" "sg_generation g' = gen"
      using seal_of_in [OF \<open>seals_ok st2\<close>] by blast+
    then have "seal_of gen st = Some g'" using seal_of_in [OF s] by (simp add: parts(3))
    then show "\<exists>g. seal_of gen st = Some g \<and> seal_moved g g'" by auto
  qed
  ultimately show ?thesis
    unfolding st' using ev by (simp add: steps_ok_def journal_ok_def moves_def flip: st2_def)
qed

section \<open>Released records\<close>

text \<open>The replay check compares texts; equal texts name the same transactions.\<close>

lemma candidate_wf: "wf_json (candidate_json r)"
  by (cases "rv_record_hash r"; cases "rv_decided r") (simp_all add: candidate_json_def nullable_def)

lemma candidate_key:
  "norm_json (candidate_json r) = norm_json (candidate_json r')
   \<Longrightarrow> rv_tx r = rv_tx r' \<and> fst (row_key r) = fst (row_key r')"
proof -
  let ?kvs = "\<lambda>r. [(''tx_id'', JStr (rv_tx r)), (''record_hash'', nullable JStr (rv_record_hash r)),
      (''commit_decided_at_ms'', nullable jint (rv_decided r))]"
  assume "norm_json (candidate_json r) = norm_json (candidate_json r')"
  then have "norm_pairs (?kvs r) = norm_pairs (?kvs r')"
    unfolding candidate_json_def by (subst (asm) norm_json_pairs) simp_all
  moreover have "(''tx_id'', JStr (rv_tx r)) \<in> norm_pairs (?kvs r)"
    "(''commit_decided_at_ms'', norm_json (nullable jint (rv_decided r))) \<in> norm_pairs (?kvs r)"
    by (simp_all add: norm_pairs_def)
  ultimately have "(''tx_id'', JStr (rv_tx r)) \<in> norm_pairs (?kvs r')"
    "(''commit_decided_at_ms'', norm_json (nullable jint (rv_decided r))) \<in> norm_pairs (?kvs r')"
    by simp_all
  then have "rv_tx r = rv_tx r'" "norm_json (nullable jint (rv_decided r)) = norm_json (nullable jint (rv_decided r'))"
    by (simp_all add: norm_pairs_def)
  then show ?thesis
    by (cases "rv_decided r"; cases "rv_decided r'") (simp_all add: nullable_def row_key_def)
qed

lemma candidates_keys:
  assumes "canonicalJson (JArr (map candidate_json rs)) = canonicalJson (JArr (map candidate_json rs'))"
  shows "list_all2 (\<lambda>r r'. rv_tx r = rv_tx r' \<and> fst (row_key r) = fst (row_key r')) rs rs'"
proof -
  have "map norm_json (map candidate_json rs) = map norm_json (map candidate_json rs')"
    using assms by (subst (asm) canonicalJson_eq_iff) (simp_all add: list_all_iff candidate_wf)
  then have l: "list_all2 (\<lambda>r r'. norm_json (candidate_json r) = norm_json (candidate_json r')) rs rs'"
    by (simp add: list_all2_conv_all_nth list_eq_iff_nth_eq)
  then show ?thesis by (rule list_all2_mono) (rule candidate_key)
qed

lemma same_candidates:
  assumes "list_all2 (\<lambda>r r'. rv_tx r = rv_tx r' \<and> fst (row_key r) = fst (row_key r')) rs rs'"
  shows "map rv_tx rs = map rv_tx rs'" "map (fst \<circ> row_key) rs = map (fst \<circ> row_key) rs'"
  using assms by (simp_all add: list_all2_conv_all_nth list_eq_iff_nth_eq)

lemma due_records_in: "r \<in> set (due_records now limit st) \<Longrightarrow> r \<in> set (j_rows st) \<and> due_record now r"
  by (auto simp: due_records_def dest: in_set_takeD)

lemma sorted_last: "sorted (map f xs) \<Longrightarrow> x \<in> set xs \<Longrightarrow> f x \<le> f (last xs)"
  by (induction xs) auto

lemma due_records_last:
  assumes "r \<in> set (due_records now limit st)"
  shows "fst (row_key r) \<le> fst (row_key (last (due_records now limit st)))"
proof -
  have "sorted (map row_key (due_records now limit st))"
    by (simp add: due_records_def take_map [symmetric] sorted_wrt_take)
  from sorted_last [OF this assms] show ?thesis by (auto simp: less_eq_prod_def)
qed

text \<open>What the deleting transaction did, when it deleted.\<close>

lemma retention_delete_cases:
  obtains "retention_delete now limit rows root st = ((0, True), st)"
  | "retention_delete now limit rows root st = ((0, False), st)"
  | "leases_over now rows st = []" "\<not> draining st" "map rv_tx rows = map rv_tx (due_records now limit st)"
    "map (fst \<circ> row_key) rows = map (fst \<circ> row_key) (due_records now limit st)"
    "retention_delete now limit rows root st = ((int (length rows), False),
       set_bucket (\<lambda>b. b\<lparr>bk_deleted_through := max (bk_deleted_through b) (fst (row_key (last rows))),
           bk_retention_epoch := bk_retention_epoch b + 1, bk_retention_root := root\<rparr>)
         (drop_all (map rv_tx rows) st))"
proof (cases "leases_over now rows st = [] \<and> \<not> draining st
    \<and> canonicalJson (JArr (map candidate_json (due_records now limit st)))
        = canonicalJson (JArr (map candidate_json rows))")
  case True
  moreover from True have "list_all2 (\<lambda>r r'. rv_tx r = rv_tx r' \<and> fst (row_key r) = fst (row_key r'))
      (due_records now limit st) rows"
    by (intro candidates_keys) (elim conjE)
  note same_candidates [OF this]
  ultimately show ?thesis
    by (intro that(3)) (simp_all only: retention_delete_def if_False if_True simp_thms)
next
  case False
  then show ?thesis
    by (cases "leases_over now rows st = []"; cases "draining st")
      (rule that(1) that(2); simp only: retention_delete_def if_False if_True simp_thms not_False_eq_True not_True_eq_False; fail)+
qed

lemma steps_ok_retention_delete:
  assumes ok: "journal_ok dg st"
  shows "steps_ok dg st (snd (retention_delete now limit rows root st))"
proof (cases rule: retention_delete_cases [of now limit rows root st])
  case 3
  note r = journal_okD(1) [OF ok] and s = journal_okD(2) [OF ok] and d = journal_okD(3) [OF ok]
  let ?txs = "map rv_tx rows"
  define st' where "st' = snd (retention_delete now limit rows root st)"
  have parts: "j_rows st' = filter (\<lambda>x. rv_tx x \<notin> set ?txs) (j_rows st)" "j_seals st' = j_seals st"
    "bk_floor (j_bucket st') = bk_floor (j_bucket st)"
    "bk_last_assigned (j_bucket st') = bk_last_assigned (j_bucket st)"
    "bk_next_sequence (j_bucket st') = bk_next_sequence (j_bucket st)"
    "bk_evidence_revision (j_bucket st') = bk_evidence_revision (j_bucket st)"
    "bk_next_generation (j_bucket st') = bk_next_generation (j_bucket st)"
    "bk_retention_epoch (j_bucket st') = bk_retention_epoch (j_bucket st) + 1"
    by (simp_all add: st'_def 3(5) set_bucket_def)
  have del: "bk_deleted_through (j_bucket st')
      = max (bk_deleted_through (j_bucket st)) (fst (row_key (last rows)))"
    by (simp add: st'_def 3(5) set_bucket_def)
  have mem: "members c st' = filter (\<lambda>x. rv_tx x \<notin> set ?txs) (members c st)" for c
    by (rule members_filter [OF parts(1)])
  have kept: "rv_tx x \<notin> set ?txs" if "x \<in> set (j_rows st)" "rv_quarantine x = UNRESOLVED" for x
  proof
    assume "rv_tx x \<in> set ?txs"
    then obtain y where "y \<in> set (due_records now limit st)" "rv_tx y = rv_tx x"
      unfolding 3(3) by auto
    then have "y = x" "due_record now y"
      using due_records_in that(1) r by (fastforce simp: rows_ok_def tbl_wf_def distinct_map inj_on_def)+
    then show False using that(2) by (simp add: due_record_def)
  qed
  have "rows_ok dg st'" by (rule rows_ok_filter [OF r parts(1,3-5)])
  moreover have "seals_ok st'"
    using s unfolding seals_ok_def seal_ok_def parts mem by auto
  moreover have "digests_ok dg st'"
    unfolding digests_ok_def parts(2)
  proof (intro conjI ballI impI)
    fix g assume "g \<in> set (j_seals st)" "live_drain st' g"
    then show "digest_exact dg st' g" using 3(2) by (auto simp: draining_def live_drain_def)
  next
    fix g assume g: "g \<in> set (j_seals st)" "parked st' g"
    then have "unresolved_through (sg_cutoff g) st \<noteq> []"
      using d by (simp add: digests_ok_def parked_def parts(6))
    then obtain x where "x \<in> set (members (sg_cutoff g) st)" "rv_quarantine x = UNRESOLVED"
      unfolding unresolved_iff by blast
    then show "unresolved_through (sg_cutoff g) st' \<noteq> []"
      using kept unfolding unresolved_iff mem by (auto simp: set_members)
  qed
  moreover have "purges st st'"
    unfolding purges_def Let_def parts
  proof (intro conjI exI [where x = "set ?txs"] allI ballI impI)
    fix x assume x: "x \<in> set (j_rows st)" "rv_tx x \<in> set ?txs"
    let ?due = "due_records now limit st"
    obtain y where y: "y \<in> set ?due" "rv_tx y = rv_tx x" using x(2) unfolding 3(3) by auto
    then have "y = x" using due_records_in x(1) r by (fastforce simp: rows_ok_def tbl_wf_def distinct_map inj_on_def)
    then have "?due \<noteq> []" "fst (row_key x) \<le> fst (row_key (last ?due))"
      using y due_records_last by auto
    moreover from 3(4) have "fst (row_key (last rows)) = fst (row_key (last ?due))" if "?due \<noteq> []"
      using that by (metis comp_apply last_map list.map_disc_iff)
    ultimately show "fst (row_key x) \<le> bk_deleted_through (j_bucket st')" by (simp add: del)
  qed (use 3(2) mem del in simp_all)
  ultimately show ?thesis by (simp add: steps_ok_def journal_ok_def moves_purges flip: st'_def)
qed (use steps_ok_refl [OF ok] in simp_all)

end
