(* ===== verification/JournalSystem.thy ===== *)
theory JournalSystem
  imports JournalPurge "HOL-Library.Multiset"
begin

text \<open>
  A journal bucket as a system: the durable state and the requests in flight. Every
  \<open>transactionSync\<close> block is one step, so the steps of concurrent requests interleave at the
  \<open>await\<close>s of the handlers; a request in flight is what its handler holds across an \<open>await\<close>,
  and is lost when the object is evicted. The clock is unconstrained: each step has its own \<open>now\<close>.
\<close>

section \<open>Requests in flight\<close>

datatype task =
    Certifying certificate
  | Persisting string jval int int jval string
  | Resolving jval string string string
  | Digesting seal_row "reservation_row list" string
  | Publishing int final_state jval string
  | Sweeping int nat "reservation_row list" string

type_synonym world = "journal \<times> task multiset"

inductive step :: "digest_fn \<Rightarrow> world \<Rightarrow> world \<Rightarrow> bool" for dg :: digest_fn where
  fence: "certificate_done st = None \<Longrightarrow> step dg (st, T) (snd (legacy_fence st), T)"
| certify: "certificate_done st = None \<Longrightarrow> certify_rows dg (fst (legacy_fence st)) = Inr c \<Longrightarrow>
    step dg (st, T) (snd (legacy_fence st), add_mset (Certifying c) T)"
| certified: "step dg (st, add_mset (Certifying c) T) (snd (store_certificate c st), T)"
| reserved: "reserve_admit dg v claimed floor = Inr (Inr h) \<Longrightarrow> distinct (jkeys v) \<Longrightarrow>
    certificate_done st = Some cert \<Longrightarrow>
    step dg (st, T) (snd (reserve_tx h (int_of floor) cert now v st), T)"
| assigned: "hashManifestFinalizeIntent dg i = Inr ih \<Longrightarrow>
    step dg (st, T) (snd (finalize_assign ih now i st), T)"
| recording: "hashManifestFinalizeIntent dg i = Inr ih \<Longrightarrow>
    finalize_assign ih now i st = (Assigned res d s, st') \<Longrightarrow> build_record dg i res d s = Inr (v, rh) \<Longrightarrow>
    step dg (st, T) (st', add_mset (Persisting ih i d s v rh) T)"
| recorded: "step dg (st, add_mset (Persisting ih i d s v rh) T) (snd (finalize_persist ih now i d s v rh st), T)"
| cancelled: "hash_cancel_intent dg i = Inr ih \<Longrightarrow> step dg (st, T) (snd (cancel_tx ih now i st), T)"
| resolving: "resolution_admit dg v = Inr ti \<Longrightarrow> resolution_match v ti st = Inr row \<Longrightarrow>
    violation (hashCanonicalJson dg v) = Inr qh \<Longrightarrow>
    violation (hashCanonicalJson dg (attestation_json v row)) = Inr ah \<Longrightarrow>
    step dg (st, T) (st, add_mset (Resolving v (rv_tx row) qh ah) T)"
| resolved: "step dg (st, add_mset (Resolving v tx qh ah) T) (snd (resolution_tx v tx qh ah now st), T)"
| initialized: "validateManifestSealRequest v = Inr () \<Longrightarrow> 0 \<le> floor \<Longrightarrow> certificate_done st \<noteq> None \<Longrightarrow>
    step dg (st, T) (snd (initialize_tx v floor st), T)"
| opened: "validateManifestSealRequest v = Inr () \<Longrightarrow> parseManifestTimestamp (jget v ''cutoff'') = Inr cutoff \<Longrightarrow>
    cutoff \<le> now \<Longrightarrow> certificate_done st \<noteq> None \<Longrightarrow>
    step dg (st, T) (snd (close_start v cutoff now st), T)"
| scanned: "step dg (st, T) (snd (seal_scan SEAL_PAGE_SIZE now gen st), T)"
| digesting: "seal_scan SEAL_PAGE_SIZE now gen st = (Inr (ScanRows g rows), st') \<Longrightarrow>
    roll_root dg (sg_root g) rows = Inr root \<Longrightarrow>
    step dg (st, T) (st', add_mset (Digesting g rows root) T)"
| digest: "step dg (st, add_mset (Digesting g rows root) T) (snd (seal_progress g rows root now st), T)"
| publishing: "seal_final gen st = Inr (Some fs) \<Longrightarrow> bk_certificate (fs_bucket fs) = Some cert \<Longrightarrow>
    build_receipt dg v gen fs cert = Inr (receipt, h) \<Longrightarrow>
    step dg (st, T) (st, add_mset (Publishing gen fs receipt h) T)"
| published: "step dg (st, add_mset (Publishing gen fs receipt h) T)
    (snd (seal_publish gen fs receipt h now st), T)"
| paged: "page_prepare dg v = Inr p \<Longrightarrow> step dg (st, T) (snd (page_tx p now expires st), T)"
| registered: "validatedManifestRegistration dg v = Inr w \<Longrightarrow>
    parse_iso (str_of (jget (jget w ''record'') ''retention_deadline'')) = Some deadline \<Longrightarrow>
    step dg (st, T) (snd (register_tx (jget w ''record'') (str_of (jget w ''record_hash'')) deadline now st), T)"
| released: "sha256_text h \<Longrightarrow> step dg (st, T) (snd (release_tx tx h st), T)"
| releasedV2: "sha256_text vh \<Longrightarrow> sha256_text rh \<Longrightarrow> step dg (st, T) (snd (releaseV2_tx tx vh rh now st), T)"
| history: "step dg (st, T) (snd (sweepV2History now limit st), T)"
| candidates: "step dg (st, T) (snd (retention_scan now limit st), T)"
| sweeping: "retention_scan now limit st = (SweepCandidates rows remaining prior, st') \<Longrightarrow>
    evidence_root dg prior rows = Inr root \<Longrightarrow>
    step dg (st, T) (st', add_mset (Sweeping now limit rows root) T)"
| swept: "step dg (st, add_mset (Sweeping now limit rows root) T) (snd (retention_delete now limit rows root st), T)"
| v1_swept: "step dg (st, T) (snd (v1_sweep now st), T)"
| alarms: "step dg (st, T) (st\<lparr>j_alarms := as, j_physical_alarm := at\<rparr>, T)"
| lost: "step dg (st, add_mset t T) (st, T)"

abbreviation reaches :: "digest_fn \<Rightarrow> world \<Rightarrow> world \<Rightarrow> bool" where
  "reaches dg \<equiv> (step dg)\<^sup>*\<^sup>*"

definition new_bucket :: world where
  "new_bucket = (empty_journal, {#})"

abbreviation reachable :: "digest_fn \<Rightarrow> world \<Rightarrow> bool" where
  "reachable dg w \<equiv> reaches dg new_bucket w"

section \<open>The invariant of the requests in flight\<close>

definition persist_ok :: "digest_fn \<Rightarrow> journal \<Rightarrow> jval \<Rightarrow> int \<Rightarrow> int \<Rightarrow> jval \<Rightarrow> string \<Rightarrow> bool" where
  "persist_ok dg st i d s v rh \<longleftrightarrow> record_for dg i d s v rh \<and> d \<le> bk_last_assigned (j_bucket st)
     \<and> (\<forall>row\<in>set (j_rows st). rv_decided row = Some d \<longrightarrow> jget i ''reservation_hash'' = JStr (rv_hash row))"

text \<open>\<open>seal_publish\<close> will accept the receipt: the generation still drains the same evidence.\<close>

definition still_live :: "journal \<Rightarrow> seal_row \<Rightarrow> seal_row \<Rightarrow> bool" where
  "still_live st snap current \<longleftrightarrow> sg_status current = DRAINING \<and> sg_evidence current = sg_evidence snap
     \<and> bk_evidence_revision (j_bucket st) = sg_evidence current"

definition publish_ok :: "digest_fn \<Rightarrow> journal \<Rightarrow> int \<Rightarrow> final_state \<Rightarrow> jval \<Rightarrow> string \<Rightarrow> bool" where
  "publish_ok dg st gen fs receipt h \<longleftrightarrow>
     (\<exists>v cert. build_receipt dg v gen fs cert = Inr (receipt, h))
     \<and> gen < bk_next_generation (j_bucket st) \<and> fs_count fs = sg_count (fs_current fs)
     \<and> (\<forall>g. seal_of gen st = Some g \<longrightarrow>
          sg_cutoff g = sg_cutoff (fs_current fs) \<and> sg_evidence (fs_current fs) \<le> sg_evidence g
          \<and> (still_live st (fs_current fs) g \<longrightarrow>
               max_sequence (members (sg_cutoff g) st) = fs_max_sequence fs
               \<and> bk_retention_epoch (j_bucket st) = bk_retention_epoch (fs_bucket fs)
               \<and> bk_deleted_through (j_bucket st) = bk_deleted_through (fs_bucket fs)))"

fun task_ok :: "digest_fn \<Rightarrow> journal \<Rightarrow> task \<Rightarrow> bool" where
  "task_ok dg st (Persisting ih i d s v rh) \<longleftrightarrow> persist_ok dg st i d s v rh"
| "task_ok dg st (Digesting g rows root) \<longleftrightarrow> scan_ok dg st g rows root"
| "task_ok dg st (Publishing gen fs receipt h) \<longleftrightarrow> publish_ok dg st gen fs receipt h"
| "task_ok dg st _ \<longleftrightarrow> True"

definition world_ok :: "digest_fn \<Rightarrow> world \<Rightarrow> bool" where
  "world_ok dg w \<longleftrightarrow> journal_ok dg (fst w) \<and> (\<forall>t\<in>#snd w. task_ok dg (fst w) t)"

lemma keeps_weaken: "keeps q r r' \<Longrightarrow> keeps False r r'"
  by (simp add: keeps_def)

text \<open>Nothing is decided behind the horizon: a decision there was there before.\<close>

lemma members_back:
  assumes "moves st st'" "c \<le> horizon (j_bucket st)" "r' \<in> set (members c st')"
  shows "\<exists>r\<in>set (members c st). keeps False r r'"
proof (cases "evolves st st'")
  case True
  then have "list_all2 (keeps (same_evidence st st')) (members c st) (members c st')"
    using assms(2) by (simp add: evolves_def)
  from list_all2_ball(1) [OF this assms(3)] show ?thesis using keeps_weaken by blast
next
  case False
  then obtain gone where "members c st' = filter (\<lambda>r. rv_tx r \<notin> gone) (members c st)"
    using assms(1) by (auto simp: moves_def purges_def Let_def)
  then have "r' \<in> set (members c st)" using assms(3) by simp
  then show ?thesis using keeps_refl by blast
qed

lemma persist_ok_moves:
  assumes "rows_ok dg st'" "moves st st'" "persist_ok dg st i d s v rh"
  shows "persist_ok dg st' i d s v rh"
  unfolding persist_ok_def
proof (intro conjI ballI impI)
  show "record_for dg i d s v rh" "d \<le> bk_last_assigned (j_bucket st')"
    using assms(3) moves_counters(3) [OF assms(2)] by (simp_all add: persist_ok_def)
  fix row assume row: "row \<in> set (j_rows st')" "rv_decided row = Some d"
  then have "row_ok dg (j_bucket st') row" using assms(1) by (simp add: rows_ok_def)
  then have "row \<in> set (members d st')"
    using row by (cases "rv_state row = FINALIZED") (simp_all add: set_members member_def row_ok_def)
  moreover have "d \<le> horizon (j_bucket st)" using assms(3) by (auto simp: persist_ok_def horizon_def)
  ultimately obtain r where "r \<in> set (members d st)" "keeps False r row"
    using members_back [OF assms(2)] by blast
  then show "jget i ''reservation_hash'' = JStr (rv_hash row)"
    using assms(3) row(2) by (simp add: persist_ok_def set_members keeps_def)
qed

lemma max_sequence_keeps:
  "list_all2 (keeps q) rs rs' \<Longrightarrow> max_sequence rs' = max_sequence rs"
proof -
  assume "list_all2 (keeps q) rs rs'"
  then have "map rv_sequence rs' = map rv_sequence rs"
    by (induction rule: list_all2_induct) (simp_all add: keeps_def)
  then show ?thesis by (simp add: max_sequence_def)
qed

lemma publish_ok_moves:
  assumes ok: "seals_ok st" and mv: "moves st st'" and pub: "publish_ok dg st gen fs receipt h"
  shows "publish_ok dg st' gen fs receipt h"
  unfolding publish_ok_def
proof (intro conjI allI impI)
  show "\<exists>v cert. build_receipt dg v gen fs cert = Inr (receipt, h)" "fs_count fs = sg_count (fs_current fs)"
    "gen < bk_next_generation (j_bucket st')"
    using pub moves_counters(5) [OF mv] by (simp_all add: publish_ok_def)
  fix g' assume "seal_of gen st' = Some g'"
  moreover have "gen < bk_next_generation (j_bucket st)" using pub by (simp add: publish_ok_def)
  ultimately obtain g where g: "seal_of gen st = Some g" and m: "seal_moved g g'"
    using mv by (auto simp: moves_def seals_moved_def)
  have s: "sg_cutoff g = sg_cutoff (fs_current fs)" "sg_evidence (fs_current fs) \<le> sg_evidence g"
    using pub g by (auto simp: publish_ok_def)
  then show "sg_cutoff g' = sg_cutoff (fs_current fs)" "sg_evidence (fs_current fs) \<le> sg_evidence g'"
    using seal_movedD(1,3) [OF m] by simp_all
  assume live: "still_live st' (fs_current fs) g'"
  have gok: "seal_ok st g" by (rule found_seal_ok [OF ok g])
  have ev: "sg_evidence g' = sg_evidence g" using live s(2) seal_movedD(3) [OF m] by (simp add: still_live_def)
  have dr: "sg_status g = DRAINING"
    by (rule seal_moved_drain(1) [OF m ev]) (use live in \<open>simp add: still_live_def\<close>)
  have q: "bk_evidence_revision (j_bucket st) = bk_evidence_revision (j_bucket st')"
    using live ev gok moves_counters(2) [OF mv] by (simp add: still_live_def seal_ok_def)
  then have "still_live st (fs_current fs) g" using live ev dr by (simp add: still_live_def)
  then have f: "max_sequence (members (sg_cutoff g) st) = fs_max_sequence fs"
      "bk_retention_epoch (j_bucket st) = bk_retention_epoch (fs_bucket fs)"
      "bk_deleted_through (j_bucket st) = bk_deleted_through (fs_bucket fs)"
    using pub g by (auto simp: publish_ok_def)
  have "draining st" using g dr seal_of_in [OF ok] by (auto simp: draining_def)
  then have evo: "evolves st st'" using mv by (auto simp: moves_def purges_def Let_def)
  then have "list_all2 (keeps (same_evidence st st')) (members (sg_cutoff g) st) (members (sg_cutoff g) st')"
    using gok floor_horizon by (simp add: evolves_def seal_ok_def)
  then show "max_sequence (members (sg_cutoff g') st') = fs_max_sequence fs"
    using f(1) max_sequence_keeps seal_movedD(1) [OF m] by metis
  show "bk_retention_epoch (j_bucket st') = bk_retention_epoch (fs_bucket fs)"
    "bk_deleted_through (j_bucket st') = bk_deleted_through (fs_bucket fs)"
    using f evo by (simp_all add: evolves_def grows_def)
qed

lemma task_ok_moves:
  assumes "steps_ok dg st st'" "journal_ok dg st" "task_ok dg st t"
  shows "task_ok dg st' t"
proof -
  have j: "rows_ok dg st'" "seals_ok st" "moves st st'"
    using assms(1,2) by (simp_all add: steps_ok_def journal_ok_def)
  show ?thesis
    using assms(3) persist_ok_moves [OF j(1,3)] scan_ok_moves [OF j(2,3)] publish_ok_moves [OF j(2,3)]
    by (cases t) simp_all
qed

section \<open>How the requests in flight start\<close>

lemma assigned_row:
  assumes r: "rows_ok dg st" and fin: "finalize_assign ih now i st = (Assigned res d s, st')"
  obtains row where "row_of (str_of (jget i ''tx_id'')) st = Some row" "res = rv_json row"
    "jget i ''reservation_hash'' = JStr (rv_hash row)"
    "row_of (str_of (jget i ''tx_id'')) st' = Some
       (if rv_state row = FINALIZED then row
        else row\<lparr>rv_state := FINALIZED, rv_intent_hash := Some ih, rv_intent := Some i,
               rv_decided := Some d, rv_sequence := Some s, rv_updated := now\<rparr>)"
    "rv_state row = FINALIZED \<Longrightarrow> rv_decided row = Some d \<and> rv_sequence row = Some s \<and> st' = st"
    "rv_state row \<noteq> FINALIZED \<Longrightarrow> rv_state row = RESERVED \<and> s = bk_next_sequence (j_bucket st)
       \<and> d = max now (max (bk_last_assigned (j_bucket st) + 1) (bk_floor (j_bucket st) + 1))"
proof -
  from fin obtain row where row: "row_of (str_of (jget i ''tx_id'')) st = Some row"
    by (cases "row_of (str_of (jget i ''tx_id'')) st") (simp_all add: finalize_assign_def Let_def)
  have rok: "row_ok dg (j_bucket st) row" by (rule found_row_ok [OF r row])
  have tx: "rv_tx row = str_of (jget i ''tx_id'')" by (rule tbl.lookup_key [OF row])
  let ?b = "j_bucket st" and ?r = "row\<lparr>rv_state := FINALIZED, rv_intent_hash := Some ih, rv_intent := Some i,
      rv_decided := Some d, rv_sequence := Some s, rv_updated := now\<rparr>"
  have a: "res = rv_json row \<and> jget i ''reservation_hash'' = JStr (rv_hash row) \<and> rv_state row \<noteq> CANCELLED
      \<and> (if rv_state row = FINALIZED \<and> rv_decided row \<noteq> None \<and> rv_sequence row \<noteq> None
          then rv_decided row = Some d \<and> rv_sequence row = Some s \<and> st' = st
          else s = bk_next_sequence ?b \<and> d = max now (max (bk_last_assigned ?b + 1) (bk_floor ?b + 1))
             \<and> st' = put_row ?r (set_bucket (\<lambda>b. b\<lparr>bk_last_assigned := d, bk_next_sequence := s + 1\<rparr>) st))"
    using fin unfolding finalize_assign_def Let_def row by (auto split: if_splits)
  have c: "rv_state row = FINALIZED \<Longrightarrow> rv_decided row \<noteq> None \<and> rv_sequence row \<noteq> None"
    using rok by (auto simp: row_ok_def)
  show ?thesis
  proof (rule that [OF row])
    show "row_of (str_of (jget i ''tx_id'')) st' = Some (if rv_state row = FINALIZED then row else ?r)"
      using a c tx row by (auto simp: row_of_put)
    show "rv_state row \<noteq> FINALIZED \<Longrightarrow> rv_state row = RESERVED \<and> s = bk_next_sequence ?b
       \<and> d = max now (max (bk_last_assigned ?b + 1) (bk_floor ?b + 1))"
      using a by (cases "rv_state row") simp_all
  qed (use a c in simp_all)
qed

lemma same_decision_same_row:
  assumes "rows_ok dg st" "r \<in> set (j_rows st)" "r' \<in> set (j_rows st)" "rv_decided r = Some d" "rv_decided r' = Some d"
  shows "r = r'"
proof -
  have "row_ok dg (j_bucket st) r" "row_ok dg (j_bucket st) r'" "ordered_pair r r'" "ordered_pair r' r"
    using assms(1-3) by (simp_all add: rows_ok_def)
  then have "rv_tx r = rv_tx r'"
    using assms(4,5) by (fastforce simp: row_ok_def ordered_pair_def split: if_splits)
  then show ?thesis using assms(1-3) by (auto simp: rows_ok_def tbl_wf_def distinct_map inj_on_def)
qed

lemma record_for_built:
  assumes "hashManifestFinalizeIntent dg i = Inr ih" "build_record dg i res d s = Inr (v, rh)"
    "jget res ''tx_id'' = jget i ''tx_id''"
  shows "record_for dg i d s v rh"
proof -
  have "nonempty_str (jget i ''tx_id'')"
    using assms(1) by (auto simp: hashManifestFinalizeIntent_def and_then_ok validateManifestFinalizeIntent_def
        assertManifestString_def)
  then have "is_str (jget i ''tx_id'')" by (auto simp: nonempty_str_def)
  then show ?thesis
    using assms(2,3) by (auto simp: build_record_def and_then_ok Let_def record_for_def finalize_record_def)
qed

lemma persist_ok_start:
  assumes r: "rows_ok dg st" and h: "hashManifestFinalizeIntent dg i = Inr ih"
    and fin: "finalize_assign ih now i st = (Assigned res d s, st')" and b: "build_record dg i res d s = Inr (v, rh)"
  shows "persist_ok dg st' i d s v rh"
proof (cases rule: assigned_row [OF r fin])
  case (1 row)
  have r': "rows_ok dg st'" using advances_rows [OF advances_finalize_assign [OF r, of ih now i]] fin by simp
  have tx: "rv_tx row = str_of (jget i ''tx_id'')" by (rule tbl.lookup_key [OF 1(1)])
  have "row_ok dg (j_bucket st) row" by (rule found_row_ok [OF r 1(1)])
  then have key: "jget res ''tx_id'' = JStr (str_of (jget i ''tx_id''))" using tx 1(2) by (simp add: row_ok_def)
  obtain row' where row': "row_of (str_of (jget i ''tx_id'')) st' = Some row'" "rv_decided row' = Some d"
    "rv_hash row' = rv_hash row" "rv_state row' = FINALIZED" using 1(4,5) by (auto split: if_splits)
  have "nonempty_str (jget i ''tx_id'')"
    using h by (auto simp: hashManifestFinalizeIntent_def and_then_ok validateManifestFinalizeIntent_def
        assertManifestString_def)
  then have "jget i ''tx_id'' = JStr (str_of (jget i ''tx_id''))" using nonempty_strD by blast
  with key have "record_for dg i d s v rh" by (intro record_for_built [OF h b]) simp
  moreover have "row_ok dg (j_bucket st') row'" by (rule found_row_ok [OF r' row'(1)])
  then have "d \<le> bk_last_assigned (j_bucket st')" using row'(2,4) by (auto simp: row_ok_def)
  moreover have "x = row'" if "x \<in> set (j_rows st')" "rv_decided x = Some d" for x
    using same_decision_same_row [OF r' that(1) _ that(2) row'(2)] row'(1) row_of_in [OF r'] by blast
  ultimately show ?thesis using 1(3) row'(3) by (auto simp: persist_ok_def)
qed

lemma publish_ok_start:
  assumes s: "seals_ok st" and fin: "seal_final gen st = Inr (Some fs)" and b: "build_receipt dg v gen fs cert = Inr (receipt, h)"
  shows "publish_ok dg st gen fs receipt h"
proof -
  obtain g where g: "seal_of gen st = Some g" using fin by (auto simp: seal_final_def split: option.splits)
  then have gok: "seal_ok st g" "sg_generation g = gen"
    using found_seal_ok [OF s g] tbl.lookup_key by fastforce+
  have "fs_current fs = g" "fs_count fs = sg_count g" "fs_max_sequence fs = max_sequence (members (sg_cutoff g) st)"
    "fs_bucket fs = j_bucket st"
    using fin by (auto simp: seal_final_def g Let_def split: if_splits)
  then show ?thesis using b gok by (auto simp: publish_ok_def g seal_ok_def)
qed

section \<open>The system invariant\<close>

lemma retention_scan_core: "same_core st (snd (retention_scan now limit st))"
proof -
  have "snd (retention_scan now limit st) = expire_cursors now limit st"
    by (simp add: retention_scan_def Let_def split: option.splits)
  then show ?thesis using same_core_v1(4) by simp
qed

lemmas journal_step_rules = steps_ok_close_start steps_ok_seal_scan steps_ok_seal_progress steps_ok_seal_publish
  steps_ok_sweepV2History steps_ok_retention_delete steps_ok_refl

lemmas core_step_rules = same_core_certificate same_core_page_tx same_core_v1 retention_scan_core

lemma step_journal:
  assumes st: "step dg w w'" and ok: "world_ok dg w"
  shows "steps_ok dg (fst w) (fst w')"
proof -
  have j: "journal_ok dg (fst w)" and t: "\<forall>t\<in>#snd w. task_ok dg (fst w) t" using ok by (simp_all add: world_ok_def)
  note adv = steps_ok_advances [OF j] and core = steps_ok_core [OF j] and r = journal_okD(1) [OF j]
  from st show ?thesis
  proof cases
    case (reserved v claimed floor h st cert now T)
    then have "hashManifestReservation dg v = Inr h"
      by (auto simp: reserve_admit_def and_then_ok split: if_splits)
    then show ?thesis using adv advances_reserve_tx [OF r] reserved by simp
  next
    case (recording i ih now st res d s st' v rh T)
    then show ?thesis using adv advances_finalize_assign [OF r, of ih now i] by simp
  next
    case (recorded st ih i d s v rh T now)
    then have p: "persist_ok dg st i d s v rh" using t by simp
    have "advances dg st (snd (finalize_persist ih now i d s v rh st))"
    proof (rule advances_finalize_persist)
      show "rows_ok dg st" using r recorded by simp
      show "record_for dg i d s v rh" using p by (simp add: persist_ok_def)
      fix row assume "row_of (str_of (jget i ''tx_id'')) st = Some row" "rv_decided row = Some d"
      then show "jget i ''reservation_hash'' = JStr (rv_hash row)"
        using p \<open>rows_ok dg st\<close> row_of_in by (auto simp: persist_ok_def)
    qed
    then show ?thesis using adv recorded by simp
  next
    case (digesting now gen st g rows st' root T)
    then have "st' = st" using seal_scan_rows(1) j by (metis fst_conv)
    then show ?thesis using digesting steps_ok_refl [OF j] by simp
  next
    case (sweeping now limit st rows remaining prior st' root T)
    then show ?thesis using core retention_scan_core [of st now limit] by simp
  next
    case (digest st g rows root T now)
    then show ?thesis using t steps_ok_seal_progress [OF j] by simp
  next
    case (alarms st T as at)
    then show ?thesis using core by (simp add: same_core_def)
  qed (use j adv core core_step_rules journal_step_rules [OF j] advances_finalize_assign [OF r] advances_cancel_tx [OF r]
        advances_resolution_tx [OF r] advances_initialize_tx [OF r] advances_releaseV2_tx [OF r] in \<open>simp_all\<close>)
qed

lemma step_world:
  assumes st: "step dg w w'" and ok: "world_ok dg w"
  shows "world_ok dg w'"
proof -
  have mv: "steps_ok dg (fst w) (fst w')" by (rule step_journal [OF st ok])
  have j: "journal_ok dg (fst w)" "journal_ok dg (fst w')"
    and keep: "\<And>t. t \<in># snd w \<Longrightarrow> task_ok dg (fst w') t"
    using ok mv task_ok_moves by (auto simp: world_ok_def steps_ok_def)
  have "task_ok dg (fst w') t" if "t \<in># snd w'" for t
    using st that keep
  proof cases
    case (recording i ih now st res d s st' v rh T)
    then show ?thesis using persist_ok_start journal_okD(1) [OF j(1)] keep that by auto
  next
    case (digesting now gen st g rows st' root T)
    then have "scan_ok dg st g rows root" "st' = st"
      using scan_ok_start seal_scan_rows(1) j(1) by (metis fst_conv)+
    then show ?thesis using digesting keep that by auto
  next
    case (publishing gen st fs cert v receipt h T)
    then show ?thesis using publish_ok_start journal_okD(2) [OF j(1)] keep that by auto
  qed auto
  then show ?thesis using j(2) by (simp add: world_ok_def)
qed

lemma reaches_world: "reaches dg w w' \<Longrightarrow> world_ok dg w \<Longrightarrow> world_ok dg w'"
  by (induction rule: rtranclp_induct) (auto intro: step_world)

lemma new_bucket_ok: "world_ok dg new_bucket"
  by (simp add: world_ok_def new_bucket_def journal_ok_def rows_ok_def seals_ok_def digests_ok_def
      empty_journal_def empty_bucket_def tbl_wf_def)

lemma reachable_ok: "reachable dg w \<Longrightarrow> world_ok dg w"
  by (rule reaches_world [OF _ new_bucket_ok])

lemma reachable_journal: "reachable dg w \<Longrightarrow> journal_ok dg (fst w)"
  using reachable_ok by (simp add: world_ok_def)

lemma reaches_step:
  assumes "world_ok dg w" "reaches dg w v" "step dg v w'"
  shows "moves (fst v) (fst w')"
  using step_journal [OF assms(3) reaches_world [OF assms(2,1)]] by (simp add: steps_ok_def)

section \<open>What a run leaves of an earlier state\<close>

lemma moves_horizon: "moves st st' \<Longrightarrow> horizon (j_bucket st) \<le> horizon (j_bucket st')"
  using moves_counters(1,3) [of st st'] by (auto simp: horizon_def)

lemma reaches_counters:
  assumes "reaches dg w w'" "world_ok dg w"
  shows "horizon (j_bucket (fst w)) \<le> horizon (j_bucket (fst w'))
    \<and> bk_deleted_through (j_bucket (fst w)) \<le> bk_deleted_through (j_bucket (fst w'))
    \<and> bk_floor (j_bucket (fst w)) \<le> bk_floor (j_bucket (fst w'))
    \<and> bk_next_generation (j_bucket (fst w)) \<le> bk_next_generation (j_bucket (fst w'))"
  using assms
proof (induction rule: rtranclp_induct)
  case (step v w')
  have mv: "moves (fst v) (fst w')" using reaches_step [OF step.prems step.hyps] by simp
  show ?case
    using step.IH [OF step.prems] moves_horizon [OF mv] moves_counters(1,5,7) [OF mv] by linarith
qed simp

lemmas reaches_horizon = reaches_counters [THEN conjunct1]
lemmas reaches_generation = reaches_counters [THEN conjunct2, THEN conjunct2, THEN conjunct2]

lemma reaches_back:
  assumes "reaches dg w w'" "world_ok dg w" "c \<le> horizon (j_bucket (fst w))"
  shows "r' \<in> set (members c (fst w')) \<Longrightarrow> \<exists>r\<in>set (members c (fst w)). keeps False r r'"
  using assms
proof (induction arbitrary: r' rule: rtranclp_induct)
  case (step v w')
  have "c \<le> horizon (j_bucket (fst v))" using reaches_horizon [OF step.hyps(1)] step.prems by fastforce
  then obtain x where "x \<in> set (members c (fst v))" "keeps False x r'"
    using members_back step.prems(1) reaches_step [OF step.prems(2) step.hyps] by blast
  then show ?case using step.IH step.prems keeps_trans by (metis (full_types))
qed (use keeps_refl in blast)

definition tail_from :: "int \<Rightarrow> int \<Rightarrow> journal \<Rightarrow> reservation_row list" where
  "tail_from lo c st = filter (\<lambda>r. lo \<le> fst (row_key r)) (members c st)"

text \<open>Above the deleted prefix nothing disappears either.\<close>

lemma moves_tail:
  assumes "moves st st'" "bk_deleted_through (j_bucket st') < lo" "c \<le> horizon (j_bucket st)"
  shows "list_all2 (keeps False) (tail_from lo c st) (tail_from lo c st')"
proof (cases "evolves st st'")
  case True
  then have "list_all2 (keeps (same_evidence st st')) (members c st) (members c st')"
    using assms(3) by (simp add: evolves_def)
  then have "list_all2 (keeps (same_evidence st st')) (tail_from lo c st) (tail_from lo c st')"
    unfolding tail_from_def by (rule list_all2_filter) (auto dest: keeps_key)
  then show ?thesis by (rule list_all2_mono) (rule keeps_weaken)
next
  case False
  then obtain gone where gone: "members c st' = filter (\<lambda>r. rv_tx r \<notin> gone) (members c st)"
    "\<forall>r\<in>set (j_rows st). rv_tx r \<in> gone \<longrightarrow> fst (row_key r) \<le> bk_deleted_through (j_bucket st')"
    using assms(1) by (auto simp: moves_def purges_def Let_def)
  have "tail_from lo c st' = tail_from lo c st"
    unfolding tail_from_def gone(1) filter_filter
    by (rule filter_cong) (use gone(2) assms(2) in \<open>auto simp: set_members\<close>)
  then show ?thesis by (simp add: list_all2_same)
qed

lemma reaches_tail:
  assumes "reaches dg w w'" "world_ok dg w" "c \<le> horizon (j_bucket (fst w))"
  shows "bk_deleted_through (j_bucket (fst w')) < lo \<Longrightarrow>
    list_all2 (keeps False) (tail_from lo c (fst w)) (tail_from lo c (fst w'))"
  using assms
proof (induction rule: rtranclp_induct)
  case (step v w')
  have mv: "moves (fst v) (fst w')" using reaches_step [OF step.prems(2) step.hyps] by simp
  have "c \<le> horizon (j_bucket (fst v))" using reaches_horizon [OF step.hyps(1)] step.prems by fastforce
  then have l: "list_all2 (keeps False) (tail_from lo c (fst v)) (tail_from lo c (fst w'))"
    using moves_tail [OF mv] step.prems(1) by simp
  have "bk_deleted_through (j_bucket (fst v)) < lo" using moves_counters(7) [OF mv] step.prems(1) by linarith
  then have "list_all2 (keeps False) (tail_from lo c (fst w)) (tail_from lo c (fst v))"
    using step.IH step.prems by simp
  from this l show ?case by (rule list_all2_trans [rotated]) (blast intro: keeps_trans)
qed (simp add: list_all2_same)

lemma reaches_complete_seal:
  assumes "reaches dg w w'" "world_ok dg w" "seal_of gen (fst w) = Some g" "sg_status g = COMPLETE"
  shows "seal_of gen (fst w') = Some g' \<Longrightarrow> g' = g"
  using assms
proof (induction arbitrary: g' rule: rtranclp_induct)
  case (step v w')
  have mv: "moves (fst v) (fst w')" using reaches_step [OF step.prems(2) step.hyps] by simp
  have "seals_ok (fst w)" using step.prems(2) by (simp add: world_ok_def journal_ok_def)
  from found_seal_ok [OF this step.prems(3)] have "gen < bk_next_generation (j_bucket (fst v))"
    using reaches_generation [OF step.hyps(1) step.prems(2)] tbl.lookup_key [OF step.prems(3)]
    by (auto simp: seal_ok_def)
  then obtain h where "seal_of gen (fst v) = Some h" "seal_moved h g'"
    using mv step.prems(1) by (auto simp: moves_def seals_moved_def)
  then show ?case using step.IH step.prems seal_movedD(4) by blast
qed simp

end
