(* ===== verification/JournalHandlers.thy ===== *)
theory JournalHandlers
  imports JournalSystem
begin

text \<open>
  The handlers refine the system: serving one request without interruption is a run of its
  transactions, so whatever holds along every run holds of the handlers.
\<close>

section \<open>The public operations\<close>

datatype request =
    Reserve jval jval jval
  | Finalize jval
  | Cancel jval
  | ResolveQuarantine jval
  | CloseThrough jval
  | InitializeForSeal jval jval jval
  | LocalPage jval
  | Register jval
  | Release string string
  | ReleaseV2 string string string
  | Alarm

fun serve :: "digest_fn \<Rightarrow> int \<Rightarrow> request \<Rightarrow> journal \<Rightarrow> journal" where
  "serve dg now (Reserve v claimed floor) st = snd (reserve dg now v claimed floor st)"
| "serve dg now (Finalize i) st = snd (finalize dg now i st)"
| "serve dg now (Cancel i) st = snd (cancel dg now i st)"
| "serve dg now (ResolveQuarantine v) st = snd (resolveQuarantine dg now v st)"
| "serve dg now (CloseThrough v) st = snd (closeThrough dg now v st)"
| "serve dg now (InitializeForSeal v floor since) st = snd (initializeForSeal dg v floor since st)"
| "serve dg now (LocalPage v) st = snd (localPage dg now v st)"
| "serve dg now (Register v) st = snd (register dg now v st)"
| "serve dg now (Release tx h) st = snd (release now tx h st)"
| "serve dg now (ReleaseV2 tx vh rh) st = snd (releaseV2 now tx vh rh st)"
| "serve dg now Alarm st = snd (alarm dg now st)"

text \<open>A JSON object that came over the wire has each key once.\<close>

fun well_formed :: "request \<Rightarrow> bool" where
  "well_formed (Reserve v _ _) \<longleftrightarrow> distinct (jkeys v)"
| "well_formed _ \<longleftrightarrow> True"

section \<open>Runs\<close>

abbreviation runs :: "digest_fn \<Rightarrow> task multiset \<Rightarrow> journal \<Rightarrow> journal \<Rightarrow> bool" where
  "runs dg T st st' \<equiv> reaches dg (st, T) (st', T)"

lemma run_trans: "runs dg T a b \<Longrightarrow> runs dg T b c \<Longrightarrow> runs dg T a c"
  by (rule rtranclp_trans)

lemma run_two: "step dg (a, T) (b, add_mset t T) \<Longrightarrow> step dg (b, add_mset t T) (c, T) \<Longrightarrow> runs dg T a c"
  by (meson converse_rtranclp_into_rtranclp r_into_rtranclp)

lemma run_alarm:
  "runs dg T st (st\<lparr>j_alarms := as\<rparr>)" "runs dg T st (rearmPhysicalAlarm st)"
  "runs dg T st (scheduleAlarmPurpose p t g st)" "runs dg T st (clearAlarmPurpose p st)"
  "runs dg T st (ensureAlarmAtOrBefore t st)" "runs dg T st (seal_alarm now g st)"
proof -
  have a: "runs dg T st (st\<lparr>j_alarms := as, j_physical_alarm := at\<rparr>)" for as at
    by (rule r_into_rtranclp) (rule alarms)
  show "runs dg T st (st\<lparr>j_alarms := as\<rparr>)" using a [where as = as and at = "j_physical_alarm st"] by simp
  show r: "runs dg T st (rearmPhysicalAlarm st)"
    using a [where as = "j_alarms st" and at = "j_physical_alarm (rearmPhysicalAlarm st)"] by (simp add: rearmPhysicalAlarm_def)
  show s: "runs dg T st (scheduleAlarmPurpose p t g st)" for p t g
    unfolding scheduleAlarmPurpose_def rearmPhysicalAlarm_def by (simp add: a)
  show "runs dg T st (clearAlarmPurpose p st)"
    unfolding clearAlarmPurpose_def rearmPhysicalAlarm_def by (simp add: a)
  show "runs dg T st (ensureAlarmAtOrBefore t st)" "runs dg T st (seal_alarm now g st)"
    unfolding ensureAlarmAtOrBefore_def seal_alarm_def by (rule s)+
qed

lemma run_alarm_after:
  "runs dg T a st \<Longrightarrow> runs dg T a (rearmPhysicalAlarm st)"
  "runs dg T a st \<Longrightarrow> runs dg T a (scheduleAlarmPurpose p t g st)"
  "runs dg T a st \<Longrightarrow> runs dg T a (clearAlarmPurpose p st)"
  "runs dg T a st \<Longrightarrow> runs dg T a (ensureAlarmAtOrBefore t st)"
  "runs dg T a st \<Longrightarrow> runs dg T a (seal_alarm now g st)"
  by (erule run_trans, rule run_alarm)+

lemma run_step: "step dg (b, T) (c, T) \<Longrightarrow> runs dg T a b \<Longrightarrow> runs dg T a c"
  by (rule rtranclp.rtrancl_into_rtrancl)

lemma run_one: "step dg (st, T) (st', T) \<Longrightarrow> runs dg T st st'"
  by (rule r_into_rtranclp)

lemma run_certificate: "ensureLegacyCertificate dg st = (res, st') \<Longrightarrow> runs dg T st st'"
proof (cases "certificate_done st")
  case None
  assume e: "ensureLegacyCertificate dg st = (res, st')"
  show ?thesis
  proof (cases "certify_rows dg (fst (legacy_fence st))")
    case (Inl err)
    then have "st' = snd (legacy_fence st)" using e None by (simp add: ensureLegacyCertificate_def split: prod.splits)
    then show ?thesis using fence [OF None] by blast
  next
    case (Inr c)
    then have "st' = snd (store_certificate c (snd (legacy_fence st)))"
      using e None by (auto simp: ensureLegacyCertificate_def split: prod.splits)
    then show ?thesis using run_two [OF certify [OF None Inr] certified] by simp
  qed
qed (simp add: ensureLegacyCertificate_def)

lemma certificate_after: "ensureLegacyCertificate dg st = (Inr h, st') \<Longrightarrow> certificate_done st' = Some h"
  by (auto simp: ensureLegacyCertificate_def store_certificate_def certificate_done_def legacy_fence_def set_bucket_def
      split: option.splits sum.splits if_splits)

lemma run_reserve:
  assumes "distinct (jkeys v)" shows "runs dg T st (snd (reserve dg now v claimed floor st))"
proof -
  have "runs dg T st st2"
    if "reserve_admit dg v claimed floor = Inr (Inr h)" "ensureLegacyCertificate dg st = (Inr cert, st1)"
      "reserve_tx h (int_of floor) cert now v st1 = (reply, st2)" for h cert st1 reply st2
    using run_step [OF reserved [where now = now and T = T, OF that(1) assms certificate_after [OF that(2)]]
        run_certificate [OF that(2)]] by (simp add: that(3))
  then show ?thesis
    by (auto simp: reserve_def run_certificate run_alarm_after split: sum.splits prod.splits)
qed

lemma run_finalize: "runs dg T st (snd (finalize dg now i st))"
proof (cases "hashManifestFinalizeIntent dg i")
  case (Inr ih)
  have assign: "runs dg T st st'" if "finalize_assign ih now i st = (a, st')" for a st'
    using assigned [where now = now and T = T and st = st, OF Inr] by (simp add: that r_into_rtranclp)
  have "runs dg T st st3"
    if "finalize_assign ih now i st = (Assigned res d s, st1)" "build_record dg i res d s = Inr (v, rh)"
      "finalize_persist ih now i d s v rh (ensureAlarmAtOrBefore (retention_deadline_of d) st1) = (ok, st3)"
    for res d s st1 v rh ok st3
  proof -
    let ?t = "Persisting ih i d s v rh"
    have "reaches dg (st, T) (st1, add_mset ?t T)" by (rule r_into_rtranclp) (rule recording [OF Inr that(1,2)])
    also have "reaches dg \<dots> (ensureAlarmAtOrBefore (retention_deadline_of d) st1, add_mset ?t T)" by (rule run_alarm)
    also have "step dg \<dots> (st3, T)"
      using recorded [where now = now and st = "ensureAlarmAtOrBefore (retention_deadline_of d) st1" and ih = ih]
      by (metis snd_conv that(3))
    finally show ?thesis .
  qed
  then show ?thesis
    using assign by (auto simp: finalize_def Inr run_alarm_after Let_def split: assignment.splits sum.splits prod.splits)
qed (simp add: finalize_def)

lemma run_cancel: "runs dg T st (snd (cancel dg now i st))"
proof (cases "hash_cancel_intent dg i")
  case (Inr ih)
  have "runs dg T st st'" if "cancel_tx ih now i st = (a, st')" for a st'
    using cancelled [where now = now and T = T and st = st, OF Inr] by (simp add: that r_into_rtranclp)
  then show ?thesis by (auto simp: cancel_def Inr run_alarm_after split: prod.splits)
qed (simp add: cancel_def)

lemma run_resolution_apply: "resolution_apply dg now v tx st = (r, st') \<Longrightarrow> runs dg T st st'"
proof -
  have "runs dg T st st1" if "finalize dg now i st = (reply, st1)" for i reply st1
    using run_finalize [where dg = dg and T = T and st = st and now = now and i = i] by (simp add: that)
  moreover have "runs dg T st st1" if "cancel dg now i st = (reply, st1)" for i reply st1
    using run_cancel [where dg = dg and T = T and st = st and now = now and i = i] by (simp add: that)
  ultimately show "resolution_apply dg now v tx st = (r, st') \<Longrightarrow> runs dg T st st'"
    by (auto simp: resolution_apply_def split: option.splits if_splits prod.splits finalize_reply.splits cancel_reply.splits)
qed

lemma run_resolveQuarantine: "runs dg T st (snd (resolveQuarantine dg now v st))"
proof (cases "\<exists>ti row qh ah. resolution_admit dg v = Inr ti \<and> resolution_match v ti st = Inr row
    \<and> violation (hashCanonicalJson dg v) = Inr qh \<and> violation (hashCanonicalJson dg (attestation_json v row)) = Inr ah")
  case True
  then obtain ti row qh ah where a: "resolution_admit dg v = Inr ti" "resolution_match v ti st = Inr row"
    "violation (hashCanonicalJson dg v) = Inr qh" "violation (hashCanonicalJson dg (attestation_json v row)) = Inr ah"
    by blast
  have "runs dg T st st1" if "resolution_tx v (rv_tx row) qh ah now st = (r, st1)" for r st1
    using run_two [OF resolving [OF a] resolved [where now = now]] by (simp add: that)
  moreover have "runs dg T st st2"
    if "resolution_tx v (rv_tx row) qh ah now st = (r, st1)" "resolution_apply dg now v tx st1 = (q, st2)" for r st1 tx q st2
    using calculation [OF that(1)] run_resolution_apply [OF that(2)] by (rule run_trans)
  ultimately show ?thesis
    by (auto simp: resolveQuarantine_def a split: sum.splits prod.splits option.splits)
next
  case False
  then have "snd (resolveQuarantine dg now v st) = st"
    unfolding resolveQuarantine_def
    by (cases "resolution_admit dg v"; cases "violation (hashCanonicalJson dg v)"; simp)
       (cases "resolution_match v (projr (resolution_admit dg v)) st"; simp;
        cases "violation (hashCanonicalJson dg (attestation_json v (projr (resolution_match v (projr (resolution_admit dg v)) st))))";
        simp)+
  then show ?thesis by simp
qed

section \<open>Sealing\<close>

lemma run_resumeSeal: "runs dg T st (snd (resumeSeal dg SEAL_PAGE_SIZE now gen v st))"
proof -
  obtain res st1 where scan: "seal_scan SEAL_PAGE_SIZE now gen st = (res, st1)" by fastforce
  have s1: "runs dg T st st1"
    using scanned [where dg = dg and st = st and T = T and now = now and gen = gen] by (simp add: scan r_into_rtranclp)
  have s2: "runs dg T st st2"
    if "res = Inr (ScanRows g rows)" "roll_root dg (sg_root g) rows = Inr root" "seal_progress g rows root now st1 = (q, st2)"
    for g rows root q st2
    using run_two [OF digesting [OF scan [unfolded that(1)] that(2)] digest [where now = now]] by (simp add: that(3))
  have "runs dg T st st3"
    if "res = Inr (ScanRows g rows)" "roll_root dg (sg_root g) rows = Inr root" "seal_progress g rows root now st1 = (q, st2)"
      "seal_final gen st2 = Inr (Some fs)" "bk_certificate (fs_bucket fs) = Some cert"
      "build_receipt dg v gen fs cert = Inr (receipt, h)" "seal_publish gen fs receipt h now st2 = (p, st3)"
    for g rows root q st2 fs cert receipt h p st3
    using run_trans [OF s2 [OF that(1-3)] run_two [OF publishing [OF that(4-6)] published [where now = now]]]
    by (simp add: that(7))
  with s1 s2 show ?thesis
    by (auto simp: resumeSeal_def scan Let_def run_alarm_after
        split: sum.splits prod.splits scan_outcome.splits option.splits bool.splits)
qed

lemma run_closeThrough: "runs dg T st (snd (closeThrough dg now v st))"
proof -
  have opened: "runs dg T st st2"
    if "and_then (validateManifestSealRequest v) (\<lambda>_. parseManifestTimestamp (jget v ''cutoff'')) = Inr cutoff"
      "\<not> now < cutoff" "ensureLegacyCertificate dg st = (Inr h, st1)" "close_start v cutoff now st1 = (r, st2)"
    for cutoff h st1 r st2
  proof -
    have "validateManifestSealRequest v = Inr ()" "parseManifestTimestamp (jget v ''cutoff'') = Inr cutoff"
      using that(1) by (auto simp: and_then_ok)
    moreover have "certificate_done st1 \<noteq> None" using certificate_after [OF that(3)] by simp
    ultimately have "step dg (st1, T) (snd (close_start v cutoff now st1), T)" using that(2) by (intro step.opened) simp_all
    then show ?thesis using run_step [OF _ run_certificate [OF that(3)]] by (simp add: that(4))
  qed
  moreover have "runs dg T st st3"
    if "and_then (validateManifestSealRequest v) (\<lambda>_. parseManifestTimestamp (jget v ''cutoff'')) = Inr cutoff"
      "\<not> now < cutoff" "ensureLegacyCertificate dg st = (Inr h, st1)" "close_start v cutoff now st1 = (r, st2)"
      "resumeSeal dg SEAL_PAGE_SIZE now g v st2 = (q, st3)" for cutoff h st1 r st2 g q st3
    using run_trans [OF opened [OF that(1-4)] run_resumeSeal [where now = now and gen = g and v = v]] by (simp add: that(5))
  ultimately show ?thesis
    by (auto simp: closeThrough_def run_certificate not_less
        intro!: run_alarm_after split: sum.splits prod.splits seal_start.splits seal_reply.splits option.splits)
qed

lemma run_initializeForSeal: "runs dg T st (snd (initializeForSeal dg v floor since st))"
proof (cases "seq_checks [validateManifestSealRequest v, invalid (safe_int_from 0 floor), invalid (safe_int_from 0 since)]")
  case (Inr u)
  then have v: "validateManifestSealRequest v = Inr ()" "0 \<le> int_of floor"
    by (auto simp: seq_checks_ok safe_int_from_def)
  have "runs dg T st st2"
    if "ensureLegacyCertificate dg st = (Inr h, st1)" "initialize_tx v (int_of floor) st1 = (r, st2)" for h st1 r st2
  proof -
    have "step dg (st1, T) (snd (initialize_tx v (int_of floor) st1), T)"
      by (rule initialized [OF v]) (simp add: certificate_after [OF that(1)])
    then show ?thesis using run_step [OF _ run_certificate [OF that(1)]] by (simp add: that(2))
  qed
  then show ?thesis
    by (auto simp: initializeForSeal_def Inr run_certificate split: sum.splits prod.splits option.splits)
qed (simp add: initializeForSeal_def)

section \<open>Pages, the ledger, releases\<close>

lemma run_localPage: "runs dg T st (snd (localPage dg now v st))"
proof (cases "page_prepare dg v")
  case (Inr p)
  have "step dg (st1, T) (snd (page_tx p now t st1), T)" for st1 t by (rule paged [OF Inr])
  then show ?thesis unfolding localPage_def Inr sum.case by (rule run_step) (rule run_alarm)
qed (simp add: localPage_def)

lemma run_register: "runs dg T st (snd (register dg now v st))"
proof -
  have "runs dg T st (snd (register_tx (jget w ''record'') (str_of (jget w ''record_hash'')) d now (ensureAlarmAtOrBefore d st)))"
    if "validatedManifestRegistration dg v = Inr w" "parse_iso (str_of (jget (jget w ''record'') ''retention_deadline'')) = Some d"
    for w d
    by (rule run_step [OF registered [OF that]]) (rule run_alarm)
  then show ?thesis by (auto simp: register_def Let_def split: sum.splits option.splits)
qed

lemma run_releases:
  "runs dg T st (snd (release now tx h st))" "runs dg T st (snd (releaseV2 now tx vh rh st))"
proof -
  have "runs dg T st st1" if "sha256_text h" "release_tx tx h st = (r, st1)" for r st1
    using run_one [OF released [where st = st, OF that(1)]] by (metis snd_conv that(2))
  then show "runs dg T st (snd (release now tx h st))"
    by (auto simp: release_def release_alarm_def run_alarm_after split: prod.splits release_reply.splits)
  have "runs dg T st st1" if "sha256_text vh" "sha256_text rh" "releaseV2_tx tx vh rh now st = (r, st1)" for r st1
    using run_one [OF releasedV2 [where st = st and now = now, OF that(1,2)]] by (metis snd_conv that(3))
  then show "runs dg T st (snd (releaseV2 now tx vh rh st))"
    by (auto simp: releaseV2_def release_alarm_def run_alarm_after split: prod.splits release_reply.splits)
qed

section \<open>Retention and the alarm\<close>

lemma run_sweepV2Retention: "runs dg T st (snd (sweepV2Retention dg now limit st))"
proof -
  obtain c st1 where scan: "retention_scan now limit st = (c, st1)" by fastforce
  have "runs dg T st st1"
    using run_one [OF candidates [where st = st and now = now and limit = limit]] by (metis snd_conv scan)
  moreover have "runs dg T st st2"
    if "c = SweepCandidates rows rem prior" "evidence_root dg prior rows = Inr root"
      "retention_delete now limit rows root st1 = (q, st2)" for rows rem prior root q st2
    using run_two [OF sweeping [OF scan [unfolded that(1)] that(2)] swept] by (simp add: that(3))
  ultimately show ?thesis
    by (auto simp: sweepV2Retention_def scan split: retention_scan.splits sum.splits prod.splits)
qed

lemma run_lifecycle_sweep: "runs dg T st (snd (lifecycle_sweep dg now st))"
proof -
  obtain h st1 where hist: "sweepV2History now 128 st = (h, st1)" by fastforce
  obtain r st2 where ret: "sweepV2Retention dg now 128 st1 = (r, st2)" by fastforce
  have s1: "runs dg T st st1"
    using run_one [OF history [where st = st and now = now and limit = 128]] by (metis snd_conv hist)
  have "runs dg T st1 st2" using run_sweepV2Retention [where st = st1 and now = now and limit = 128] by (metis snd_conv ret)
  then have s2: "runs dg T st st2" by (rule run_trans [OF s1])
  have "runs dg T st st3" if "v1_sweep now st2 = (q, st3)" for q st3
    using run_step [OF v1_swept [where now = now] s2] by (simp add: that)
  then show ?thesis using s2 by (auto simp: lifecycle_sweep_def hist ret split: sum.splits prod.splits)
qed

lemma run_wake_seal: "runs dg T st (wake_seal dg now due st)"
proof -
  let ?st = "st\<lparr>j_alarms := tbl_del al_purpose (al_purpose due) (j_alarms st)\<rparr>"
  have "runs dg T st st1" if "resumeSeal dg SEAL_PAGE_SIZE now g v ?st = (r, st1)" for g v r st1
    using run_trans [OF run_alarm(1) run_resumeSeal [where now = now and gen = g and v = v]] by (metis snd_conv that)
  then show ?thesis
    by (auto simp: wake_seal_def Let_def run_alarm intro!: run_alarm_after split: sum.splits prod.splits option.splits)
qed

lemma run_alarm_handler: "runs dg T st (snd (alarm dg now st))"
proof -
  have w: "runs dg T st (foldl (\<lambda>s due. wake_seal dg now due s) st dues)" for dues
    by (induction dues rule: rev_induct) (auto intro: run_trans [OF _ run_wake_seal])
  have l: "runs dg T a st2" if "runs dg T a b" "lifecycle_sweep dg now b = (r, st2)" for a b r st2
    using run_trans [OF that(1) run_lifecycle_sweep [where now = now]] by (metis snd_conv that(2))
  show ?thesis
    by (auto simp: alarm_def executeLifecycleAlarm_def Let_def w
        intro!: run_alarm_after intro: l [OF run_alarm_after(3) [OF w]] split: sum.splits prod.splits option.splits)
qed

text \<open>Serving a request without interruption is a run of the system.\<close>

lemma serve_runs: "well_formed req \<Longrightarrow> runs dg T st (serve dg now req st)"
  by (cases req) (simp_all add: run_reserve run_finalize run_cancel run_resolveQuarantine run_closeThrough
      run_initializeForSeal run_localPage run_register run_releases run_alarm_handler)

end
