(* ===== verification/JournalTheorems.thy ===== *)
theory JournalTheorems
  imports JournalHandlers
begin

text \<open>
  What the journal guarantees along every run of the system: decisions are ordered, irrevocable
  and never late, stored records are canonical, sealed history is frozen, and a published
  receipt states exactly the history it covers.
\<close>

section \<open>Serving requests\<close>

fun serve_all :: "digest_fn \<Rightarrow> (int \<times> request) list \<Rightarrow> journal \<Rightarrow> journal" where
  "serve_all dg [] st = st"
| "serve_all dg ((now, req) # reqs) st = serve_all dg reqs (serve dg now req st)"

lemma serve_all_runs: "list_all (\<lambda>(now, req). well_formed req) reqs \<Longrightarrow> runs dg T st (serve_all dg reqs st)"
proof (induction reqs arbitrary: st)
  case (Cons a reqs)
  obtain now req where a: "a = (now, req)" by fastforce
  have "runs dg T st (serve dg now req st)" using Cons.prems a by (intro serve_runs) simp
  moreover have "runs dg T (serve dg now req st) (serve_all dg reqs (serve dg now req st))"
    using Cons.prems by (intro Cons.IH) simp
  ultimately show ?case unfolding a serve_all.simps by (rule run_trans)
qed simp

lemma served_reachable:
  "list_all (\<lambda>(now, req). well_formed req) reqs \<Longrightarrow> reachable dg (serve_all dg reqs empty_journal, {#})"
  unfolding new_bucket_def by (rule serve_all_runs)

text \<open>
  C16: The handlers refine the interleaved system: any sequence of well-formed requests, served
  one at a time at any times from a new bucket, ends in a state the system reaches, so every
  guarantee about runs holds of the handlers of the code.
\<close>

theorem handlers_refine_system:
  "list_all (\<lambda>(now, req). well_formed req) reqs \<Longrightarrow>
   reachable dg (serve_all dg reqs empty_journal, {#}) \<and> journal_ok dg (serve_all dg reqs empty_journal)"
  using served_reachable reachable_journal by fastforce

section \<open>Decisions\<close>

lemma finalized_row:
  assumes "reachable dg w" "r \<in> set (j_rows (fst w))"
  shows "row_ok dg (j_bucket (fst w)) r"
  using reachable_journal [OF assms(1)] assms(2) by (simp add: journal_ok_def rows_ok_def)

lemma decided_finalized: "row_ok dg b r \<Longrightarrow> rv_decided r = Some d \<Longrightarrow> rv_state r = FINALIZED"
  by (cases "rv_state r = FINALIZED") (simp_all add: row_ok_def)

text \<open>
  C8: In every reachable state of a journal bucket, a finalized reservation carries a decision
  time and a sequence number already passed by the bucket's counters, and its stored record, if
  written, is the canonical V2 record of exactly that decision: it hashes to the stored record
  hash and names the row's transaction, reservation, decision time and sequence.
\<close>

theorem stored_records_canonical:
  assumes "reachable dg w" "r \<in> set (j_rows (fst w))" "rv_state r = FINALIZED"
  shows "\<exists>d s. rv_decided r = Some d \<and> rv_sequence r = Some s
    \<and> d \<le> bk_last_assigned (j_bucket (fst w)) \<and> s < bk_next_sequence (j_bucket (fst w))
    \<and> (case rv_record r of
         None \<Rightarrow> rv_record_hash r = None
       | Some v \<Rightarrow> rv_record_hash r \<noteq> None \<and> hashManifestRecordV2 dg v = Inr (the (rv_record_hash r))
           \<and> jget v ''tx_id'' = JStr (rv_tx r) \<and> jget v ''reservation_hash'' = JStr (rv_hash r)
           \<and> jget v ''commit_decided_at_ms'' = jint d \<and> jget v ''decision_sequence'' = jint s)"
  using finalized_row [OF assms(1,2)] assms(3)
  by (auto simp: row_ok_def record_ok_def split: option.splits)

text \<open>
  C9: In every reachable state decision times and decision sequences order the finalized
  reservations alike, and no two reservations share either: sequence numbers and commit times
  of a bucket are one strict total order.
\<close>

theorem decisions_ordered:
  assumes "reachable dg w" "r \<in> set (j_rows (fst w))" "r' \<in> set (j_rows (fst w))"
    and "rv_decided r = Some d" "rv_decided r' = Some d'" "rv_sequence r = Some s" "rv_sequence r' = Some s'"
  shows "(s < s' \<longleftrightarrow> d < d') \<and> (s = s' \<longleftrightarrow> d = d') \<and> (d = d' \<longrightarrow> r = r')"
proof -
  have ok: "rows_ok dg (fst w)" using reachable_journal [OF assms(1)] by (simp add: journal_ok_def)
  have "ordered_pair r r'" "ordered_pair r' r" using ok assms(2,3) by (simp_all add: rows_ok_def)
  then have "s < s' \<longleftrightarrow> d < d'" "s' < s \<longleftrightarrow> d' < d" using assms(4-7) by (simp_all add: ordered_pair_def)
  moreover have "r = r'" if "d = d'" using same_decision_same_row [OF ok assms(2,3,4)] assms(5) that by simp
  ultimately show ?thesis by linarith
qed

lemma opened_cutoff:
  assumes "reachable dg w" "g \<in> set (j_seals (fst w))"
  shows "sg_cutoff g \<le> bk_floor (j_bucket (fst w))"
  using reachable_journal [OF assms(1)] assms(2) by (simp add: journal_ok_def seals_ok_def seal_ok_def)

text \<open>
  C5: No decision is ever taken in the past. Once a bucket has reached a state, every decision
  a later state holds at or before its decision floor, its last assigned time or the cutoff of a
  seal it has opened (draining, complete or quarantined), was already in that state: the same
  transaction, reservation, sequence and intent, with the same record if it had been written.
\<close>

theorem no_late_decision:
  assumes "reachable dg w" "reaches dg w w'" "r' \<in> set (j_rows (fst w'))" "rv_decided r' = Some d"
    and "d \<le> bk_floor (j_bucket (fst w)) \<or> d \<le> bk_last_assigned (j_bucket (fst w))
      \<or> (\<exists>g\<in>set (j_seals (fst w)). d \<le> sg_cutoff g)"
  shows "\<exists>r\<in>set (j_rows (fst w)). rv_state r = FINALIZED \<and> rv_tx r = rv_tx r' \<and> rv_hash r = rv_hash r'
    \<and> rv_decided r = Some d \<and> rv_sequence r = rv_sequence r' \<and> rv_intent_hash r = rv_intent_hash r'
    \<and> (rv_record_hash r \<noteq> None \<longrightarrow> rv_record_hash r' = rv_record_hash r \<and> rv_record r' = rv_record r)"
proof -
  have "reachable dg w'" using assms(1,2) by (rule rtranclp_trans)
  then have "rv_state r' = FINALIZED" using decided_finalized [OF finalized_row] assms(3,4) by blast
  then have "r' \<in> set (members d (fst w'))" using assms(3,4) by (simp add: set_members member_def)
  moreover have "d \<le> horizon (j_bucket (fst w))" using assms(5) opened_cutoff [OF assms(1)] by (fastforce simp: horizon_def)
  ultimately obtain r where "r \<in> set (members d (fst w))" "keeps False r r'"
    using reaches_back [OF assms(2) reachable_ok [OF assms(1)]] by blast
  then show ?thesis using assms(4) \<open>rv_state r' = FINALIZED\<close>
    by (intro bexI [where x = r]) (simp_all add: set_members keeps_def)
qed

text \<open>
  C6: A decision is durable: a finalized reservation stays, with its decision, sequence, intent
  and record, in every later state whose deleted prefix has not passed its decision time. Only
  the retention sweep ever removes it.
\<close>

theorem decision_durable:
  assumes "reachable dg w" "reaches dg w w'" "r \<in> set (j_rows (fst w))" "rv_decided r = Some d"
    and "bk_deleted_through (j_bucket (fst w')) < d"
  shows "\<exists>r'\<in>set (j_rows (fst w')). rv_state r' = FINALIZED \<and> rv_tx r' = rv_tx r \<and> rv_hash r' = rv_hash r
    \<and> rv_decided r' = Some d \<and> rv_sequence r' = rv_sequence r \<and> rv_intent_hash r' = rv_intent_hash r
    \<and> (rv_record_hash r \<noteq> None \<longrightarrow> rv_record_hash r' = rv_record_hash r \<and> rv_record r' = rv_record r)"
proof -
  have ok: "row_ok dg (j_bucket (fst w)) r" by (rule finalized_row [OF assms(1,3)])
  have st: "rv_state r = FINALIZED" by (rule decided_finalized [OF ok assms(4)])
  have "d \<le> bk_last_assigned (j_bucket (fst w))" using ok st assms(4) by (auto simp: row_ok_def)
  then have "d \<le> horizon (j_bucket (fst w))" by (simp add: horizon_def)
  from reaches_tail [OF assms(2) reachable_ok [OF assms(1)] this assms(5)]
  have "list_all2 (keeps False) (tail_from d d (fst w)) (tail_from d d (fst w'))" .
  moreover have "r \<in> set (tail_from d d (fst w))"
    using assms(3,4) st by (simp add: tail_from_def set_members member_def row_key_def)
  ultimately have "\<exists>r'\<in>set (tail_from d d (fst w')). keeps False r r'" by (rule list_all2_ball(2))
  then obtain r' where r': "r' \<in> set (tail_from d d (fst w'))" "keeps False r r'" by (rule bexE)
  have "r' \<in> set (j_rows (fst w'))" using r'(1) by (simp add: tail_from_def set_members)
  then show ?thesis using r'(2) unfolding keeps_def assms(4) st by blast
qed

section \<open>Sealed history\<close>

text \<open>
  C7: A complete seal never changes: while its generation exists, its cutoff, digest, count and
  receipt are the ones it was published with, whatever runs afterwards, replays, quarantines
  and resolutions included.
\<close>

theorem complete_seal_frozen:
  assumes "reachable dg w" "reaches dg w w'" "seal_of gen (fst w) = Some g" "sg_status g = COMPLETE"
    and "seal_of gen (fst w') = Some g'"
  shows "g' = g"
  by (rule reaches_complete_seal [OF assms(2) reachable_ok [OF assms(1)] assms(3-5)])

lemma window_tail: "window_rows lo c st = filter (\<lambda>r. rv_record r \<noteq> None) (tail_from lo c st)"
proof -
  have "in_window lo c r \<longleftrightarrow> member c r \<and> lo \<le> fst (row_key r)" for r
    by (auto simp: in_window_def member_def row_key_def split: option.splits)
  then show ?thesis
    by (simp add: window_rows_def tail_from_def members_def filter_sort conj_ac)
qed

abbreviation record_view :: "reservation_row \<Rightarrow> string \<times> int \<times> string option \<times> jval option" where
  "record_view r \<equiv> (rv_tx r, fst (row_key r), rv_record_hash r, rv_record r)"

lemma keeps_view:
  "keeps q r r' \<Longrightarrow> rv_record_hash r \<noteq> None \<Longrightarrow> record_view r' = record_view r"
  by (simp add: keeps_def row_key_def)

lemma sealed_rows_recorded:
  assumes "reachable dg w" "seal_of gen (fst w) = Some g" "sg_status g = COMPLETE" "r \<in> set (members (sg_cutoff g) (fst w))"
  shows "rv_record_hash r \<noteq> None" "rv_record r \<noteq> None"
proof -
  have s: "seals_ok (fst w)" using reachable_journal [OF assms(1)] by (simp add: journal_ok_def)
  show h: "rv_record_hash r \<noteq> None" using found_seal_ok [OF s assms(2)] assms(3,4) by (simp add: seal_ok_def)
  have "row_ok dg (j_bucket (fst w)) r" "rv_state r = FINALIZED"
    using finalized_row [OF assms(1)] assms(4) by (simp_all add: set_members member_def)
  then show "rv_record r \<noteq> None" using h by (auto simp: row_ok_def record_ok_def split: option.splits)
qed

lemma sealed_window_kept:
  assumes w: "reachable dg w" and run: "reaches dg w w'"
    and g: "seal_of gen (fst w) = Some g" "sg_status g = COMPLETE"
    and lo: "bk_deleted_through (j_bucket (fst w')) < lo"
  shows "map record_view (window_rows lo (sg_cutoff g) (fst w')) = map record_view (window_rows lo (sg_cutoff g) (fst w))"
proof -
  let ?c = "sg_cutoff g"
  have s: "seals_ok (fst w)" using reachable_journal [OF w] by (simp add: journal_ok_def)
  have "?c \<le> horizon (j_bucket (fst w))" using found_seal_ok [OF s g(1)] by (simp add: seal_ok_def floor_horizon)
  from reaches_tail [OF run reachable_ok [OF w] this lo]
  have l: "list_all2 (keeps False) (tail_from lo ?c (fst w)) (tail_from lo ?c (fst w'))" .
  have rec: "rv_record_hash r \<noteq> None \<and> rv_record r \<noteq> None" if "r \<in> set (tail_from lo ?c (fst w))" for r
    using sealed_rows_recorded [OF w g] that by (auto simp: tail_from_def)
  have "list_all2 (\<lambda>r r'. record_view r' = record_view r \<and> rv_record r \<noteq> None)
      (tail_from lo ?c (fst w)) (tail_from lo ?c (fst w'))"
    using l rec keeps_view by (auto simp: list_all2_conv_all_nth)
  then have "filter (\<lambda>r. rv_record r \<noteq> None) (tail_from lo ?c (fst w)) = tail_from lo ?c (fst w)
      \<and> filter (\<lambda>r. rv_record r \<noteq> None) (tail_from lo ?c (fst w')) = tail_from lo ?c (fst w')
      \<and> map record_view (tail_from lo ?c (fst w')) = map record_view (tail_from lo ?c (fst w))"
    by (induction rule: list_all2_induct) auto
  then show ?thesis by (simp add: window_tail)
qed

text \<open>
  C4: Sealed history is frozen. The records a window of a sealed bucket holds, up to the cutoff
  of a complete seal, are the same in every later state whose deleted prefix lies before the
  window: the same transactions, decision times, record hashes and records, in the same order.
\<close>

theorem sealed_window_stable:
  assumes "reachable dg w" "reaches dg w w'" "seal_of gen (fst w) = Some g" "sg_status g = COMPLETE"
    and "bk_deleted_through (j_bucket (fst w')) < lo"
  shows "map (\<lambda>r. (rv_tx r, fst (row_key r), rv_record_hash r, rv_record r)) (window_rows lo (sg_cutoff g) (fst w'))
       = map (\<lambda>r. (rv_tx r, fst (row_key r), rv_record_hash r, rv_record r)) (window_rows lo (sg_cutoff g) (fst w))"
  by (rule sealed_window_kept [OF assms])

text \<open>
  C3: A published receipt is exact. When the publishing transaction of a request in flight
  succeeds, however the requests interleaved before it, the generation becomes complete with
  that receipt, and the receipt states the history up to its cutoff: the number of finalized
  reservations, the rolling digest of all their record hashes and attestations in decision
  order, their greatest sequence and the current retention epoch. None of them is under
  unresolved quarantine or still without its record.
\<close>

theorem published_receipt_exact:
  assumes w: "reachable dg (st, add_mset (Publishing gen fs receipt h) T)"
    and pub: "seal_publish gen fs receipt h now st = (Some True, st')"
  shows "\<exists>g root. seal_of gen st' = Some g \<and> sg_status g = COMPLETE \<and> sg_receipt g = Some receipt
    \<and> sg_receipt_hash g = Some h \<and> jget receipt ''receipt_hash'' = JStr h
    \<and> jget receipt ''sealed_through_ms'' = jint (sg_cutoff g)
    \<and> jget receipt ''record_count'' = jint (int (length (members (sg_cutoff g) st')))
    \<and> roll_root dg ZERO_HASH (members (sg_cutoff g) st') = Inr root \<and> jget receipt ''records_root'' = JStr root
    \<and> jget receipt ''maximum_decision_sequence'' = nullable jint (max_sequence (members (sg_cutoff g) st'))
    \<and> jget receipt ''retention_epoch'' = jint (bk_retention_epoch (j_bucket st'))
    \<and> (\<forall>r\<in>set (members (sg_cutoff g) st'). rv_quarantine r \<noteq> UNRESOLVED \<and> rv_record_hash r \<noteq> None)"
proof -
  have ok: "journal_ok dg st" and task: "publish_ok dg st gen fs receipt h"
    using reachable_ok [OF w] by (simp_all add: world_ok_def)
  obtain g where g: "seal_of gen st = Some g" "live_drain st g" "sg_count g = sg_count (fs_current fs)"
    "sg_root g = sg_root (fs_current fs)" "sg_evidence g = sg_evidence (fs_current fs)"
    "int (length (members (sg_cutoff g) st)) = sg_count g"
    "\<forall>r\<in>set (members (sg_cutoff g) st). rv_quarantine r \<noteq> UNRESOLVED \<and> rv_record_hash r \<noteq> None"
    by (rule seal_publish_guard [OF pub])
  have gm: "g \<in> set (j_seals st)" "sg_generation g = gen"
    using g(1) seal_of_in [OF journal_okD(2) [OF ok]] by blast+
  have ex: "digest_exact dg st g" using journal_okD(3) [OF ok] gm g(2) by (simp add: digests_ok_def)
  have all: "roll_root dg ZERO_HASH (members (sg_cutoff g) st) = Inr (sg_root g)"
    using ex digest_covers [OF ex g(6)] by (simp add: digest_exact_def)
  obtain v cert where b: "build_receipt dg v gen fs cert = Inr (receipt, h)" and fs: "fs_count fs = sg_count (fs_current fs)"
    and cut: "sg_cutoff g = sg_cutoff (fs_current fs)"
    and live: "still_live st (fs_current fs) g \<Longrightarrow> max_sequence (members (sg_cutoff g) st) = fs_max_sequence fs
        \<and> bk_retention_epoch (j_bucket st) = bk_retention_epoch (fs_bucket fs)"
    using task g(1) by (auto simp: publish_ok_def)
  have "still_live st (fs_current fs) g" using g(2,5) by (simp add: still_live_def live_drain_def)
  note live = live [OF this]
  obtain cutoffText conflictRoot where r: "receipt = jset ''receipt_hash'' (JStr h) (receipt_json v gen fs cutoffText conflictRoot cert)"
    using b by (auto simp: build_receipt_def and_then_ok Let_def)
  have fields: "jget receipt ''receipt_hash'' = JStr h" "jget receipt ''sealed_through_ms'' = jint (sg_cutoff (fs_current fs))"
    "jget receipt ''record_count'' = jint (fs_count fs)" "jget receipt ''records_root'' = JStr (sg_root (fs_current fs))"
    "jget receipt ''maximum_decision_sequence'' = nullable jint (fs_max_sequence fs)"
    "jget receipt ''retention_epoch'' = jint (bk_retention_epoch (fs_bucket fs))"
    unfolding r receipt_json_def by simp_all
  let ?g = "g\<lparr>sg_status := COMPLETE, sg_receipt_hash := Some h, sg_receipt := Some receipt, sg_updated := now\<rparr>"
  have st': "j_rows st' = j_rows st" "seal_of gen st' = Some ?g" "bk_retention_epoch (j_bucket st') = bk_retention_epoch (j_bucket st)"
    using pub gm(2) by (auto simp: seal_publish_def g(1) Let_def put_seal_def set_bucket_def tbl.lookup_put split: if_splits)
  have "members c st' = members c st" for c by (rule members_rows [OF st'(1)])
  then show ?thesis
    using st' fields g(3,4,6,7) all live cut fs by (intro exI [where x = ?g]) simp
qed

end
