(* ===== verification/JournalSamples.thy ===== *)
theory JournalSamples
  imports JournalTheorems
begin

text \<open>
  A concrete run of a journal bucket: one reservation is finalized and the bucket is sealed.
  The witnesses of the journal's theorems are states of this run.
\<close>

section \<open>Hashes of the sample\<close>

lemma zero_hash: "wf_json v \<Longrightarrow> hashCanonicalJson zero_digest v = Inr ZERO_HASH"
  by (simp add: hashCanonicalJson_def canonical_wf(1) zero_hex)

definition sample_certificate :: certificate where
  "sample_certificate = \<lparr>ce_hash = ZERO_HASH, ce_json = certificate_json [] ZERO_HASH, ce_maximum = -1\<rparr>"

lemma sample_certified: "certify_rows zero_digest [] = Inr sample_certificate"
  by (simp add: certify_rows_def certificate_json_def sample_certificate_def zero_hash legacy_maximum_def
      max_safe_integer_def)

definition sample_record :: jval where
  "sample_record = (case build_record zero_digest (sample_finalize ''t'') (sample_reservation ''t'') 5 1 of
     Inr (r, _) \<Rightarrow> r | Inl _ \<Rightarrow> JNull)"

lemma sample_built: "build_record zero_digest (sample_finalize ''t'') (sample_reservation ''t'') 5 1 = Inr (sample_record, ZERO_HASH)"
proof -
  have "\<exists>r h. build_record zero_digest (sample_finalize ''t'') (sample_reservation ''t'') 5 1 = Inr (r, h)
      \<and> hashManifestRecordV2 zero_digest r = Inr h"
    by (rule build_record_ok [OF sample_reservation_hash _ zero_digest_ok])
       (use sample_hex in \<open>simp_all add: sample_reservation_def reservation_keys sample_finalize_def RESERVATION_KEYS_def
          ROUTE_KEYS_def retention_deadline_of_def time_in_range_def COORDINATOR_RETENTION_DAYS_def DAY_MS_def
          max_safe_integer_def del: replicate.simps\<close>)
  then obtain r h where b: "build_record zero_digest (sample_finalize ''t'') (sample_reservation ''t'') 5 1 = Inr (r, h)"
    and h: "hashManifestRecordV2 zero_digest r = Inr h" by blast
  have "h = ZERO_HASH"
    using h by (auto simp: hashManifestRecordV2_def hashCanonicalJson_def and_then_ok zero_hex split: sum.splits)
  then show ?thesis using b by (simp add: sample_record_def)
qed

section \<open>The requests\<close>

definition sample_reserve :: request where
  "sample_reserve = Reserve (sample_reservation ''t'') (JStr ZERO_HASH) (jint 0)"

definition sample_row :: reservation_row where
  "sample_row = new_row ZERO_HASH (sample_reservation ''t'') 0"

definition reserved_journal :: journal where
  "reserved_journal = serve zero_digest 0 sample_reserve empty_journal"

lemma sample_tx: "jget (sample_reservation ''t'') ''tx_id'' = JStr ''t''" "jget (sample_finalize ''t'') ''tx_id'' = JStr ''t''"
  by (simp_all add: sample_reservation_def reservation_fields sample_finalize_def)

definition certified_journal :: journal where
  "certified_journal = empty_journal\<lparr>j_bucket := empty_bucket\<lparr>bk_legacy_closed := True, bk_certificate := Some ZERO_HASH,
     bk_certificate_json := Some (certificate_json [] ZERO_HASH), bk_legacy_max := Some (-1)\<rparr>\<rparr>"

lemma certified_parts:
  "j_rows certified_journal = []" "j_seals certified_journal = []" "j_conflicts certified_journal = []"
  by (simp_all add: certified_journal_def empty_journal_def)

lemma sample_certificate_run: "ensureLegacyCertificate zero_digest empty_journal = (Inr ZERO_HASH, certified_journal)"
  by (simp add: ensureLegacyCertificate_def certificate_done_def empty_journal_def empty_bucket_def legacy_fence_def
      sample_certified store_certificate_def set_bucket_def sample_certificate_def certified_journal_def)

lemma sample_admitted:
  "reserve_admit zero_digest (sample_reservation ''t'') (JStr ZERO_HASH) (jint 0) = Inr (Inr ZERO_HASH)"
proof -
  have h: "hashManifestReservation zero_digest (sample_reservation ''t'') = Inr ZERO_HASH"
    by (rule sample_reservation_hash) simp
  then have "validateManifestReservation (sample_reservation ''t'') = Inr ()" by (simp add: hash_reservation_iff)
  then show ?thesis by (simp add: reserve_admit_def h max_safe_integer_def)
qed

lemma sample_config: "jget (sample_reservation ''t'') ''partition_config_hash'' = JStr (replicate 64 (CHR ''b''))"
  by (simp add: sample_reservation_def reservation_fields)

lemma sample_reserve_tx:
  "reserve_tx ZERO_HASH 0 cert 0 (sample_reservation ''t'') certified_journal
   = (Reserved ZERO_HASH 0 cert, certified_journal\<lparr>j_meta := Some (metadata_of (sample_reservation ''t'')),
        j_rows := [sample_row], j_bucket := (j_bucket certified_journal)\<lparr>bk_config := Some (replicate 64 (CHR ''b''))\<rparr>\<rparr>)"
  by (simp add: reserve_tx_def bucket_identity_ok_def certified_journal_def empty_journal_def empty_bucket_def
      adopt_identity_def config_ok_def pin_bucket_def Let_def sample_tx sample_config sample_row_def tbl_get_def
      set_bucket_def put_row_def del: replicate.simps)

lemma reserved_parts:
  "j_rows reserved_journal = [sample_row]" "j_seals reserved_journal = []" "j_conflicts reserved_journal = []"
  "j_meta reserved_journal = Some (metadata_of (sample_reservation ''t''))"
  "j_bucket reserved_journal = (j_bucket certified_journal)\<lparr>bk_config := Some (replicate 64 (CHR ''b''))\<rparr>"
  by (simp_all add: reserved_journal_def sample_reserve_def reserve_def sample_admitted sample_certificate_run
      sample_reserve_tx ensureAlarmAtOrBefore_def alarm_frame certified_parts del: replicate.simps)

section \<open>The decision\<close>

definition decided_row :: reservation_row where
  "decided_row = sample_row\<lparr>rv_state := FINALIZED, rv_intent_hash := Some ZERO_HASH,
     rv_intent := Some (sample_finalize ''t''), rv_decided := Some 5, rv_sequence := Some 1, rv_updated := 5\<rparr>"

definition recorded_row :: reservation_row where
  "recorded_row = decided_row\<lparr>rv_record_hash := Some ZERO_HASH, rv_record := Some sample_record,
     rv_deadline := Some (retention_deadline_of 5)\<rparr>"

definition finalized_journal :: journal where
  "finalized_journal = serve zero_digest 5 (Finalize (sample_finalize ''t'')) reserved_journal"

lemma sample_assign:
  "finalize_assign ZERO_HASH 5 (sample_finalize ''t'') reserved_journal
   = (Assigned (sample_reservation ''t'') 5 1, reserved_journal\<lparr>j_rows := [decided_row],
        j_bucket := (j_bucket reserved_journal)\<lparr>bk_last_assigned := 5, bk_next_sequence := 2\<rparr>\<rparr>)"
  by (simp add: finalize_assign_def Let_def reserved_parts sample_tx tbl_get_def sample_row_def new_row_def
      decided_row_def sample_finalize_def sample_reservation_def reservation_fields set_bucket_def put_row_def
      certified_journal_def empty_journal_def empty_bucket_def del: replicate.simps)

lemma finalized_parts:
  "j_rows finalized_journal = [recorded_row]" "j_seals finalized_journal = []" "j_conflicts finalized_journal = []"
  "j_meta finalized_journal = Some (metadata_of (sample_reservation ''t''))"
  "j_bucket finalized_journal = (j_bucket reserved_journal)\<lparr>bk_last_assigned := 5, bk_next_sequence := 2\<rparr>"
proof -
  have t: "iso_text 5 = Inr (toISOString 5)" by (simp add: iso_text_def time_in_range_def)
  have h: "hashManifestFinalizeIntent zero_digest (sample_finalize ''t'') = Inr ZERO_HASH"
    by (rule sample_finalize_hash) simp
  have r: "rv_tx decided_row = ''t''" "rv_state decided_row = FINALIZED" "rv_intent_hash decided_row = Some ZERO_HASH"
    "rv_decided decided_row = Some 5" "rv_sequence decided_row = Some 1" "rv_record_hash decided_row = None"
    "rv_updated decided_row = 5"
    by (simp_all add: decided_row_def sample_row_def new_row_def sample_tx)
  show "j_rows finalized_journal = [recorded_row]" "j_seals finalized_journal = []" "j_conflicts finalized_journal = []"
    "j_meta finalized_journal = Some (metadata_of (sample_reservation ''t''))"
    "j_bucket finalized_journal = (j_bucket reserved_journal)\<lparr>bk_last_assigned := 5, bk_next_sequence := 2\<rparr>"
    by (simp_all add: finalized_journal_def finalize_def h sample_assign t sample_built finalize_persist_def
        ensureAlarmAtOrBefore_def alarm_frame tbl_get_def r sample_tx put_row_def recorded_row_def reserved_parts Let_def
        del: replicate.simps)
qed

lemma finalized_reachable: "reachable zero_digest (finalized_journal, {#})"
proof -
  have "distinct (jkeys (sample_reservation ''t''))"
    by (simp add: sample_reservation_def reservation_keys RESERVATION_KEYS_def ROUTE_KEYS_def)
  then show ?thesis
    using served_reachable [of "[(0, sample_reserve), (5, Finalize (sample_finalize ''t''))]" zero_digest]
    by (simp add: sample_reserve_def finalized_journal_def reserved_journal_def del: serve.simps)
qed

section \<open>The seal\<close>

definition sample_seal :: jval where
  "sample_seal = JObj
     [(''protocol_version'', jint CURRENT_PROTOCOL_VERSION), (''format_version'', jint MANIFEST_SEAL_FORMAT_VERSION),
      (''fleet_id'', JStr ''f''), (''reservation_utc_day'', JStr (utc_day 0)), (''partition'', jint 0),
      (''partition_count'', jint 16), (''routing_key'', JStr (routing_key_of (utc_day 0) 0)),
      (''partition_config_hash'', JStr (replicate 64 (CHR ''b''))), (''cutoff'', JStr (toISOString 1000)),
      (''idempotency_key'', JStr ''k'')]"

lemma sample_seal_valid:
  "validateManifestSealRequest sample_seal = Inr ()" "parseManifestTimestamp (jget sample_seal ''cutoff'') = Inr 1000"
proof -
  have t: "time_in_range 1000" by (simp add: time_in_range_def)
  then show c: "parseManifestTimestamp (jget sample_seal ''cutoff'') = Inr 1000"
    by (simp add: sample_seal_def manifest_timestamp_iff)
  have "validateManifestReservation (sample_reservation ''t'') = Inr ()"
    using sample_reservation_hash [of "''t''"] by (simp add: hash_reservation_iff)
  then have "validateManifestRouteFields (sample_reservation ''t'') = Inr ()"
    by (simp add: validateManifestReservation_def seq_checks_ok)
  moreover have "validateManifestRouteFields sample_seal = validateManifestRouteFields (sample_reservation ''t'')"
    by (rule route_fields_cong) (simp_all add: sample_seal_def sample_reservation_def reservation_fields)
  ultimately have r: "validateManifestRouteFields sample_seal = Inr ()" by simp
  have k: "jkeys sample_seal = [''protocol_version'', ''format_version'', ''fleet_id''] @ ROUTE_KEYS
        @ [''cutoff'', ''idempotency_key'']" by (simp add: sample_seal_def ROUTE_KEYS_def)
  show "validateManifestSealRequest sample_seal = Inr ()"
    unfolding validateManifestSealRequest_def seq_checks_Cons r exact_keys_same [OF k]
    using c by (simp add: checkManifestTimestamp_def) (simp add: sample_seal_def manifest_asserts assertPlainObject_def)
qed

definition opened_seal :: seal_row where
  "opened_seal = new_seal sample_seal 1000 2000 finalized_journal"

definition opened_journal :: journal where
  "opened_journal = snd (close_start sample_seal 1000 2000 finalized_journal)"

lemma finalized_bucket:
  "j_bucket finalized_journal = empty_bucket\<lparr>bk_legacy_closed := True, bk_certificate := Some ZERO_HASH,
     bk_certificate_json := Some (certificate_json [] ZERO_HASH), bk_legacy_max := Some (-1),
     bk_config := Some (replicate 64 (CHR ''b'')), bk_last_assigned := 5, bk_next_sequence := 2\<rparr>"
  by (simp add: finalized_parts reserved_parts certified_journal_def)

lemma opened_parts:
  "j_rows opened_journal = [recorded_row]" "j_seals opened_journal = [opened_seal]"
  "j_bucket opened_journal = (j_bucket finalized_journal)\<lparr>bk_next_generation := 2, bk_floor := 1000\<rparr>"
proof -
  have m: "metadata_of sample_seal = metadata_of (sample_reservation ''t'')"
    by (simp add: metadata_of_def sample_seal_def sample_reservation_def reservation_fields)
  have c: "jget sample_seal ''partition_config_hash'' = JStr (replicate 64 (CHR ''b''))"
    by (simp add: sample_seal_def del: replicate.simps)
  show "j_rows opened_journal = [recorded_row]" "j_seals opened_journal = [opened_seal]"
    "j_bucket opened_journal = (j_bucket finalized_journal)\<lparr>bk_next_generation := 2, bk_floor := 1000\<rparr>"
    by (simp_all add: opened_journal_def close_start_def names_bucket_def finalized_parts(1-4) finalized_bucket m c
        tbl_get_def open_seal_def latest_seal_def earliest_seal_def Let_def set_bucket_def put_seal_def
        empty_bucket_def opened_seal_def del: replicate.simps)
qed

lemma opened_fields:
  "sg_generation opened_seal = 1" "sg_cutoff opened_seal = 1000" "sg_status opened_seal = DRAINING"
  "sg_cursor opened_seal = None" "sg_count opened_seal = 0" "sg_root opened_seal = ZERO_HASH"
  "sg_evidence opened_seal = 0" "sg_receipt opened_seal = None" "sg_mode opened_seal = ADVANCE"
  by (simp_all add: opened_seal_def new_seal_def finalized_bucket empty_bucket_def)

lemma recorded_fields:
  "rv_tx recorded_row = ''t''" "rv_state recorded_row = FINALIZED" "rv_decided recorded_row = Some 5"
  "rv_sequence recorded_row = Some 1" "rv_record_hash recorded_row = Some ZERO_HASH" "rv_record recorded_row = Some sample_record"
  "rv_quarantine recorded_row = NoQuarantine" "rv_attestation recorded_row = None" "rv_conflict_root recorded_row = []"
  "row_key recorded_row = (5, 1, ''t'')" "rv_hash recorded_row = ZERO_HASH" "rv_released recorded_row = False"
  by (simp_all add: recorded_row_def decided_row_def sample_row_def new_row_def sample_tx row_key_def)

lemma sample_members: "j_rows st = [recorded_row] \<Longrightarrow> members 1000 st = [recorded_row]"
  by (simp add: members_def member_def recorded_fields)

lemma sample_unresolved: "j_rows st = [recorded_row] \<Longrightarrow> unresolved_through 1000 st = []"
  by (simp add: unresolved_through_def recorded_fields)

lemma sample_scan:
  "seal_scan SEAL_PAGE_SIZE 2000 1 opened_journal = (Inr (ScanRows opened_seal [recorded_row]), opened_journal)"
  by (simp add: seal_scan_def opened_parts tbl_get_def opened_fields sample_unresolved finalized_bucket empty_bucket_def
      page_of_def sample_members after_cursor_def recorded_fields SEAL_PAGE_SIZE_def Let_def del: replicate.simps)

lemma sample_entry: "entry_hash zero_digest recorded_row = Inr ZERO_HASH"
  by (simp add: entry_hash_def recorded_fields zero_hash)

lemma sample_roll: "roll_root zero_digest ZERO_HASH [recorded_row] = Inr ZERO_HASH"
  by (simp add: sample_entry zero_hash)

definition digested_seal :: seal_row where
  "digested_seal = opened_seal\<lparr>sg_cursor := Some (5, 1, ''t''), sg_count := 1, sg_root := ZERO_HASH, sg_updated := 2000\<rparr>"

definition digested_journal :: journal where
  "digested_journal = opened_journal\<lparr>j_seals := [digested_seal]\<rparr>"

lemma sample_progress:
  "seal_progress opened_seal [recorded_row] ZERO_HASH 2000 opened_journal = (Some True, digested_journal)"
  by (simp add: seal_progress_def opened_parts tbl_get_def opened_fields finalized_bucket empty_bucket_def
      recorded_fields put_seal_def digested_journal_def digested_seal_def del: replicate.simps)

definition sample_final :: final_state where
  "sample_final = \<lparr>fs_current = digested_seal, fs_count = 1, fs_max_sequence = Some 1,
     fs_bucket = j_bucket opened_journal, fs_prior = None, fs_conflicts = JArr []\<rparr>"

lemma digested_fields:
  "sg_generation digested_seal = 1" "sg_cutoff digested_seal = 1000" "sg_status digested_seal = DRAINING"
  "sg_count digested_seal = 1" "sg_root digested_seal = ZERO_HASH" "sg_evidence digested_seal = 0"
  "sg_mode digested_seal = ADVANCE"
  by (simp_all add: digested_seal_def opened_fields)

lemma digested_parts:
  "j_rows digested_journal = [recorded_row]" "j_seals digested_journal = [digested_seal]"
  "j_bucket digested_journal = j_bucket opened_journal"
  by (simp_all add: digested_journal_def opened_parts)

lemma sample_final_state: "seal_final 1 digested_journal = Inr (Some sample_final)"
  by (simp add: seal_final_def digested_parts tbl_get_def digested_fields sample_members recorded_fields Let_def
      opened_parts(3) finalized_bucket empty_bucket_def sample_final_def max_sequence_def latest_seal_def
      conflict_roots_def del: replicate.simps)

definition sample_receipt :: jval where
  "sample_receipt = jset ''receipt_hash'' (JStr ZERO_HASH)
     (receipt_json sample_seal 1 sample_final (toISOString 1000) ZERO_HASH ZERO_HASH)"

lemma sample_receipt_built: "build_receipt zero_digest sample_seal 1 sample_final ZERO_HASH = Inr (sample_receipt, ZERO_HASH)"
proof -
  have "iso_text 1000 = Inr (toISOString 1000)" by (simp add: iso_text_def time_in_range_def)
  moreover have "wf_json (receipt_json sample_seal 1 sample_final (toISOString 1000) ZERO_HASH ZERO_HASH)"
    by (simp add: receipt_json_def sample_seal_def sample_final_def nullable_def opened_parts(3) finalized_bucket
        empty_bucket_def digested_fields del: replicate.simps)
  ultimately show ?thesis
    by (simp add: build_receipt_def sample_final_def digested_fields zero_hash sample_receipt_def Let_def
        del: replicate.simps)
qed

lemma opened_reachable: "reachable zero_digest (opened_journal, {#})"
proof -
  have "certificate_done finalized_journal \<noteq> None"
    by (simp add: certificate_done_def finalized_bucket empty_bucket_def del: replicate.simps)
  from opened [OF sample_seal_valid _ this, of 2000 zero_digest "{#}"] show ?thesis
    using finalized_reachable by (simp add: opened_journal_def)
qed

definition sample_publishing :: world where
  "sample_publishing = (digested_journal, {#Publishing 1 sample_final sample_receipt ZERO_HASH#})"

lemma publishing_reachable: "reachable zero_digest sample_publishing"
proof -
  have d: "runs zero_digest {#} opened_journal digested_journal"
    using run_two [OF digesting [OF sample_scan] digest [where now = 2000], of zero_digest ZERO_HASH "{#}"]
    by (simp add: opened_fields(6) sample_roll sample_progress del: roll_root.simps)
  have "bk_certificate (fs_bucket sample_final) = Some ZERO_HASH"
    by (simp add: sample_final_def opened_parts(3) finalized_bucket empty_bucket_def)
  from publishing [OF sample_final_state this sample_receipt_built, of "{#}"] show ?thesis
    using rtranclp_trans [OF opened_reachable d] by (simp add: sample_publishing_def)
qed

definition sealed_row :: seal_row where
  "sealed_row = digested_seal\<lparr>sg_status := COMPLETE, sg_receipt_hash := Some ZERO_HASH,
     sg_receipt := Some sample_receipt, sg_updated := 2000\<rparr>"

definition sealed_journal :: journal where
  "sealed_journal = snd (seal_publish 1 sample_final sample_receipt ZERO_HASH 2000 digested_journal)"

lemma sample_published:
  "seal_publish 1 sample_final sample_receipt ZERO_HASH 2000 digested_journal = (Some True, sealed_journal)"
  by (simp add: sealed_journal_def seal_publish_def digested_parts tbl_get_def digested_fields sample_members
      recorded_fields sample_final_def opened_parts(3) finalized_bucket empty_bucket_def Let_def del: replicate.simps)

lemma sealed_parts:
  "j_rows sealed_journal = [recorded_row]" "j_seals sealed_journal = [sealed_row]"
  "j_bucket sealed_journal = (j_bucket opened_journal)\<lparr>bk_sealed := 1000\<rparr>"
  by (simp_all add: sealed_journal_def seal_publish_def digested_parts tbl_get_def digested_fields sample_members
      recorded_fields sample_final_def opened_parts(3) finalized_bucket empty_bucket_def Let_def put_seal_def
      sealed_row_def set_bucket_def del: replicate.simps)

lemma sealed_reachable: "reachable zero_digest (sealed_journal, {#})"
  using rtranclp.rtrancl_into_rtrancl [OF publishing_reachable [unfolded sample_publishing_def] published [where now = 2000]]
  by (simp add: sample_published)

section \<open>Witnesses\<close>

lemma sealed_run: "reaches zero_digest (finalized_journal, {#}) (sealed_journal, {#})"
proof -
  have c: "certificate_done finalized_journal \<noteq> None"
    by (simp add: certificate_done_def finalized_bucket empty_bucket_def del: replicate.simps)
  have "reaches zero_digest (finalized_journal, {#}) (opened_journal, {#})"
    using opened [OF sample_seal_valid _ c, of 2000 zero_digest "{#}"] by (simp add: opened_journal_def)
  also have "reaches zero_digest (opened_journal, {#}) (digested_journal, {#})"
    using run_two [OF digesting [OF sample_scan] digest [where now = 2000], of zero_digest ZERO_HASH "{#}"]
    by (simp add: opened_fields(6) sample_roll sample_progress del: roll_root.simps)
  also have "bk_certificate (fs_bucket sample_final) = Some ZERO_HASH"
    by (simp add: sample_final_def opened_parts(3) finalized_bucket empty_bucket_def)
  note pub = publishing [OF sample_final_state this sample_receipt_built, of "{#}"]
  have "reaches zero_digest (digested_journal, {#}) (sealed_journal, {#})"
    using run_two [OF pub published [where now = 2000]] by (simp add: sample_published)
  finally show ?thesis .
qed

lemma sealed_seal: "seal_of 1 sealed_journal = Some sealed_row" "sg_status sealed_row = COMPLETE" "sg_cutoff sealed_row = 1000"
  by (simp_all add: tbl_get_def sealed_parts sealed_row_def digested_fields)

theorem handlers_refine_system_witness:
  "reachable zero_digest (serve_all zero_digest
     [(0, Reserve (sample_reservation ''t'') (JStr ZERO_HASH) (jint 0)), (5, Finalize (sample_finalize ''t''))] empty_journal, {#})
   \<and> journal_ok zero_digest (serve_all zero_digest
     [(0, Reserve (sample_reservation ''t'') (JStr ZERO_HASH) (jint 0)), (5, Finalize (sample_finalize ''t''))] empty_journal)"
  by (rule handlers_refine_system)
     (simp add: sample_reservation_def reservation_keys RESERVATION_KEYS_def ROUTE_KEYS_def)

theorem stored_records_canonical_witness:
  "hashManifestRecordV2 zero_digest sample_record = Inr ZERO_HASH
   \<and> jget sample_record ''tx_id'' = JStr ''t'' \<and> jget sample_record ''commit_decided_at_ms'' = jint 5"
  using stored_records_canonical [OF finalized_reachable, of recorded_row]
  by (simp add: finalized_parts(1) recorded_fields)

theorem decisions_ordered_witness:
  "recorded_row \<in> set (j_rows sealed_journal) \<and> ((1::int) < 1 \<longleftrightarrow> (5::int) < 5)"
  using decisions_ordered [OF sealed_reachable, of recorded_row recorded_row 5 5 1 1]
  by (simp add: sealed_parts recorded_fields)

theorem no_late_decision_witness:
  "\<exists>r\<in>set (j_rows finalized_journal). rv_tx r = ''t'' \<and> rv_decided r = Some 5 \<and> rv_sequence r = Some 1"
  using no_late_decision [OF finalized_reachable sealed_run, of recorded_row 5, OF _ _ disjI2 [OF disjI1]]
  by (simp add: sealed_parts(1) recorded_fields finalized_bucket finalized_parts(1))

theorem decision_durable_witness:
  "\<exists>r\<in>set (j_rows sealed_journal). rv_tx r = ''t'' \<and> rv_decided r = Some 5 \<and> rv_record_hash r = Some ZERO_HASH"
  using decision_durable [OF finalized_reachable sealed_run, of recorded_row 5]
  by (simp add: sealed_parts(1,3) recorded_fields opened_parts(3) finalized_bucket finalized_parts(1) empty_bucket_def)

theorem complete_seal_frozen_witness:
  "seal_of 1 (serve zero_digest 3000 (CloseThrough sample_seal) sealed_journal) = Some sealed_row
   \<or> seal_of 1 (serve zero_digest 3000 (CloseThrough sample_seal) sealed_journal) = None"
proof -
  have "reaches zero_digest (sealed_journal, {#}) (serve zero_digest 3000 (CloseThrough sample_seal) sealed_journal, {#})"
    by (rule serve_runs) simp
  from complete_seal_frozen [OF sealed_reachable this, of 1 sealed_row] show ?thesis
    by (cases "seal_of 1 (serve zero_digest 3000 (CloseThrough sample_seal) sealed_journal)")
       (simp_all add: sealed_seal del: serve.simps)
qed

theorem sealed_window_stable_witness:
  "map (\<lambda>r. (rv_tx r, fst (row_key r), rv_record_hash r, rv_record r))
     (window_rows 1 1000 (serve zero_digest 3000 (ReleaseV2 ''t'' ZERO_HASH ZERO_HASH) sealed_journal))
   = [(''t'', 5, Some ZERO_HASH, Some sample_record)]"
proof -
  let ?st = "serve zero_digest 3000 (ReleaseV2 ''t'' ZERO_HASH ZERO_HASH) sealed_journal"
  have run: "reaches zero_digest (sealed_journal, {#}) (?st, {#})" by (rule serve_runs) simp
  have "bk_deleted_through (j_bucket ?st) = bk_deleted_through (j_bucket sealed_journal)"
    by (auto simp: releaseV2_def release_alarm_def releaseV2_tx_def ensureAlarmAtOrBefore_def alarm_frame put_row_def
        split: option.splits)
  then have "bk_deleted_through (j_bucket (fst (?st, {#}))) < 1"
    by (simp add: sealed_parts(3) opened_parts(3) finalized_bucket empty_bucket_def)
  from sealed_window_stable [OF sealed_reachable run _ sealed_seal(2) this, of 1] show ?thesis
    by (simp add: sealed_seal window_rows_def in_window_def sealed_parts(1) recorded_fields)
qed

theorem published_receipt_exact_witness:
  "jget sample_receipt ''record_count'' = jint 1 \<and> jget sample_receipt ''records_root'' = JStr ZERO_HASH
   \<and> jget sample_receipt ''maximum_decision_sequence'' = jint 1"
  using published_receipt_exact [OF publishing_reachable [unfolded sample_publishing_def] sample_published]
  by (auto simp: tbl_get_def sealed_parts(1,2) sealed_seal sealed_row_def digested_fields sample_members sample_entry
      zero_hash max_sequence_def recorded_fields nullable_def)

end
