(* ===== verification/JournalAnswers.thy ===== *)
theory JournalAnswers
  imports JournalSamples
begin

text \<open>
  What the handlers of a journal bucket answer: a finalization succeeds and its answer is
  permanent, a terminal decision excludes the other one, replays are idempotent, and the V1
  ledger stays closed.
\<close>

section \<open>Finalize\<close>

lemma assigned_pending:
  assumes r: "rows_ok dg st" and fin: "finalize_assign ih now i st = (Assigned res d s, st')"
  obtains row where "row_of (str_of (jget i ''tx_id'')) st' = Some row" "rv_state row = FINALIZED"
    "rv_decided row = Some d" "rv_sequence row = Some s" "rv_intent_hash row = Some ih"
    "rv_record_hash row = None" "rv_quarantine row \<noteq> UNRESOLVED" "jget i ''reservation_hash'' = JStr (rv_hash row)"
    "res = rv_json row"
proof (cases rule: assigned_row [OF r fin])
  case (1 row)
  let ?row = "if rv_state row = FINALIZED then row else row\<lparr>rv_state := FINALIZED, rv_intent_hash := Some ih,
      rv_intent := Some i, rv_decided := Some d, rv_sequence := Some s, rv_updated := now\<rparr>"
  have rok: "row_ok dg (j_bucket st) row" by (rule found_row_ok [OF r 1(1)])
  have g: "rv_quarantine row \<noteq> UNRESOLVED" "rv_intent_hash row = None \<or> rv_intent_hash row = Some ih"
    "rv_state row = FINALIZED \<Longrightarrow> rv_record row = None \<or> rv_record_hash row = None"
    using fin by (auto simp: finalize_assign_def Let_def 1(1) split: if_splits)
  have c: "rv_record_hash row = None"
    using rok g(3) by (auto simp: row_ok_def record_ok_def split: if_splits option.splits)
  have e: "rv_state row = FINALIZED \<Longrightarrow> rv_intent_hash row = Some ih" using rok g(2) by (auto simp: row_ok_def)
  show ?thesis
    by (rule that [OF 1(4)]) (use 1 g c e in auto)
qed

text \<open>The row of a transaction whose finalization was answered.\<close>

definition answered :: "digest_fn \<Rightarrow> jval \<Rightarrow> jval \<Rightarrow> string \<Rightarrow> int \<Rightarrow> journal \<Rightarrow> bool" where
  "answered dg i v h d st \<longleftrightarrow> (\<exists>ih row. hashManifestFinalizeIntent dg i = Inr ih
     \<and> row_of (str_of (jget i ''tx_id'')) st = Some row \<and> rv_state row = FINALIZED \<and> rv_decided row = Some d
     \<and> rv_intent_hash row = Some ih \<and> rv_record row = Some v \<and> rv_record_hash row = Some h
     \<and> jget i ''reservation_hash'' = JStr (rv_hash row))"

lemma finalize_answered:
  assumes r: "rows_ok dg st" and fin: "finalize dg now i st = (reply, st1)"
    and reply: "reply = Finalized v h \<or> reply = AlreadyFinalized v h"
  shows "\<exists>d. answered dg i v h d st1"
proof -
  obtain ih where ih: "hashManifestFinalizeIntent dg i = Inr ih"
    using fin reply by (cases "hashManifestFinalizeIntent dg i") (auto simp: finalize_def finalize_failure_def Let_def)
  obtain a st0 where a: "finalize_assign ih now i st = (a, st0)" by fastforce
  show ?thesis
  proof (cases a)
    case (Assigned res d s)
    note a = a [unfolded Assigned]
    obtain row where row: "row_of (str_of (jget i ''tx_id'')) st0 = Some row" "rv_state row = FINALIZED"
      "rv_decided row = Some d" "rv_sequence row = Some s" "rv_intent_hash row = Some ih"
      "rv_record_hash row = None" "jget i ''reservation_hash'' = JStr (rv_hash row)"
      by (rule assigned_pending [OF r a])
    have tx: "rv_tx row = str_of (jget i ''tx_id'')" by (rule tbl.lookup_key [OF row(1)])
    from fin reply obtain rh rec where b: "build_record dg i res d s = Inr (rec, rh)"
      by (auto simp: finalize_def ih a finalize_failure_def Let_def split: sum.splits)
    let ?st = "ensureAlarmAtOrBefore (retention_deadline_of d) st0"
    let ?row = "row\<lparr>rv_record_hash := Some rh, rv_record := Some rec, rv_deadline := Some (retention_deadline_of d), rv_updated := now\<rparr>"
    have "row_of (str_of (jget i ''tx_id'')) ?st = Some row"
      by (simp add: ensureAlarmAtOrBefore_def alarm_frame row(1))
    then have p: "finalize_persist ih now i d s rec rh ?st = (Some True, put_row ?row ?st)"
      by (simp add: finalize_persist_def row)
    from b obtain t where "iso_text d = Inr t" by (auto simp: build_record_def and_then_ok)
    then have "st1 = put_row ?row ?st" "reply = finalize_answer i rec rh (Some True) (put_row ?row ?st)"
      using fin by (auto simp: finalize_def ih a b p Let_def)
    then show ?thesis using row reply tx ih
      by (auto simp: answered_def finalize_answer_def Let_def row_of_put split: if_splits)
  next
    case (AssignedBefore rec rh)
    then have st: "st1 = st0" "reply = AlreadyFinalized rec rh" using fin by (simp_all add: finalize_def ih a)
    from a obtain row where row: "row_of (str_of (jget i ''tx_id'')) st = Some row" "st0 = st" "rv_state row = FINALIZED"
      "rv_record row = Some rec" "rv_record_hash row = Some rh" "jget i ''reservation_hash'' = JStr (rv_hash row)"
      "rv_intent_hash row = None \<or> rv_intent_hash row = Some ih"
      unfolding AssignedBefore
      by (cases "row_of (str_of (jget i ''tx_id'')) st") (auto simp: finalize_assign_def Let_def split: if_splits)
    have "row_ok dg (j_bucket st) row" by (rule found_row_ok [OF r row(1)])
    then show ?thesis using row st reply ih by (auto simp: answered_def row_ok_def)
  next
    case (AssignRefused q)
    then show ?thesis using a fin reply by (auto simp: finalize_def ih finalize_assign_def Let_def split: option.splits if_splits)
  qed
qed

text \<open>
  The reservation of a transaction that took a decision is still there: its row carries that
  decision time, which it does as long as the deleted prefix lies before it.
\<close>

definition undeleted :: "string \<Rightarrow> int \<Rightarrow> journal \<Rightarrow> bool" where
  "undeleted tx d st \<longleftrightarrow> bk_deleted_through (j_bucket st) < d
     \<or> (\<exists>r. row_of tx st = Some r \<and> rv_decided r = Some d)"

lemma decided_row_kept:
  assumes w: "reachable dg w" and run: "reaches dg w w'" and row: "row_of tx (fst w) = Some row" "rv_decided row = Some d"
    and there: "undeleted tx d (fst w')"
  shows "\<exists>r'. row_of tx (fst w') = Some r' \<and> keeps False row r'"
proof -
  have w': "reachable dg w'" using w run by (rule rtranclp_trans)
  have ok: "rows_ok dg (fst w)" "rows_ok dg (fst w')"
    using reachable_journal [OF w] reachable_journal [OF w'] by (simp_all add: journal_ok_def)
  have in_w: "row \<in> set (j_rows (fst w))" "rv_tx row = tx" using row(1) row_of_in [OF ok(1)] by blast+
  have rok: "row_ok dg (j_bucket (fst w)) row" by (rule found_row_ok [OF ok(1) row(1)])
  have fin: "rv_state row = FINALIZED" by (rule decided_finalized [OF rok row(2)])
  have hor: "d \<le> horizon (j_bucket (fst w))" using rok fin row(2) by (auto simp: row_ok_def horizon_def)
  have "\<exists>r'\<in>set (j_rows (fst w')). keeps False row r'"
  proof (cases "bk_deleted_through (j_bucket (fst w')) < d")
    case True
    from reaches_tail [OF run reachable_ok [OF w] hor True]
    have "list_all2 (keeps False) (tail_from d d (fst w)) (tail_from d d (fst w'))" .
    moreover have "row \<in> set (tail_from d d (fst w))"
      using in_w row(2) fin by (simp add: tail_from_def set_members member_def row_key_def)
    ultimately have "\<exists>r'\<in>set (tail_from d d (fst w')). keeps False row r'" by (rule list_all2_ball(2))
    then show ?thesis by (auto simp: tail_from_def set_members)
  next
    case False
    then obtain r' where r': "row_of tx (fst w') = Some r'" "rv_decided r' = Some d"
      using there by (auto simp: undeleted_def)
    have in_w': "r' \<in> set (j_rows (fst w'))" using r'(1) row_of_in [OF ok(2)] by blast
    then have "rv_state r' = FINALIZED" using decided_finalized [OF finalized_row [OF w']] r'(2) by blast
    then have "r' \<in> set (members d (fst w'))" using in_w' r'(2) by (simp add: set_members member_def)
    from reaches_back [OF run reachable_ok [OF w] hor this]
    obtain x where x: "x \<in> set (members d (fst w))" "keeps False x r'" by blast
    have "rv_tx r' = tx" by (rule tbl.lookup_key [OF r'(1)])
    then have "x = row" using x in_w ok(1)
      by (fastforce simp: keeps_def set_members rows_ok_def tbl_wf_def distinct_map inj_on_def)
    then show ?thesis using x(2) in_w' by blast
  qed
  then obtain r' where r': "r' \<in> set (j_rows (fst w'))" "keeps False row r'" by blast
  then have "row_of tx (fst w') = Some r'" using row_of_in [OF ok(2)] in_w(2) by (simp add: keeps_def)
  then show ?thesis using r'(2) by blast
qed

lemma answered_kept:
  assumes "reachable dg w" "reaches dg w w'" "answered dg i v h d (fst w)" "undeleted (str_of (jget i ''tx_id'')) d (fst w')"
  shows "answered dg i v h d (fst w')"
proof -
  obtain ih row where row: "hashManifestFinalizeIntent dg i = Inr ih" "row_of (str_of (jget i ''tx_id'')) (fst w) = Some row"
    "rv_state row = FINALIZED" "rv_decided row = Some d" "rv_intent_hash row = Some ih" "rv_record row = Some v"
    "rv_record_hash row = Some h" "jget i ''reservation_hash'' = JStr (rv_hash row)"
    using assms(3) by (auto simp: answered_def)
  obtain r' where r': "row_of (str_of (jget i ''tx_id'')) (fst w') = Some r'" "keeps False row r'"
    using decided_row_kept [OF assms(1,2) row(2,4) assms(4)] by blast
  then show ?thesis
    unfolding answered_def using row(1,8) r'(2) [unfolded keeps_def row(3-7)] by simp
qed

lemma answered_again:
  assumes "answered dg i v h d st" "\<And>row. row_of (str_of (jget i ''tx_id'')) st = Some row \<Longrightarrow> rv_quarantine row \<noteq> UNRESOLVED"
  shows "finalize dg now i st = (AlreadyFinalized v h, st)"
  using assms by (auto simp: answered_def finalize_def finalize_assign_def Let_def)

lemma quarantine_row_parts:
  assumes "row_of tx st = Some row"
  shows "row_of tx (quarantine_row row h v k now st)
      = Some (row\<lparr>rv_quarantine := UNRESOLVED, rv_conflict_root := h, rv_updated := now\<rparr>)"
    "bk_evidence_revision (j_bucket (quarantine_row row h v k now st)) = bk_evidence_revision (j_bucket st) + 1"
    "\<exists>c\<in>set (j_conflicts (quarantine_row row h v k now st)). cf_tx c = rv_tx row \<and> cf_hash c = h"
proof -
  have "rv_tx row = tx" by (rule tbl.lookup_key [OF assms])
  then show "row_of tx (quarantine_row row h v k now st)
      = Some (row\<lparr>rv_quarantine := UNRESOLVED, rv_conflict_root := h, rv_updated := now\<rparr>)"
    by (simp add: quarantine_row_def conflict_frame row_of_put)
  show "bk_evidence_revision (j_bucket (quarantine_row row h v k now st)) = bk_evidence_revision (j_bucket st) + 1"
    by (simp add: quarantine_row_def conflict_frame)
  show "\<exists>c\<in>set (j_conflicts (quarantine_row row h v k now st)). cf_tx c = rv_tx row \<and> cf_hash c = h"
    by (auto simp: quarantine_row_def add_conflict_def)
qed

lemma cancel_tx_finalized:
  assumes "row_of (str_of (jget c ''tx_id'')) st = Some row" "rv_state row = FINALIZED"
  shows "\<not> cancel_ok (fst (cancel_tx ih now c st)) \<and> (\<exists>r'. row_of (str_of (jget c ''tx_id'')) (snd (cancel_tx ih now c st)) = Some r'
    \<and> keeps False row r')"
  using assms quarantine_row_parts(1) [OF assms(1), of ih c "''CANCEL''" now]
  by (auto simp: cancel_tx_def Let_def keeps_def)

text \<open>
  C10: A successful finalization is answered once and for all. If \<open>finalize\<close> answered with a
  record decided at \<open>d\<close> in a state the bucket reached, then in every later state in which the
  reservation has not been deleted (its row carries that decision, which is certain while the
  deleted prefix lies before \<open>d\<close>) and is not under unresolved quarantine, the same intent is
  answered with exactly that record and hash and changes nothing.
\<close>

theorem finalize_answer_permanent:
  assumes "reachable dg (st, T)" "finalize dg now i st = (Finalized v h, st1)" "reaches dg (st1, T) w'"
    and "jget v ''commit_decided_at_ms'' = jint d"
    and "bk_deleted_through (j_bucket (fst w')) < d
      \<or> (\<exists>r. row_of (str_of (jget i ''tx_id'')) (fst w') = Some r \<and> rv_decided r = Some d)"
    and "\<And>row. row_of (str_of (jget i ''tx_id'')) (fst w') = Some row \<Longrightarrow> rv_quarantine row \<noteq> UNRESOLVED"
  shows "finalize dg now' i (fst w') = (AlreadyFinalized v h, fst w')"
proof -
  have r: "rows_ok dg st" using reachable_journal [OF assms(1)] by (simp add: journal_ok_def)
  obtain d' where d': "answered dg i v h d' st1" using finalize_answered [OF r assms(2)] by blast
  have run: "reachable dg (st1, T)"
    using rtranclp_trans [OF assms(1) run_finalize [where now = now and i = i]] by (simp add: assms(2))
  have "rows_ok dg st1" using reachable_journal [OF run] by (simp add: journal_ok_def)
  then have "jget v ''commit_decided_at_ms'' = jint d'"
    using d' found_row_ok by (fastforce simp: answered_def row_ok_def record_ok_def)
  then have "d' = d" using assms(4) by simp
  then have "answered dg i v h d (fst w')"
    using answered_kept [OF run assms(3)] d' assms(5) by (simp add: undeleted_def)
  then show ?thesis using assms(6) by (rule answered_again)
qed

text \<open>
  C11: A commit that has been decided is never cancelled, whether its record was written and
  answered or only its time was assigned. Once a reservation holds a decision in a state the
  bucket reached, then in every later state in which it has not been deleted, \<open>cancel\<close> refuses
  every intent for its transaction, and after the refusal the reservation is still finalized
  with the same decision, sequence, intent and, if it had one, record.
\<close>

theorem finalized_never_cancelled:
  assumes "reachable dg w" "row_of tx (fst w) = Some row" "rv_decided row = Some d" "reaches dg w w'"
    and "bk_deleted_through (j_bucket (fst w')) < d \<or> (\<exists>r. row_of tx (fst w') = Some r \<and> rv_decided r = Some d)"
    and "jget c ''tx_id'' = JStr tx"
  shows "\<not> cancel_ok (fst (cancel dg now c (fst w')))
    \<and> (\<exists>r'. row_of tx (snd (cancel dg now c (fst w'))) = Some r' \<and> rv_state r' = FINALIZED
        \<and> rv_decided r' = Some d \<and> rv_sequence r' = rv_sequence row \<and> rv_intent_hash r' = rv_intent_hash row
        \<and> (rv_record_hash row \<noteq> None \<longrightarrow> rv_record_hash r' = rv_record_hash row \<and> rv_record r' = rv_record row))"
proof -
  have ok: "rows_ok dg (fst w)" using reachable_journal [OF assms(1)] by (simp add: journal_ok_def)
  have fin: "rv_state row = FINALIZED" by (rule decided_finalized [OF found_row_ok [OF ok assms(2)] assms(3)])
  obtain r1 where r1: "row_of tx (fst w') = Some r1" "keeps False row r1"
    using decided_row_kept [OF assms(1,4,2,3)] assms(5) by (auto simp: undeleted_def)
  have f1: "rv_state r1 = FINALIZED" using r1(2) fin by (simp add: keeps_def)
  have "\<not> cancel_ok (fst (cancel dg now c (fst w'))) \<and> (\<exists>r'. row_of tx (snd (cancel dg now c (fst w'))) = Some r' \<and> keeps False r1 r')"
  proof (cases "hash_cancel_intent dg c")
    case (Inl e)
    then show ?thesis using r1(1) by (simp add: cancel_def cancel_failure_def Let_def)
  next
    case (Inr ih)
    have "row_of (str_of (jget c ''tx_id'')) (fst w') = Some r1" using r1(1) assms(6) by simp
    from cancel_tx_finalized [OF this f1, of ih now] show ?thesis
      using assms(6) by (cases "cancel_tx ih now c (fst w')") (simp add: cancel_def Inr)
  qed
  then obtain r' where "\<not> cancel_ok (fst (cancel dg now c (fst w')))" "row_of tx (snd (cancel dg now c (fst w'))) = Some r'"
    "keeps False row r'" using keeps_trans [OF r1(2), of False _ False] by blast
  then show ?thesis using fin assms(3) by (simp add: keeps_def)
qed

text \<open>
  C12: Finalization succeeds when it should: for a reservation that is still open and not under
  quarantine, an accepted intent that matches its hash, operation and epoch is answered with a
  record, decided strictly after every earlier decision and every floor of the bucket, provided
  the retention deadline of that time is a valid instant and the sequence a safe integer.
\<close>

theorem finalize_succeeds:
  assumes "reachable dg (st, T)" "digest_ok dg" "hashManifestFinalizeIntent dg i = Inr ih"
    and row: "row_of (str_of (jget i ''tx_id'')) st = Some row" "rv_state row = RESERVED" "rv_quarantine row \<noteq> UNRESOLVED"
    and same: "jget i ''reservation_hash'' = JStr (rv_hash row)"
      "jget i ''operation_hash'' = jget (rv_json row) ''operation_hash''"
      "jget i ''decision_epoch'' = jget (rv_json row) ''decision_epoch''"
    and d: "d = max now (max (bk_last_assigned (j_bucket st) + 1) (bk_floor (j_bucket st) + 1))"
    and rng: "time_in_range (retention_deadline_of d)" "bk_next_sequence (j_bucket st) \<le> max_safe_integer"
  shows "\<exists>v h. fst (finalize dg now i st) = Finalized v h \<and> hashManifestRecordV2 dg v = Inr h
    \<and> jget v ''commit_decided_at_ms'' = jint d \<and> jget v ''decision_sequence'' = jint (bk_next_sequence (j_bucket st))"
proof -
  let ?s = "bk_next_sequence (j_bucket st)"
  have ok: "rows_ok dg st" using reachable_journal [OF assms(1)] by (simp add: journal_ok_def)
  have rok: "row_ok dg (j_bucket st) row" by (rule found_row_ok [OF ok row(1)])
  have tx: "rv_tx row = str_of (jget i ''tx_id'')" by (rule tbl.lookup_key [OF row(1)])
  have pos: "0 \<le> d" "1 \<le> ?s" using ok d by (auto simp: rows_ok_def)
  let ?row = "row\<lparr>rv_state := FINALIZED, rv_intent_hash := Some ih, rv_intent := Some i,
      rv_decided := Some d, rv_sequence := Some ?s, rv_updated := now\<rparr>"
  let ?st = "put_row ?row (set_bucket (\<lambda>b. b\<lparr>bk_last_assigned := d, bk_next_sequence := ?s + 1\<rparr>) st)"
  have a: "finalize_assign ih now i st = (Assigned (rv_json row) d ?s, ?st)"
    using row same rok d by (simp add: finalize_assign_def Let_def row_ok_def)
  have int: "sha256_hex_val (jget i ''redo_envelope_hash'')"
    using assms(3) by (auto simp: hashManifestFinalizeIntent_def and_then_ok validateManifestFinalizeIntent_def
        assertManifestHash_def)
  have "hashManifestReservation dg (rv_json row) = Inr (rv_hash row)" "distinct (jkeys (rv_json row))"
    using rok by (simp_all add: row_ok_def)
  from build_record_ok [OF this assms(2) same(1) int pos(1) rng(1) pos(2) rng(2)]
  obtain v h where b: "build_record dg i (rv_json row) d ?s = Inr (v, h)" "hashManifestRecordV2 dg v = Inr h" by blast
  have t: "\<exists>x. iso_text d = Inr x" using b(1) by (auto simp: build_record_def and_then_ok)
  have f: "jget v ''commit_decided_at_ms'' = jint d" "jget v ''decision_sequence'' = jint ?s"
    using b(1) by (auto simp: build_record_def and_then_ok Let_def finalize_record_def)
  let ?st2 = "ensureAlarmAtOrBefore (retention_deadline_of d) ?st"
  have r2: "row_of (str_of (jget i ''tx_id'')) ?st2 = Some ?row"
    using tx by (simp add: ensureAlarmAtOrBefore_def alarm_frame row_of_put)
  have nr: "rv_record_hash row = None" using rok row(2) by (simp add: row_ok_def)
  have "finalize_persist ih now i d ?s v h ?st2 = (Some True, put_row (?row\<lparr>rv_record_hash := Some h, rv_record := Some v,
      rv_deadline := Some (retention_deadline_of d), rv_updated := now\<rparr>) ?st2)"
    by (simp add: finalize_persist_def r2 nr)
  then have "fst (finalize dg now i st) = Finalized v h"
    using t tx row(3) by (auto simp: finalize_def assms(3) a b(1) Let_def finalize_answer_def row_of_put)
  then show ?thesis using b(2) f by blast
qed

section \<open>Contradictions\<close>

text \<open>
  C13: A terminal intent that contradicts a decision never replaces it. When a reservation has
  taken a terminal intent, a different accepted finalize intent for the same reservation is
  refused as a terminal conflict; the row keeps its state, decision and record, is parked as
  unresolved evidence naming the new intent, the candidate is kept, and the evidence revision
  moves, so that no seal can publish over it.
\<close>

theorem contradiction_quarantined:
  assumes "hashManifestFinalizeIntent dg i = Inr ih"
    and row: "row_of (str_of (jget i ''tx_id'')) st = Some row" "jget i ''reservation_hash'' = JStr (rv_hash row)"
      "rv_intent_hash row = Some ih0" "ih0 \<noteq> ih" "rv_quarantine row \<noteq> UNRESOLVED"
  shows "fst (finalize dg now i st) = FinalizeRefused ''conflict'' 409 MANIFEST_TERMINAL_CONFLICT
    \<and> (\<exists>row'. row_of (str_of (jget i ''tx_id'')) (snd (finalize dg now i st)) = Some row'
         \<and> rv_quarantine row' = UNRESOLVED \<and> rv_conflict_root row' = ih \<and> rv_state row' = rv_state row
         \<and> rv_decided row' = rv_decided row \<and> rv_intent_hash row' = Some ih0 \<and> rv_record row' = rv_record row)
    \<and> (\<exists>c\<in>set (j_conflicts (snd (finalize dg now i st))). cf_tx c = rv_tx row \<and> cf_hash c = ih)
    \<and> bk_evidence_revision (j_bucket (snd (finalize dg now i st))) = bk_evidence_revision (j_bucket st) + 1"
proof -
  have "finalize dg now i st = (FinalizeRefused ''conflict'' 409 MANIFEST_TERMINAL_CONFLICT,
      quarantine_row row ih i ''FINALIZE'' now st)"
    using row by (simp add: finalize_def assms(1) finalize_assign_def Let_def)
  then show ?thesis using quarantine_row_parts [OF row(1), of ih i "''FINALIZE''" now] row(3) by simp
qed

section \<open>The V1 ledger\<close>

text \<open>What a transaction may do to the V1 ledger and its certificate.\<close>

definition v1_moves :: "journal \<Rightarrow> journal \<Rightarrow> bool" where
  "v1_moves st st' \<longleftrightarrow>
     (bk_legacy_closed (j_bucket st) \<longrightarrow> bk_legacy_closed (j_bucket st')
        \<and> (\<forall>r'\<in>set (j_v1 st'). \<exists>r\<in>set (j_v1 st). vr_tx r' = vr_tx r \<and> vr_record r' = vr_record r \<and> vr_hash r' = vr_hash r))"

text \<open>The stored certificate and the maximum it states.\<close>

definition certificate_kept :: "journal \<Rightarrow> journal \<Rightarrow> bool" where
  "certificate_kept st st' \<longleftrightarrow> bk_legacy_max (j_bucket st') = bk_legacy_max (j_bucket st)
     \<and> bk_certificate (j_bucket st') = bk_certificate (j_bucket st)
     \<and> bk_certificate_json (j_bucket st') = bk_certificate_json (j_bucket st)"

definition v1_same :: "journal \<Rightarrow> journal \<Rightarrow> bool" where
  "v1_same st st' \<longleftrightarrow> j_v1 st' = j_v1 st \<and> bk_legacy_closed (j_bucket st') = bk_legacy_closed (j_bucket st)
     \<and> certificate_kept st st'"

lemma v1_same_moves: "v1_same st st' \<Longrightarrow> v1_moves st st'"
  by (auto simp: v1_same_def v1_moves_def)

lemma v1_same_trans: "v1_same a b \<Longrightarrow> v1_same b c \<Longrightarrow> v1_same a c"
  by (simp add: v1_same_def certificate_kept_def)

lemma v1_same_updates [simp]:
  "v1_same st st" "v1_same st (put_row r st)" "v1_same st (bump_evidence st)" "v1_same st (add_conflict c st)"
  "v1_same st (put_seal g st)" "v1_same st (scheduleAlarmPurpose p t gen st)" "v1_same st (clearAlarmPurpose p st)"
  "v1_same st (seal_alarm now gen st)"
  by (simp_all add: v1_same_def certificate_kept_def put_row_def bump_evidence_def set_bucket_def add_conflict_def put_seal_def alarm_frame seal_alarm_def)

lemma v1_same_quarantine: "v1_same st (quarantine_row row h v k now st)"
  by (simp add: v1_same_def certificate_kept_def quarantine_row_def conflict_frame put_row_def bump_evidence_def set_bucket_def)

lemma v1_same_terminal:
  "v1_same st (snd (reserve_tx h floor cert now v st))" "v1_same st (snd (finalize_assign ih now i st))"
  "v1_same st (snd (finalize_persist ih now i d s rec rh st))" "v1_same st (snd (cancel_tx ih now i st))"
  "v1_same st (snd (resolution_tx v tx qh ah now st))"
proof -
  have pin: "v1_same st (pin_bucket v floor (adopt_identity v st))" "v1_same st (adopt_identity v st)"
    by (auto simp: v1_same_def certificate_kept_def pin_bucket_def adopt_identity_def set_bucket_def split: option.splits)
  have up: "v1_same st (put_row r st')" "v1_same st (quarantine_row row h v k now st')" if "v1_same st st'" for r row h v k now st'
    using that by (auto intro: v1_same_trans v1_same_quarantine)
  show "v1_same st (snd (reserve_tx h floor cert now v st))"
    by (auto simp: reserve_tx_def Let_def pin up split: option.splits)
  have "v1_same st (put_row r (set_bucket (\<lambda>b. b\<lparr>bk_last_assigned := d, bk_next_sequence := s\<rparr>) st))" for r d s
    by (rule up) (simp add: v1_same_def certificate_kept_def set_bucket_def)
  then show "v1_same st (snd (finalize_assign ih now i st))"
    by (auto simp: finalize_assign_def Let_def v1_same_quarantine split: option.splits)
  show "v1_same st (snd (finalize_persist ih now i d s rec rh st))"
    by (auto simp: finalize_persist_def split: option.splits)
  show "v1_same st (snd (cancel_tx ih now i st))"
    by (auto simp: cancel_tx_def Let_def v1_same_quarantine split: option.splits)
  show "v1_same st (snd (resolution_tx v tx qh ah now st))"
    by (auto simp: resolution_tx_def v1_same_def certificate_kept_def put_row_def bump_evidence_def set_bucket_def split: option.splits)
qed

lemma v1_same_sealing:
  "v1_same st (snd (initialize_tx v floor st))" "v1_same st (snd (close_start v cutoff now st))"
  "v1_same st (snd (seal_scan n now gen st))" "v1_same st (snd (seal_progress g rows root now st))"
  "v1_same st (snd (seal_publish gen fs receipt h now st))"
proof -
  show "v1_same st (snd (initialize_tx v floor st))"
    by (auto simp: initialize_tx_def Let_def v1_same_def certificate_kept_def pin_bucket_def adopt_identity_def set_bucket_def split: option.splits)
  have "v1_same st (snd (replay_seal g cutoff now st))" "v1_same st (snd (open_seal v cutoff now st))" for g
    by (auto simp: replay_seal_def open_seal_def Let_def v1_same_def certificate_kept_def put_seal_def set_bucket_def split: option.splits)
  then show "v1_same st (snd (close_start v cutoff now st))" by (auto simp: close_start_def split: option.splits)
  show "v1_same st (snd (seal_scan n now gen st))"
    by (auto simp: seal_scan_def Let_def v1_same_def certificate_kept_def alarm_frame seal_alarm_def put_seal_def split: option.splits)
  show "v1_same st (snd (seal_progress g rows root now st))"
    by (auto simp: seal_progress_def v1_same_def certificate_kept_def put_seal_def split: option.splits)
  show "v1_same st (snd (seal_publish gen fs receipt h now st))"
    by (auto simp: seal_publish_def Let_def v1_same_def certificate_kept_def put_seal_def set_bucket_def split: option.splits)
qed

lemma v1_same_sweeps:
  "v1_same st (snd (page_tx p now expires st))" "v1_same st (snd (releaseV2_tx tx vh rh now st))"
  "v1_same st (snd (sweepV2History now limit st))" "v1_same st (snd (retention_scan now limit st))"
  "v1_same st (snd (retention_delete now limit rows root st))"
proof -
  show "v1_same st (snd (page_tx p now expires st))"
    by (auto simp: page_tx_def Let_def lease_def v1_same_def certificate_kept_def split: sum.splits option.splits)
  show "v1_same st (snd (releaseV2_tx tx vh rh now st))" by (auto simp: releaseV2_tx_def split: option.splits)
  show "v1_same st (snd (sweepV2History now limit st))" by (simp add: sweepV2History_def Let_def v1_same_def certificate_kept_def)
  show "v1_same st (snd (retention_scan now limit st))"
    by (auto simp: retention_scan_def expire_cursors_def Let_def v1_same_def certificate_kept_def split: option.splits)
  show "v1_same st (snd (retention_delete now limit rows root st))"
    by (simp add: retention_delete_def v1_same_def certificate_kept_def set_bucket_def)
qed

text \<open>
  \<open>proves dg h v m st\<close>: \<open>v\<close> is a legacy certificate of hash \<open>h\<close> whose maximum is \<open>m\<close>, made from rows
  that include every V1 record the bucket holds, whose ledger is closed.
\<close>

definition ledger_in :: "v1_row list \<Rightarrow> journal \<Rightarrow> bool" where
  "ledger_in rows st \<longleftrightarrow> bk_legacy_closed (j_bucket st)
     \<and> (\<forall>r\<in>set (j_v1 st). jget (vr_record r) ''protocol_version'' = jint 1 \<longrightarrow>
          (\<exists>x\<in>set rows. vr_tx r = vr_tx x \<and> vr_record r = vr_record x \<and> vr_hash r = vr_hash x))"

definition proves :: "digest_fn \<Rightarrow> string \<Rightarrow> jval \<Rightarrow> int \<Rightarrow> journal \<Rightarrow> bool" where
  "proves dg h v m st \<longleftrightarrow> hashCanonicalJson dg v = Inr h
     \<and> (\<exists>rows root. hashCanonicalJson dg (JArr (map legacy_row_json rows)) = Inr root
          \<and> v = certificate_json rows root \<and> m = legacy_maximum rows \<and> ledger_in rows st)"

definition stored_proves :: "digest_fn \<Rightarrow> journal \<Rightarrow> bool" where
  "stored_proves dg st \<longleftrightarrow> (\<forall>m. bk_legacy_max (j_bucket st) = Some m \<longrightarrow>
     (\<exists>h v. bk_certificate (j_bucket st) = Some h \<and> bk_certificate_json (j_bucket st) = Some v \<and> proves dg h v m st))"

definition v1_world :: "digest_fn \<Rightarrow> world \<Rightarrow> bool" where
  "v1_world dg w \<longleftrightarrow> stored_proves dg (fst w)
     \<and> (\<forall>c. Certifying c \<in># snd w \<longrightarrow> proves dg (ce_hash c) (ce_json c) (ce_maximum c) (fst w))"

lemma proves_moves: "proves dg h v m st \<Longrightarrow> v1_moves st st' \<Longrightarrow> proves dg h v m st'"
  unfolding proves_def ledger_in_def v1_moves_def by metis

lemma stored_proves_moves:
  assumes "stored_proves dg st" "v1_moves st st'" "certificate_kept st st'"
  shows "stored_proves dg st'"
  using assms(1,3) proves_moves [OF _ assms(2)] unfolding stored_proves_def certificate_kept_def by (simp (no_asm_simp)) blast

lemma legacy_maximum_covers: "r \<in> set rows \<Longrightarrow> v1_time r = Some t \<Longrightarrow> t \<le> legacy_maximum rows"
proof -
  let ?f = "\<lambda>m r. case v1_time r of None \<Rightarrow> m | Some t \<Rightarrow> max m t"
  have mono: "m \<le> foldl ?f m rs" for m rs
    by (induction rs arbitrary: m) (auto split: option.splits intro: order_trans [OF max.cobounded1])
  have "r \<in> set rs \<Longrightarrow> v1_time r = Some t \<Longrightarrow> t \<le> foldl ?f m rs" for m rs
  proof (induction rs arbitrary: m)
    case (Cons a rs)
    then show ?case using mono [of "max m t" rs] by (cases "r = a") auto
  qed simp
  then show "r \<in> set rows \<Longrightarrow> v1_time r = Some t \<Longrightarrow> t \<le> legacy_maximum rows" by (simp add: legacy_maximum_def)
qed

lemma foldl_attained:
  assumes "\<And>m r. f m r = m \<or> g r = Some (f m r)"
  shows "foldl f m rs = m \<or> (\<exists>r\<in>set rs. g r = Some (foldl f m rs))"
proof (induction rs arbitrary: m)
  case (Cons a rs)
  show ?case using Cons.IH [of "f m a"] assms [of m a] by auto
qed simp

lemma legacy_maximum_attained: "legacy_maximum rows = -1 \<or> (\<exists>r\<in>set rows. v1_time r = Some (legacy_maximum rows))"
  unfolding legacy_maximum_def by (rule foldl_attained) (simp add: max_def split: option.splits)

lemma certified_proves:
  assumes "certify_rows dg (fst (legacy_fence st)) = Inr c"
  shows "proves dg (ce_hash c) (ce_json c) (ce_maximum c) (snd (legacy_fence st))"
proof -
  have l: "ledger_in (fst (legacy_fence st)) (snd (legacy_fence st))"
    by (auto simp: ledger_in_def legacy_fence_def set_bucket_def)
  obtain root h where "hashCanonicalJson dg (JArr (map legacy_row_json (fst (legacy_fence st)))) = Inr root"
    "hashCanonicalJson dg (certificate_json (fst (legacy_fence st)) root) = Inr h"
    "c = \<lparr>ce_hash = h, ce_json = certificate_json (fst (legacy_fence st)) root, ce_maximum = legacy_maximum (fst (legacy_fence st))\<rparr>"
    using assms by (auto simp: certify_rows_def and_then_ok violation_ok)
  then show ?thesis using l unfolding proves_def by auto
qed

definition v1_steps :: "journal \<Rightarrow> journal \<Rightarrow> bool" where
  "v1_steps st st' \<longleftrightarrow> v1_moves st st' \<and> certificate_kept st st'"

lemma v1_steps_same: "v1_same st st' \<Longrightarrow> v1_steps st st'"
  by (simp add: v1_steps_def v1_same_moves) (simp add: v1_same_def)

lemma v1_steps_ledger:
  "v1_steps st (snd (legacy_fence st))" "v1_steps st (snd (release_tx tx h st))" "v1_steps st (snd (v1_sweep now st))"
  "v1_steps st (snd (register_tx rec h deadline now st))"
proof -
  show "v1_steps st (snd (legacy_fence st))" by (auto simp: v1_steps_def certificate_kept_def v1_moves_def legacy_fence_def set_bucket_def)
  have put: "\<exists>r\<in>set t. vr_tx r' = vr_tx r \<and> vr_record r' = vr_record r \<and> vr_hash r' = vr_hash r"
    if "r' \<in> set (tbl_put vr_tx x t)" "tbl_get vr_tx tx t = Some y" "vr_tx x = vr_tx y" "vr_record x = vr_record y"
      "vr_hash x = vr_hash y" for r' x t tx y
  proof -
    have "set (tbl_put vr_tx x t) \<subseteq> insert x (set t)" by (induction t) auto
    moreover have "y \<in> set t" using that(2) by (auto simp: tbl_get_def find_Some_iff)
    ultimately show ?thesis using that by auto
  qed
  show "v1_steps st (snd (release_tx tx h st))"
    using put by (fastforce simp: v1_steps_def certificate_kept_def v1_moves_def release_tx_def split: option.splits)
  show "v1_steps st (snd (v1_sweep now st))" by (auto simp: v1_steps_def certificate_kept_def v1_moves_def v1_sweep_def Let_def)
  have meta: "j_v1 (case j_meta st of None \<Rightarrow> st\<lparr>j_meta := x\<rparr> | Some _ \<Rightarrow> st) = j_v1 st"
    "j_bucket (case j_meta st of None \<Rightarrow> st\<lparr>j_meta := x\<rparr> | Some _ \<Rightarrow> st) = j_bucket st" for x
    by (simp_all split: option.splits)
  have add: "j_v1 (add_v1_conflict c s) = j_v1 s" "j_bucket (add_v1_conflict c s) = j_bucket s" for c s
    by (simp_all add: add_v1_conflict_def)
  show "v1_steps st (snd (register_tx rec h deadline now st))"
  proof (cases "tbl_get vr_tx (str_of (jget rec ''tx_id'')) (j_v1 st)")
    case None
    then show ?thesis by (auto simp: v1_steps_def certificate_kept_def v1_moves_def register_tx_def Let_def meta)
  next
    case (Some y)
    then show ?thesis
      using put [OF _ Some] by (fastforce simp: v1_steps_def certificate_kept_def v1_moves_def register_tx_def Let_def meta add)
  qed
qed

lemmas v1_step_rules = v1_same_terminal [THEN v1_steps_same] v1_same_sealing [THEN v1_steps_same]
  v1_same_sweeps [THEN v1_steps_same] v1_steps_ledger

lemma v1_world_steps:
  assumes "v1_world dg w" "v1_steps (fst w) (fst w')" "\<And>c. Certifying c \<in># snd w' \<Longrightarrow> Certifying c \<in># snd w"
  shows "v1_world dg w' \<and> (bk_legacy_max (j_bucket (fst w)) \<noteq> None \<longrightarrow> certificate_kept (fst w) (fst w'))"
proof -
  have mv: "v1_moves (fst w) (fst w')" "certificate_kept (fst w) (fst w')" using assms(2) by (simp_all add: v1_steps_def)
  have w: "stored_proves dg (fst w)" "\<And>c. Certifying c \<in># snd w \<Longrightarrow> proves dg (ce_hash c) (ce_json c) (ce_maximum c) (fst w)"
    using assms(1) by (simp_all add: v1_world_def)
  have "stored_proves dg (fst w')" by (rule stored_proves_moves [OF w(1) mv])
  moreover have "proves dg (ce_hash c) (ce_json c) (ce_maximum c) (fst w')" if "Certifying c \<in># snd w'" for c
    by (rule proves_moves [OF w(2) [OF assms(3) [OF that]] mv(1)])
  ultimately show ?thesis using mv(2) by (simp add: v1_world_def)
qed

lemma v1_step:
  assumes "step dg w w'" "v1_world dg w"
  shows "v1_world dg w' \<and> (bk_legacy_max (j_bucket (fst w)) \<noteq> None \<longrightarrow> certificate_kept (fst w) (fst w'))"
  using assms(1)
proof cases
  case (certify st c T)
  have m: "certificate_kept st (snd (legacy_fence st))" "v1_moves st (snd (legacy_fence st))"
    using v1_steps_ledger(1) [of st] by (simp_all add: v1_steps_def)
  have w: "stored_proves dg st" "\<And>c. Certifying c \<in># T \<Longrightarrow> proves dg (ce_hash c) (ce_json c) (ce_maximum c) st"
    using assms(2) by (simp_all add: v1_world_def certify(1))
  have "stored_proves dg (snd (legacy_fence st))" by (rule stored_proves_moves [OF w(1) m(2,1)])
  moreover have "proves dg (ce_hash d) (ce_json d) (ce_maximum d) (snd (legacy_fence st))" if "Certifying d \<in># add_mset (Certifying c) T" for d
    using that certified_proves [OF certify(4)] proves_moves [OF w(2) m(2)] by auto
  ultimately show ?thesis using m(1) by (simp add: v1_world_def certify(1,2))
next
  case (certified st c T)
  have p: "proves dg h v m (snd (store_certificate c st)) \<longleftrightarrow> proves dg h v m st" for h v m
    by (simp add: proves_def ledger_in_def store_certificate_def set_bucket_def split: option.splits)
  have c: "proves dg (ce_hash c) (ce_json c) (ce_maximum c) st" using assms(2) by (simp add: certified(1) v1_world_def)
  show ?thesis
  proof (cases "certificate_done st")
    case None
    have "bk_legacy_max (j_bucket st) = None"
      using None assms(2)
      by (cases "bk_legacy_max (j_bucket st)") (auto simp: certified(1) v1_world_def stored_proves_def certificate_done_def)
    moreover have "stored_proves dg (snd (store_certificate c st))"
      unfolding stored_proves_def p using c None by (simp add: store_certificate_def set_bucket_def)
    ultimately show ?thesis using assms(2) p by (simp add: certified(1,2) v1_world_def)
  next
    case (Some h)
    then show ?thesis using assms(2) by (auto simp: certified(1,2) v1_world_def store_certificate_def certificate_kept_def)
  qed
next
  case (recording i ih now st res d s st' v rh T)
  have "v1_steps st st'" using v1_step_rules(2) [of st ih now i] recording by simp
  then show ?thesis by (intro v1_world_steps [OF assms(2)]) (simp_all add: recording(1,2))
next
  case (digesting now gen st g rows st' root T)
  have "v1_steps st st'" using v1_step_rules(8) [of st SEAL_PAGE_SIZE now gen] digesting by simp
  then show ?thesis by (intro v1_world_steps [OF assms(2)]) (simp_all add: digesting(1,2))
next
  case (sweeping now limit st rows remaining prior st' root T)
  have "v1_steps st st'" using v1_step_rules(14) [of st now limit] sweeping by simp
  then show ?thesis by (intro v1_world_steps [OF assms(2)]) (simp_all add: sweeping(1,2))
next
  case (alarms st T as at)
  have "v1_steps st (fst w')" by (auto simp: alarms v1_steps_def v1_moves_def certificate_kept_def)
  then show ?thesis by (intro v1_world_steps [OF assms(2)]) (simp_all add: alarms)
qed (rule v1_world_steps [OF assms(2)]; simp add: v1_step_rules v1_steps_same)+

lemma v1_reaches:
  "reaches dg w w' \<Longrightarrow> v1_world dg w \<Longrightarrow>
   v1_world dg w' \<and> (bk_legacy_max (j_bucket (fst w)) \<noteq> None \<longrightarrow> certificate_kept (fst w) (fst w'))"
proof (induction rule: rtranclp_induct)
  case base
  then show ?case by (simp add: certificate_kept_def)
next
  case (step v w')
  then show ?case using v1_step [OF step.hyps(2)] by (simp add: certificate_kept_def)
qed

lemma v1_reachable: "reachable dg w \<Longrightarrow> v1_world dg w"
proof -
  have "v1_world dg new_bucket" by (simp add: v1_world_def stored_proves_def new_bucket_def empty_journal_def empty_bucket_def)
  then show "reachable dg w \<Longrightarrow> v1_world dg w" using v1_reaches by blast
qed

lemma ensured_certificate:
  assumes "ensureLegacyCertificate dg st = (Inr h, st')" "v1_world dg (st, T)"
  shows "bk_certificate (j_bucket st') = Some h"
  using assms
  by (auto simp: ensureLegacyCertificate_def certificate_done_def store_certificate_def legacy_fence_def set_bucket_def
      split: option.splits sum.splits if_splits)

text \<open>
  C14: Initialising a bucket for a seal proves the legacy window. When \<open>initializeForSeal\<close> accepts
  a \<open>requiredSince\<close> and answers a certificate hash, that is in every later state the hash of the
  stored certificate; the certificate binds by its root and count the rows it was made from, and
  its maximum is exactly the latest decision time among them, before \<open>requiredSince\<close>; and every V1
  record the bucket still holds, then or in any later state, is one of those rows, hence decided
  by that maximum at the latest: no V1 record is admitted after the certificate was made.
\<close>

theorem legacy_window_proven:
  assumes "reachable dg (st, T)" "initializeForSeal dg v floor since st = (Inr (Initialized cert f), st1)"
    and "reaches dg (st1, T) w'"
  shows "\<exists>c m rows root. bk_certificate (j_bucket (fst w')) = Some cert \<and> bk_certificate_json (j_bucket (fst w')) = Some c
    \<and> hashCanonicalJson dg c = Inr cert \<and> jget c ''maximum_commit_decided_at_ms'' = jint m
    \<and> hashCanonicalJson dg (JArr (map legacy_row_json rows)) = Inr root
    \<and> jget c ''records_root'' = JStr root \<and> jget c ''record_count'' = jint (int (length rows))
    \<and> (m = -1 \<or> (\<exists>x\<in>set rows. v1_time x = Some m)) \<and> m < int_of since
    \<and> (\<forall>r\<in>set (j_v1 (fst w')). jget (vr_record r) ''protocol_version'' = jint 1 \<longrightarrow>
        (\<exists>x\<in>set rows. vr_tx r = vr_tx x \<and> vr_record r = vr_record x \<and> vr_hash r = vr_hash x)
        \<and> (\<forall>t. v1_time r = Some t \<longrightarrow> t \<le> m))"
proof -
  have run: "reachable dg (st1, T)"
    using rtranclp_trans [OF assms(1) run_initializeForSeal [where v = v and floor = floor and since = since]]
    by (simp add: assms(2))
  obtain st0 m where e: "ensureLegacyCertificate dg st = (Inr cert, st0)" and m: "bk_legacy_max (j_bucket st0) = Some m"
    "m < int_of since" and i: "st1 = snd (initialize_tx v (int_of floor) st0)"
    using assms(2) by (auto simp: initializeForSeal_def not_le split: sum.splits option.splits if_splits prod.splits)
  have h: "bk_certificate (j_bucket st0) = Some cert" by (rule ensured_certificate [OF e v1_reachable [OF assms(1)]])
  have k: "certificate_kept st0 st1" using v1_same_sealing(1) [of st0 v "int_of floor"] i by (simp add: v1_same_def)
  then have "bk_legacy_max (j_bucket st1) = Some m" "bk_certificate (j_bucket st1) = Some cert"
    using m(1) h by (simp_all add: certificate_kept_def)
  moreover have w: "v1_world dg w'" "bk_legacy_max (j_bucket st1) \<noteq> None \<Longrightarrow> certificate_kept st1 (fst w')"
    using v1_reaches [OF assms(3) v1_reachable [OF run]] by simp_all
  ultimately have m': "bk_legacy_max (j_bucket (fst w')) = Some m" "bk_certificate (j_bucket (fst w')) = Some cert"
    by (simp_all add: certificate_kept_def)
  then obtain c where c: "bk_certificate_json (j_bucket (fst w')) = Some c" "proves dg cert c m (fst w')"
    using w(1) by (auto simp: v1_world_def stored_proves_def)
  then obtain rows root where r: "hashCanonicalJson dg (JArr (map legacy_row_json rows)) = Inr root"
    "c = certificate_json rows root" "m = legacy_maximum rows" "ledger_in rows (fst w')" "hashCanonicalJson dg c = Inr cert"
    by (auto simp: proves_def)
  have "t \<le> m" if "x \<in> set rows" "vr_record r = vr_record x" "v1_time r = Some t" for r x t
    using legacy_maximum_covers [OF that(1), of t] that(2,3) r(3) by (simp add: v1_time_def)
  then have "\<forall>r\<in>set (j_v1 (fst w')). jget (vr_record r) ''protocol_version'' = jint 1 \<longrightarrow>
        (\<exists>x\<in>set rows. vr_tx r = vr_tx x \<and> vr_record r = vr_record x \<and> vr_hash r = vr_hash x)
        \<and> (\<forall>t. v1_time r = Some t \<longrightarrow> t \<le> m)"
    using r(4) unfolding ledger_in_def by blast
  moreover have "jget c ''maximum_commit_decided_at_ms'' = jint m" "jget c ''records_root'' = JStr root"
    "jget c ''record_count'' = jint (int (length rows))"
    by (simp_all add: r(2,3) certificate_json_def)
  ultimately show ?thesis
    using m'(2) m(2) c(1) r(1,5) legacy_maximum_attained [of rows] unfolding r(3) [symmetric]
    by (intro exI [of _ c] exI [of _ m] exI [of _ rows] exI [of _ root] conjI) assumption+
qed

section \<open>Retention\<close>

text \<open>
  C15: The retention sweep deletes a decided reservation only when its retention is over. Whatever
  candidates it read earlier, when the deleting transaction removes a finalized row, the row was
  released, resolved, and at least 35 days past its decision; no seal was draining and no
  unexpired page lease covers the decision time; and the deleted prefix and the retention epoch
  record the deletion.
\<close>

theorem retention_deletes_only_due:
  assumes "reachable dg (st, T)" "retention_delete now limit rows root st = (res, st')"
    and "r \<in> set (j_rows st)" "r \<notin> set (j_rows st')"
  shows "\<exists>d. rv_state r = FINALIZED \<and> rv_decided r = Some d \<and> rv_released r \<and> rv_quarantine r \<noteq> UNRESOLVED
    \<and> d + 35 * DAY_MS \<le> now \<and> (\<forall>g\<in>set (j_seals st). sg_status g \<noteq> DRAINING)
    \<and> (\<forall>c\<in>set (j_cursors st). now < pc_expires c \<longrightarrow> \<not> (pc_start c \<le> d \<and> d \<le> pc_cutoff c))
    \<and> d \<le> bk_deleted_through (j_bucket st')
    \<and> bk_retention_epoch (j_bucket st') = bk_retention_epoch (j_bucket st) + 1"
proof -
  have ok: "rows_ok dg st" using reachable_journal [OF assms(1)] by (simp add: journal_ok_def)
  let ?due = "due_records now limit st"
  show ?thesis
  proof (cases rule: retention_delete_cases [of now limit rows root st])
    case 3
    have st': "j_rows st' = filter (\<lambda>x. rv_tx x \<notin> set (map rv_tx ?due)) (j_rows st)"
      "bk_deleted_through (j_bucket st') = max (bk_deleted_through (j_bucket st)) (fst (row_key (last rows)))"
      "bk_retention_epoch (j_bucket st') = bk_retention_epoch (j_bucket st) + 1"
      using assms(2) 3(5) by (auto simp: set_bucket_def 3(3))
    obtain y where y: "y \<in> set ?due" "rv_tx y = rv_tx r" using assms(3,4) st'(1) by auto
    then have "y = r" using due_records_in assms(3) ok by (fastforce simp: rows_ok_def tbl_wf_def distinct_map inj_on_def)
    then have due: "r \<in> set ?due" "due_record now r" using y due_records_in by auto
    have rok: "row_ok dg (j_bucket st) r" using ok assms(3) by (simp add: rows_ok_def)
    then obtain d where d: "rv_decided r = Some d" "record_ok dg r d (the (rv_sequence r))"
      using due(2) by (auto simp: row_ok_def due_record_def)
    then have dl: "rv_deadline r = Some (retention_deadline_of d)"
      using due(2) by (auto simp: record_ok_def due_record_def split: option.splits)
    have ne: "?due \<noteq> []" "rows \<noteq> []" using due(1) 3(3) by auto
    have key: "fst (row_key (last rows)) = fst (row_key (last ?due))" "fst (row_key (hd rows)) = fst (row_key (hd ?due))"
      using 3(4) ne by (metis comp_apply last_map, metis comp_apply hd_map)
    have "sorted (map row_key ?due)" by (simp add: due_records_def take_map [symmetric] sorted_wrt_take)
    then have "row_key (hd ?due) \<le> row_key r" using due(1) by (cases ?due) auto
    then have lo: "fst (row_key (hd ?due)) \<le> d" using d(1) by (auto simp: less_eq_prod_def row_key_def)
    have hi: "d \<le> fst (row_key (last ?due))" using due_records_last [OF due(1)] d(1) by (simp add: row_key_def)
    have "\<not> (pc_start c \<le> d \<and> d \<le> pc_cutoff c)" if "c \<in> set (j_cursors st)" "now < pc_expires c" for c
      using 3(1) that lo hi by (force simp: leases_over_def Let_def key filter_empty_conv)
    then show ?thesis
      using due(2) d(1) dl 3(2) st' hi key(1)
      by (auto simp: due_record_def draining_def retention_deadline_of_def COORDINATOR_RETENTION_DAYS_def)
  qed (use assms in auto)
qed

end
