(* ===== verification/AnswerSamples.thy ===== *)
theory AnswerSamples
  imports JournalAnswers
begin

text \<open>
  Witnesses of the journal's answers, on the run of \<open>JournalSamples\<close> and on a bucket that holds
  one V1 record.
\<close>

section \<open>Answers along the sample run\<close>

lemma sample_finalized: "finalize zero_digest 5 (sample_finalize ''t'') reserved_journal = (Finalized sample_record ZERO_HASH, finalized_journal)"
proof -
  have t: "iso_text 5 = Inr (toISOString 5)" by (simp add: iso_text_def time_in_range_def)
  have h: "hashManifestFinalizeIntent zero_digest (sample_finalize ''t'') = Inr ZERO_HASH"
    by (rule sample_finalize_hash) simp
  have r: "rv_tx decided_row = ''t''" "rv_state decided_row = FINALIZED" "rv_intent_hash decided_row = Some ZERO_HASH"
    "rv_decided decided_row = Some 5" "rv_sequence decided_row = Some 1" "rv_record_hash decided_row = None"
    "rv_updated decided_row = 5" "rv_quarantine decided_row = NoQuarantine"
    by (simp_all add: decided_row_def sample_row_def new_row_def sample_tx)
  have "fst (finalize zero_digest 5 (sample_finalize ''t'') reserved_journal) = Finalized sample_record ZERO_HASH"
    by (simp add: finalize_def h sample_assign t sample_built finalize_persist_def finalize_answer_def
        ensureAlarmAtOrBefore_def alarm_frame tbl_get_def r sample_tx put_row_def Let_def del: replicate.simps)
  then show ?thesis by (simp add: finalized_journal_def prod_eq_iff)
qed

lemma sample_decided: "jget sample_record ''commit_decided_at_ms'' = jint 5"
  using finalized_row [OF finalized_reachable, of recorded_row]
  by (simp add: finalized_parts(1) row_ok_def record_ok_def recorded_fields)

lemma sealed_deleted: "bk_deleted_through (j_bucket (fst (sealed_journal, {#}))) < 5"
  by (simp add: sealed_parts(3) opened_parts(3) finalized_bucket empty_bucket_def)

lemma reserved_reachable: "reachable zero_digest (reserved_journal, {#})"
proof -
  have "distinct (jkeys (sample_reservation ''t''))"
    by (simp add: sample_reservation_def reservation_keys RESERVATION_KEYS_def ROUTE_KEYS_def)
  then show ?thesis
    using served_reachable [of "[(0, sample_reserve)]" zero_digest]
    by (simp add: sample_reserve_def reserved_journal_def del: serve.simps)
qed

theorem finalize_answer_permanent_witness:
  "finalize zero_digest 9000 (sample_finalize ''t'') sealed_journal = (AlreadyFinalized sample_record ZERO_HASH, sealed_journal)"
  using finalize_answer_permanent [OF reserved_reachable sample_finalized sealed_run sample_decided disjI1 [OF sealed_deleted]]
  by (simp add: sealed_parts(1) tbl_get_def recorded_fields sample_tx)

theorem finalized_never_cancelled_witness:
  "\<not> cancel_ok (fst (cancel zero_digest 9000 (JObj [(''protocol_version'', jint 1), (''format_version'', jint 1),
      (''tx_id'', JStr ''t''), (''reservation_hash'', JStr ZERO_HASH), (''operation_hash'', JStr (replicate 64 (CHR ''a''))),
      (''decision_epoch'', jint 1), (''idempotency_key'', JStr ''k'')]) sealed_journal))"
proof -
  have "row_of ''t'' (fst (finalized_journal, {#} :: task multiset)) = Some recorded_row" "rv_decided recorded_row = Some 5"
    by (simp_all add: finalized_parts(1) tbl_get_def recorded_fields)
  from finalized_never_cancelled [OF finalized_reachable this sealed_run disjI1 [OF sealed_deleted]] show ?thesis
    by (simp del: replicate.simps)
qed

theorem finalize_succeeds_witness:
  "\<exists>v h. fst (finalize zero_digest 7 (sample_finalize ''t'') reserved_journal) = Finalized v h
     \<and> jget v ''commit_decided_at_ms'' = jint 7 \<and> jget v ''decision_sequence'' = jint 1"
proof -
  have h: "hashManifestFinalizeIntent zero_digest (sample_finalize ''t'') = Inr ZERO_HASH"
    by (rule sample_finalize_hash) simp
  have b: "j_bucket reserved_journal = empty_bucket\<lparr>bk_legacy_closed := True, bk_certificate := Some ZERO_HASH,
     bk_certificate_json := Some (certificate_json [] ZERO_HASH), bk_legacy_max := Some (-1),
     bk_config := Some (replicate 64 (CHR ''b''))\<rparr>"
    by (simp add: reserved_parts(5) certified_journal_def)
  have r: "row_of (str_of (jget (sample_finalize ''t'') ''tx_id'')) reserved_journal = Some sample_row"
    by (simp add: sample_tx reserved_parts(1) tbl_get_def sample_row_def new_row_def)
  have f: "rv_state sample_row = RESERVED" "rv_quarantine sample_row \<noteq> UNRESOLVED"
    "jget (sample_finalize ''t'') ''reservation_hash'' = JStr (rv_hash sample_row)"
    "jget (sample_finalize ''t'') ''operation_hash'' = jget (rv_json sample_row) ''operation_hash''"
    "jget (sample_finalize ''t'') ''decision_epoch'' = jget (rv_json sample_row) ''decision_epoch''"
    by (simp_all add: sample_row_def new_row_def sample_finalize_def sample_reservation_def reservation_fields del: replicate.simps)
  have n: "(7::int) = max 7 (max (bk_last_assigned (j_bucket reserved_journal) + 1) (bk_floor (j_bucket reserved_journal) + 1))"
    "time_in_range (retention_deadline_of 7)" "bk_next_sequence (j_bucket reserved_journal) \<le> max_safe_integer"
    by (simp_all add: b empty_bucket_def retention_deadline_of_def COORDINATOR_RETENTION_DAYS_def DAY_MS_def time_in_range_def
        max_safe_integer_def)
  have s: "bk_next_sequence (j_bucket reserved_journal) = 1" by (simp add: b empty_bucket_def)
  show ?thesis
    using finalize_succeeds [OF reserved_reachable zero_digest_ok h r f n] unfolding s by blast
qed

section \<open>A contradiction\<close>

definition one_digest :: digest_fn where "one_digest bs = replicate 32 1"

theorem contradiction_quarantined_witness:
  "\<exists>ih. hashManifestFinalizeIntent one_digest (sample_finalize ''t'') = Inr ih
     \<and> fst (finalize one_digest 9 (sample_finalize ''t'') finalized_journal) = FinalizeRefused ''conflict'' 409 MANIFEST_TERMINAL_CONFLICT
     \<and> (\<exists>row'. row_of ''t'' (snd (finalize one_digest 9 (sample_finalize ''t'') finalized_journal)) = Some row'
          \<and> rv_quarantine row' = UNRESOLVED \<and> rv_conflict_root row' = ih)"
proof -
  have x: "concat (map byte_hex (replicate 32 1)) \<noteq> ZERO_HASH" by code_simp
  have "hashManifestFinalizeIntent zero_digest (sample_finalize ''t'') = Inr ZERO_HASH"
    by (rule sample_finalize_hash) simp
  then have "validateManifestFinalizeIntent (sample_finalize ''t'') = Inr ()"
    by (auto simp: hashManifestFinalizeIntent_def and_then_ok)
  moreover have "wf_json (sample_finalize ''t'')" by (simp add: sample_finalize_def del: replicate.simps)
  ultimately have h: "hashManifestFinalizeIntent one_digest (sample_finalize ''t'') = Inr (concat (map byte_hex (replicate 32 1)))"
    by (simp add: hashManifestFinalizeIntent_def hashCanonicalJson_def canonical_wf(1) sha256Hex_def sha256Bytes_def
        one_digest_def del: replicate.simps)
  have r: "row_of (str_of (jget (sample_finalize ''t'') ''tx_id'')) finalized_journal = Some recorded_row"
    by (simp add: sample_tx finalized_parts(1) tbl_get_def recorded_fields)
  have f: "jget (sample_finalize ''t'') ''reservation_hash'' = JStr (rv_hash recorded_row)"
    "rv_intent_hash recorded_row = Some ZERO_HASH" "rv_quarantine recorded_row \<noteq> UNRESOLVED"
    by (simp_all add: sample_finalize_def recorded_fields) (simp add: recorded_row_def decided_row_def)
  show ?thesis
    using contradiction_quarantined [OF h r f(1,2) x [symmetric] f(3), of 9] h by (auto simp: sample_tx)
qed

section \<open>A bucket with a V1 record\<close>

definition v1_registration :: jval where
  "v1_registration = projr (createManifestRegistration zero_digest sample_envelope)"

definition v1_journal :: journal where
  "v1_journal = serve zero_digest 0 (Register v1_registration) empty_journal"

definition v1_seal :: jval where
  "v1_seal = JObj
     [(''protocol_version'', jint 1), (''format_version'', jint 1),
      (''fleet_id'', JStr ''f''), (''reservation_utc_day'', JStr ''2026-08-05''), (''partition'', jint 0),
      (''partition_count'', jint 16), (''routing_key'', JStr ''2026-08-05:00''),
      (''partition_config_hash'', JStr (replicate 64 (CHR ''b''))), (''cutoff'', JStr ''2026-08-06T00:00:00.000Z''),
      (''idempotency_key'', JStr ''k'')]"

lemma v1_created:
  "\<exists>record h. createManifestRegistration zero_digest sample_envelope
      = Inr (JObj [(''record'', record), (''record_hash'', JStr h)])
     \<and> jget record ''protocol_version'' = jint 1 \<and> jget record ''format_version'' = jint 1
     \<and> jget record ''commit_decided_at'' = JStr ''2026-08-05T00:00:00.000Z''
     \<and> jget record ''retention_deadline'' = JStr ''2026-09-09T00:00:00.000Z''
     \<and> is_plain record \<and> v1_metadata record = metadata_of v1_seal"
proof -
  obtain reg where reg: "createManifestRegistration zero_digest sample_envelope = Inr reg"
    using created_when_valid [OF sample_envelope_ok] by blast
  have env: "jget sample_envelope ''tx_id'' = JStr ''tx''" "jget sample_envelope ''fleet_id'' = JStr ''f''"
    "jget sample_envelope ''commit_decided_at'' = JStr ''2026-08-05T00:00:00.000Z''"
    "jget sample_envelope ''retention_deadline'' = JStr ''2026-09-09T00:00:00.000Z''"
    by (simp_all add: sample_envelope_def)
  obtain route eh rh where route: "manifestRoute zero_digest (JStr ''tx'') (JStr ''2026-08-05T00:00:00.000Z'') = Inr route"
    and r: "reg = JObj [(''record'', manifest_record_json sample_envelope route eh), (''record_hash'', JStr rh)]"
    using reg by (auto simp: createManifestRegistration_def and_then_ok Let_def env)
  have day: "utc_day 1785888000000 = ''2026-08-05''" by code_simp
  have t: "parseCanonicalUtcTimestamp (JStr ''2026-08-05T00:00:00.000Z'') = Inr 1785888000000" by code_simp
  have p: "digest_partition zero_digest ''tx'' = 0" by code_simp
  have tw: "two 0 = ''00''" by code_simp
  have "route = \<lparr>mr_utc_day = ''2026-08-05'', mr_partition = 0, mr_partition_count = 16, mr_routing_key = ''2026-08-05:00''\<rparr>"
    using route by (simp add: manifestRoute_def t p tw day and_then_ok Let_def MANIFEST_PARTITION_COUNT_def)
  then show ?thesis
    unfolding reg r
    by (intro exI [where x = "manifest_record_json sample_envelope route eh"] exI [where x = rh])
       (simp add: manifest_record_json_def env v1_metadata_def metadata_of_def v1_seal_def
        CURRENT_PROTOCOL_VERSION_def MANIFEST_RECORD_FORMAT_VERSION_def jget.simps)
qed

definition v1_record :: jval where
  "v1_record = jget v1_registration ''record''"

lemma v1_record_facts:
  "jget v1_record ''protocol_version'' = jint 1" "jget v1_record ''format_version'' = jint 1"
  "jget v1_record ''commit_decided_at'' = JStr ''2026-08-05T00:00:00.000Z''"
  "jget v1_record ''retention_deadline'' = JStr ''2026-09-09T00:00:00.000Z''"
  "is_plain v1_record" "v1_metadata v1_record = metadata_of v1_seal" "is_plain v1_registration"
  using v1_created by (auto simp: v1_record_def v1_registration_def jget.simps)

definition sample_v1_row :: v1_row where
  "sample_v1_row = \<lparr>vr_tx = str_of (jget v1_record ''tx_id''), vr_hash = str_of (jget v1_registration ''record_hash''),
     vr_record = v1_record, vr_deadline = 1788912000000, vr_released = False, vr_quarantined = False\<rparr>"

lemma v1_parts:
  "j_v1 v1_journal = [sample_v1_row]" "j_bucket v1_journal = empty_bucket"
  "j_meta v1_journal = Some (metadata_of v1_seal)"
proof -
  have "createManifestRegistration zero_digest sample_envelope = Inr v1_registration"
    using v1_created by (auto simp: v1_registration_def)
  then have "validateManifestRegistration zero_digest v1_registration (Some sample_envelope) = Inr ()"
    using created_validates [OF zero_digest_ok] by blast
  then have "validateManifestRegistration zero_digest v1_registration None = Inr ()"
    by (simp add: validateManifestRegistration_def)
  then have v: "validatedManifestRegistration zero_digest v1_registration = Inr v1_registration"
    by (simp add: validatedManifestRegistration_def v1_record_facts flip: v1_record_def)
  have d: "parse_iso ''2026-09-09T00:00:00.000Z'' = Some 1788912000000" by code_simp
  have j: "v1_journal = snd (register_tx v1_record (str_of (jget v1_registration ''record_hash'')) 1788912000000 0
      (ensureAlarmAtOrBefore 1788912000000 empty_journal))"
    by (simp add: v1_journal_def register_def v v1_record_facts d flip: v1_record_def)
  show "j_v1 v1_journal = [sample_v1_row]" "j_bucket v1_journal = empty_bucket"
    "j_meta v1_journal = Some (metadata_of v1_seal)"
    by (simp_all add: j register_tx_def Let_def ensureAlarmAtOrBefore_def alarm_frame empty_journal_def tbl_get_def
        empty_bucket_def sample_v1_row_def v1_record_facts)
qed

lemmas v1_ledger = v1_parts(1) and v1_bucket = v1_parts(2)

lemma v1_row_facts:
  "v1_time sample_v1_row = Some 1785888000000" "jget (vr_record sample_v1_row) ''protocol_version'' = jint 1"
  "wf_json (jget (vr_record sample_v1_row) ''commit_decided_at'')"
proof -
  have "parse_iso ''2026-08-05T00:00:00.000Z'' = Some 1785888000000" by code_simp
  then show "v1_time sample_v1_row = Some 1785888000000" by (simp add: v1_time_def sample_v1_row_def v1_record_facts)
qed (simp_all add: sample_v1_row_def v1_record_facts)

lemma v1_seal_ok: "validateManifestSealRequest v1_seal = Inr ()"
proof -
  have day: "assertUtcDay (JStr ''2026-08-05'') = Inr ()" by code_simp
  have cut: "checkManifestTimestamp (JStr ''2026-08-06T00:00:00.000Z'') = Inr ()" by code_simp
  have key: "routing_key_of ''2026-08-05'' 0 = ''2026-08-05:00''" by code_simp
  have k: "jkeys v1_seal = [''protocol_version'', ''format_version'', ''fleet_id''] @ ROUTE_KEYS
        @ [''cutoff'', ''idempotency_key'']" by (simp add: v1_seal_def ROUTE_KEYS_def)
  have r: "validateManifestRouteFields v1_seal = Inr ()"
    unfolding validateManifestRouteFields_def seq_checks_Cons
    using sample_hex(2) by (simp add: v1_seal_def day key manifest_asserts MANIFEST_PARTITION_COUNT_def max_safe_integer_def
        del: replicate.simps)
  show ?thesis
    unfolding validateManifestSealRequest_def seq_checks_Cons r exact_keys_same [OF k]
    by (simp add: v1_seal_def cut manifest_asserts assertPlainObject_def CURRENT_PROTOCOL_VERSION_def
        MANIFEST_SEAL_FORMAT_VERSION_def)
qed

lemma v1_initialized:
  "\<exists>st. initializeForSeal zero_digest v1_seal (jint 0) (jint 1785888000001) v1_journal = (Inr (Initialized ZERO_HASH 0), st)
     \<and> j_v1 st = [sample_v1_row]"
proof -
  define st1 where "st1 = snd (legacy_fence v1_journal)"
  have rows: "fst (legacy_fence v1_journal) = [sample_v1_row]" by (simp add: legacy_fence_def v1_ledger v1_row_facts)
  have c: "certify_rows zero_digest [sample_v1_row] = Inr \<lparr>ce_hash = ZERO_HASH,
      ce_json = certificate_json [sample_v1_row] ZERO_HASH, ce_maximum = 1785888000000\<rparr>"
    by (simp add: certify_rows_def zero_hash legacy_row_json_def v1_row_facts certificate_json_def legacy_maximum_def
        max_safe_integer_def)
  obtain st2 where e: "ensureLegacyCertificate zero_digest v1_journal = (Inr ZERO_HASH, st2)"
    and st2: "j_meta st2 = j_meta v1_journal" "bk_legacy_max (j_bucket st2) = Some 1785888000000"
      "bk_config (j_bucket st2) = None" "bk_floor (j_bucket st2) = 0" "j_v1 st2 = [sample_v1_row]"
    using rows c
    by (simp add: ensureLegacyCertificate_def certificate_done_def v1_bucket empty_bucket_def legacy_fence_def
        store_certificate_def set_bucket_def v1_ledger)
  note m = v1_parts(3)
  have i: "\<exists>st3. initialize_tx v1_seal 0 st2 = (Inr 0, st3) \<and> j_v1 st3 = [sample_v1_row]"
    by (simp add: initialize_tx_def bucket_identity_ok_def st2 m adopt_identity_def config_ok_def pin_bucket_def set_bucket_def)
  show ?thesis
    using i by (auto simp: initializeForSeal_def v1_seal_ok e st2 max_safe_integer_def)
qed

theorem legacy_window_proven_witness:
  "\<exists>st c. initializeForSeal zero_digest v1_seal (jint 0) (jint 1785888000001) v1_journal = (Inr (Initialized ZERO_HASH 0), st)
     \<and> j_v1 st = [sample_v1_row] \<and> bk_certificate_json (j_bucket st) = Some c
     \<and> jget c ''maximum_commit_decided_at_ms'' = jint 1785888000000"
proof -
  obtain st where i: "initializeForSeal zero_digest v1_seal (jint 0) (jint 1785888000001) v1_journal = (Inr (Initialized ZERO_HASH 0), st)"
    and l: "j_v1 st = [sample_v1_row]"
    using v1_initialized by blast
  have r: "reachable zero_digest (v1_journal, {#})"
    using served_reachable [of "[(0, Register v1_registration)]" zero_digest] by (simp add: v1_journal_def del: serve.simps)
  obtain c m where c: "bk_certificate_json (j_bucket st) = Some c" "jget c ''maximum_commit_decided_at_ms'' = jint m"
    "m < int_of (jint 1785888000001)" "1785888000000 \<le> m"
    using legacy_window_proven [OF r i rtranclp.rtrancl_refl] v1_row_facts(1,2) unfolding fst_conv l by auto
  then have "m = 1785888000000" by simp
  then show ?thesis using i l c(1,2) by blast
qed

section \<open>Retention\<close>

definition released_row :: reservation_row where
  "released_row = recorded_row\<lparr>rv_released := True, rv_updated := 3000\<rparr>"

definition released_journal :: journal where
  "released_journal = snd (releaseV2_tx ''t'' ZERO_HASH ZERO_HASH 3000 sealed_journal)"

definition past_retention :: int where "past_retention = 36 * DAY_MS"

lemma sample_cursors: "j_cursors sealed_journal = []"
proof -
  have c: "j_cursors certified_journal = []" by (simp add: certified_journal_def empty_journal_def)
  have r: "j_cursors reserved_journal = []"
    by (simp add: reserved_journal_def sample_reserve_def reserve_def sample_admitted sample_certificate_run
        sample_reserve_tx ensureAlarmAtOrBefore_def alarm_frame c del: replicate.simps)
  have t: "iso_text 5 = Inr (toISOString 5)" by (simp add: iso_text_def time_in_range_def)
  have h: "hashManifestFinalizeIntent zero_digest (sample_finalize ''t'') = Inr ZERO_HASH"
    by (rule sample_finalize_hash) simp
  have d: "rv_tx decided_row = ''t''" by (simp add: decided_row_def sample_row_def new_row_def sample_tx)
  have f: "j_cursors finalized_journal = []"
    by (auto simp: finalized_journal_def finalize_def h sample_assign t sample_built finalize_persist_def r
        ensureAlarmAtOrBefore_def alarm_frame tbl_get_def d sample_tx put_row_def Let_def)
  have "names_bucket sample_seal finalized_journal
      \<and> map_option JStr (bk_config (j_bucket finalized_journal)) = Some (jget sample_seal ''partition_config_hash'')"
    by (simp add: names_bucket_def finalized_parts(4) finalized_bucket empty_bucket_def metadata_of_def sample_seal_def
        sample_reservation_def reservation_fields del: replicate.simps)
  then have o: "j_cursors opened_journal = []"
    by (simp add: opened_journal_def close_start_def finalized_parts(2) tbl_get_def open_seal_def latest_seal_def
        earliest_seal_def Let_def set_bucket_def put_seal_def f)
  show ?thesis
    by (simp add: sealed_journal_def seal_publish_def digested_parts tbl_get_def digested_fields sample_members
        recorded_fields sample_final_def opened_parts(3) finalized_bucket empty_bucket_def Let_def put_seal_def
        set_bucket_def digested_journal_def o del: replicate.simps)
qed

lemma recorded_deadline: "rv_deadline recorded_row = Some (retention_deadline_of 5)"
  by (simp add: recorded_row_def)

lemma released_parts:
  "j_rows released_journal = [released_row]" "j_seals released_journal = [sealed_row]" "j_cursors released_journal = []"
  by (simp_all add: released_journal_def releaseV2_tx_def sealed_parts tbl_get_def recorded_fields recorded_deadline
      put_row_def released_row_def sample_cursors)

lemma sample_due: "due_records past_retention 128 released_journal = [released_row]"
  by (simp add: due_records_def due_record_def released_parts released_row_def recorded_fields recorded_deadline
      past_retention_def retention_deadline_of_def COORDINATOR_RETENTION_DAYS_def DAY_MS_def)

theorem retention_deletes_only_due_witness:
  "released_row \<notin> set (j_rows (snd (retention_delete past_retention 128 [released_row] ZERO_HASH released_journal)))
   \<and> rv_released released_row \<and> (5::int) + 35 * DAY_MS \<le> past_retention"
proof -
  let ?st = "snd (retention_delete past_retention 128 [released_row] ZERO_HASH released_journal)"
  have hex: "sha256_text ZERO_HASH" by (rule sample_hex)
  have run: "reachable zero_digest (released_journal, {#})"
    using rtranclp.rtrancl_into_rtrancl [OF sealed_reachable releasedV2 [OF hex hex, where tx = "''t''" and now = 3000]]
    by (simp add: released_journal_def)
  have key: "fst (row_key released_row) = 5" by (simp add: released_row_def row_key_def recorded_fields)
  have tx: "rv_tx released_row = ''t''" by (simp add: released_row_def recorded_fields)
  have st: "retention_delete past_retention 128 [released_row] ZERO_HASH released_journal = ((1, False), ?st)"
    "j_rows ?st = []"
    by (simp_all add: retention_delete_def leases_over_def released_parts draining_def sealed_seal sample_due tx
        set_bucket_def Let_def)
  have gone: "released_row \<in> set (j_rows released_journal)" "released_row \<notin> set (j_rows ?st)"
    by (simp_all add: released_parts st(2))
  have d: "rv_decided released_row = Some 5" by (simp add: released_row_def recorded_fields)
  show ?thesis using retention_deletes_only_due [OF run st(1) gone] gone(2) d by auto
qed

end
