(* ===== verification/Routing.thy ===== *)
theory Routing
  imports JsValue "HOL-Library.Word"
begin

text \<open>
  Hashing and routing (\<open>src/hash.ts\<close>) and the admin-token gate (\<open>src/auth.ts\<close>): the 32-bit
  FNV-1a hash that places index entries on a pinned ring, the substitute of a drained ring
  member, and the constant-time comparison behind every admin route. Strings are lists of code
  units, so JavaScript's \<open><\<close> on strings is the lexicographic order of the list.
\<close>

unbundle bit_operations_syntax

section \<open>The hash\<close>

text \<open>One round: \<open>h ^= charCodeAt(i)\<close>, then \<open>Math.imul(h, 0x01000193)\<close>.\<close>

definition hash_round :: "32 word \<Rightarrow> char \<Rightarrow> 32 word" where
  "hash_round h c = (h XOR of_nat (of_char c)) * 0x01000193"

definition hashKey :: "string \<Rightarrow> nat" where
  "hashKey input = unat (foldl hash_round 0x811c9dc5 input)"

text \<open>\<open>ring[hashKey(composite) % ring.length]\<close>: \<open>undefined\<close> on an empty ring.\<close>

definition indexShardIdForKey :: "string \<Rightarrow> string \<Rightarrow> string \<Rightarrow> string list \<Rightarrow> string option" where
  "indexShardIdForKey table indexName indexKeyJson ring =
     (let composite = table @ '':'' @ indexName @ '':'' @ indexKeyJson
      in if ring = [] then None else Some (ring ! (hashKey composite mod length ring)))"

text \<open>The loop of \<open>pickRingSubstitute\<close>: \<open>best\<close> and \<open>bestHash\<close>, where no best means infinity.\<close>

fun pick_round :: "string \<Rightarrow> (string \<times> nat) option \<Rightarrow> string \<Rightarrow> (string \<times> nat) option" where
  "pick_round indexName None shardId = Some (shardId, hashKey (indexName @ '':'' @ shardId))"
| "pick_round indexName (Some (best, bestHash)) shardId =
     (let h = hashKey (indexName @ '':'' @ shardId)
      in if h < bestHash \<or> (h = bestHash \<and> shardId < best) then Some (shardId, h)
         else Some (best, bestHash))"

definition pickRingSubstitute :: "string \<Rightarrow> string list \<Rightarrow> string option" where
  "pickRingSubstitute indexName candidates =
     map_option fst (foldl (pick_round indexName) None candidates)"

section \<open>The admin token\<close>

text \<open>\<open>aBytes[i] ?? 0\<close>.\<close>

definition byte_at :: "nat list \<Rightarrow> nat \<Rightarrow> nat" where
  "byte_at bs i = (if i < length bs then bs ! i else 0)"

definition timingSafeEqual :: "string \<Rightarrow> string \<Rightarrow> bool" where
  "timingSafeEqual a b =
     (let aBytes = utf8_bytes a; bBytes = utf8_bytes b;
          maxLen = max (length aBytes) (length bBytes);
          diff = (if length aBytes = length bBytes then 0 else 1 :: nat)
      in foldl (\<lambda>diff i. diff OR (byte_at aBytes i XOR byte_at bBytes i)) diff [0..<maxLen] = 0)"

definition isValidBearerToken :: "string option \<Rightarrow> string \<Rightarrow> bool" where
  "isValidBearerToken authorizationHeader expectedToken =
     (case authorizationHeader of None \<Rightarrow> False
      | Some h \<Rightarrow> h \<noteq> [] \<and> timingSafeEqual h (''Bearer '' @ expectedToken))"

text \<open>\<open>None\<close> lets the request through; otherwise the error text and the HTTP status.\<close>

definition checkAdminAuth :: "string option \<Rightarrow> string option \<Rightarrow> (string \<times> int) option" where
  "checkAdminAuth adminToken header =
     (case adminToken of None \<Rightarrow> Some (''ADMIN_TOKEN is not configured.'', 500)
      | Some token \<Rightarrow>
          if token = [] then Some (''ADMIN_TOKEN is not configured.'', 500)
          else if \<not> isValidBearerToken header token then Some (''Unauthorized.'', 401)
          else None)"

section \<open>The hash is FNV-1a\<close>

text \<open>The reference: FNV-1a with 32 bits, over the code units, in unbounded arithmetic.\<close>

definition fnv1a :: "nat list \<Rightarrow> nat" where
  "fnv1a units = foldl (\<lambda>h u. (h XOR u) * 16777619 mod 2 ^ 32) 2166136261 units"

lemma unat_unit: "unat (of_nat (of_char c) :: 32 word) = of_char c"
proof -
  have "(of_char c :: nat) < 256" by (rule nat_of_char_less_256)
  then have "(of_char c :: nat) < 4294967296" by linarith
  then show ?thesis by (simp add: unat_of_nat)
qed

lemma unat_hash_round:
  "unat (hash_round h c) = (unat h XOR of_char c) * 16777619 mod 2 ^ 32"
proof -
  have "unat (h XOR of_nat (of_char c)) = unat h XOR (of_char c :: nat)"
    by (simp only: unsigned_xor_eq unat_unit)
  then show ?thesis by (simp add: hash_round_def unat_word_ariths)
qed

lemma hash_fold:
  "unat (foldl hash_round h s) = foldl (\<lambda>h u. (h XOR u) * 16777619 mod 2 ^ 32) (unat h) (map of_char s)"
  by (induction s arbitrary: h) (simp_all add: unat_hash_round)

lemma hashKey_bound: "hashKey s < 2 ^ 32"
  unfolding hashKey_def using unsigned_less [of "foldl hash_round 0x811c9dc5 s"] by simp

section \<open>The substitute is the least candidate\<close>

abbreviation rank :: "string \<Rightarrow> string \<Rightarrow> nat \<times> string" where
  "rank indexName shardId \<equiv> (hashKey (indexName @ '':'' @ shardId), shardId)"

definition before :: "nat \<times> string \<Rightarrow> nat \<times> string \<Rightarrow> bool" where
  "before a b \<longleftrightarrow> fst a < fst b \<or> (fst a = fst b \<and> snd a \<le> snd b)"

lemma before_refl: "before a a"
  by (simp add: before_def)

lemma before_trans: "before a b \<Longrightarrow> before b c \<Longrightarrow> before a c"
  by (auto simp: before_def)

lemma before_antisym: "before a b \<Longrightarrow> before b a \<Longrightarrow> a = b"
  by (auto simp: before_def prod_eq_iff)

lemma before_total: "before a b \<or> before b a"
  by (auto simp: before_def not_less)

lemma pick_round_min:
  "\<exists>b'. pick_round i (Some (b, fst (rank i b))) c = Some (b', fst (rank i b')) \<and> (b' = b \<or> b' = c)
     \<and> before (rank i b') (rank i b) \<and> before (rank i b') (rank i c)"
  by (auto simp: before_def Let_def)

lemma pick_fold:
  "\<exists>b'. foldl (pick_round i) (Some (b, fst (rank i b))) cs = Some (b', fst (rank i b')) \<and> b' \<in> insert b (set cs)
     \<and> (\<forall>c \<in> insert b (set cs). before (rank i b') (rank i c))"
proof (induction cs arbitrary: b)
  case Nil
  then show ?case by (simp add: before_refl)
next
  case (Cons c cs)
  obtain b1 where b1: "pick_round i (Some (b, fst (rank i b))) c = Some (b1, fst (rank i b1))"
    "b1 = b \<or> b1 = c" "before (rank i b1) (rank i b)" "before (rank i b1) (rank i c)"
    using pick_round_min [of i b c] by blast
  obtain b2 where b2: "foldl (pick_round i) (Some (b1, fst (rank i b1))) cs = Some (b2, fst (rank i b2))"
    "b2 \<in> insert b1 (set cs)" "\<forall>c \<in> insert b1 (set cs). before (rank i b2) (rank i c)"
    using Cons.IH [of b1] by blast
  have "before (rank i b2) (rank i b)" "before (rank i b2) (rank i c)"
    using b2(3) b1(3,4) before_trans by blast+
  then show ?case using b1(1,2) b2 by (intro exI [where x = b2]) auto
qed

lemma pick_result:
  "pickRingSubstitute i [] = None"
  "\<exists>b. pickRingSubstitute i (c # cs) = Some b \<and> b \<in> set (c # cs) \<and> (\<forall>d \<in> set (c # cs). before (rank i b) (rank i d))"
proof -
  show "pickRingSubstitute i [] = None" by (simp add: pickRingSubstitute_def)
  obtain b where "foldl (pick_round i) (Some (c, fst (rank i c))) cs = Some (b, fst (rank i b))"
    "b \<in> insert c (set cs)" "\<forall>d \<in> insert c (set cs). before (rank i b) (rank i d)"
    using pick_fold [of i c cs] by blast
  then show "\<exists>b. pickRingSubstitute i (c # cs) = Some b \<and> b \<in> set (c # cs) \<and> (\<forall>d \<in> set (c # cs). before (rank i b) (rank i d))"
    by (auto simp: pickRingSubstitute_def)
qed

text \<open>
  Routing is deterministic. The hash is 32-bit FNV-1a over the code units; an index entry is
  always placed on a member of a non-empty ring; and the substitute of a drained member depends
  only on the set of candidates, whatever order they are listed in or how often: it is the one
  with the least hash of its name, ties broken by the name, and there is one unless the set is empty.
\<close>

theorem routing_deterministic:
  "hashKey input = fnv1a (map of_char input) \<and> hashKey input < 2 ^ 32
   \<and> (case indexShardIdForKey table index key ring of None \<Rightarrow> ring = [] | Some s \<Rightarrow> s \<in> set ring)
   \<and> (pickRingSubstitute index candidates = Some b \<longleftrightarrow>
        b \<in> set candidates \<and> (\<nexists>c. c \<in> set candidates \<and> \<not> before (rank index b) (rank index c)))"
proof (intro conjI)
  show "hashKey input = fnv1a (map of_char input)"
    by (simp add: hashKey_def fnv1a_def hash_fold)
  show "hashKey input < 2 ^ 32" by (rule hashKey_bound)
  show "case indexShardIdForKey table index key ring of None \<Rightarrow> ring = [] | Some s \<Rightarrow> s \<in> set ring"
    by (simp add: indexShardIdForKey_def Let_def)
  show "pickRingSubstitute index candidates = Some b \<longleftrightarrow>
        b \<in> set candidates \<and> (\<nexists>c. c \<in> set candidates \<and> \<not> before (rank index b) (rank index c))"
  proof (cases candidates)
    case Nil
    then show ?thesis by (simp add: pick_result)
  next
    case (Cons c cs)
    obtain b0 where b0: "pickRingSubstitute index candidates = Some b0" "b0 \<in> set candidates"
      "\<forall>d \<in> set candidates. before (rank index b0) (rank index d)"
      using pick_result(2) [of index c cs] unfolding Cons by blast
    show ?thesis
    proof
      assume "pickRingSubstitute index candidates = Some b"
      with b0 show "b \<in> set candidates \<and> (\<nexists>c. c \<in> set candidates \<and> \<not> before (rank index b) (rank index c))"
        by auto
    next
      assume b: "b \<in> set candidates \<and> (\<nexists>c. c \<in> set candidates \<and> \<not> before (rank index b) (rank index c))"
      then have "rank index b = rank index b0" using b0(2,3) before_antisym by blast
      then have "b = b0" by simp
      with b0(1) show "pickRingSubstitute index candidates = Some b" by simp
    qed
  qed
qed

section \<open>The comparison is equality\<close>

lemma or_zero_iff: "(x OR y = 0) \<longleftrightarrow> x = 0 \<and> y = (0::nat)"
  by (auto simp: or_eq_0_iff)

lemma xor_zero_iff: "(x XOR y = 0) \<longleftrightarrow> x = (y::nat)"
  by (metis bit.xor_self xor.assoc xor.left_neutral xor.right_neutral xor_self_eq)

lemma or_fold:
  "foldl (\<lambda>d i. d OR (f i XOR g i)) (d::nat) is = 0 \<longleftrightarrow> d = 0 \<and> list_all (\<lambda>i. f i = (g i :: nat)) is"
  by (induction "is" arbitrary: d) (auto simp: or_zero_iff xor_zero_iff)

lemma utf8_char_cases:
  obtains (one) n where "utf8_char c = [n]" "n < 128" "of_char c = n"
  | (two) a b where "utf8_char c = [a, b]" "192 \<le> a" "of_char c = (a - 192) * 64 + (b - 128)"
proof (cases "(of_char c :: nat) < 128")
  case True
  then show ?thesis using one by (simp add: utf8_char_def)
next
  case False
  define n where "n = (of_char c :: nat)"
  have "utf8_char c = [192 + n div 64, 128 + n mod 64]"
    using False by (simp add: utf8_char_def Let_def n_def del: One_nat_def)
  then show ?thesis
  proof (rule two)
    show "192 \<le> 192 + n div 64" by (rule le_add1)
    show "of_char c = (192 + n div 64 - 192) * 64 + (128 + n mod 64 - 128)"
      unfolding n_def [symmetric] add_diff_cancel_left' by (rule div_mult_mod_eq [symmetric])
  qed
qed

lemma utf8_bytes_inj: "utf8_bytes s = utf8_bytes t \<Longrightarrow> s = t"
proof (induction s arbitrary: t)
  case Nil
  have "utf8_char c \<noteq> []" for c by (cases c rule: utf8_char_cases) auto
  with Nil show ?case by (cases t) (auto simp: utf8_bytes_def)
next
  case (Cons c s)
  obtain d u where t: "t = d # u"
  proof (cases t)
    case Nil
    moreover have "utf8_char c \<noteq> []" by (cases c rule: utf8_char_cases) auto
    ultimately show ?thesis using Cons.prems by (auto simp: utf8_bytes_def)
  qed blast
  have e: "utf8_char c @ utf8_bytes s = utf8_char d @ utf8_bytes u"
    using Cons.prems by (simp add: t utf8_bytes_def)
  have "(of_char c :: nat) = of_char d \<and> utf8_bytes s = utf8_bytes u"
    using e by (cases c rule: utf8_char_cases; cases d rule: utf8_char_cases) auto
  then show ?case using Cons.IH [of u] by (simp add: t)
qed

lemma bytes_equal_iff:
  assumes "length xs = length ys"
  shows "list_all (\<lambda>i. byte_at xs i = byte_at ys i) [0..<length xs] \<longleftrightarrow> xs = ys"
proof -
  have "list_all (\<lambda>i. byte_at xs i = byte_at ys i) [0..<length xs] \<longleftrightarrow> (\<forall>i<length xs. xs ! i = ys ! i)"
    unfolding list_all_iff set_upt byte_at_def using assms by auto
  then show ?thesis using assms by (metis nth_equalityI)
qed

text \<open>
  C31: The constant-time comparison decides equality: folding the XOR of every byte position of
  the UTF-8 encodings over the longer of the two gives zero exactly for equal strings, so an
  admin request passes the gate exactly when a non-empty token is configured and the
  authorization header is that token behind the word Bearer; without a token it answers 500, and
  401 otherwise.
\<close>

theorem timing_safe_equal_exact:
  "(timingSafeEqual a b \<longleftrightarrow> a = b)
   \<and> checkAdminAuth token header =
       (if token = None \<or> token = Some [] then Some (''ADMIN_TOKEN is not configured.'', 500)
        else if header = Some (''Bearer '' @ the token) then None
        else Some (''Unauthorized.'', 401))"
proof -
  have eq: "timingSafeEqual a b \<longleftrightarrow> a = b" for a b
  proof (cases "length (utf8_bytes a) = length (utf8_bytes b)")
    case True
    have "timingSafeEqual a b \<longleftrightarrow> utf8_bytes a = utf8_bytes b"
      using bytes_equal_iff [OF True] by (simp add: timingSafeEqual_def Let_def or_fold True)
    then show ?thesis using utf8_bytes_inj by blast
  next
    case False
    then have "a \<noteq> b" by blast
    with False show ?thesis by (simp add: timingSafeEqual_def Let_def or_fold)
  qed
  then show ?thesis
    by (auto simp: checkAdminAuth_def isValidBearerToken_def split: option.splits)
qed

end
