(* ===== verification/StructuredOp.thy ===== *)
theory StructuredOp
  imports CanonJson
begin

text \<open>
  Structured mutations (\<open>src/structured-op.ts\<close>): their validation and their compilation to
  parameterised SQL, and the row key that coordinator and shards share. The JavaScript objects
  \<open>where\<close> and \<open>values\<close> are lists of named values in property order, without repeated names.
\<close>

section \<open>Data\<close>

definition UNSET_PARTITION_KEY_COLUMN :: string where
  "UNSET_PARTITION_KEY_COLUMN = ''__unset__''"

definition SYNTHETIC_INDEX_TABLE_PREFIX :: string where
  "SYNTHETIC_INDEX_TABLE_PREFIX = ''__cf_indexes:''"

text \<open>The regular expression \<open>^[A-Za-z_][A-Za-z0-9_]*$\<close>.\<close>

definition ident_start :: "char \<Rightarrow> bool" where
  "ident_start c \<longleftrightarrow>
     (let n = (of_char c :: nat) in (65 \<le> n \<and> n \<le> 90) \<or> (97 \<le> n \<and> n \<le> 122) \<or> c = CHR ''_'')"

definition IDENTIFIER_RE :: "string \<Rightarrow> bool" where
  "IDENTIFIER_RE s \<longleftrightarrow>
     (case s of [] \<Rightarrow> False | c # cs \<Rightarrow> ident_start c \<and> list_all (\<lambda>d. ident_start d \<or> is_digit d) cs)"

record structured_mutation =
  sm_op :: string
  sm_table :: string
  sm_tenantId :: string
  sm_partitionKey :: string
  sm_where :: "(string \<times> jval) list option"
  sm_values :: "(string \<times> jval) list option"
  sm_conflictColumns :: "string list option"

record validation_failure =
  vf_status :: int
  vf_code :: string

definition refuse :: "int \<Rightarrow> string \<Rightarrow> validation_failure + unit" where
  "refuse status code = Inl \<lparr>vf_status = status, vf_code = code\<rparr>"

section \<open>Row keys\<close>

text \<open>\<open>JSON.stringify\<close> of an array of three strings.\<close>

definition rowKey :: "string \<Rightarrow> string \<Rightarrow> string \<Rightarrow> string" where
  "rowKey tenantId table partitionKey =
     ''['' @ join_comma [json_quote tenantId, json_quote table, json_quote partitionKey] @ '']''"

definition indexNameFromSyntheticTable :: "string \<Rightarrow> string option" where
  "indexNameFromSyntheticTable table =
     (if take (length SYNTHETIC_INDEX_TABLE_PREFIX) table \<noteq> SYNTHETIC_INDEX_TABLE_PREFIX then None
      else Some (drop (length SYNTHETIC_INDEX_TABLE_PREFIX) table))"

definition participantKey :: "structured_mutation \<Rightarrow> string" where
  "participantKey m = rowKey (sm_tenantId m) (sm_table m) (sm_partitionKey m)"

section \<open>Validation\<close>

text \<open>\<open>Object.keys(o ?? {})\<close>.\<close>

definition fields_of :: "(string \<times> jval) list option \<Rightarrow> (string \<times> jval) list" where
  "fields_of o1 = (case o1 of None \<Rightarrow> [] | Some kvs \<Rightarrow> kvs)"

definition keys_of :: "(string \<times> jval) list option \<Rightarrow> string list" where
  "keys_of o1 = map fst (fields_of o1)"

text \<open>
  \<open>o?.[column]\<close>: an own property, or one an object literal inherits from
  \<open>Object.prototype\<close>, whose members are functions (\<open>__proto__\<close> is an object).
\<close>

definition OBJECT_PROTOTYPE :: "string list" where
  "OBJECT_PROTOTYPE = [''constructor'', ''__defineGetter__'', ''__defineSetter__'', ''hasOwnProperty'',
     ''__lookupGetter__'', ''__lookupSetter__'', ''isPrototypeOf'', ''propertyIsEnumerable'', ''toString'',
     ''valueOf'', ''__proto__'', ''toLocaleString'']"

definition read_property :: "(string \<times> jval) list option \<Rightarrow> string \<Rightarrow> jval" where
  "read_property o1 k =
     (case o1 of None \<Rightarrow> JUndef
      | Some kvs \<Rightarrow>
          if k \<in> set (map fst kvs) then assoc_get k kvs
          else if k \<in> set OBJECT_PROTOTYPE then JInst [] else JUndef)"

definition conflicts :: "jval \<Rightarrow> string \<Rightarrow> bool" where
  "conflicts v partitionKey \<longleftrightarrow> v \<noteq> JUndef \<and> v \<noteq> JStr partitionKey"

definition validateMutation :: "structured_mutation \<Rightarrow> string \<Rightarrow> validation_failure + unit" where
  "validateMutation m pk =
     (if pk = UNSET_PARTITION_KEY_COLUMN then refuse 409 ''PARTITION_KEY_COLUMN_UNSET''
      else if sm_table m = [] then refuse 400 ''MISSING_TABLE''
      else if sm_tenantId m = [] then refuse 400 ''MISSING_TENANT_ID''
      else if sm_partitionKey m = [] then refuse 400 ''MISSING_PARTITION_KEY''
      else if sm_op m \<notin> set [''insert'', ''update'', ''delete'', ''upsert''] then refuse 400 ''UNKNOWN_OP''
      else if \<not> list_all IDENTIFIER_RE (keys_of (sm_where m)) then refuse 400 ''UNSAFE_IDENTIFIER''
      else if \<not> list_all IDENTIFIER_RE (keys_of (sm_values m)) then refuse 400 ''UNSAFE_IDENTIFIER''
      else if \<not> list_all IDENTIFIER_RE (case sm_conflictColumns m of None \<Rightarrow> [] | Some cs \<Rightarrow> cs)
        then refuse 400 ''UNSAFE_IDENTIFIER''
      else if conflicts (read_property (sm_where m) pk) (sm_partitionKey m)
        then refuse 400 ''PARTITION_KEY_CONFLICT''
      else if conflicts (read_property (sm_values m) pk) (sm_partitionKey m)
        then refuse 400 ''PARTITION_KEY_CONFLICT''
      else if (sm_op m = ''insert'' \<or> sm_op m = ''upsert'') \<and> keys_of (sm_values m) = []
        then refuse 400 ''MISSING_VALUES''
      else if sm_op m = ''update'' \<and> filter (\<lambda>c. c \<noteq> pk) (keys_of (sm_values m)) = []
        then refuse 400 ''MISSING_VALUES''
      else Inr ())"

section \<open>Compilation\<close>

record compiled =
  cp_sql :: string
  cp_params :: "jval list"

text \<open>A double-quoted identifier, and \<open>join\<close> with a separator.\<close>

definition quoted :: "string \<Rightarrow> string" where
  "quoted c = [CHR 0x22] @ c @ [CHR 0x22]"

fun join :: "string \<Rightarrow> string list \<Rightarrow> string" where
  "join sep [] = []"
| "join sep [t] = t"
| "join sep (t # ts) = t @ sep @ join sep ts"

definition mutationWhereClause :: "structured_mutation \<Rightarrow> string \<Rightarrow> compiled" where
  "mutationWhereClause m pk =
     (let rest = filter (\<lambda>kv. fst kv \<noteq> pk) (fields_of (sm_where m))
      in \<lparr>cp_sql = join '' AND '' ((quoted pk @ '' = ?'') # map (\<lambda>kv. quoted (fst kv) @ '' = ?'') rest),
          cp_params = JStr (sm_partitionKey m) # map snd rest\<rparr>)"

text \<open>\<open>{ ...values, [pk]: partitionKey }\<close>: an existing property keeps its place.\<close>

definition forced_values :: "structured_mutation \<Rightarrow> string \<Rightarrow> (string \<times> jval) list" where
  "forced_values m pk =
     (let kvs = fields_of (sm_values m); forced = JStr (sm_partitionKey m)
      in if pk \<in> set (map fst kvs) then map (\<lambda>kv. if fst kv = pk then (pk, forced) else kv) kvs
         else kvs @ [(pk, forced)])"

definition insert_sql :: "string \<Rightarrow> string list \<Rightarrow> string" where
  "insert_sql table columns =
     ''INSERT INTO '' @ table @ '' ('' @ join '', '' (map quoted columns) @ '') VALUES (''
     @ join '', '' (map (\<lambda>_. ''?'') columns) @ '')''"

definition conflict_sql :: "string list \<Rightarrow> string list \<Rightarrow> string" where
  "conflict_sql conflictCols updateCols =
     '' ON CONFLICT ('' @ join '', '' (map quoted conflictCols) @ '') DO ''
     @ (if updateCols \<noteq> []
        then ''UPDATE SET '' @ join '', '' (map (\<lambda>c. quoted c @ '' = excluded.'' @ quoted c) updateCols)
        else ''NOTHING'')"

text \<open>\<open>Inl\<close> is the thrown error; an operation outside the switch falls through to \<open>undefined\<close>.\<close>

definition compileMutation :: "structured_mutation \<Rightarrow> string \<Rightarrow> string + compiled option" where
  "compileMutation m pk =
     (if \<not> IDENTIFIER_RE (sm_table m) then Inl (''Unsafe table identifier: '' @ sm_table m)
      else let table = quoted (sm_table m); values = forced_values m pk; columns = map fst values
        in if sm_op m = ''insert'' then
             Inr (Some \<lparr>cp_sql = insert_sql table columns, cp_params = map (\<lambda>c. assoc_get c values) columns\<rparr>)
           else if sm_op m = ''upsert'' then
             let conflictCols = (case sm_conflictColumns m of None \<Rightarrow> [pk] | Some cs \<Rightarrow> if cs = [] then [pk] else cs);
                 updateCols = filter (\<lambda>c. c \<notin> set conflictCols) columns
             in Inr (Some \<lparr>cp_sql = insert_sql table columns @ conflict_sql conflictCols updateCols,
                           cp_params = map (\<lambda>c. assoc_get c values) columns\<rparr>)
           else if sm_op m = ''update'' then
             let settable = filter (\<lambda>kv. fst kv \<noteq> pk) (fields_of (sm_values m)); whereC = mutationWhereClause m pk
             in Inr (Some \<lparr>cp_sql = ''UPDATE '' @ table @ '' SET ''
                             @ join '', '' (map (\<lambda>kv. quoted (fst kv) @ '' = ?'') settable) @ '' WHERE '' @ cp_sql whereC,
                           cp_params = map snd settable @ cp_params whereC\<rparr>)
           else if sm_op m = ''delete'' then
             let whereC = mutationWhereClause m pk
             in Inr (Some \<lparr>cp_sql = ''DELETE FROM '' @ table @ '' WHERE '' @ cp_sql whereC, cp_params = cp_params whereC\<rparr>)
           else Inr None)"

section \<open>Lemmas\<close>

lemma rowKey_canonical:
  "canonicalJson (JArr [JStr tenantId, JStr table, JStr partitionKey]) = Inr (rowKey tenantId table partitionKey)"
  by (simp add: rowKey_def)

lemma rowKey_inj:
  assumes "rowKey a b c = rowKey a' b' c'"
  shows "a = a' \<and> b = b' \<and> c = c'"
proof -
  let ?v = "JArr [JStr a, JStr b, JStr c]" and ?w = "JArr [JStr a', JStr b', JStr c']"
  have "canonicalJson ?v = canonicalJson ?w" unfolding rowKey_canonical assms ..
  then have "norm_json ?v = norm_json ?w" using canonicalJson_eq_iff [of ?v ?w] by simp
  then show ?thesis by simp
qed

section \<open>Placeholders\<close>

abbreviation marks :: "string \<Rightarrow> nat" where
  "marks s \<equiv> count_list s (CHR ''?'')"

lemma marks_join: "marks sep = 0 \<Longrightarrow> marks (join sep ts) = sum_list (map marks ts)"
  by (induction sep ts rule: join.induct) auto

lemma IDENTIFIER_marks: "IDENTIFIER_RE s \<Longrightarrow> marks s = 0"
proof -
  assume "IDENTIFIER_RE s"
  then have "list_all (\<lambda>c. c \<noteq> CHR ''?'') s"
    by (auto simp: IDENTIFIER_RE_def list_all_iff ident_start_def is_digit_def Let_def split: list.splits)
  then show ?thesis by (auto simp: list_all_iff count_list_0_iff)
qed

lemma quoted_marks: "marks (quoted c) = marks c"
  by (simp add: quoted_def)

lemma join_idents: "list_all IDENTIFIER_RE cs \<Longrightarrow> marks (join '', '' (map quoted cs)) = 0"
  by (induction cs) (auto simp: marks_join quoted_marks IDENTIFIER_marks)

lemma join_sets:
  assumes "list_all IDENTIFIER_RE (map fst kvs)" "marks sep = 0"
  shows "marks (join sep (map (\<lambda>kv. quoted (fst kv) @ '' = ?'') kvs)) = length kvs"
  using assms by (induction kvs) (auto simp: marks_join quoted_marks IDENTIFIER_marks)

lemma join_questions: "marks (join '', '' (map (\<lambda>_. ''?'') cs)) = length cs"
  by (induction cs) (auto simp: marks_join)

lemma insert_marks: "list_all IDENTIFIER_RE cs \<Longrightarrow> marks t = 0 \<Longrightarrow> marks (insert_sql t cs) = length cs"
  by (simp add: insert_sql_def join_idents join_questions)

lemma conflict_marks:
  assumes "list_all IDENTIFIER_RE cs" "list_all IDENTIFIER_RE us"
  shows "marks (conflict_sql cs us) = 0"
proof -
  have "marks (join '', '' (map (\<lambda>c. quoted c @ '' = excluded.'' @ quoted c) us)) = 0"
    using assms(2) by (induction us) (auto simp: marks_join quoted_marks IDENTIFIER_marks)
  then show ?thesis using assms(1) by (simp add: conflict_sql_def join_idents)
qed

lemma forced_keys:
  "map fst (forced_values m pk) = (if pk \<in> set (keys_of (sm_values m)) then keys_of (sm_values m) else keys_of (sm_values m) @ [pk])"
  by (auto simp: forced_values_def keys_of_def Let_def)

lemma where_marks:
  assumes "list_all IDENTIFIER_RE (keys_of (sm_where m))" "IDENTIFIER_RE pk"
  shows "marks (cp_sql (mutationWhereClause m pk)) = length (cp_params (mutationWhereClause m pk))"
proof -
  let ?r = "filter (\<lambda>kv. fst kv \<noteq> pk) (fields_of (sm_where m))"
  have r: "list_all IDENTIFIER_RE (map fst ?r)" using assms(1) by (auto simp: list_all_iff keys_of_def)
  have "sum_list (map marks (map (\<lambda>kv. quoted (fst kv) @ '' = ?'') ?r)) = length ?r"
    using join_sets [OF r, of "'' AND ''"] by (simp add: marks_join)
  then show ?thesis
    using assms(2) by (simp add: mutationWhereClause_def Let_def marks_join quoted_marks IDENTIFIER_marks)
qed

lemma validated:
  assumes "validateMutation m pk = Inr ()"
  shows "list_all IDENTIFIER_RE (keys_of (sm_where m))" "list_all IDENTIFIER_RE (keys_of (sm_values m))"
    "list_all IDENTIFIER_RE (case sm_conflictColumns m of None \<Rightarrow> [] | Some cs \<Rightarrow> cs)"
    "sm_op m \<in> set [''insert'', ''update'', ''delete'', ''upsert'']"
  using assms by (auto simp: validateMutation_def refuse_def split: if_splits)

definition same_shape :: "structured_mutation \<Rightarrow> structured_mutation \<Rightarrow> bool" where
  "same_shape m m' \<longleftrightarrow> sm_op m = sm_op m' \<and> sm_table m = sm_table m' \<and> keys_of (sm_where m) = keys_of (sm_where m')
     \<and> keys_of (sm_values m) = keys_of (sm_values m') \<and> sm_conflictColumns m = sm_conflictColumns m'"

definition sql_of :: "structured_mutation \<Rightarrow> string \<Rightarrow> string" where
  "sql_of m pk = (case compileMutation m pk of Inr (Some c) \<Rightarrow> cp_sql c | _ \<Rightarrow> [])"

definition params_of :: "structured_mutation \<Rightarrow> string \<Rightarrow> jval list" where
  "params_of m pk = (case compileMutation m pk of Inr (Some c) \<Rightarrow> cp_params c | _ \<Rightarrow> [])"

lemma filter_keys:
  "map (\<lambda>kv. quoted (fst kv) @ x) (filter (\<lambda>kv. fst kv \<noteq> pk) kvs) = map (\<lambda>k. quoted k @ x) (filter (\<lambda>k. k \<noteq> pk) (map fst kvs))"
  by (induction kvs) auto

lemma shape_sql:
  assumes "same_shape m m'"
  shows "sql_of m pk = sql_of m' pk"
proof -
  have k: "map fst (fields_of (sm_where m)) = map fst (fields_of (sm_where m'))"
    "map fst (fields_of (sm_values m)) = map fst (fields_of (sm_values m'))"
    "map fst (forced_values m pk) = map fst (forced_values m' pk)"
    using assms by (simp_all add: same_shape_def keys_of_def forced_keys)
  have w: "cp_sql (mutationWhereClause m pk) = cp_sql (mutationWhereClause m' pk)"
    by (simp add: mutationWhereClause_def Let_def filter_keys k(1))
  show ?thesis
    using assms k(3) by (simp add: sql_of_def compileMutation_def same_shape_def Let_def w filter_keys k(2))
qed

text \<open>
  Compiled SQL carries no data. A validated mutation over safe identifiers compiles, its
  statement has exactly one placeholder per parameter, and the text is the same for every
  mutation with the same operation, table and column names, whatever tenant, partition key and
  values the caller supplies.
\<close>

theorem compiled_text_carries_no_data:
  assumes "validateMutation m pk = Inr ()" "IDENTIFIER_RE (sm_table m)" "IDENTIFIER_RE pk"
  shows "compileMutation m pk = Inr (Some \<lparr>cp_sql = sql_of m pk, cp_params = params_of m pk\<rparr>)
    \<and> marks (sql_of m pk) = length (params_of m pk)
    \<and> (same_shape m m' \<longrightarrow> sql_of m' pk = sql_of m pk)"
proof (intro conjI impI)
  note v = validated [OF assms(1)]
  have t: "marks (quoted (sm_table m)) = 0" using assms(2) by (simp add: quoted_marks IDENTIFIER_marks)
  have cols: "list_all IDENTIFIER_RE (map fst (forced_values m pk))"
    using v(2) assms(3) by (simp add: forced_keys)
  have confl: "list_all IDENTIFIER_RE (case sm_conflictColumns m of None \<Rightarrow> [pk] | Some cs \<Rightarrow> if cs = [] then [pk] else cs)"
    using v(3) assms(3) by (simp split: option.splits)
  have upd: "list_all IDENTIFIER_RE (filter P (map fst (forced_values m pk)))" for P
    using cols by (auto simp: list_all_iff)
  have set: "list_all IDENTIFIER_RE (map fst (filter (\<lambda>kv. fst kv \<noteq> pk) (fields_of (sm_values m))))"
    using v(2) by (auto simp: list_all_iff keys_of_def)
  show c: "compileMutation m pk = Inr (Some \<lparr>cp_sql = sql_of m pk, cp_params = params_of m pk\<rparr>)"
    using v(4) assms(2) by (auto simp: compileMutation_def sql_of_def params_of_def Let_def)
  show "marks (sql_of m pk) = length (params_of m pk)"
    using v(4) assms(2)
    by (auto simp: compileMutation_def sql_of_def params_of_def Let_def insert_marks [OF cols t]
        conflict_marks [OF confl upd] t join_sets [OF set] where_marks [OF v(1) assms(3)])
  show "sql_of m' pk = sql_of m pk" if "same_shape m m'" using shape_sql [OF that] by simp
qed

section \<open>The partition key is pinned\<close>

lemma forced_split:
  assumes "distinct (keys_of (sm_values m))"
  shows "\<exists>pre post. forced_values m pk = pre @ (pk, JStr (sm_partitionKey m)) # post \<and> pk \<notin> set (map fst (pre @ post))"
proof (cases "pk \<in> set (keys_of (sm_values m))")
  case True
  then obtain v where "(pk, v) \<in> set (fields_of (sm_values m))" by (auto simp: keys_of_def)
  then obtain xs ys where f: "fields_of (sm_values m) = xs @ (pk, v) # ys" by (meson split_list)
  have d: "pk \<notin> set (map fst (xs @ ys))" using assms by (simp add: keys_of_def f)
  have "map (\<lambda>kv. if fst kv = pk then (pk, JStr (sm_partitionKey m)) else kv) zs = zs" if "pk \<notin> set (map fst zs)" for zs
    using that by (induction zs) auto
  then have "forced_values m pk = xs @ (pk, JStr (sm_partitionKey m)) # ys"
    using d by (simp add: forced_values_def Let_def f)
  with d show ?thesis by blast
next
  case False
  then have "forced_values m pk = fields_of (sm_values m) @ (pk, JStr (sm_partitionKey m)) # []"
    by (simp add: forced_values_def keys_of_def Let_def)
  with False show ?thesis by (metis append_Nil2 keys_of_def)
qed

lemma assoc_get_columns:
  "distinct (map fst kvs) \<Longrightarrow> map (\<lambda>c. assoc_get c kvs) (map fst kvs) = map snd kvs"
proof (induction kvs)
  case (Cons kv kvs)
  obtain k v where kv: "kv = (k, v)" by (cases kv)
  have "map (\<lambda>c. assoc_get c (kv # kvs)) (map fst kvs) = map (\<lambda>c. assoc_get c kvs) (map fst kvs)"
    using Cons.prems by (auto simp: kv)
  with Cons show ?case by (simp add: kv)
qed simp

lemma where_pinned:
  "\<exists>rest. cp_sql (mutationWhereClause m pk) = quoted pk @ '' = ?'' @ rest \<and> (rest = [] \<or> take 5 rest = '' AND '')
     \<and> (\<exists>qs. cp_params (mutationWhereClause m pk) = JStr (sm_partitionKey m) # qs)"
  by (cases "filter (\<lambda>kv. fst kv \<noteq> pk) (fields_of (sm_where m))")
     (simp_all add: mutationWhereClause_def Let_def)

definition inserts_row_of :: "structured_mutation \<Rightarrow> string \<Rightarrow> bool" where
  "inserts_row_of m pk \<longleftrightarrow>
     (\<exists>cs1 cs2 ps1 ps2. sql_of m pk = insert_sql (quoted (sm_table m)) (cs1 @ pk # cs2)
        \<and> params_of m pk = ps1 @ JStr (sm_partitionKey m) # ps2 \<and> length ps1 = length cs1
        \<and> pk \<notin> set (cs1 @ cs2))"

text \<open>
  What an upsert does when its row is already there: rows equal to the inserted one in the columns
  \<open>conflict_targets\<close> take the inserted values of the other columns. When the partition key is a target
  it is not assigned; otherwise it is.
\<close>

definition conflict_targets :: "structured_mutation \<Rightarrow> string \<Rightarrow> string list" where
  "conflict_targets m pk = (case sm_conflictColumns m of None \<Rightarrow> [pk] | Some cs \<Rightarrow> if cs = [] then [pk] else cs)"

definition upserts_row_of :: "structured_mutation \<Rightarrow> string \<Rightarrow> bool" where
  "upserts_row_of m pk \<longleftrightarrow>
     (\<exists>cs1 cs2 ps1 ps2 sets. sql_of m pk = insert_sql (quoted (sm_table m)) (cs1 @ pk # cs2)
            @ conflict_sql (conflict_targets m pk) sets
        \<and> params_of m pk = ps1 @ JStr (sm_partitionKey m) # ps2 \<and> length ps1 = length cs1
        \<and> pk \<notin> set (cs1 @ cs2) \<and> set sets = set (cs1 @ pk # cs2) - set (conflict_targets m pk)
        \<and> (pk \<in> set sets \<longleftrightarrow> pk \<notin> set (conflict_targets m pk)))"

definition filters_row_of :: "structured_mutation \<Rightarrow> string \<Rightarrow> bool" where
  "filters_row_of m pk \<longleftrightarrow>
     (\<exists>head sets ps qs rest. sql_of m pk = head @ join '', '' (map (\<lambda>c. quoted c @ '' = ?'') sets)
          @ '' WHERE '' @ quoted pk @ '' = ?'' @ rest
        \<and> head = (if sm_op m = ''update'' then ''UPDATE '' @ quoted (sm_table m) @ '' SET ''
                   else ''DELETE FROM '' @ quoted (sm_table m))
        \<and> pk \<notin> set sets \<and> params_of m pk = ps @ JStr (sm_partitionKey m) # qs \<and> length ps = length sets
        \<and> (rest = [] \<or> take 5 rest = '' AND ''))"

lemma forced_pinned:
  assumes "sm_op m = ''insert'' \<or> sm_op m = ''upsert''" "IDENTIFIER_RE (sm_table m)" "distinct (keys_of (sm_values m))"
  obtains cs1 cs2 ps1 ps2 where "map fst (forced_values m pk) = cs1 @ pk # cs2" "pk \<notin> set (cs1 @ cs2)"
    "params_of m pk = ps1 @ JStr (sm_partitionKey m) # ps2" "length ps1 = length cs1"
proof -
  obtain pre post where f: "forced_values m pk = pre @ (pk, JStr (sm_partitionKey m)) # post"
    "pk \<notin> set (map fst (pre @ post))"
    using forced_split [OF assms(3)] by blast
  have d: "distinct (map fst (forced_values m pk))" using assms(3) by (simp add: forced_keys)
  have par: "params_of m pk = map snd pre @ JStr (sm_partitionKey m) # map snd post"
    using assms(1,2) assoc_get_columns [OF d]
    by (auto simp: params_of_def compileMutation_def Let_def f(1))
  show ?thesis by (rule that [of "map fst pre" "map fst post"]) (use f par in auto)
qed

lemma insert_pinned:
  assumes "sm_op m = ''insert''" "IDENTIFIER_RE (sm_table m)" "distinct (keys_of (sm_values m))"
  shows "inserts_row_of m pk"
proof -
  obtain cs1 cs2 ps1 ps2 where f: "map fst (forced_values m pk) = cs1 @ pk # cs2" "pk \<notin> set (cs1 @ cs2)"
    "params_of m pk = ps1 @ JStr (sm_partitionKey m) # ps2" "length ps1 = length cs1"
    using forced_pinned [OF disjI1 [OF assms(1)] assms(2,3)] .
  have "sql_of m pk = insert_sql (quoted (sm_table m)) (cs1 @ pk # cs2)"
    using assms(1,2) f(1) by (simp add: sql_of_def compileMutation_def Let_def)
  then show ?thesis unfolding inserts_row_of_def using f(2-4) by blast
qed

lemma upsert_pinned:
  assumes "sm_op m = ''upsert''" "IDENTIFIER_RE (sm_table m)" "distinct (keys_of (sm_values m))"
  shows "upserts_row_of m pk"
proof -
  obtain cs1 cs2 ps1 ps2 where f: "map fst (forced_values m pk) = cs1 @ pk # cs2" "pk \<notin> set (cs1 @ cs2)"
    "params_of m pk = ps1 @ JStr (sm_partitionKey m) # ps2" "length ps1 = length cs1"
    using forced_pinned [OF disjI2 [OF assms(1)] assms(2,3)] .
  let ?sets = "filter (\<lambda>c. c \<notin> set (conflict_targets m pk)) (cs1 @ pk # cs2)"
  have "sql_of m pk = insert_sql (quoted (sm_table m)) (cs1 @ pk # cs2) @ conflict_sql (conflict_targets m pk) ?sets"
    using assms(1,2) f(1) by (simp add: sql_of_def compileMutation_def Let_def conflict_targets_def)
  moreover have "set ?sets = set (cs1 @ pk # cs2) - set (conflict_targets m pk)"
    "pk \<in> set ?sets \<longleftrightarrow> pk \<notin> set (conflict_targets m pk)" by auto
  ultimately show ?thesis unfolding upserts_row_of_def using f(2-4) by blast
qed

lemma filter_pinned:
  assumes "sm_op m = ''update'' \<or> sm_op m = ''delete''" "IDENTIFIER_RE (sm_table m)"
  shows "filters_row_of m pk"
proof -
  obtain rest qs where w: "cp_sql (mutationWhereClause m pk) = quoted pk @ '' = ?'' @ rest"
    "rest = [] \<or> take 5 rest = '' AND ''" "cp_params (mutationWhereClause m pk) = JStr (sm_partitionKey m) # qs"
    using where_pinned by blast
  let ?kvs = "if sm_op m = ''update'' then filter (\<lambda>kv. fst kv \<noteq> pk) (fields_of (sm_values m)) else []"
  have "sql_of m pk = (if sm_op m = ''update'' then ''UPDATE '' @ quoted (sm_table m) @ '' SET ''
        else ''DELETE FROM '' @ quoted (sm_table m)) @ join '', '' (map (\<lambda>c. quoted c @ '' = ?'') (map fst ?kvs))
        @ '' WHERE '' @ quoted pk @ '' = ?'' @ rest"
    using assms by (auto simp: sql_of_def compileMutation_def Let_def w(1) comp_def)
  moreover have "params_of m pk = map snd ?kvs @ JStr (sm_partitionKey m) # qs"
    using assms by (auto simp: params_of_def compileMutation_def Let_def w(3))
  moreover have "pk \<notin> set (map fst ?kvs)" by auto
  ultimately show ?thesis unfolding filters_row_of_def using w(2)
    by (intro exI [where x = "if sm_op m = ''update'' then ''UPDATE '' @ quoted (sm_table m) @ '' SET ''
        else ''DELETE FROM '' @ quoted (sm_table m)"] exI [where x = "map fst ?kvs"] exI [where x = "map snd ?kvs"]
        exI [where x = qs] exI [where x = rest]) (simp only: length_map refl simp_thms)
qed

text \<open>
  C30: Row ownership is structural, and where it is not. Whatever the caller supplies, a compiled
  insert lists the partition-key column exactly once and binds it to the declared partition key;
  a compiled update or delete filters on that column first, bound to the declared key, every
  other predicate being a further conjunct, and an update never sets it. An upsert inserts such a
  row, and on a conflict rewrites the row that equals it in the conflict columns: as long as the
  caller names no conflict columns, or names the partition key among them, that row has the
  declared key and keeps it. With other conflict columns it may be a row of another partition,
  which then takes the declared key.
\<close>

theorem partition_key_pinned:
  assumes "validateMutation m pk = Inr ()" "IDENTIFIER_RE (sm_table m)" "distinct (keys_of (sm_values m))"
  shows "(sm_op m = ''insert'' \<and> inserts_row_of m pk)
    \<or> (sm_op m = ''update'' \<or> sm_op m = ''delete'') \<and> filters_row_of m pk
    \<or> sm_op m = ''upsert'' \<and> upserts_row_of m pk"
proof -
  have "sm_op m \<in> set [''insert'', ''update'', ''delete'', ''upsert'']" by (rule validated(4) [OF assms(1)])
  then show ?thesis using insert_pinned [OF _ assms(2,3)] upsert_pinned [OF _ assms(2,3)] filter_pinned [OF _ assms(2)] by auto
qed

section \<open>Samples\<close>

definition sample_update :: structured_mutation where
  "sample_update = \<lparr>sm_op = ''update'', sm_table = ''stock'', sm_tenantId = ''acme'', sm_partitionKey = ''w1'',
     sm_where = Some [(''version'', jint 3)], sm_values = Some [(''qty'', jint 7), (''w_id'', JStr ''w1'')],
     sm_conflictColumns = None\<rparr>"

lemma sample_update_valid:
  "validateMutation sample_update ''w_id'' = Inr ()" "IDENTIFIER_RE (sm_table sample_update)" "IDENTIFIER_RE ''w_id''"
  by code_simp+

theorem compiled_text_carries_no_data_witness:
  "sql_of sample_update ''w_id'' = ''UPDATE '' @ quoted ''stock'' @ '' SET '' @ quoted ''qty'' @ '' = ? WHERE ''
     @ quoted ''w_id'' @ '' = ? AND '' @ quoted ''version'' @ '' = ?''
   \<and> sql_of (sample_update\<lparr>sm_tenantId := ''other'', sm_values := Some [(''qty'', JNull), (''w_id'', JUndef)]\<rparr>) ''w_id''
       = sql_of sample_update ''w_id''"
proof
  show "sql_of sample_update ''w_id'' = ''UPDATE '' @ quoted ''stock'' @ '' SET '' @ quoted ''qty'' @ '' = ? WHERE ''
     @ quoted ''w_id'' @ '' = ? AND '' @ quoted ''version'' @ '' = ?''" by code_simp
  have "same_shape sample_update (sample_update\<lparr>sm_tenantId := ''other'', sm_values := Some [(''qty'', JNull), (''w_id'', JUndef)]\<rparr>)"
    by (simp add: same_shape_def sample_update_def keys_of_def fields_of_def)
  then show "sql_of (sample_update\<lparr>sm_tenantId := ''other'', sm_values := Some [(''qty'', JNull), (''w_id'', JUndef)]\<rparr>) ''w_id''
      = sql_of sample_update ''w_id''"
    using compiled_text_carries_no_data [OF sample_update_valid] by blast
qed

theorem partition_key_pinned_witness: "filters_row_of sample_update ''w_id''"
  using partition_key_pinned [OF sample_update_valid(1,2)]
  by (simp add: sample_update_def keys_of_def fields_of_def)

text \<open>
  An upsert with a conflict column of its own is compiled to a statement that rewrites whatever row
  has the same e-mail address, and moves it to the caller's partition: the text has no condition on
  the partition key.
\<close>

definition stealing_upsert :: structured_mutation where
  "stealing_upsert = \<lparr>sm_op = ''upsert'', sm_table = ''users'', sm_tenantId = ''acme'', sm_partitionKey = ''u2'',
     sm_where = None, sm_values = Some [(''email'', JStr ''a'')], sm_conflictColumns = Some [''email'']\<rparr>"

theorem upsert_crosses_partitions:
  "validateMutation stealing_upsert ''id'' = Inr ()
   \<and> sql_of stealing_upsert ''id'' = insert_sql (quoted ''users'') [''email'', ''id''] @ '' ON CONFLICT ('' @ quoted ''email''
       @ '') DO UPDATE SET '' @ quoted ''id'' @ '' = excluded.'' @ quoted ''id''"
  by code_simp

text \<open>
  The partition-key check reads through the prototype: on a table whose partition-key column is
  called like a member of \<open>Object.prototype\<close>, every mutation with a \<open>where\<close> object
  that does not mention the column is refused as a conflict.
\<close>

theorem prototype_column_refused:
  "validateMutation (sample_update\<lparr>sm_where := Some [], sm_values := Some [(''qty'', jint 7)]\<rparr>) ''constructor''
     = refuse 400 ''PARTITION_KEY_CONFLICT''"
  by code_simp

end
