(* ===== verification/SqlSafety.thy ===== *)
theory SqlSafety
  imports StructuredOp "HOL-Library.Sublist"
begin

text \<open>
  Classification of SQL text (\<open>src/sql-safety.ts\<close>): the quote-aware comment stripper, the
  scanner over a leading common-table-expression clause, the classification of mutations and
  deletes, the write target and the guard on internal tables, the deny lists, and the two helpers
  on CREATE TABLE.

  A position in the text is the suffix that starts there, so a scanner returns what is left. Text
  is a list of code units below 256: the white space of \<open>\s\<close> and \<open>trim\<close> are the units 9 to
  13, 32 and 160; \<open>\w\<close> and \<open>\b\<close> are ASCII; \<open>toLowerCase\<close> also folds the capital letters
  of Latin-1.
\<close>

section \<open>Characters\<close>

definition is_ws :: "char \<Rightarrow> bool" where
  "is_ws c \<longleftrightarrow> (let n = (of_char c :: nat) in (9 \<le> n \<and> n \<le> 13) \<or> n = 32 \<or> n = 160)"

definition word_char :: "char \<Rightarrow> bool" where
  "word_char c \<longleftrightarrow> ident_start c \<or> is_digit c"

definition lower_char :: "char \<Rightarrow> char" where
  "lower_char c =
     (let n = (of_char c :: nat)
      in if (65 \<le> n \<and> n \<le> 90) \<or> (192 \<le> n \<and> n \<le> 222 \<and> n \<noteq> 215) then char_of (n + 32) else c)"

definition toLowerCase :: "string \<Rightarrow> string" where
  "toLowerCase s = map lower_char s"

definition trim :: "string \<Rightarrow> string" where
  "trim s = rev (dropWhile is_ws (rev (dropWhile is_ws s)))"

text \<open>A keyword of a regular expression with the \<open>i\<close> flag, and \<open>\s+\<close>: what follows the match.\<close>

definition kw :: "string \<Rightarrow> string \<Rightarrow> string option" where
  "kw k s = (if map lower_char (take (length k) s) = k then Some (drop (length k) s) else None)"

definition ws1 :: "string \<Rightarrow> string option" where
  "ws1 s = (case s of [] \<Rightarrow> None | c # cs \<Rightarrow> if is_ws c then Some (dropWhile is_ws cs) else None)"

definition orelse :: "'a option \<Rightarrow> 'a option \<Rightarrow> 'a option" where
  "orelse a b = (case a of Some x \<Rightarrow> Some x | None \<Rightarrow> b)"

definition starts :: "string \<Rightarrow> string \<Rightarrow> bool" where
  "starts p s \<longleftrightarrow> take (length p) s = p"

section \<open>Scanners\<close>

fun after_newline :: "string \<Rightarrow> string" where
  "after_newline [] = []"
| "after_newline (c # cs) = (if c = CHR 0x0A then cs else after_newline cs)"

fun from_newline :: "string \<Rightarrow> string" where
  "from_newline [] = []"
| "from_newline (c # cs) = (if c = CHR 0x0A then c # cs else from_newline cs)"

text \<open>The text after the first \<open>*/\<close>, or nothing.\<close>

fun after_close :: "string \<Rightarrow> string" where
  "after_close [] = []"
| "after_close (c # cs) =
     (if c = CHR ''*'' \<and> cs \<noteq> [] \<and> hd cs = CHR ''/'' then tl cs else after_close cs)"

lemma after_newline_length: "length (after_newline s) \<le> length s"
  by (induction s) auto

lemma from_newline_length: "length (from_newline s) \<le> length s"
  by (induction s) auto

lemma after_close_length: "length (after_close s) \<le> length s"
  by (induction s) auto

lemma starts_two: "starts [a, b] s \<Longrightarrow> \<exists>r. s = a # b # r"
  by (cases s; cases "tl s") (auto simp: starts_def)

lemma dropWhile_length: "length (dropWhile P s) \<le> length s"
  by (induction s) auto

function stripLeadingComments :: "string \<Rightarrow> string" where
  "stripLeadingComments sql =
     (let s = dropWhile is_ws sql
      in if starts ''--'' s then stripLeadingComments (after_newline s)
         else if starts ''/*'' s then stripLeadingComments (after_close s)
         else s)"
  by auto

termination
proof (relation "measure length")
  fix sql s assume s: "s = dropWhile is_ws sql"
  have l: "length s \<le> length sql" using dropWhile_length s by blast
  { assume "starts ''--'' s"
    then obtain r where "s = CHR ''-'' # CHR ''-'' # r" using starts_two by blast
    then have "length (after_newline s) < length s" using after_newline_length [of r] by simp
    with l show "(after_newline s, sql) \<in> measure length" by simp }
  { assume "starts ''/*'' s"
    then obtain r where "s = CHR ''/'' # CHR ''*'' # r" using starts_two by blast
    then have "length (after_close s) < length s" using after_close_length [of "CHR ''*'' # r"] by simp
    with l show "(after_close s, sql) \<in> measure length" by simp }
qed simp

declare stripLeadingComments.simps [simp del]

text \<open>The loop of \<open>skipQuoteSpan\<close> behind the opening quote: what is left, and whether it closed.\<close>

fun quote_body :: "char \<Rightarrow> bool \<Rightarrow> string \<Rightarrow> string \<times> bool" where
  "quote_body close escapable [] = ([], False)"
| "quote_body close escapable [c] = (if c = close then ([], True) else ([], False))"
| "quote_body close escapable (c # d # s) =
     (if c = close then (if escapable \<and> d = close then quote_body close escapable s else (d # s, True))
      else quote_body close escapable (d # s))"

definition skipQuoteSpan :: "string \<Rightarrow> string \<times> bool" where
  "skipQuoteSpan s =
     (case s of [] \<Rightarrow> (s, False)
      | c # cs \<Rightarrow> if c = CHR 0x27 \<or> c = CHR 0x22 \<or> c = CHR 0x60 then quote_body c True cs
                 else if c = CHR ''['' then quote_body (CHR '']'') False cs
                 else (s, False))"

definition isQuoteOpen :: "char \<Rightarrow> bool" where
  "isQuoteOpen c \<longleftrightarrow> c = CHR 0x27 \<or> c = CHR 0x22 \<or> c = CHR 0x60 \<or> c = CHR ''[''"

lemma quote_body_suffix: "suffix (fst (quote_body close escapable s)) s"
  by (induction close escapable s rule: quote_body.induct) (auto intro: suffix_ConsI)

lemma skipQuoteSpan_suffix:
  "isQuoteOpen c \<Longrightarrow> suffix (fst (skipQuoteSpan (c # s))) s"
  by (auto simp: skipQuoteSpan_def isQuoteOpen_def quote_body_suffix)

lemma skipQuoteSpan_shorter:
  "isQuoteOpen c \<Longrightarrow> length (fst (skipQuoteSpan (c # s))) < length (c # s)"
  using suffix_length_le [OF skipQuoteSpan_suffix [of c s]] by simp

text \<open>The loop of \<open>skipBalancedParens\<close> at a depth.\<close>

function balanced :: "int \<Rightarrow> string \<Rightarrow> string" where
  "balanced depth [] = []"
| "balanced depth (c # s) =
     (if isQuoteOpen c then balanced depth (fst (skipQuoteSpan (c # s)))
      else if c = CHR ''('' then balanced (depth + 1) s
      else if c = CHR '')'' then (if depth - 1 = 0 then s else balanced (depth - 1) s)
      else balanced depth s)"
  by pat_completeness auto

termination
  by (relation "measure (\<lambda>(depth, s). length s)") (use skipQuoteSpan_shorter in auto)

definition skipBalancedParens :: "string \<Rightarrow> string" where
  "skipBalancedParens s = balanced 0 s"

text \<open>
  \<open>readIdentifierToken\<close>: the raw token and what is left. A bare identifier starts with a
  letter, an underscore or a unit from 128 and continues with those, digits and the dollar sign.
\<close>

definition bare_start :: "char \<Rightarrow> bool" where
  "bare_start c \<longleftrightarrow> ident_start c \<or> 128 \<le> (of_char c :: nat)"

definition bare_char :: "char \<Rightarrow> bool" where
  "bare_char c \<longleftrightarrow> bare_start c \<or> is_digit c \<or> c = CHR ''$''"

definition readIdentifierToken :: "string \<Rightarrow> (string \<times> string) option" where
  "readIdentifierToken sql =
     (let s = dropWhile is_ws sql
      in case s of [] \<Rightarrow> None
         | c # cs \<Rightarrow>
             if c = CHR 0x22 \<or> c = CHR 0x60 \<or> c = CHR ''['' then
               (let (rest, terminated) = skipQuoteSpan s
                in if \<not> terminated then None else Some (take (length s - length rest) s, rest))
             else if bare_start c then Some (c # takeWhile bare_char cs, dropWhile bare_char cs)
             else None)"

lemma readIdentifierToken_shorter:
  assumes "readIdentifierToken s = Some (raw, rest)"
  shows "length rest < length s"
proof -
  obtain c cs where s: "dropWhile is_ws s = c # cs"
    using assms by (cases "dropWhile is_ws s") (auto simp: readIdentifierToken_def)
  have "length rest \<le> length cs"
  proof (cases "c = CHR 0x22 \<or> c = CHR 0x60 \<or> c = CHR ''[''")
    case True
    then have "rest = fst (skipQuoteSpan (c # cs))"
      using assms by (auto simp: readIdentifierToken_def s Let_def split: prod.splits if_splits)
    moreover have "isQuoteOpen c" using True by (auto simp: isQuoteOpen_def)
    ultimately show ?thesis using skipQuoteSpan_suffix suffix_length_le by blast
  next
    case False
    then have "rest = dropWhile bare_char cs"
      using assms by (auto simp: readIdentifierToken_def s Let_def split: if_splits)
    then show ?thesis by (simp add: dropWhile_length)
  qed
  moreover have "length (c # cs) \<le> length s" unfolding s [symmetric] by (rule dropWhile_length)
  ultimately show ?thesis by simp
qed

section \<open>Common table expressions\<close>

text \<open>The regular expressions of the clause: each gives what is left behind its match.\<close>

definition optional_kw :: "string \<Rightarrow> string \<Rightarrow> string" where
  "optional_kw k s = (case kw k s of None \<Rightarrow> s | Some r \<Rightarrow> (case ws1 r of None \<Rightarrow> s | Some r' \<Rightarrow> r'))"

definition starts_with_word :: "string \<Rightarrow> bool" where
  "starts_with_word s =
     (case kw ''with'' (dropWhile is_ws s) of None \<Rightarrow> False
      | Some r \<Rightarrow> r = [] \<or> \<not> word_char (hd r))"

definition drop_with :: "string \<Rightarrow> string" where
  "drop_with s =
     (case kw ''with'' (dropWhile is_ws s) of None \<Rightarrow> s
      | Some r \<Rightarrow> (case ws1 r of None \<Rightarrow> s | Some r' \<Rightarrow> optional_kw ''recursive'' r'))"

definition match_as :: "string \<Rightarrow> string option" where
  "match_as s = map_option (dropWhile is_ws) (kw ''as'' (dropWhile is_ws s))"

definition drop_materialized :: "string \<Rightarrow> string" where
  "drop_materialized s =
     (case kw ''materialized'' (optional_kw ''not'' (dropWhile is_ws s)) of
        None \<Rightarrow> s | Some r \<Rightarrow> dropWhile is_ws r)"

definition drop_columns :: "string \<Rightarrow> string" where
  "drop_columns s =
     (let afterId = dropWhile is_ws s
      in if starts ''('' afterId then skipBalancedParens afterId else s)"

text \<open>One round of the loop: the text behind the body, or nothing when it bails out.\<close>

definition cte_round :: "string \<Rightarrow> string option" where
  "cte_round s =
     (case readIdentifierToken s of None \<Rightarrow> None
      | Some (raw, rest) \<Rightarrow>
          (case match_as (drop_columns rest) of None \<Rightarrow> None
           | Some r \<Rightarrow>
               (let beforeBody = dropWhile is_ws (drop_materialized r)
                in if starts ''('' beforeBody then Some (skipBalancedParens beforeBody) else None)))"

definition comma :: "string \<Rightarrow> string option" where
  "comma s = (case dropWhile is_ws s of [] \<Rightarrow> None
     | c # cs \<Rightarrow> if c = CHR '','' then Some (dropWhile is_ws cs) else None)"

lemma balanced_length: "length (balanced depth s) \<le> length s"
proof (induction depth s rule: balanced.induct)
  case (2 depth c s)
  show ?case
  proof (cases "isQuoteOpen c")
    case True
    then show ?thesis using 2(1) [OF True] skipQuoteSpan_shorter [OF True, of s] by simp
  next
    case False
    then show ?thesis using 2(2) [OF False] 2(3) [OF False] 2(4) [OF False] by auto
  qed
qed simp

lemma kw_length: "kw k s = Some r \<Longrightarrow> length r \<le> length s"
  by (auto simp: kw_def split: if_splits)

lemma ws1_length: "ws1 s = Some r \<Longrightarrow> length r < length s"
  using dropWhile_length by (fastforce simp: ws1_def less_Suc_eq_le split: list.splits if_splits)

lemma optional_kw_length: "length (optional_kw k s) \<le> length s"
  by (auto simp: optional_kw_def split: option.splits dest!: kw_length ws1_length)

lemma cte_round_shorter:
  assumes "cte_round s = Some r"
  shows "length r < length s"
proof -
  obtain raw rest where t: "readIdentifierToken s = Some (raw, rest)"
    using assms by (auto simp: cte_round_def split: option.splits)
  obtain a where a: "match_as (drop_columns rest) = Some a"
    using assms t by (auto simp: cte_round_def split: option.splits)
  have r: "r = skipBalancedParens (dropWhile is_ws (drop_materialized a))"
    using assms t a by (auto simp: cte_round_def Let_def split: if_splits)
  have "length r \<le> length (drop_materialized a)"
    unfolding r skipBalancedParens_def using balanced_length dropWhile_length le_trans by blast
  also have "\<dots> \<le> length a"
  proof (cases "kw ''materialized'' (optional_kw ''not'' (dropWhile is_ws a))")
    case (Some b)
    have "length b \<le> length (dropWhile is_ws a)"
      using kw_length [OF Some] optional_kw_length le_trans by blast
    then show ?thesis
      using dropWhile_length [of is_ws a] dropWhile_length [of is_ws b]
      by (simp add: drop_materialized_def Some)
  qed (simp add: drop_materialized_def)
  also have "\<dots> \<le> length (drop_columns rest)"
  proof -
    obtain b where b: "kw ''as'' (dropWhile is_ws (drop_columns rest)) = Some b" "a = dropWhile is_ws b"
      using a by (auto simp: match_as_def)
    show ?thesis
      using kw_length [OF b(1)] dropWhile_length [of is_ws b] dropWhile_length [of is_ws "drop_columns rest"]
      by (simp add: b(2))
  qed
  also have "\<dots> \<le> length rest"
    using balanced_length [of 0 "dropWhile is_ws rest"] dropWhile_length [of is_ws rest]
    by (simp add: drop_columns_def Let_def skipBalancedParens_def)
  also have "\<dots> < length s" by (rule readIdentifierToken_shorter [OF t])
  finally show ?thesis .
qed

lemma comma_length: "comma s = Some r \<Longrightarrow> length r \<le> length s"
proof -
  assume c: "comma s = Some r"
  obtain cs where "dropWhile is_ws s = CHR '','' # cs" "r = dropWhile is_ws cs"
    using c by (auto simp: comma_def split: list.splits if_splits)
  moreover from this have "Suc (length cs) \<le> length s" using dropWhile_length [of is_ws s] by simp
  ultimately show ?thesis using dropWhile_length [of is_ws cs] by simp
qed

text \<open>The loop; bailing out gives back the whole statement.\<close>

function cte_loop :: "string \<Rightarrow> string \<Rightarrow> string" where
  "cte_loop sql s =
     (case cte_round s of None \<Rightarrow> sql
      | Some r \<Rightarrow> (case comma r of None \<Rightarrow> r | Some r' \<Rightarrow> cte_loop sql r'))"
  by pat_completeness auto

termination
  by (relation "measure (\<lambda>(sql, s). length s)") (auto dest!: cte_round_shorter comma_length)

declare cte_loop.simps [simp del]

definition skipLeadingCte :: "string \<Rightarrow> string" where
  "skipLeadingCte sql = (if \<not> starts_with_word sql then sql else cte_loop sql (drop_with sql))"

section \<open>Classification\<close>

function stripCommentsPreservingStrings :: "string \<Rightarrow> string" where
  "stripCommentsPreservingStrings [] = []"
| "stripCommentsPreservingStrings (c # s) =
     (if isQuoteOpen c then
        (let rest = fst (skipQuoteSpan (c # s))
         in take (length (c # s) - length rest) (c # s) @ stripCommentsPreservingStrings rest)
      else if c = CHR ''-'' \<and> starts ''-'' s then CHR '' '' # stripCommentsPreservingStrings (from_newline s)
      else if c = CHR ''/'' \<and> starts ''*'' s then
        CHR '' '' # stripCommentsPreservingStrings (after_close (tl s))
      else c # stripCommentsPreservingStrings s)"
  by pat_completeness auto

termination
proof (relation "measure length")
  fix c :: char and s rest :: string
  assume "isQuoteOpen c" "rest = fst (skipQuoteSpan (c # s))"
  then show "(rest, c # s) \<in> measure length" using skipQuoteSpan_shorter by simp
next
  fix c :: char and s :: string
  show "(from_newline s, c # s) \<in> measure length" using from_newline_length [of s] by simp
next
  fix c :: char and s :: string
  have "length (after_close (tl s)) \<le> length (tl s)" by (rule after_close_length)
  also have "\<dots> < length (c # s)" by simp
  finally show "(after_close (tl s), c # s) \<in> measure length" by simp
qed simp_all

definition terminal_statement :: "string \<Rightarrow> string" where
  "terminal_statement sql = stripLeadingComments (skipLeadingCte (stripCommentsPreservingStrings sql))"

definition MUTATION_KEYWORDS :: "string list" where
  "MUTATION_KEYWORDS = [''insert'', ''update'', ''delete'', ''replace'', ''create'', ''drop'', ''alter'']"

definition isMutation :: "string \<Rightarrow> bool" where
  "isMutation sql \<longleftrightarrow> list_ex (\<lambda>k. kw k (terminal_statement sql) \<noteq> None) MUTATION_KEYWORDS"

definition isDeleteStatement :: "string \<Rightarrow> bool" where
  "isDeleteStatement sql \<longleftrightarrow> kw ''delete'' (terminal_statement sql) \<noteq> None"

section \<open>Table names\<close>

definition INTERNAL_TABLE_NAMES :: "string list" where
  "INTERNAL_TABLE_NAMES = [''applied_requests'', ''sqlite_sequence'', ''pending_intents'', ''row_locks'',
     ''__cf_indexes'', ''index_pending_jobs'', ''__cf_row_owners'', ''__cf_mirror_pending'',
     ''__cf_fenced_vbuckets'', ''__cf_fenced_index_rings'']"

text \<open>\<open>replace(/qq/g, q)\<close> for a quote \<open>q\<close>.\<close>

fun undouble :: "char \<Rightarrow> string \<Rightarrow> string" where
  "undouble q (c # d # s) = (if c = q \<and> d = q then q # undouble q s else c # undouble q (d # s))"
| "undouble q s = s"

definition unquoteIdentifier :: "string \<Rightarrow> string" where
  "unquoteIdentifier tok =
     (if 2 \<le> length tok then
        (let first = hd tok; last1 = last tok; inner = butlast (tl tok)
         in if first = CHR 0x22 \<and> last1 = CHR 0x22 then undouble (CHR 0x22) inner
            else if first = CHR 0x60 \<and> last1 = CHR 0x60 then undouble (CHR 0x60) inner
            else if first = CHR ''['' \<and> last1 = CHR '']'' then inner
            else tok)
      else tok)"

definition normalizeTableName :: "string \<Rightarrow> string" where
  "normalizeTableName name = toLowerCase (unquoteIdentifier (trim name))"

definition isInternalTableName :: "string \<Rightarrow> bool" where
  "isInternalTableName name \<longleftrightarrow>
     name \<in> set INTERNAL_TABLE_NAMES \<or> starts ''__cf_'' name \<or> starts ''sqlite_'' name"

text \<open>
  The keyword expression of \<open>mutationWriteTarget\<close>, with its alternatives in order: each ends
  before white space or an opening identifier quote.
\<close>

definition ahead :: "string \<Rightarrow> string option" where
  "ahead s = (case s of [] \<Rightarrow> None
     | c # cs \<Rightarrow> if is_ws c \<or> c = CHR 0x22 \<or> c = CHR 0x60 \<or> c = CHR ''['' then Some s else None)"

definition or_clause :: "string \<Rightarrow> string option" where
  "or_clause s =
     Option.bind (ws1 s) (\<lambda>a. Option.bind (kw ''or'' a) (\<lambda>b. Option.bind (ws1 b)
       (\<lambda>c. if takeWhile word_char c = [] then None else Some (dropWhile word_char c))))"

definition then_kw :: "string \<Rightarrow> string \<Rightarrow> string option" where
  "then_kw k s = Option.bind (ws1 s) (\<lambda>a. Option.bind (kw k a) ahead)"

definition write_head :: "string \<Rightarrow> string option" where
  "write_head sql =
     (let s = dropWhile is_ws sql
      in orelse (Option.bind (kw ''insert'' s)
                   (\<lambda>r. orelse (Option.bind (or_clause r) (then_kw ''into'')) (then_kw ''into'' r)))
           (orelse (Option.bind (kw ''replace'' s) (then_kw ''into''))
             (orelse (Option.bind (kw ''update'' s)
                        (\<lambda>r. orelse (Option.bind (or_clause r) ahead) (ahead r)))
               (Option.bind (kw ''delete'' s) (then_kw ''from'')))))"

definition mutationWriteTarget :: "string \<Rightarrow> string option" where
  "mutationWriteTarget sql =
     (case write_head (terminal_statement sql) of None \<Rightarrow> None
      | Some rest \<Rightarrow>
          (case readIdentifierToken rest of None \<Rightarrow> None
           | Some (first, next1) \<Rightarrow>
               (let k = dropWhile is_ws next1
                in if starts ''.'' k then
                     (case readIdentifierToken (tl k) of None \<Rightarrow> None
                      | Some (second, next2) \<Rightarrow>
                          if starts ''.'' (dropWhile is_ws next2) then None
                          else Some (normalizeTableName second))
                   else Some (normalizeTableName first))))"

definition mutationTargetIsInternal :: "string \<Rightarrow> bool" where
  "mutationTargetIsInternal sql \<longleftrightarrow>
     isMutation sql \<and> (case mutationWriteTarget sql of None \<Rightarrow> False | Some t \<Rightarrow> isInternalTableName t)"

section \<open>Deny lists and CREATE TABLE\<close>

text \<open>\<open>\b(...)\b\<close> anywhere in the text; \<open>prev\<close> is the unit before it, if any.\<close>

definition banned_here :: "string list \<Rightarrow> string \<Rightarrow> bool" where
  "banned_here ks s \<longleftrightarrow>
     list_ex (\<lambda>k. starts k s \<and> (drop (length k) s = [] \<or> \<not> word_char (hd (drop (length k) s)))) ks"

fun banned_in :: "string list \<Rightarrow> bool \<Rightarrow> string \<Rightarrow> bool" where
  "banned_in ks inside [] = False"
| "banned_in ks inside (c # cs) =
     ((\<not> inside \<and> banned_here ks (c # cs)) \<or> banned_in ks (word_char c) cs)"

definition drop_semicolon :: "string \<Rightarrow> string" where
  "drop_semicolon s =
     (case dropWhile is_ws (rev s) of [] \<Rightarrow> s | c # cs \<Rightarrow> if c = CHR '';'' then rev cs else s)"

definition hasMultiStatementOrKeyword :: "string \<Rightarrow> string list \<Rightarrow> bool" where
  "hasMultiStatementOrKeyword sql bannedKeywords =
     (let noTrailingSemicolon = drop_semicolon (toLowerCase (trim sql))
      in if CHR '';'' \<in> set noTrailingSemicolon then True
         else banned_in bannedKeywords False noTrailingSemicolon)"

definition isDangerous :: "string \<Rightarrow> bool" where
  "isDangerous sql = hasMultiStatementOrKeyword sql
     [''drop'', ''truncate'', ''attach'', ''detach'', ''pragma'', ''vacuum'', ''reindex'', ''alter'', ''create'']"

definition isDangerousSchema :: "string \<Rightarrow> bool" where
  "isDangerousSchema sql = hasMultiStatementOrKeyword sql
     [''drop'', ''truncate'', ''attach'', ''detach'', ''pragma'', ''vacuum'', ''reindex'', ''alter'']"

definition create_table_head :: "string \<Rightarrow> string option" where
  "create_table_head sql =
     Option.bind (kw ''create'' (dropWhile is_ws sql)) (\<lambda>a. Option.bind (ws1 a)
       (\<lambda>b. Option.bind (kw ''table'' b) ws1))"

definition if_not_exists :: "string \<Rightarrow> string option" where
  "if_not_exists s =
     Option.bind (kw ''if'' s) (\<lambda>a. Option.bind (ws1 a) (\<lambda>b. Option.bind (kw ''not'' b)
       (\<lambda>c. Option.bind (ws1 c) (\<lambda>d. Option.bind (kw ''exists'' d) ws1))))"

definition extractCreateTableName :: "string \<Rightarrow> string option" where
  "extractCreateTableName sql =
     (case create_table_head sql of None \<Rightarrow> None
      | Some r \<Rightarrow>
          map_option (\<lambda>(raw, next1). unquoteIdentifier raw)
            (readIdentifierToken (case if_not_exists r of None \<Rightarrow> r | Some r' \<Rightarrow> r')))"

definition ensureCreateTableIfNotExists :: "string \<Rightarrow> string" where
  "ensureCreateTableIfNotExists sql =
     (case create_table_head sql of None \<Rightarrow> sql
      | Some r \<Rightarrow>
          if if_not_exists r \<noteq> None then sql
          else take (length sql - length r) sql @ ''IF NOT EXISTS '' @ r)"

end
