(* ===== verification/SqlLaws.thy ===== *)
theory SqlLaws
  imports SqlSafety
begin

text \<open>
  What the classification of SQL text guarantees: the scanners consume text and end, stripped text
  is clean, comments in front change no verdict, CREATE TABLE becomes idempotent once, and the
  statements that structured mutations compile to are classified as what they are.
\<close>

section \<open>Progress\<close>

lemma dropWhile_suffix: "suffix (dropWhile P s) s"
  by (metis suffix_def takeWhile_dropWhile_id)

lemma after_newline_suffix: "suffix (after_newline s) s"
  by (induction s) (auto intro: suffix_ConsI)

lemma after_close_suffix: "suffix (after_close s) s"
proof (induction s)
  case (Cons c cs)
  have "suffix (tl cs) (c # cs)" by (cases cs) (auto intro: suffix_ConsI suffix_tl)
  then show ?case using Cons by (auto intro: suffix_ConsI)
qed simp

lemma balanced_suffix: "suffix (balanced depth s) s"
proof (induction depth s rule: balanced.induct)
  case (2 depth c s)
  show ?case
  proof (cases "isQuoteOpen c")
    case True
    have "suffix (fst (skipQuoteSpan (c # s))) (c # s)"
      using skipQuoteSpan_suffix [OF True] by (rule suffix_ConsI)
    then show ?thesis using 2(1) [OF True] True suffix_order.trans by fastforce
  next
    case False
    then show ?thesis using 2(2) [OF False] 2(3) [OF False] 2(4) [OF False]
      by (auto intro: suffix_ConsI)
  qed
qed simp

lemma strip_leading:
  "suffix (stripLeadingComments s) s \<and> (stripLeadingComments s = [] \<or> \<not> is_ws (hd (stripLeadingComments s)))
   \<and> \<not> starts ''--'' (stripLeadingComments s) \<and> \<not> starts ''/*'' (stripLeadingComments s)"
proof (induction s rule: stripLeadingComments.induct)
  case (1 sql)
  let ?t = "dropWhile is_ws sql"
  have t: "suffix ?t sql" by (rule dropWhile_suffix)
  consider (line) "starts ''--'' ?t" | (block) "\<not> starts ''--'' ?t" "starts ''/*'' ?t"
    | (clean) "\<not> starts ''--'' ?t" "\<not> starts ''/*'' ?t" by blast
  then show ?case
  proof cases
    case line
    have "suffix (after_newline ?t) sql" using after_newline_suffix t suffix_order.trans by blast
    then show ?thesis using 1(1) [OF refl line] suffix_order.trans
      by (auto simp: stripLeadingComments.simps [of sql] Let_def line)
  next
    case block
    have "suffix (after_close ?t) sql" using after_close_suffix t suffix_order.trans by blast
    then show ?thesis using 1(2) [OF refl block] suffix_order.trans
      by (auto simp: stripLeadingComments.simps [of sql] Let_def block)
  next
    case clean
    have "?t = [] \<or> \<not> is_ws (hd ?t)" by (metis hd_dropWhile)
    then show ?thesis using t by (simp add: stripLeadingComments.simps [of sql] Let_def clean)
  qed
qed

lemma strip_fixed:
  assumes "s = [] \<or> \<not> is_ws (hd s)" "\<not> starts ''--'' s" "\<not> starts ''/*'' s"
  shows "stripLeadingComments s = s"
proof -
  have "dropWhile is_ws s = s" using assms(1) by (cases s) auto
  then show ?thesis using assms(2,3) by (simp add: stripLeadingComments.simps [of s])
qed

text \<open>
  The scanners of the classifier always end and make progress: a quoted span, an identifier and
  a whole common table expression each leave strictly less text than they were given, balanced
  parentheses leave a suffix, and stripping leading comments ends in a suffix that starts
  with neither white space nor a comment, which stripping again leaves alone.
\<close>

theorem scanners_progress:
  "(if isQuoteOpen c then length (fst (skipQuoteSpan (c # s))) < length (c # s) else fst (skipQuoteSpan (c # s)) = c # s)
   \<and> (case readIdentifierToken s of None \<Rightarrow> True | Some (raw, rest) \<Rightarrow> length rest < length s)
   \<and> (case cte_round s of None \<Rightarrow> True | Some rest \<Rightarrow> length rest < length s)
   \<and> suffix (skipBalancedParens s) s
   \<and> suffix (stripLeadingComments s) s
   \<and> dropWhile is_ws (stripLeadingComments s) = stripLeadingComments s
   \<and> \<not> starts ''--'' (stripLeadingComments s) \<and> \<not> starts ''/*'' (stripLeadingComments s)
   \<and> stripLeadingComments (stripLeadingComments s) = stripLeadingComments s"
proof (intro conjI)
  show "if isQuoteOpen c then length (fst (skipQuoteSpan (c # s))) < length (c # s) else fst (skipQuoteSpan (c # s)) = c # s"
    using skipQuoteSpan_shorter by (auto simp: skipQuoteSpan_def isQuoteOpen_def)
  show "case readIdentifierToken s of None \<Rightarrow> True | Some (raw, rest) \<Rightarrow> length rest < length s"
    using readIdentifierToken_shorter by (auto split: option.splits)
  show "case cte_round s of None \<Rightarrow> True | Some rest \<Rightarrow> length rest < length s"
    using cte_round_shorter by (auto split: option.splits)
  show "suffix (skipBalancedParens s) s" by (simp add: skipBalancedParens_def balanced_suffix)
  show "stripLeadingComments (stripLeadingComments s) = stripLeadingComments s"
    using strip_leading [of s] strip_fixed by blast
  show "dropWhile is_ws (stripLeadingComments s) = stripLeadingComments s"
    using strip_leading [of s] by (cases "stripLeadingComments s") auto
qed (use strip_leading [of s] in blast)+

section \<open>Comments in front\<close>

lemma dropWhile_ws_append: "list_all is_ws w \<Longrightarrow> dropWhile is_ws (w @ s) = dropWhile is_ws s"
  by (induction w) auto

lemma strip_ws_append: "list_all is_ws w \<Longrightarrow> stripLeadingComments (w @ s) = stripLeadingComments s"
  by (simp add: stripLeadingComments.simps [of "w @ s"] stripLeadingComments.simps [of s] dropWhile_ws_append)

lemma starts_with_word_ws: "list_all is_ws w \<Longrightarrow> starts_with_word (w @ s) = starts_with_word s"
  by (simp add: starts_with_word_def dropWhile_ws_append)

lemma readIdentifierToken_ws: "list_all is_ws w \<Longrightarrow> readIdentifierToken (w @ s) = readIdentifierToken s"
  by (simp add: readIdentifierToken_def dropWhile_ws_append)

lemma drop_with_ws:
  assumes "list_all is_ws w"
  shows "drop_with (w @ s) = drop_with s \<or> (drop_with (w @ s) = w @ s \<and> drop_with s = s)"
  using assms by (auto simp: drop_with_def dropWhile_ws_append split: option.splits)

lemma cte_round_ws: "list_all is_ws w \<Longrightarrow> cte_round (w @ s) = cte_round s"
  by (simp add: cte_round_def readIdentifierToken_ws)

text \<open>The loop gives back the whole statement or a text that does not depend on it.\<close>

lemma cte_loop_cases: "(\<forall>sql. cte_loop sql s = sql) \<or> (\<exists>r. \<forall>sql. cte_loop sql s = r)"
proof (induction "length s" arbitrary: s rule: less_induct)
  case less
  show ?case
  proof (cases "cte_round s")
    case None
    then show ?thesis by (simp add: cte_loop.simps [of _ s])
  next
    case (Some r)
    show ?thesis
    proof (cases "comma r")
      case None
      then show ?thesis by (auto simp: cte_loop.simps [of _ s] Some)
    next
      case (Some r')
      have "length r' < length s"
        using comma_length [OF Some] cte_round_shorter [OF \<open>cte_round s = Some r\<close>] by simp
      from less [OF this] show ?thesis
        by (simp add: cte_loop.simps [of _ s] \<open>cte_round s = Some r\<close> Some)
    qed
  qed
qed

lemma cte_loop_ws: "list_all is_ws w \<Longrightarrow> cte_loop sql (w @ s) = cte_loop sql s"
  by (simp add: cte_loop.simps [of sql "w @ s"] cte_loop.simps [of sql s] cte_round_ws)

lemma terminal_ws:
  assumes "list_all is_ws w"
  shows "stripLeadingComments (skipLeadingCte (w @ s)) = stripLeadingComments (skipLeadingCte s)"
proof (cases "starts_with_word s")
  case False
  then show ?thesis using assms by (simp add: skipLeadingCte_def starts_with_word_ws strip_ws_append)
next
  case True
  have d: "cte_loop sql (drop_with (w @ s)) = cte_loop sql (drop_with s)" for sql
    using drop_with_ws [OF assms, of s] cte_loop_ws [OF assms] by metis
  show ?thesis
    using cte_loop_cases [of "drop_with s"] assms True
    by (auto simp: skipLeadingCte_def starts_with_word_ws d strip_ws_append)
qed

lemma strip_ws:
  "list_all is_ws w \<Longrightarrow> stripCommentsPreservingStrings (w @ s) = w @ stripCommentsPreservingStrings s"
proof (induction w)
  case (Cons c w)
  have "\<not> isQuoteOpen c" "c \<noteq> CHR ''-''" "c \<noteq> CHR ''/''"
    using Cons.prems by (auto simp: isQuoteOpen_def is_ws_def Let_def)
  with Cons show ?case by simp
qed simp

lemma from_newline_skip: "CHR 0x0A \<notin> set c \<Longrightarrow> from_newline (c @ CHR 0x0A # s) = CHR 0x0A # s"
  by (induction c) auto

lemma after_close_skip: "\<not> sublist ''*/'' c \<Longrightarrow> after_close (c @ CHR ''*'' # CHR ''/'' # s) = s"
proof (induction c)
  case (Cons a c)
  have n: "\<not> (a = CHR ''*'' \<and> c \<noteq> [] \<and> hd c = CHR ''/'')"
  proof
    assume h: "a = CHR ''*'' \<and> c \<noteq> [] \<and> hd c = CHR ''/''"
    then have "a # c = [] @ ''*/'' @ tl c" by (cases c) auto
    then have "sublist ''*/'' (a # c)" by (metis sublist_appendI)
    with Cons.prems(1) show False by blast
  qed
  have "\<not> sublist ''*/'' c" using Cons.prems(1) by (metis sublist_Cons_right)
  then have "after_close (c @ CHR ''*'' # CHR ''/'' # s) = s" by (rule Cons.IH)
  then show ?case using n by (cases c) auto
qed simp

definition is_comment :: "string \<Rightarrow> bool" where
  "is_comment c \<longleftrightarrow> (\<exists>b. c = ''--'' @ b @ [CHR 0x0A] \<and> CHR 0x0A \<notin> set b)
     \<or> (\<exists>b. c = ''/*'' @ b @ ''*/'' \<and> \<not> sublist ''*/'' b)"

lemma strip_comment:
  assumes "is_comment c"
  shows "\<exists>w. list_all is_ws w \<and> stripCommentsPreservingStrings (c @ s) = w @ stripCommentsPreservingStrings s"
  using assms unfolding is_comment_def
proof (elim disjE exE conjE)
  fix b assume c: "c = ''--'' @ b @ [CHR 0x0A]" and b: "CHR 0x0A \<notin> set b"
  have n: "from_newline (CHR ''-'' # b @ CHR 0x0A # s) = CHR 0x0A # s"
    using from_newline_skip [OF b] by simp
  have "stripCommentsPreservingStrings (c @ s) = [CHR '' '', CHR 0x0A] @ stripCommentsPreservingStrings s"
    by (simp add: c isQuoteOpen_def starts_def from_newline_skip [OF b])
  moreover have "list_all is_ws [CHR '' '', CHR 0x0A]" by (simp add: is_ws_def)
  ultimately show ?thesis by blast
next
  fix b assume c: "c = ''/*'' @ b @ ''*/''" and b: "\<not> sublist ''*/'' b"
  have "stripCommentsPreservingStrings (c @ s) = [CHR '' ''] @ stripCommentsPreservingStrings s"
    by (simp add: c isQuoteOpen_def starts_def after_close_skip [OF b])
  moreover have "list_all is_ws [CHR '' '']" by (simp add: is_ws_def)
  ultimately show ?thesis by blast
qed

lemma terminal_comment:
  assumes "is_comment c" "list_all is_ws w"
  shows "terminal_statement (w @ c @ sql) = terminal_statement sql"
proof -
  obtain v where v: "list_all is_ws v" "stripCommentsPreservingStrings (c @ sql) = v @ stripCommentsPreservingStrings sql"
    using strip_comment [OF assms(1)] by blast
  have "list_all is_ws (w @ v)" using assms(2) v(1) by simp
  from terminal_ws [OF this] show ?thesis
    by (simp add: terminal_statement_def strip_ws [OF assms(2)] v(2))
qed

text \<open>
  Comments cannot hide a statement. Putting white space and a line or block comment in front
  of any SQL text changes no verdict: whether it is a mutation or a delete, which table it
  writes, and whether that table is internal.
\<close>

theorem comments_hide_nothing:
  assumes "is_comment c" "list_all is_ws w"
  shows "isMutation (w @ c @ sql) = isMutation sql \<and> isDeleteStatement (w @ c @ sql) = isDeleteStatement sql
    \<and> mutationWriteTarget (w @ c @ sql) = mutationWriteTarget sql
    \<and> mutationTargetIsInternal (w @ c @ sql) = mutationTargetIsInternal sql"
  by (simp add: isMutation_def isDeleteStatement_def mutationWriteTarget_def mutationTargetIsInternal_def
      terminal_comment [OF assms])

theorem comments_hide_nothing_witness:
  "mutationTargetIsInternal ('' /* SELECT */DELETE FROM row_locks'')"
proof -
  have c: "is_comment ''/* SELECT */''"
  proof -
    have "\<not> sublist ''*/'' '' SELECT ''" by code_simp
    moreover have "''/* SELECT */'' = ''/*'' @ '' SELECT '' @ ''*/''" by simp
    ultimately show ?thesis unfolding is_comment_def by blast
  qed
  have "mutationTargetIsInternal ''DELETE FROM row_locks''" by code_simp
  then show ?thesis
    using comments_hide_nothing [OF c, of "'' ''" "''DELETE FROM row_locks''"] by (simp add: is_ws_def)
qed

section \<open>CREATE TABLE\<close>

lemma kw_SomeE:
  assumes "kw k s = Some r"
  obtains a where "s = a @ r" "map lower_char a = k"
proof -
  have "s = take (length k) s @ r" "map lower_char (take (length k) s) = k"
    using assms by (auto simp: kw_def split: if_splits)
  then show ?thesis by (rule that)
qed

lemma kw_append: "map lower_char a = k \<Longrightarrow> kw k (a @ r) = Some r"
  by (auto simp: kw_def)

lemma ws1_SomeE:
  assumes "ws1 s = Some r"
  obtains w where "s = w @ r" "w \<noteq> []" "list_all is_ws w" "r = [] \<or> \<not> is_ws (hd r)"
proof -
  obtain c cs where s: "s = c # cs" "is_ws c" "r = dropWhile is_ws cs"
    using assms by (auto simp: ws1_def split: list.splits if_splits)
  show ?thesis
  proof (rule that)
    show "s = (c # takeWhile is_ws cs) @ r" by (simp add: s)
    show "list_all is_ws (c # takeWhile is_ws cs)" by (auto simp: s(2) list_all_iff dest: set_takeWhileD)
    show "r = [] \<or> \<not> is_ws (hd r)" unfolding s(3) by (metis hd_dropWhile)
  qed simp
qed

lemma ws1_append:
  assumes "w \<noteq> []" "list_all is_ws w" "r = [] \<or> \<not> is_ws (hd r)"
  shows "ws1 (w @ r) = Some r"
proof -
  obtain c cs where w: "w = c # cs" using assms(1) by (cases w) auto
  have "dropWhile is_ws (cs @ r) = dropWhile is_ws r" using assms(2) by (simp add: w dropWhile_ws_append)
  also have "\<dots> = r" using assms(3) by (cases r) auto
  finally show ?thesis using assms(2) by (simp add: ws1_def w)
qed

lemma create_table_head_Some:
  assumes "create_table_head s = Some r"
  shows "\<exists>p. s = p @ r \<and> (\<forall>x. x = [] \<or> \<not> is_ws (hd x) \<longrightarrow> create_table_head (p @ x) = Some x)"
proof -
  obtain a b c where h: "kw ''create'' (dropWhile is_ws s) = Some a" "ws1 a = Some b" "kw ''table'' b = Some c" "ws1 c = Some r"
    using assms unfolding create_table_head_def bind_eq_Some_conv by blast
  obtain k1 where k1: "dropWhile is_ws s = k1 @ a" "map lower_char k1 = ''create''" by (rule kw_SomeE [OF h(1)])
  obtain w1 where w1: "a = w1 @ b" "w1 \<noteq> []" "list_all is_ws w1" "b = [] \<or> \<not> is_ws (hd b)" by (rule ws1_SomeE [OF h(2)])
  obtain k2 where k2: "b = k2 @ c" "map lower_char k2 = ''table''" by (rule kw_SomeE [OF h(3)])
  obtain w2 where w2: "c = w2 @ r" "w2 \<noteq> []" "list_all is_ws w2" "r = [] \<or> \<not> is_ws (hd r)" by (rule ws1_SomeE [OF h(4)])
  obtain w0 where w: "list_all is_ws w0" "s = w0 @ dropWhile is_ws s"
    by (metis list_all_iff set_takeWhileD takeWhile_dropWhile_id)
  have nk1: "\<not> is_ws (hd k1)" "k1 \<noteq> []"
  proof -
    show "k1 \<noteq> []" using k1(2) by auto
    then show "\<not> is_ws (hd k1)" using hd_dropWhile [of is_ws s] by (simp add: k1(1))
  qed
  have nk2: "\<not> is_ws (hd k2)" "k2 \<noteq> []"
  proof -
    show "k2 \<noteq> []" using k2(2) by auto
    then show "\<not> is_ws (hd k2)" using w1(4) by (simp add: k2(1))
  qed
  let ?p = "w0 @ k1 @ w1 @ k2 @ w2"
  have "s = w0 @ k1 @ w1 @ k2 @ w2 @ r"
    by (rule w(2) [unfolded k1(1) w1(1) k2(1) w2(1), THEN trans]) simp
  then have "s = ?p @ r" by simp
  moreover have "create_table_head (?p @ x) = Some x" if x: "x = [] \<or> \<not> is_ws (hd x)" for x
  proof -
    have "dropWhile is_ws (k1 @ y) = k1 @ y" for y using nk1 by (cases k1) simp_all
    then have "dropWhile is_ws (?p @ x) = k1 @ (w1 @ (k2 @ (w2 @ x)))"
      by (simp add: dropWhile_ws_append [OF w(1)])
    moreover have "ws1 (w1 @ (k2 @ (w2 @ x))) = Some (k2 @ (w2 @ x))"
      using nk2 by (intro ws1_append [OF w1(2,3)]) (cases k2, simp_all)
    moreover have "ws1 (w2 @ x) = Some x" by (rule ws1_append [OF w2(2,3) x])
    ultimately show ?thesis
      by (simp add: create_table_head_def kw_append [OF k1(2)] kw_append [OF k2(2)])
  qed
  ultimately show ?thesis by blast
qed

lemma if_not_exists_injected:
  assumes "r = [] \<or> \<not> is_ws (hd r)"
  shows "if_not_exists (''IF NOT EXISTS '' @ r) = Some r"
proof -
  have k: "map lower_char ''IF'' = ''if''" "map lower_char ''NOT'' = ''not''" "map lower_char ''EXISTS'' = ''exists''"
    by code_simp+
  have w: "ws1 ('' '' @ x) = Some x" if "x = [] \<or> \<not> is_ws (hd x)" for x
    using that by (intro ws1_append) (simp_all add: is_ws_def)
  have "kw ''if'' (''IF NOT EXISTS '' @ r) = Some ('' '' @ (''NOT EXISTS '' @ r))"
    using kw_append [OF k(1), of "'' '' @ (''NOT EXISTS '' @ r)"] by simp
  moreover have "ws1 ('' '' @ (''NOT EXISTS '' @ r)) = Some (''NOT EXISTS '' @ r)" by (rule w) (simp add: is_ws_def)
  moreover have "kw ''not'' (''NOT EXISTS '' @ r) = Some ('' '' @ (''EXISTS '' @ r))"
    using kw_append [OF k(2), of "'' '' @ (''EXISTS '' @ r)"] by simp
  moreover have "ws1 ('' '' @ (''EXISTS '' @ r)) = Some (''EXISTS '' @ r)" by (rule w) (simp add: is_ws_def)
  moreover have "kw ''exists'' (''EXISTS '' @ r) = Some ('' '' @ r)"
    using kw_append [OF k(3), of "'' '' @ r"] by simp
  moreover have "ws1 ('' '' @ r) = Some r" using assms by (rule w)
  ultimately show ?thesis by (simp only: if_not_exists_def bind.bind_lunit)
qed

text \<open>
  Making CREATE TABLE idempotent is itself idempotent and touches nothing else: the result is
  the statement, or the statement with IF NOT EXISTS inserted at one place, and applying the
  helper again changes nothing.
\<close>

theorem if_not_exists_injected_once:
  "ensureCreateTableIfNotExists (ensureCreateTableIfNotExists sql) = ensureCreateTableIfNotExists sql
   \<and> (\<exists>a b. sql = a @ b \<and> ensureCreateTableIfNotExists sql \<in> {sql, a @ ''IF NOT EXISTS '' @ b})"
proof (cases "create_table_head sql")
  case None
  then show ?thesis by (auto simp: ensureCreateTableIfNotExists_def intro: exI [where x = "[]"])
next
  case (Some r)
  obtain p where p: "sql = p @ r"
    "\<And>x. x = [] \<or> \<not> is_ws (hd x) \<Longrightarrow> create_table_head (p @ x) = Some x"
    using create_table_head_Some [OF Some] by blast
  show ?thesis
  proof (cases "if_not_exists r")
    case None
    have e: "ensureCreateTableIfNotExists sql = p @ ''IF NOT EXISTS '' @ r"
      by (simp add: ensureCreateTableIfNotExists_def Some None) (simp add: p(1))
    have h: "create_table_head (p @ ''IF NOT EXISTS '' @ r) = Some (''IF NOT EXISTS '' @ r)"
      by (rule p(2)) (simp add: is_ws_def)
    have r: "r = [] \<or> \<not> is_ws (hd r)"
    proof -
      obtain c where "ws1 c = Some r" using Some unfolding create_table_head_def bind_eq_Some_conv by blast
      then show ?thesis by (rule ws1_SomeE)
    qed
    have "ensureCreateTableIfNotExists (p @ ''IF NOT EXISTS '' @ r) = p @ ''IF NOT EXISTS '' @ r"
      by (simp only: ensureCreateTableIfNotExists_def h if_not_exists_injected [OF r] option.simps not_False_eq_True if_True)
    then show ?thesis unfolding e using p(1) by blast
  next
    case (Some r')
    then show ?thesis
      using \<open>create_table_head sql = Some r\<close>
      by (auto simp: ensureCreateTableIfNotExists_def intro: exI [where x = "[]"])
  qed
qed

section \<open>What structured mutations compile to\<close>

definition plain_text :: "string \<Rightarrow> bool" where
  "plain_text s \<longleftrightarrow> list_all (\<lambda>c. c \<noteq> CHR ''-'' \<and> c \<noteq> CHR ''/'') s"

lemma plain_append [simp]: "plain_text (a @ b) \<longleftrightarrow> plain_text a \<and> plain_text b"
  by (simp add: plain_text_def)

lemma plain_Cons [simp]: "plain_text (c # s) \<longleftrightarrow> c \<noteq> CHR ''-'' \<and> c \<noteq> CHR ''/'' \<and> plain_text s" "plain_text []"
  by (simp_all add: plain_text_def)

lemma strip_plain: "plain_text s \<Longrightarrow> stripCommentsPreservingStrings s = s"
proof (induction s rule: stripCommentsPreservingStrings.induct)
  case (2 c s)
  show ?case
  proof (cases "isQuoteOpen c")
    case True
    let ?r = "fst (skipQuoteSpan (c # s))"
    obtain a where a: "c # s = a @ ?r" using suffix_ConsI [OF skipQuoteSpan_suffix [OF True]] by (auto simp: suffix_def)
    have "plain_text (a @ ?r)" using 2(5) a by simp
    then have r: "stripCommentsPreservingStrings ?r = ?r" using 2(1) [OF True refl] by simp
    have "take (length (c # s) - length ?r) (c # s) = a"
      by (subst (2) a) (simp add: arg_cong [where f = length, OF a] del: list.size)
    then have "stripCommentsPreservingStrings (c # s) = a @ ?r"
      unfolding stripCommentsPreservingStrings.simps(2) Let_def r using True by (simp only: if_True)
    with a show ?thesis by simp
  next
    case False
    have "c \<noteq> CHR ''-''" "c \<noteq> CHR ''/''" "plain_text s" using 2(5) by (simp_all add: plain_text_def)
    then show ?thesis using 2(4) False by simp
  qed
qed simp

lemma IDENTIFIER_plain: "IDENTIFIER_RE s \<Longrightarrow> plain_text s"
  by (auto simp: plain_text_def IDENTIFIER_RE_def list_all_iff ident_start_def is_digit_def Let_def split: list.splits)

lemma quoted_plain [simp]: "plain_text (quoted s) \<longleftrightarrow> plain_text s"
  by (simp add: quoted_def plain_text_def)

lemma join_plain: "plain_text sep \<Longrightarrow> list_all plain_text ts \<Longrightarrow> plain_text (join sep ts)"
  by (induction sep ts rule: join.induct) (auto simp: plain_text_def)

lemma idents_plain: "list_all IDENTIFIER_RE cs \<Longrightarrow> list_all plain_text (map f cs) \<longleftrightarrow> list_all (\<lambda>c. plain_text (f c)) cs"
  by (simp add: list_all_iff)

lemma columns_plain:
  assumes "list_all IDENTIFIER_RE cs" "plain_text a" "plain_text sep"
  shows "plain_text (join sep (map (\<lambda>c. quoted c @ a) cs))" "plain_text (join sep (map quoted cs))"
    "plain_text (join sep (map (\<lambda>c. quoted c @ a @ quoted c) cs))"
proof -
  have "list_all plain_text cs" using assms(1) IDENTIFIER_plain by (auto simp: list_all_iff)
  then show "plain_text (join sep (map (\<lambda>c. quoted c @ a) cs))" "plain_text (join sep (map quoted cs))"
    "plain_text (join sep (map (\<lambda>c. quoted c @ a @ quoted c) cs))"
    using assms(2,3) by (auto intro!: join_plain simp: list_all_iff)
qed

lemma literal_plain:
  "plain_text '' ('' " "plain_text '') VALUES (''" "plain_text '')''" "plain_text '' ON CONFLICT (''"
  "plain_text '') DO ''" "plain_text ''UPDATE SET ''" "plain_text ''NOTHING''" "plain_text '' = excluded.''"
  "plain_text '' = ?''" "plain_text '', ''" "plain_text '' AND ''" "plain_text ''INSERT INTO ''" "plain_text ''UPDATE ''"
  "plain_text '' SET ''" "plain_text '' WHERE ''" "plain_text ''DELETE FROM ''" "plain_text ''?''"
  by code_simp+

lemma insert_plain:
  assumes "list_all IDENTIFIER_RE cs" "plain_text t"
  shows "plain_text (insert_sql t cs)"
proof -
  have "plain_text (join '', '' (map (\<lambda>_. ''?'') cs))"
    by (rule join_plain) (simp_all add: literal_plain list_all_iff)
  then show ?thesis
    using assms columns_plain(2) [OF assms(1) literal_plain(9,10)] by (simp add: insert_sql_def literal_plain)
qed

lemma conflict_plain:
  assumes "list_all IDENTIFIER_RE cs" "list_all IDENTIFIER_RE us"
  shows "plain_text (conflict_sql cs us)"
  using columns_plain(2) [OF assms(1) literal_plain(9,10)] columns_plain(3) [OF assms(2) literal_plain(8,10)]
  by (simp add: conflict_sql_def literal_plain)

lemma sets_plain:
  assumes "list_all IDENTIFIER_RE (map fst kvs)" "plain_text sep"
  shows "plain_text (join sep (map (\<lambda>kv. quoted (fst kv) @ '' = ?'') kvs))"
  using columns_plain(1) [OF assms(1) literal_plain(9) assms(2)] by (simp add: comp_def)

lemma where_plain:
  assumes "list_all IDENTIFIER_RE (keys_of (sm_where m))" "IDENTIFIER_RE pk"
  shows "plain_text (cp_sql (mutationWhereClause m pk))"
proof -
  let ?r = "filter (\<lambda>kv. fst kv \<noteq> pk) (fields_of (sm_where m))"
  have "list_all IDENTIFIER_RE (map fst ((pk, JNull) # ?r))"
    using assms by (auto simp: list_all_iff keys_of_def)
  from sets_plain [OF this literal_plain(11)] show ?thesis by (simp add: mutationWhereClause_def Let_def)
qed

text \<open>The three statement heads, and the text behind the table.\<close>

definition statement_head :: "string \<Rightarrow> string" where
  "statement_head op1 = (if op1 = ''update'' then ''UPDATE '' else if op1 = ''delete'' then ''DELETE FROM '' else ''INSERT INTO '')"

lemma compiled_form:
  assumes "validateMutation m pk = Inr ()" "IDENTIFIER_RE (sm_table m)" "IDENTIFIER_RE pk"
  shows "\<exists>y. sql_of m pk = statement_head (sm_op m) @ quoted (sm_table m) @ '' '' @ y \<and> y \<noteq> []
     \<and> \<not> is_ws (hd y) \<and> hd y \<noteq> CHR ''.'' \<and> plain_text (sql_of m pk)"
proof -
  note v = validated [OF assms(1)]
  have t: "plain_text (quoted (sm_table m))" using IDENTIFIER_plain [OF assms(2)] by simp
  have cols: "list_all IDENTIFIER_RE (map fst (forced_values m pk))"
    using v(2) assms(3) by (simp add: forced_keys)
  have confl: "list_all IDENTIFIER_RE (case sm_conflictColumns m of None \<Rightarrow> [pk] | Some cs \<Rightarrow> if cs = [] then [pk] else cs)"
    using v(3) assms(3) by (simp split: option.splits)
  have upd: "list_all IDENTIFIER_RE (filter P (map fst (forced_values m pk)))" for P
    using cols by (auto simp: list_all_iff)
  have set: "list_all IDENTIFIER_RE (map fst (filter (\<lambda>kv. fst kv \<noteq> pk) (fields_of (sm_values m))))"
    using v(2) by (auto simp: list_all_iff keys_of_def)
  have ws: "\<not> is_ws (CHR ''('')" "\<not> is_ws (CHR ''S'')" "\<not> is_ws (CHR ''W'')" by (simp_all add: is_ws_def)
  from v(4) consider "sm_op m = ''insert''" | "sm_op m = ''upsert''" | "sm_op m = ''update''" | "sm_op m = ''delete''"
    by auto
  then show ?thesis
  proof cases
    case 1
    then show ?thesis
      using insert_plain [OF cols t] assms(2)
      by (simp add: sql_of_def compileMutation_def Let_def statement_head_def ws) (simp add: insert_sql_def ws)
  next
    case 2
    then show ?thesis
      using insert_plain [OF cols t] conflict_plain [OF confl upd] assms(2)
      by (simp add: sql_of_def compileMutation_def Let_def statement_head_def ws) (simp add: insert_sql_def ws)
  next
    case 3
    then show ?thesis
      using t where_plain [OF v(1) assms(3)] sets_plain [OF set literal_plain(10)] assms(2)
      by (simp add: sql_of_def compileMutation_def Let_def statement_head_def ws literal_plain)
  next
    case 4
    then show ?thesis
      using t where_plain [OF v(1) assms(3)] assms(2)
      by (simp add: sql_of_def compileMutation_def Let_def statement_head_def ws literal_plain)
  qed
qed

lemma kw_hd: "lower_char c \<noteq> k0 \<Longrightarrow> kw (k0 # ks) (c # s) = None"
  by (auto simp: kw_def)

lemma lower_chars:
  "lower_char (CHR ''I'') = CHR ''i''" "lower_char (CHR ''U'') = CHR ''u''" "lower_char (CHR ''D'') = CHR ''d''"
  "lower_char (CHR 0x22) = CHR 0x22"
  by code_simp+

lemma ident_chars:
  assumes "IDENTIFIER_RE t"
  shows "t \<noteq> []" "CHR 0x22 \<notin> set t"
  using assms by (auto simp: IDENTIFIER_RE_def list_all_iff ident_start_def is_digit_def Let_def split: list.splits)

lemma quote_body_ident:
  "CHR 0x22 \<notin> set t \<Longrightarrow> quote_body (CHR 0x22) True (t @ CHR 0x22 # CHR '' '' # y) = (CHR '' '' # y, True)"
proof (induction t)
  case (Cons c t)
  then show ?case by (cases t) auto
qed simp

lemma undouble_none: "q \<notin> set s \<Longrightarrow> undouble q s = s"
  by (induction q s rule: undouble.induct) auto

lemma table_token:
  assumes "IDENTIFIER_RE t"
  shows "readIdentifierToken ('' '' @ quoted t @ '' '' @ y) = Some (quoted t, '' '' @ y)"
    and "normalizeTableName (quoted t) = toLowerCase t"
proof -
  have w: "\<not> is_ws (CHR 0x22)" "is_ws (CHR '' '')" by (simp_all add: is_ws_def)
  have q: "skipQuoteSpan (quoted t @ '' '' @ y) = ('' '' @ y, True)"
    using quote_body_ident [OF ident_chars(2) [OF assms], of y] by (simp add: skipQuoteSpan_def quoted_def)
  have d: "dropWhile is_ws ('' '' @ quoted t @ '' '' @ y) = CHR 0x22 # t @ [CHR 0x22] @ '' '' @ y"
    by (simp add: quoted_def w)
  show "readIdentifierToken ('' '' @ quoted t @ '' '' @ y) = Some (quoted t, '' '' @ y)"
    unfolding readIdentifierToken_def d using q by (simp add: quoted_def)
  have "trim (quoted t) = quoted t" by (simp add: trim_def quoted_def w)
  then show "normalizeTableName (quoted t) = toLowerCase t"
    using undouble_none [OF ident_chars(2) [OF assms]]
    by (simp add: normalizeTableName_def unquoteIdentifier_def quoted_def Let_def butlast_append)
qed

lemma ws1_blank: "x \<noteq> [] \<Longrightarrow> \<not> is_ws (hd x) \<Longrightarrow> ws1 ('' '' @ x) = Some x"
  by (rule ws1_append) (simp_all add: is_ws_def)

lemma head_facts:
  "map lower_char ''INSERT'' = ''insert''" "map lower_char ''INTO'' = ''into''" "map lower_char ''UPDATE'' = ''update''"
  "map lower_char ''DELETE'' = ''delete''" "map lower_char ''FROM'' = ''from''"
  by code_simp+

lemma write_head_compiled:
  assumes "IDENTIFIER_RE t"
  shows "write_head (statement_head op1 @ quoted t @ '' '' @ y) = Some ('' '' @ quoted t @ '' '' @ y)"
proof -
  let ?z = "quoted t @ '' '' @ y"
  have ws: "\<not> is_ws (CHR ''I'')" "\<not> is_ws (CHR ''U'')" "\<not> is_ws (CHR ''D'')" "\<not> is_ws (CHR ''F'')"
    "\<not> is_ws (CHR 0x22)" "is_ws (CHR '' '')"
    by (simp_all add: is_ws_def)
  have a: "ahead ('' '' @ ?z) = Some ('' '' @ ?z)" by (simp add: ahead_def ws)
  have z: "ws1 ('' '' @ ?z) = Some ?z" by (rule ws1_blank) (simp_all add: quoted_def ws)
  have o1: "kw ''or'' ?z = None" by (simp add: quoted_def kw_hd lower_chars)
  show ?thesis
  proof (cases "op1 = ''update''")
    case True
    have h: "statement_head op1 @ ?z = ''UPDATE'' @ ('' '' @ ?z)" by (simp add: statement_head_def True)
    have "dropWhile is_ws (''UPDATE'' @ ('' '' @ ?z)) = ''UPDATE'' @ ('' '' @ ?z)" by (simp add: ws)
    moreover have "kw ''insert'' (''UPDATE'' @ ('' '' @ ?z)) = None" "kw ''replace'' (''UPDATE'' @ ('' '' @ ?z)) = None"
      by (simp_all add: kw_hd lower_chars)
    moreover have "or_clause ('' '' @ ?z) = None" unfolding or_clause_def z by (simp only: bind.simps o1)
    ultimately show ?thesis
      unfolding h write_head_def Let_def by (simp only: orelse_def bind.simps option.case kw_append [OF head_facts(3)] a)
  next
    case False
    show ?thesis
    proof (cases "op1 = ''delete''")
      case True
      have h: "statement_head op1 @ ?z = ''DELETE'' @ ('' '' @ (''FROM'' @ ('' '' @ ?z)))"
        by (simp add: statement_head_def True)
      have "dropWhile is_ws (''DELETE'' @ ('' '' @ (''FROM'' @ ('' '' @ ?z)))) = ''DELETE'' @ ('' '' @ (''FROM'' @ ('' '' @ ?z)))"
        by (simp add: ws)
      moreover have "kw ''insert'' (''DELETE'' @ x) = None" "kw ''replace'' (''DELETE'' @ x) = None"
        "kw ''update'' (''DELETE'' @ x) = None" for x
        by (simp_all add: kw_hd lower_chars)
      moreover have "then_kw ''from'' ('' '' @ (''FROM'' @ ('' '' @ ?z))) = Some ('' '' @ ?z)"
      proof -
        have "ws1 ('' '' @ (''FROM'' @ ('' '' @ ?z))) = Some (''FROM'' @ ('' '' @ ?z))"
          by (rule ws1_blank) (simp_all add: ws)
        then show ?thesis unfolding then_kw_def by (simp only: bind.simps kw_append [OF head_facts(5)] a)
      qed
      ultimately show ?thesis
        unfolding h write_head_def Let_def by (simp only: orelse_def bind.simps option.case kw_append [OF head_facts(4)])
    next
      case del: False
      have h: "statement_head op1 @ ?z = ''INSERT'' @ ('' '' @ (''INTO'' @ ('' '' @ ?z)))"
        by (simp add: statement_head_def False del)
      have "dropWhile is_ws (''INSERT'' @ ('' '' @ (''INTO'' @ ('' '' @ ?z)))) = ''INSERT'' @ ('' '' @ (''INTO'' @ ('' '' @ ?z)))"
        by (simp add: ws)
      moreover have w: "ws1 ('' '' @ (''INTO'' @ ('' '' @ ?z))) = Some (''INTO'' @ ('' '' @ ?z))"
        by (rule ws1_blank) (simp_all add: ws)
      moreover have "or_clause ('' '' @ (''INTO'' @ ('' '' @ ?z))) = None"
        unfolding or_clause_def w by (simp add: kw_hd lower_chars)
      moreover have "then_kw ''into'' ('' '' @ (''INTO'' @ ('' '' @ ?z))) = Some ('' '' @ ?z)"
        unfolding then_kw_def w by (simp only: bind.simps kw_append [OF head_facts(2)] a)
      ultimately show ?thesis
        unfolding h write_head_def Let_def by (simp only: orelse_def bind.simps option.case kw_append [OF head_facts(1)])
    qed
  qed
qed

text \<open>A compiled statement is its own terminal statement, and its target is the table it quotes.\<close>

lemma compiled_terminal:
  assumes "plain_text (statement_head op1 @ z)"
  shows "terminal_statement (statement_head op1 @ z) = statement_head op1 @ z"
proof -
  let ?sql = "statement_head op1 @ z"
  have ws: "\<not> is_ws (CHR ''I'')" "\<not> is_ws (CHR ''U'')" "\<not> is_ws (CHR ''D'')" by (simp_all add: is_ws_def)
  obtain c r where c: "?sql = c # r" "c \<in> {CHR ''I'', CHR ''U'', CHR ''D''}"
    by (cases "op1 = ''update''"; cases "op1 = ''delete''") (auto simp: statement_head_def)
  have hd: "\<not> is_ws c" "lower_char c \<noteq> CHR ''w''" "c \<noteq> CHR ''-''" "c \<noteq> CHR ''/''"
    using c(2) ws by (auto simp: lower_chars)
  have "\<not> starts_with_word ?sql" by (simp add: starts_with_word_def c(1) hd kw_hd)
  moreover have "stripLeadingComments ?sql = ?sql" by (rule strip_fixed) (simp_all add: c(1) hd starts_def)
  ultimately show ?thesis by (simp add: terminal_statement_def strip_plain [OF assms] skipLeadingCte_def)
qed

lemma compiled_target:
  assumes "IDENTIFIER_RE t" "plain_text (statement_head op1 @ quoted t @ '' '' @ y)" "y \<noteq> []" "\<not> is_ws (hd y)" "hd y \<noteq> CHR ''.''"
  shows "mutationWriteTarget (statement_head op1 @ quoted t @ '' '' @ y) = Some (toLowerCase t)"
proof -
  have dy: "dropWhile is_ws ('' '' @ y) = y" using assms(3,4) by (cases y) (simp_all add: is_ws_def)
  have nd: "\<not> starts ''.'' y" using assms(3,5) by (cases y) (simp_all add: starts_def)
  show ?thesis
    unfolding mutationWriteTarget_def compiled_terminal [OF assms(2)] write_head_compiled [OF assms(1)] option.case
      table_token(1) [OF assms(1)] prod.case Let_def dy
    by (simp only: nd if_False table_token(2) [OF assms(1)])
qed

lemma compiled_kind:
  assumes "plain_text (statement_head op1 @ z)"
  shows "isMutation (statement_head op1 @ z)" "isDeleteStatement (statement_head op1 @ z) \<longleftrightarrow> op1 = ''delete''"
proof -
  let ?sql = "statement_head op1 @ z"
  note t = compiled_terminal [OF assms]
  consider (update) "op1 = ''update''" "?sql = ''UPDATE'' @ ('' '' @ z)"
    | (delete) "op1 = ''delete''" "?sql = ''DELETE'' @ ('' FROM '' @ z)"
    | (insert) "op1 \<noteq> ''delete''" "?sql = ''INSERT'' @ ('' INTO '' @ z)"
    by (cases "op1 = ''update''"; cases "op1 = ''delete''") (auto simp: statement_head_def)
  then have "(kw ''insert'' ?sql \<noteq> None \<or> kw ''update'' ?sql \<noteq> None \<or> kw ''delete'' ?sql \<noteq> None)
      \<and> (kw ''delete'' ?sql \<noteq> None \<longleftrightarrow> op1 = ''delete'')"
  proof cases
    case update
    have "kw ''delete'' ?sql = None" unfolding update(2) by (simp add: kw_hd lower_chars)
    then show ?thesis unfolding update(2) kw_append [OF head_facts(3)] using update(1) by simp
  next
    case delete
    show ?thesis unfolding delete(2) kw_append [OF head_facts(4)] using delete(1) by simp
  next
    case insert
    have "kw ''delete'' ?sql = None" unfolding insert(2) by (simp add: kw_hd lower_chars)
    then show ?thesis unfolding insert(2) kw_append [OF head_facts(1)] using insert(1) by simp
  qed
  then show "isMutation ?sql" "isDeleteStatement ?sql \<longleftrightarrow> op1 = ''delete''"
    unfolding isMutation_def isDeleteStatement_def t by (simp_all add: MUTATION_KEYWORDS_def) blast
qed

text \<open>
  C29: The classifier understands what the gateway compiles. The statement of every validated
  mutation over safe identifiers is classified as a mutation, as a delete exactly when the
  mutation is one, its write target is its own table, lower-cased, and the guard on internal
  tables fires exactly when that table is internal.
\<close>

theorem compiled_mutations_classified:
  assumes "validateMutation m pk = Inr ()" "IDENTIFIER_RE (sm_table m)" "IDENTIFIER_RE pk"
  shows "isMutation (sql_of m pk) \<and> (isDeleteStatement (sql_of m pk) \<longleftrightarrow> sm_op m = ''delete'')
    \<and> mutationWriteTarget (sql_of m pk) = Some (toLowerCase (sm_table m))
    \<and> (mutationTargetIsInternal (sql_of m pk) \<longleftrightarrow> isInternalTableName (toLowerCase (sm_table m)))"
proof -
  obtain y where y: "sql_of m pk = statement_head (sm_op m) @ quoted (sm_table m) @ '' '' @ y" "y \<noteq> []"
    "\<not> is_ws (hd y)" "hd y \<noteq> CHR ''.''" "plain_text (sql_of m pk)"
    using compiled_form [OF assms] by blast
  note plain = y(5) [unfolded y(1)]
  show ?thesis
    unfolding y(1) mutationTargetIsInternal_def
    using compiled_kind [OF plain] compiled_target [OF assms(2) plain y(2-4)] by simp
qed

theorem compiled_mutations_classified_witness:
  "isMutation (sql_of sample_update ''w_id'') \<and> \<not> isDeleteStatement (sql_of sample_update ''w_id'')
   \<and> mutationWriteTarget (sql_of sample_update ''w_id'') = Some (toLowerCase ''stock'')"
  using compiled_mutations_classified [OF sample_update_valid] by (simp add: sample_update_def)

text \<open>
  A common table expression whose name is quoted and not separated from WITH is not skipped: the
  keyword expression wants white space behind WITH, so the loop reads WITH itself as the name and
  bails out. The delete behind it is classified as a read.
\<close>

theorem quoted_cte_name_hides_delete:
  "\<not> isMutation (''WITH'' @ quoted ''x'' @ '' AS (SELECT 1) DELETE FROM row_locks'')
   \<and> mutationTargetIsInternal (''WITH '' @ quoted ''x'' @ '' AS (SELECT 1) DELETE FROM row_locks'')"
  by code_simp

end
