(* ===== verification/ShardState.thy ===== *)
theory ShardState
  imports ParticipantContract SqlSafety
begin

text \<open>
  The state of one shard (\<open>ShardDO\<close>, \<open>src/shard.ts\<close>) as far as two-phase commit reads or
  writes it: the tenant tables, and the bookkeeping tables one record per row. The SQL engine is a
  parameter of every definition that runs tenant SQL: from the statement, its parameters and the
  tenant tables it gives the error message, or the new tables and what \<open>changes()\<close> then says.
  Tenant SQL is compiled by the gateway from a structured mutation, so it does not touch the
  bookkeeping tables. JSON columns hold the values they were written from; times are milliseconds
  (the ISO texts in the columns order like them).
\<close>

section \<open>Rows\<close>

type_synonym 'db sql_engine = "string \<Rightarrow> jval list \<Rightarrow> 'db \<Rightarrow> string + ('db \<times> nat)"

text \<open>The intents of a prepare request.\<close>

record prepare_intent =
  pi_sql :: string
  pi_params :: "jval list option"
  pi_tenantId :: string
  pi_table :: string
  pi_partitionKey :: string
  pi_vbucket :: "int option"
  pi_op :: "string option"
  pi_mirror :: "string option"
  pi_extra :: "(string \<times> jval) list"

datatype intent_status = Prepared | Committed | Aborted

record pending_intent =
  pd_tx :: string
  pd_seq :: nat
  pd_sql :: string
  pd_params :: "jval list"
  pd_status :: intent_status
  pd_lock_keys :: "string list"
  pd_prepared_at :: int
  pd_resolved_at :: "int option"
  pd_tenant :: "string option"
  pd_table :: "string option"
  pd_partition_key :: "string option"
  pd_vbucket :: "int option"
  pd_op :: "string option"
  pd_mirror :: "string option"
  pd_protocol :: int
  pd_epoch :: int
  pd_hash :: string

record row_lock =
  lk_key :: string
  lk_tx :: string
  lk_acquired_at :: int

record tombstone_row =
  ts_tx :: string
  ts_protocol :: int
  ts_format :: int
  ts_epoch :: int
  ts_decision :: string
  ts_hash :: string
  ts_decided_at :: int
  ts_deadline :: int

record row_owner =
  ro_table :: string
  ro_partition_key :: string
  ro_tenant :: string
  ro_vbucket :: int
  ro_updated_at :: int

record mirror_job =
  mj_target :: string
  mj_sql :: string
  mj_params :: "jval list"
  mj_request_id :: string
  mj_vbucket :: int
  mj_tenant :: string
  mj_table :: string
  mj_partition_key :: string
  mj_client_request_id :: "string option"
  mj_next_attempt_at :: int
  mj_attempt_count :: nat
  mj_created_at :: int

record prepare_marker =
  pm_tx :: string
  pm_bookmark :: string
  pm_recorded_at :: int

record 'db shard =
  sh_db :: 'db
  sh_pending :: "pending_intent list"
  sh_locks :: "row_lock list"
  sh_tombstones :: "tombstone_row list"
  sh_owners :: "row_owner list"
  sh_mirror :: "mirror_job list"
  sh_markers :: "prepare_marker list"
  sh_fenced_vbuckets :: "int list"
  sh_fenced_rings :: "string list"
  sh_alarm :: "int option"

definition RESERVED_REQUEST_ID_PREFIX :: string where
  "RESERVED_REQUEST_ID_PREFIX = ''__cf:''"

definition PENDING_INTENT_TTL_MS :: int where
  "PENDING_INTENT_TTL_MS = 5 * 60 * 1000"

definition MIRROR_JOB_BASE_DELAY_MS :: int where
  "MIRROR_JOB_BASE_DELAY_MS = 1000"

definition PARTICIPANT_TOMBSTONE_RETENTION_MS :: int where
  "PARTICIPANT_TOMBSTONE_RETENTION_MS = PARTICIPANT_TOMBSTONE_RETENTION_DAYS * 24 * 60 * 60 * 1000"

section \<open>Queries\<close>

definition tombstone_json :: "tombstone_row \<Rightarrow> jval" where
  "tombstone_json t = JObj
     [(''tx_id'', JStr (ts_tx t)), (''protocol_version'', jint (ts_protocol t)),
      (''format_version'', jint (ts_format t)), (''highest_epoch'', jint (ts_epoch t)),
      (''decision'', JStr (ts_decision t)), (''operation_hash'', JStr (ts_hash t)),
      (''decided_at'', JStr (toISOString (ts_decided_at t))),
      (''retention_deadline'', JStr (toISOString (ts_deadline t)))]"

definition tombstone :: "'db shard \<Rightarrow> string \<Rightarrow> tx_code + tombstone_row option" where
  "tombstone st tx =
     (case tbl_get ts_tx tx (sh_tombstones st) of None \<Rightarrow> Inr None
      | Some t \<Rightarrow> and_then (validateParticipantTombstone (tombstone_json t)) (\<lambda>_. Inr (Some t)))"

text \<open>\<open>storedIntentIdentity\<close>: the rows of a transaction in the order of their sequence.\<close>

definition storedIntentIdentity :: "'db shard \<Rightarrow> string \<Rightarrow> pending_intent list" where
  "storedIntentIdentity st tx = sort_key pd_seq (filter (\<lambda>r. pd_tx r = tx) (sh_pending st))"

definition pendingMetadata :: "'db shard \<Rightarrow> string \<Rightarrow> pending_intent option" where
  "pendingMetadata st tx = (case storedIntentIdentity st tx of [] \<Rightarrow> None | r # rs \<Rightarrow> Some r)"

definition unadopted :: "pending_intent \<Rightarrow> bool" where
  "unadopted r \<longleftrightarrow> pd_protocol r = 0 \<and> pd_hash r = []"

text \<open>Both DELETE statements that forget a transaction's intents.\<close>

definition forget_intents :: "string \<Rightarrow> 'db shard \<Rightarrow> 'db shard" where
  "forget_intents tx st = st
     \<lparr>sh_pending := filter (\<lambda>r. pd_tx r \<noteq> tx) (sh_pending st),
      sh_locks := filter (\<lambda>l. lk_tx l \<noteq> tx) (sh_locks st)\<rparr>"

section \<open>Fences\<close>

definition handleFenceVbucket :: "int \<Rightarrow> 'db shard \<Rightarrow> 'db shard" where
  "handleFenceVbucket vb st = st\<lparr>sh_fenced_vbuckets := List.insert vb (sh_fenced_vbuckets st)\<rparr>"

definition handleUnfenceVbucket :: "int \<Rightarrow> 'db shard \<Rightarrow> 'db shard" where
  "handleUnfenceVbucket vb st = st\<lparr>sh_fenced_vbuckets := removeAll vb (sh_fenced_vbuckets st)\<rparr>"

definition handleFenceIndexRing :: "string \<Rightarrow> 'db shard \<Rightarrow> 'db shard" where
  "handleFenceIndexRing ix st = st\<lparr>sh_fenced_rings := List.insert ix (sh_fenced_rings st)\<rparr>"

definition handleUnfenceIndexRing :: "string \<Rightarrow> 'db shard \<Rightarrow> 'db shard" where
  "handleUnfenceIndexRing ix st = st\<lparr>sh_fenced_rings := removeAll ix (sh_fenced_rings st)\<rparr>"

section \<open>Provenance and mirrors\<close>

definition upsertRowOwner :: "string \<Rightarrow> string \<Rightarrow> string \<Rightarrow> int \<Rightarrow> int \<Rightarrow> 'db shard \<Rightarrow> 'db shard" where
  "upsertRowOwner table partitionKey tenantId vbucket updatedAt st = st\<lparr>sh_owners :=
     tbl_put (\<lambda>o1. (ro_table o1, ro_partition_key o1))
       \<lparr>ro_table = table, ro_partition_key = partitionKey, ro_tenant = tenantId, ro_vbucket = vbucket,
        ro_updated_at = updatedAt\<rparr> (sh_owners st)\<rparr>"

definition writeOrDeleteProvenance ::
  "int \<Rightarrow> string \<Rightarrow> string \<Rightarrow> string \<Rightarrow> string \<Rightarrow> int \<Rightarrow> 'db shard \<Rightarrow> 'db shard" where
  "writeOrDeleteProvenance now sql table partitionKey tenantId vbucket st =
     (if isDeleteStatement sql
      then st\<lparr>sh_owners := tbl_del (\<lambda>o1. (ro_table o1, ro_partition_key o1)) (table, partitionKey) (sh_owners st)\<rparr>
      else upsertRowOwner table partitionKey tenantId vbucket now st)"

definition enqueueMirrorJob ::
  "int \<Rightarrow> string \<Rightarrow> string \<Rightarrow> jval list \<Rightarrow> string \<Rightarrow> int \<Rightarrow> string \<Rightarrow> string \<Rightarrow> string \<Rightarrow> string option
   \<Rightarrow> 'db shard \<Rightarrow> 'db shard" where
  "enqueueMirrorJob now target sql params requestId vbucket tenantId table partitionKey clientRequestId st =
     st\<lparr>sh_mirror := sh_mirror st @
       [\<lparr>mj_target = target, mj_sql = sql, mj_params = params, mj_request_id = requestId, mj_vbucket = vbucket,
         mj_tenant = tenantId, mj_table = table, mj_partition_key = partitionKey,
         mj_client_request_id = clientRequestId, mj_next_attempt_at = now, mj_attempt_count = 0,
         mj_created_at = now\<rparr>]\<rparr>"

definition scheduleMirrorAlarmSoon :: "int \<Rightarrow> 'db shard \<Rightarrow> 'db shard" where
  "scheduleMirrorAlarmSoon now st =
     (let retrySoon = now + MIRROR_JOB_BASE_DELAY_MS
      in case sh_alarm st of None \<Rightarrow> st\<lparr>sh_alarm := Some retrySoon\<rparr>
         | Some existing \<Rightarrow> if existing > retrySoon then st\<lparr>sh_alarm := Some retrySoon\<rparr> else st)"

section \<open>Messages\<close>

text \<open>\<open>ParticipantPayload\<close> after validation; \<open>mg_legacy\<close> marks the unversioned wire format.\<close>

record payload =
  mg_tx :: string
  mg_epoch :: int
  mg_phase :: string
  mg_hash :: string
  mg_legacy :: bool

definition payload_json :: "payload \<Rightarrow> jval" where
  "payload_json m = JObj
     [(''protocol_version'', jint CURRENT_PROTOCOL_VERSION), (''tx_id'', JStr (mg_tx m)),
      (''epoch'', jint (mg_epoch m)), (''phase'', JStr (mg_phase m)), (''operation_hash'', JStr (mg_hash m))]"

text \<open>
  A typed intent as the JSON value it was parsed from: the fields of its type and \<open>pi_extra\<close>, the
  others a request may carry, which the code never reads but hashes with the rest.
\<close>

definition opt_field :: "string \<Rightarrow> ('a \<Rightarrow> jval) \<Rightarrow> 'a option \<Rightarrow> (string \<times> jval) list" where
  "opt_field k f v = (case v of None \<Rightarrow> [] | Some a \<Rightarrow> [(k, f a)])"

definition intent_json :: "prepare_intent \<Rightarrow> jval" where
  "intent_json i = JObj ([(''sql'', JStr (pi_sql i))] @ opt_field ''params'' JArr (pi_params i)
     @ [(''tenantId'', JStr (pi_tenantId i)), (''table'', JStr (pi_table i)),
        (''partitionKey'', JStr (pi_partitionKey i))]
     @ opt_field ''vbucket'' jint (pi_vbucket i) @ opt_field ''op'' JStr (pi_op i)
     @ opt_field ''mirrorTargetShardId'' JStr (pi_mirror i) @ pi_extra i)"

definition versioned_payload :: "jval \<Rightarrow> string \<Rightarrow> tx_code + payload" where
  "versioned_payload raw phase =
     (let message = JObj (map (\<lambda>k. (k, jget raw k))
                      [''protocol_version'', ''tx_id'', ''epoch'', ''phase'', ''operation_hash''])
      in and_then (validateParticipantPhaseMessage message)
           (\<lambda>_. if jget message ''phase'' \<noteq> JStr phase then Inl TX_DECISION_CONFLICT
                else Inr \<lparr>mg_tx = str_of (jget raw ''tx_id''), mg_epoch = int_of (jget raw ''epoch''),
                          mg_phase = phase, mg_hash = str_of (jget raw ''operation_hash''), mg_legacy = False\<rparr>))"

definition legacy_payload ::
  "digest_fn \<Rightarrow> 'db shard \<Rightarrow> jval \<Rightarrow> string \<Rightarrow> prepare_intent list option \<Rightarrow> tx_code + payload" where
  "legacy_payload dg st raw phase intents =
     (let legacyTxId = str_of (jget raw ''coordinatorTxId'')
      in if legacyTxId = [] then Inl TX_ENVELOPE_INVALID
         else and_then (tombstone st legacyTxId)
           (\<lambda>durable. let pending = pendingMetadata st legacyTxId;
                terminal = (case pending of None \<Rightarrow> False
                  | Some p \<Rightarrow> unadopted p \<and> (phase = ''commit'' \<or> phase = ''abort''));
                hash = (case durable of Some t \<Rightarrow> Inr (ts_hash t)
                  | None \<Rightarrow>
                      if terminal then hashCanonicalJson dg (JObj [(''kind'', JStr ''legacy-participant-terminal-v1''),
                                         (''tx_id'', JStr legacyTxId)])
                      else (case pending of Some p \<Rightarrow> Inr (pd_hash p)
                        | None \<Rightarrow> hashCanonicalJson dg (JArr (map intent_json (case intents of None \<Rightarrow> [] | Some is \<Rightarrow> is)))));
                epoch = (case durable of Some t \<Rightarrow> ts_epoch t
                  | None \<Rightarrow> (case pending of Some p \<Rightarrow> pd_epoch p | None \<Rightarrow> 1))
              in and_then hash (\<lambda>h. Inr \<lparr>mg_tx = legacyTxId, mg_epoch = epoch, mg_phase = phase, mg_hash = h,
                                          mg_legacy = True\<rparr>)))"

definition participantPayload ::
  "digest_fn \<Rightarrow> 'db shard \<Rightarrow> jval \<Rightarrow> string \<Rightarrow> prepare_intent list option \<Rightarrow> tx_code + payload" where
  "participantPayload dg st raw phase intents =
     (if jget raw ''protocol_version'' \<noteq> JUndef then versioned_payload raw phase
      else legacy_payload dg st raw phase intents)"

text \<open>The phases a decision refuses: a prepare, and the terminal phase of the other decision.\<close>

definition assertMessageCompatible :: "payload \<Rightarrow> 'db shard \<Rightarrow> tx_code + unit" where
  "assertMessageCompatible m st =
     and_then (tombstone st (mg_tx m))
       (\<lambda>durable. case durable of
          Some t \<Rightarrow> and_then (validateParticipantMessageAgainstTombstone (payload_json m) (tombstone_json t))
            (\<lambda>_. if mg_phase m = ''prepare''
                     \<or> (mg_phase m = ''commit'' \<and> ts_decision t \<noteq> ''commit'')
                     \<or> (mg_phase m = ''abort'' \<and> ts_decision t \<noteq> ''abort'')
                 then Inl TX_DECISION_CONFLICT else Inr ())
        | None \<Rightarrow> (case pendingMetadata st (mg_tx m) of None \<Rightarrow> Inr ()
            | Some p \<Rightarrow>
                if mg_epoch m < pd_epoch p then Inl TX_EPOCH_STALE
                else if mg_epoch m > pd_epoch p then Inl TX_EPOCH_CONFLICT
                else let bridge = mg_legacy m \<and> (mg_phase m = ''commit'' \<or> mg_phase m = ''abort'')
                       \<and> list_all (\<lambda>r. unadopted r \<and> pd_status r = Prepared) (storedIntentIdentity st (mg_tx m))
                     in if mg_hash m \<noteq> pd_hash p \<and> \<not> bridge then Inl TX_ENVELOPE_HASH_MISMATCH else Inr ()))"

text \<open>The tombstone of a decision taken now.\<close>

definition new_tombstone :: "payload \<Rightarrow> string \<Rightarrow> int \<Rightarrow> tombstone_row" where
  "new_tombstone m decision now =
     \<lparr>ts_tx = mg_tx m, ts_protocol = CURRENT_PROTOCOL_VERSION, ts_format = PARTICIPANT_TOMBSTONE_FORMAT_VERSION,
      ts_epoch = mg_epoch m, ts_decision = decision, ts_hash = mg_hash m, ts_decided_at = now,
      ts_deadline = now + PARTICIPANT_TOMBSTONE_RETENTION_MS\<rparr>"

definition persistTombstone :: "payload \<Rightarrow> string \<Rightarrow> int \<Rightarrow> 'db shard \<Rightarrow> tx_code + 'db shard" where
  "persistTombstone m decision now st =
     and_then (tombstone st (mg_tx m))
       (\<lambda>existing. case existing of
          Some t \<Rightarrow> and_then (validateParticipantMessageAgainstTombstone (payload_json m) (tombstone_json t))
            (\<lambda>_. if ts_decision t \<noteq> decision then Inl TX_DECISION_CONFLICT else Inr st)
        | None \<Rightarrow> (let t = new_tombstone m decision now
                   in and_then (validateParticipantTombstone (tombstone_json t))
                        (\<lambda>_. Inr (st\<lparr>sh_tombstones := sh_tombstones st @ [t]\<rparr>))))"

end
