(* ===== verification/ShardParticipant.thy ===== *)
theory ShardParticipant
  imports ShardState
begin

text \<open>
  The participant side of two-phase commit (\<open>src/shard.ts\<close>): prepare, commit, abort, recover and
  status, the application of committed intents, and the sweep that asks the coordinator about
  stale intents. A mutating handler holds the shard's mutation barrier across its awaits, so each
  is one step on the state; a \<open>transactionSync\<close> that throws leaves the state as it was.
\<close>

section \<open>Replies\<close>

datatype shard_reply =
    Missing_fields
  | Protocol_error tx_code
  | Vbucket_fenced int
  | Index_ring_fenced string
  | Participant_locked int
  | Guard_mismatch prepare_intent
  | Prepare_validation_failed string
  | Prepare_ok nat "string option"
  | Commit_ok
  | Already_resolved
  | Already_committed
  | Abort_ok
  | Legacy_discarded nat
  | Recovered string int
  | Tx_status bool "string option" string int "bool option"
  | Internal_error

text \<open>The response is a success.\<close>

fun reply_ok :: "shard_reply \<Rightarrow> bool" where
  "reply_ok (Prepare_ok _ _) = True"
| "reply_ok Commit_ok = True"
| "reply_ok Already_resolved = True"
| "reply_ok Abort_ok = True"
| "reply_ok (Legacy_discarded _) = True"
| "reply_ok (Recovered _ _) = True"
| "reply_ok (Tx_status _ _ _ _ _) = True"
| "reply_ok _ = False"

section \<open>Prepare\<close>

text \<open>
  The provider of bookmarks: whether the restore authority is bound, and what the two calls of
  \<open>getCurrentBookmark\<close> give, \<open>None\<close> when the call rejects.
\<close>

record bookmark_port =
  bp_bound :: bool
  bp_first :: "string option"
  bp_second :: "string option"

definition certifiedPrepareResponse ::
  "bookmark_port \<Rightarrow> int \<Rightarrow> string \<Rightarrow> nat \<Rightarrow> 'db shard \<Rightarrow> shard_reply \<times> 'db shard" where
  "certifiedPrepareResponse port now tx prepared st =
     (if \<not> bp_bound port then (Prepare_ok prepared None, st)
      else case bp_first port of None \<Rightarrow> (Internal_error, st)
        | Some preMarkerBookmark \<Rightarrow>
            (let st1 = (case tbl_get pm_tx tx (sh_markers st) of
                  Some _ \<Rightarrow> st
                | None \<Rightarrow> st\<lparr>sh_markers := sh_markers st @
                    [\<lparr>pm_tx = tx, pm_bookmark = preMarkerBookmark, pm_recorded_at = now\<rparr>]\<rparr>)
             in case bp_second port of None \<Rightarrow> (Internal_error, st1)
                | Some prepareBookmark \<Rightarrow> (Prepare_ok prepared (Some prepareBookmark), st1)))"

definition intent_params :: "prepare_intent \<Rightarrow> jval list" where
  "intent_params i = (case pi_params i of None \<Rightarrow> [] | Some ps \<Rightarrow> ps)"

definition intent_lock_key :: "prepare_intent \<Rightarrow> string" where
  "intent_lock_key i = rowKey (pi_tenantId i) (pi_table i) (pi_partitionKey i)"

text \<open>One stored row against one intent; stored locks are compared with the intent's only key.\<close>

definition same_canonical :: "jval \<Rightarrow> jval \<Rightarrow> bool" where
  "same_canonical a b \<longleftrightarrow> canonicalJson a = canonicalJson b"

definition intent_matches :: "pending_intent \<Rightarrow> nat \<Rightarrow> prepare_intent \<Rightarrow> bool" where
  "intent_matches r index i \<longleftrightarrow>
     pd_seq r = index \<and> pd_status r = Prepared \<and> pd_sql r = pi_sql i
     \<and> same_canonical (JArr (pd_params r)) (JArr (intent_params i))
     \<and> pd_lock_keys r = [intent_lock_key i]
     \<and> pd_tenant r = Some (pi_tenantId i) \<and> pd_table r = Some (pi_table i)
     \<and> pd_partition_key r = Some (pi_partitionKey i)
     \<and> pd_vbucket r = pi_vbucket i \<and> pd_op r = pi_op i \<and> pd_mirror r = pi_mirror i"

fun rows_match :: "nat \<Rightarrow> pending_intent list \<Rightarrow> prepare_intent list \<Rightarrow> bool" where
  "rows_match index [] [] = True"
| "rows_match index (r # rs) (i # is) = (intent_matches r index i \<and> rows_match (Suc index) rs is)"
| "rows_match index _ _ = False"

definition legacyIntentsSemanticallyMatch :: "pending_intent list \<Rightarrow> prepare_intent list \<Rightarrow> bool" where
  "legacyIntentsSemanticallyMatch stored intents \<longleftrightarrow>
     length stored = length intents \<and> stored \<noteq> [] \<and> rows_match 0 stored intents"

definition entirely_unadopted :: "pending_intent list \<Rightarrow> bool" where
  "entirely_unadopted stored \<longleftrightarrow> stored \<noteq> [] \<and> list_all unadopted stored"

definition adopt_row :: "payload \<Rightarrow> pending_intent \<Rightarrow> pending_intent" where
  "adopt_row m r =
     (if pd_tx r = mg_tx m \<and> unadopted r
      then r\<lparr>pd_protocol := CURRENT_PROTOCOL_VERSION, pd_epoch := mg_epoch m, pd_hash := mg_hash m\<rparr> else r)"

definition adoptLegacyPrepared ::
  "payload \<Rightarrow> prepare_intent list \<Rightarrow> 'db shard \<Rightarrow> tx_code + (nat \<times> 'db shard)" where
  "adoptLegacyPrepared m intents st =
     (let stored = storedIntentIdentity st (mg_tx m)
      in if \<not> entirely_unadopted stored \<or> \<not> legacyIntentsSemanticallyMatch stored intents
         then Inl TX_ENVELOPE_HASH_MISMATCH
         else Inr (length stored, st\<lparr>sh_pending := map (adopt_row m) (sh_pending st)\<rparr>))"

text \<open>The first fence, and the first lock of another transaction, in the order of the intents.\<close>

definition fenced_vbucket :: "'db shard \<Rightarrow> prepare_intent list \<Rightarrow> int option" where
  "fenced_vbucket st intents =
     Option.bind (find (\<lambda>i. case pi_vbucket i of None \<Rightarrow> False | Some vb \<Rightarrow> vb \<in> set (sh_fenced_vbuckets st)) intents)
       pi_vbucket"

definition fenced_ring :: "'db shard \<Rightarrow> prepare_intent list \<Rightarrow> string option" where
  "fenced_ring st intents =
     Option.bind (find (\<lambda>i. case indexNameFromSyntheticTable (pi_table i) of None \<Rightarrow> False
                            | Some ix \<Rightarrow> ix \<in> set (sh_fenced_rings st)) intents)
       (\<lambda>i. indexNameFromSyntheticTable (pi_table i))"

fun foreign_lock :: "'db shard \<Rightarrow> string \<Rightarrow> string list \<Rightarrow> row_lock option" where
  "foreign_lock st tx [] = None"
| "foreign_lock st tx (k # ks) =
     (case tbl_get lk_key k (sh_locks st) of
        Some l \<Rightarrow> if lk_tx l \<noteq> tx then Some l else foreign_lock st tx ks
      | None \<Rightarrow> foreign_lock st tx ks)"

text \<open>The validation pass; its transaction is rolled back whatever it finds.\<close>

datatype validation = Valid | Mismatch prepare_intent | Invalid string

definition guarded :: "prepare_intent \<Rightarrow> bool" where
  "guarded i \<longleftrightarrow> (pi_op i = Some ''update'' \<or> pi_op i = Some ''delete'') \<and> pi_vbucket i \<noteq> None"

fun validate_intents :: "'db sql_engine \<Rightarrow> prepare_intent list \<Rightarrow> 'db \<Rightarrow> validation" where
  "validate_intents sql [] db = Valid"
| "validate_intents sql (i # is) db =
     (case sql (pi_sql i) (intent_params i) db of
        Inl message \<Rightarrow> Invalid message
      | Inr (db', changed) \<Rightarrow>
          if guarded i \<and> changed = 0 then Mismatch i else validate_intents sql is db')"

definition prepared_row :: "payload \<Rightarrow> int \<Rightarrow> nat \<Rightarrow> prepare_intent \<Rightarrow> pending_intent" where
  "prepared_row m now seq i =
     \<lparr>pd_tx = mg_tx m, pd_seq = seq, pd_sql = pi_sql i, pd_params = intent_params i, pd_status = Prepared,
      pd_lock_keys = [intent_lock_key i], pd_prepared_at = now, pd_resolved_at = None,
      pd_tenant = Some (pi_tenantId i), pd_table = Some (pi_table i), pd_partition_key = Some (pi_partitionKey i),
      pd_vbucket = pi_vbucket i, pd_op = pi_op i, pd_mirror = pi_mirror i,
      pd_protocol = CURRENT_PROTOCOL_VERSION, pd_epoch = mg_epoch m, pd_hash = mg_hash m\<rparr>"

text \<open>The recording transaction: locks (INSERT OR IGNORE) and intents together.\<close>

definition add_lock :: "string \<Rightarrow> int \<Rightarrow> string \<Rightarrow> row_lock list \<Rightarrow> row_lock list" where
  "add_lock tx now k locks =
     (case tbl_get lk_key k locks of Some _ \<Rightarrow> locks
      | None \<Rightarrow> locks @ [\<lparr>lk_key = k, lk_tx = tx, lk_acquired_at = now\<rparr>])"

fun record_intents :: "payload \<Rightarrow> int \<Rightarrow> nat \<Rightarrow> prepare_intent list \<Rightarrow> 'db shard \<Rightarrow> 'db shard" where
  "record_intents m now seq [] st = st"
| "record_intents m now seq (i # is) st =
     record_intents m now (Suc seq) is
       (st\<lparr>sh_locks := add_lock (mg_tx m) now (intent_lock_key i) (sh_locks st),
           sh_pending := sh_pending st @ [prepared_row m now seq i]\<rparr>)"

text \<open>A first prepare of the transaction, once the message is compatible.\<close>

definition prepare_new ::
  "'db sql_engine \<Rightarrow> bookmark_port \<Rightarrow> int \<Rightarrow> payload \<Rightarrow> prepare_intent list \<Rightarrow> 'db shard
   \<Rightarrow> shard_reply \<times> 'db shard" where
  "prepare_new sql port now m intents st =
     (case fenced_vbucket st intents of Some vb \<Rightarrow> (Vbucket_fenced vb, st)
      | None \<Rightarrow>
     (case fenced_ring st intents of Some ix \<Rightarrow> (Index_ring_fenced ix, st)
      | None \<Rightarrow>
     (case foreign_lock st (mg_tx m) (map intent_lock_key intents) of
        Some l \<Rightarrow> (Participant_locked (max 0 (PENDING_INTENT_TTL_MS - (now - lk_acquired_at l))), st)
      | None \<Rightarrow>
     (case validate_intents sql intents (sh_db st) of
        Mismatch i \<Rightarrow> (Guard_mismatch i, st)
      | Invalid message \<Rightarrow> (Prepare_validation_failed message, st)
      | Valid \<Rightarrow> certifiedPrepareResponse port now (mg_tx m) (length intents) (record_intents m now 0 intents st)))))"

definition handlePrepare ::
  "digest_fn \<Rightarrow> 'db sql_engine \<Rightarrow> bookmark_port \<Rightarrow> int \<Rightarrow> jval \<Rightarrow> prepare_intent list option \<Rightarrow> 'db shard
   \<Rightarrow> shard_reply \<times> 'db shard" where
  "handlePrepare dg sql port now raw body_intents st =
     (case body_intents of None \<Rightarrow> (Missing_fields, st)
      | Some intents \<Rightarrow>
          if intents = [] then (Missing_fields, st)
          else case participantPayload dg st raw ''prepare'' (Some intents) of
            Inl e \<Rightarrow> (Protocol_error e, st)
          | Inr m \<Rightarrow>
              (let existing = storedIntentIdentity st (mg_tx m)
               in if existing \<noteq> [] \<and> entirely_unadopted existing then
                    if \<not> legacyIntentsSemanticallyMatch existing intents
                    then (Protocol_error TX_ENVELOPE_HASH_MISMATCH, st)
                    else if jget raw ''protocol_version'' \<noteq> JUndef then
                      (case adoptLegacyPrepared m intents st of
                         Inl e \<Rightarrow> (Protocol_error e, st)
                       | Inr (adopted, st1) \<Rightarrow> certifiedPrepareResponse port now (mg_tx m) adopted st1)
                    else certifiedPrepareResponse port now (mg_tx m) (length existing) st
                  else case assertMessageCompatible m st of
                    Inl e \<Rightarrow> (Protocol_error e, st)
                  | Inr _ \<Rightarrow>
                      if existing \<noteq> [] then certifiedPrepareResponse port now (mg_tx m) (length existing) st
                      else prepare_new sql port now m intents st))"

section \<open>Commit\<close>

definition truthy :: "string option \<Rightarrow> bool" where
  "truthy s \<longleftrightarrow> (case s of None \<Rightarrow> False | Some t \<Rightarrow> t \<noteq> [])"

definition base_row :: "pending_intent \<Rightarrow> bool" where
  "base_row r \<longleftrightarrow> truthy (pd_op r) \<and> pd_vbucket r \<noteq> None \<and> truthy (pd_table r)
     \<and> truthy (pd_partition_key r) \<and> truthy (pd_tenant r)"

definition mirror_request_id :: "string \<Rightarrow> nat \<Rightarrow> string" where
  "mirror_request_id tx seq =
     RESERVED_REQUEST_ID_PREFIX @ ''mirror:tx:['' @ join_comma [json_quote tx, int_text (int seq)] @ '']''"

definition after_write :: "int \<Rightarrow> string \<Rightarrow> pending_intent \<Rightarrow> 'db shard \<Rightarrow> 'db shard \<times> bool" where
  "after_write now tx r st =
     (let vb = the (pd_vbucket r); table = the (pd_table r); pk = the (pd_partition_key r); tenant = the (pd_tenant r);
          st1 = writeOrDeleteProvenance now (pd_sql r) table pk tenant vb st
      in if truthy (pd_mirror r)
         then (enqueueMirrorJob now (the (pd_mirror r)) (pd_sql r) (pd_params r) (mirror_request_id tx (pd_seq r))
                 vb tenant table pk None st1, True)
         else (st1, False))"

fun apply_rows ::
  "'db sql_engine \<Rightarrow> int \<Rightarrow> string \<Rightarrow> pending_intent list \<Rightarrow> bool \<Rightarrow> 'db shard \<Rightarrow> string + ('db shard \<times> bool)" where
  "apply_rows sql now tx [] enqueued st = Inr (st, enqueued)"
| "apply_rows sql now tx (r # rs) enqueued st =
     (case sql (pd_sql r) (pd_params r) (sh_db st) of
        Inl message \<Rightarrow> Inl message
      | Inr (db', rowsAffected) \<Rightarrow>
          (let st1 = st\<lparr>sh_db := db'\<rparr>
           in if 0 < rowsAffected \<and> base_row r
              then (let (st2, e) = after_write now tx r st1 in apply_rows sql now tx rs (enqueued \<or> e) st2)
              else apply_rows sql now tx rs enqueued st1))"

definition mark_committed :: "int \<Rightarrow> string \<Rightarrow> 'db shard \<Rightarrow> 'db shard" where
  "mark_committed now tx st = st
     \<lparr>sh_pending := map (\<lambda>r. if pd_tx r = tx then r\<lparr>pd_status := Committed, pd_resolved_at := Some now\<rparr> else r)
        (sh_pending st),
      sh_locks := filter (\<lambda>l. lk_tx l \<noteq> tx) (sh_locks st)\<rparr>"

definition applyCommittedIntents ::
  "'db sql_engine \<Rightarrow> int \<Rightarrow> string \<Rightarrow> pending_intent list \<Rightarrow> 'db shard \<Rightarrow> string + ('db shard \<times> bool)" where
  "applyCommittedIntents sql now tx intents st =
     (case apply_rows sql now tx intents False st of
        Inl message \<Rightarrow> Inl message
      | Inr (st1, enqueued) \<Rightarrow> Inr (mark_committed now tx st1, enqueued))"

text \<open>Apply and re-arm the alarm; a statement that throws rolls back and escapes the handler.\<close>

definition apply_now ::
  "'db sql_engine \<Rightarrow> int \<Rightarrow> string \<Rightarrow> 'db shard \<Rightarrow> string + 'db shard" where
  "apply_now sql now tx st =
     (case applyCommittedIntents sql now tx (storedIntentIdentity st tx) st of
        Inl message \<Rightarrow> Inl message
      | Inr (st1, enqueued) \<Rightarrow> Inr (if enqueued then scheduleMirrorAlarmSoon now st1 else st1))"

definition handleCommit ::
  "digest_fn \<Rightarrow> 'db sql_engine \<Rightarrow> int \<Rightarrow> jval \<Rightarrow> 'db shard \<Rightarrow> shard_reply \<times> 'db shard" where
  "handleCommit dg sql now raw st =
     (case participantPayload dg st raw ''commit'' None of
        Inl e \<Rightarrow> (Protocol_error e, st)
      | Inr m \<Rightarrow>
     (case assertMessageCompatible m st of Inl e \<Rightarrow> (Protocol_error e, st)
      | Inr _ \<Rightarrow>
     (case storedIntentIdentity st (mg_tx m) of
        [] \<Rightarrow> (case tombstone st (mg_tx m) of Inl e \<Rightarrow> (Protocol_error e, st)
              | Inr (Some t) \<Rightarrow> if ts_decision t = ''commit'' then (Already_resolved, st)
                               else (Protocol_error TX_DECISION_UNAVAILABLE, st)
              | Inr None \<Rightarrow> (Protocol_error TX_DECISION_UNAVAILABLE, st))
      | r # rs \<Rightarrow>
          if pd_status r = Committed then
            (case persistTombstone m ''commit'' now st of
               Inl e \<Rightarrow> (Protocol_error e, st) | Inr st1 \<Rightarrow> (Already_resolved, st1))
          else if pd_status r = Aborted then (Protocol_error TX_DECISION_CONFLICT, st)
          else case persistTombstone m ''commit'' now st of
               Inl e \<Rightarrow> (Protocol_error e, st)
             | Inr st1 \<Rightarrow> (case apply_now sql now (mg_tx m) st1 of
                            Inl message \<Rightarrow> (Internal_error, st1) | Inr st2 \<Rightarrow> (Commit_ok, st2)))))"

section \<open>Abort\<close>

definition discardUnadoptedLegacy :: "payload \<Rightarrow> int \<Rightarrow> 'db shard \<Rightarrow> tx_code + (nat \<times> 'db shard)" where
  "discardUnadoptedLegacy m now st =
     (let t = new_tombstone m ''abort'' now
      in and_then (validateParticipantTombstone (tombstone_json t))
        (\<lambda>_. let stored = storedIntentIdentity st (mg_tx m)
              in if stored = [] \<or> \<not> list_all (\<lambda>r. unadopted r \<and> pd_status r = Prepared) stored
                 then Inl TX_DECISION_CONFLICT
                 else Inr (length stored,
                   forget_intents (mg_tx m) (st\<lparr>sh_tombstones := sh_tombstones st @ [t]\<rparr>))))"

definition handleAbort ::
  "digest_fn \<Rightarrow> int \<Rightarrow> jval \<Rightarrow> 'db shard \<Rightarrow> shard_reply \<times> 'db shard" where
  "handleAbort dg now raw st =
     (case participantPayload dg st raw ''abort'' None of
        Inl e \<Rightarrow> (Protocol_error e, st)
      | Inr m \<Rightarrow>
     (let pending = storedIntentIdentity st (mg_tx m);
          predecision = (if jget raw ''legacy_predecision_abort'' = JBool True
            then and_then (tombstone st (mg_tx m)) (\<lambda>t. Inr (t = None \<and> entirely_unadopted pending)) else Inr False)
      in case predecision of Inl e \<Rightarrow> (Protocol_error e, st)
       | Inr True \<Rightarrow> (case discardUnadoptedLegacy m now st of
                        Inl e \<Rightarrow> (Protocol_error e, st) | Inr (n, st1) \<Rightarrow> (Legacy_discarded n, st1))
       | Inr False \<Rightarrow>
     (case assertMessageCompatible m st of Inl e \<Rightarrow> (Protocol_error e, st)
      | Inr _ \<Rightarrow>
          if pending = [] then
            (case tombstone st (mg_tx m) of Inl e \<Rightarrow> (Protocol_error e, st)
             | Inr durable \<Rightarrow>
                 if map_option ts_decision durable = Some ''abort'' then (Already_resolved, st)
                 else case persistTombstone m ''abort'' now st of
                        Inl e \<Rightarrow> (Protocol_error e, st) | Inr st1 \<Rightarrow> (Already_resolved, st1))
          else if list_ex (\<lambda>r. pd_status r = Committed) pending then (Already_committed, st)
          else case persistTombstone m ''abort'' now st of
                 Inl e \<Rightarrow> (Protocol_error e, st)
               | Inr st1 \<Rightarrow> (Abort_ok, forget_intents (mg_tx m) st1))))"

section \<open>Status and recovery\<close>

fun status_text :: "intent_status \<Rightarrow> string" where
  "status_text Prepared = ''prepared''"
| "status_text Committed = ''committed''"
| "status_text Aborted = ''aborted''"

definition handleTxStatus :: "digest_fn \<Rightarrow> jval \<Rightarrow> 'db shard \<Rightarrow> shard_reply" where
  "handleTxStatus dg raw st =
     (case participantPayload dg st raw ''status'' None of
        Inl e \<Rightarrow> Protocol_error e
      | Inr m \<Rightarrow>
     (case assertMessageCompatible m st of Inl e \<Rightarrow> Protocol_error e
      | Inr _ \<Rightarrow>
     (case tombstone st (mg_tx m) of Inl e \<Rightarrow> Protocol_error e
      | Inr durable \<Rightarrow>
          (let present = (if is_str (jget raw ''prepare_bookmark'')
                          then Some (tbl_get pm_tx (mg_tx m) (sh_markers st) \<noteq> None) else None)
           in case storedIntentIdentity st (mg_tx m) of
                [] \<Rightarrow> (case durable of None \<Rightarrow> Tx_status False None ''undecided'' 0 present
                      | Some t \<Rightarrow> Tx_status True (Some (if ts_decision t = ''commit'' then ''committed'' else ''aborted''))
                                    (ts_decision t) (ts_epoch t) present)
              | r # rs \<Rightarrow> Tx_status True (Some (status_text (pd_status r)))
                            (case durable of None \<Rightarrow> ''undecided'' | Some t \<Rightarrow> ts_decision t) (mg_epoch m) present))))"

definition handleRecover ::
  "digest_fn \<Rightarrow> 'db sql_engine \<Rightarrow> int \<Rightarrow> jval \<Rightarrow> 'db shard \<Rightarrow> shard_reply \<times> 'db shard" where
  "handleRecover dg sql now raw st =
     (case participantPayload dg st raw ''recover'' None of
        Inl e \<Rightarrow> (Protocol_error e, st)
      | Inr m \<Rightarrow>
     (case assertMessageCompatible m st of Inl e \<Rightarrow> (Protocol_error e, st)
      | Inr _ \<Rightarrow>
     (case tombstone st (mg_tx m) of Inl e \<Rightarrow> (Protocol_error e, st)
      | Inr durable \<Rightarrow>
          (let requested = jget raw ''decision'';
               decision = (case durable of Some t \<Rightarrow> Some (ts_decision t)
                 | None \<Rightarrow> if requested = JStr ''commit'' \<or> requested = JStr ''abort''
                           then Some (str_of requested) else None)
           in case decision of None \<Rightarrow> (Protocol_error TX_DECISION_UNAVAILABLE, st)
              | Some d \<Rightarrow>
                  (case persistTombstone m d now st of Inl e \<Rightarrow> (Protocol_error e, st)
                   | Inr st1 \<Rightarrow>
                       if d = ''abort'' then (Recovered ''aborted'' (mg_epoch m), forget_intents (mg_tx m) st1)
                       else (case storedIntentIdentity st1 (mg_tx m) of
                               [] \<Rightarrow> (Recovered ''committed'' (mg_epoch m), st1)
                             | r # rs \<Rightarrow>
                                 if pd_status r = Committed then (Recovered ''committed'' (mg_epoch m), st1)
                                 else case apply_now sql now (mg_tx m) st1 of
                                        Inl message \<Rightarrow> (Internal_error, st1)
                                      | Inr st2 \<Rightarrow> (Recovered ''committed'' (mg_epoch m), st2)))))))"

text \<open>What the coordinator's status answer means; \<open>None\<close> is a failed or rejected call.\<close>

datatype coordinator_decision = CD_committed | CD_aborted | CD_pending | CD_unreachable

record recovery =
  rc_decision :: coordinator_decision
  rc_epoch :: "int option"
  rc_hash :: "string option"

definition queryCoordinatorDecision :: "jval option \<Rightarrow> recovery" where
  "queryCoordinatorDecision answer =
     (case answer of None \<Rightarrow> \<lparr>rc_decision = CD_unreachable, rc_epoch = None, rc_hash = None\<rparr>
      | Some body \<Rightarrow>
          if jget body ''found'' \<noteq> JBool True
          then \<lparr>rc_decision = CD_unreachable, rc_epoch = None, rc_hash = None\<rparr>
          else (let status = jget body ''status'';
                    hash = (if sha256_hex_val (jget body ''operationHash'') then Some (str_of (jget body ''operationHash'')) else None);
                    epoch = (if jget body ''epoch'' = JUndef \<or> jget body ''epoch'' = JNull then None else Some (int_of (jget body ''epoch'')));
                    result = (\<lambda>d. \<lparr>rc_decision = d, rc_epoch = epoch, rc_hash = hash\<rparr>)
                in if jget body ''commitAuthorized'' = JBool True \<or> status = JStr ''committed'' then result CD_committed
                   else if status = JStr ''abort_decided'' \<or> status = JStr ''aborting'' \<or> status = JStr ''aborted''
                     then result CD_aborted
                   else if jget body ''discarded_by_restore'' = JBool True then result CD_aborted
                   else result CD_pending))"

definition recovery_payload :: "string \<Rightarrow> recovery \<Rightarrow> pending_intent \<Rightarrow> payload" where
  "recovery_payload tx rc p =
     \<lparr>mg_tx = tx, mg_epoch = (case rc_epoch rc of None \<Rightarrow> pd_epoch p | Some e \<Rightarrow> e), mg_phase = ''recover'',
      mg_hash = (case rc_hash rc of None \<Rightarrow> pd_hash p | Some h \<Rightarrow> h), mg_legacy = False\<rparr>"

text \<open>One stale transaction of the sweep: what throws is logged and left for the next tick.\<close>

definition sweep_one ::
  "'db sql_engine \<Rightarrow> int \<Rightarrow> (string \<Rightarrow> jval option) \<Rightarrow> string \<Rightarrow> 'db shard \<Rightarrow> 'db shard" where
  "sweep_one sql now ask tx st =
     (let rc = queryCoordinatorDecision (ask tx)
      in case pendingMetadata st tx of None \<Rightarrow> st
         | Some p \<Rightarrow>
             if rc_decision rc = CD_committed then
               (case persistTombstone (recovery_payload tx rc p) ''commit'' now st of Inl e \<Rightarrow> st
                | Inr st1 \<Rightarrow> (case apply_now sql now tx st1 of Inl message \<Rightarrow> st1 | Inr st2 \<Rightarrow> st2))
             else if rc_decision rc = CD_aborted then
               (case persistTombstone (recovery_payload tx rc p) ''abort'' now st of Inl e \<Rightarrow> st
                | Inr st1 \<Rightarrow> forget_intents tx st1)
             else st)"

definition stale_txs :: "int \<Rightarrow> 'db shard \<Rightarrow> string list" where
  "stale_txs now st =
     remdups (map pd_tx (filter (\<lambda>r. pd_status r = Prepared \<and> pd_prepared_at r < now - PENDING_INTENT_TTL_MS)
       (sh_pending st)))"

definition sweepStalePendingIntents ::
  "'db sql_engine \<Rightarrow> int \<Rightarrow> (string \<Rightarrow> jval option) \<Rightarrow> 'db shard \<Rightarrow> 'db shard" where
  "sweepStalePendingIntents sql now ask st =
     foldl (\<lambda>s tx. sweep_one sql now ask tx s) st (stale_txs now st)"

text \<open>The alarm drops tombstones whose retention is over before it sweeps.\<close>

definition prune_tombstones :: "int \<Rightarrow> 'db shard \<Rightarrow> 'db shard" where
  "prune_tombstones now st = st\<lparr>sh_tombstones := filter (\<lambda>t. \<not> ts_deadline t < now) (sh_tombstones st)\<rparr>"

section \<open>Counts\<close>

definition handlePendingIntentCount :: "'db shard \<Rightarrow> nat" where
  "handlePendingIntentCount st =
     length (remdups (map pd_tx (filter (\<lambda>r. pd_status r = Prepared) (sh_pending st))))"

definition handlePreparedIntentCountForVbucket :: "int \<Rightarrow> 'db shard \<Rightarrow> string list" where
  "handlePreparedIntentCountForVbucket vb st =
     remdups (map pd_tx (filter (\<lambda>r. pd_status r = Prepared \<and> pd_vbucket r = Some vb) (sh_pending st)))"

end
