(* ===== verification/ShardLaws.thy ===== *)
theory ShardLaws
  imports ShardParticipant
begin

text \<open>
  The effects of the participant's handlers on the tables of two-phase commit, the invariant they
  keep, and the abstract protocol they refine. Every handler is a sequence of at most two effects:
  a vote, an adoption, a decision, a drop of the intents, an application.
\<close>

section \<open>The tables a handler touches\<close>

definition core :: "'db shard \<Rightarrow> 'db \<times> pending_intent list \<times> row_lock list \<times> tombstone_row list" where
  "core st = (sh_db st, sh_pending st, sh_locks st, sh_tombstones st)"

abbreviation rows_of :: "'db shard \<Rightarrow> string \<Rightarrow> pending_intent list" where
  "rows_of \<equiv> storedIntentIdentity"

definition tomb :: "'db shard \<Rightarrow> string \<Rightarrow> tombstone_row option" where
  "tomb st tx = tbl_get ts_tx tx (sh_tombstones st)"

lemma core_rows: "core st = core st' \<Longrightarrow> rows_of st tx = rows_of st' tx"
  by (simp add: core_def storedIntentIdentity_def)

lemma core_tomb: "core st = core st' \<Longrightarrow> tomb st tx = tomb st' tx"
  by (simp add: core_def tomb_def)

lemma set_rows: "set (rows_of st tx) = {r \<in> set (sh_pending st). pd_tx r = tx}"
  by (simp add: storedIntentIdentity_def)

lemma rows_map:
  assumes "\<And>r. pd_tx (f r) = pd_tx r" "\<And>r. pd_seq (f r) = pd_seq r"
  shows "rows_of (st\<lparr>sh_pending := map f (sh_pending st)\<rparr>) tx = map f (rows_of st tx)"
proof -
  have i: "insort_key pd_seq (f r) (map f rs) = map f (insort_key pd_seq r rs)" for r rs
    by (induction rs) (simp_all add: assms(2))
  have s: "sort_key pd_seq (map f rs) = map f (sort_key pd_seq rs)" for rs
    by (induction rs) (simp_all add: i)
  show ?thesis by (simp add: storedIntentIdentity_def filter_map comp_def assms(1) s)
qed

lemma rows_forget: "rows_of (forget_intents tx st) tx' = (if tx' = tx then [] else rows_of st tx')"
  by (auto simp: storedIntentIdentity_def forget_intents_def conj_commute intro!: arg_cong [where f = "sort_key pd_seq"] filter_cong)

text \<open>What a recording transaction adds.\<close>

fun new_rows :: "payload \<Rightarrow> int \<Rightarrow> nat \<Rightarrow> prepare_intent list \<Rightarrow> pending_intent list" where
  "new_rows m now seq [] = []"
| "new_rows m now seq (i # is) = prepared_row m now seq i # new_rows m now (Suc seq) is"

lemma record_pending: "sh_pending (record_intents m now seq is st) = sh_pending st @ new_rows m now seq is"
  by (induction m now seq "is" st rule: record_intents.induct) simp_all

lemma record_locks:
  "sh_locks (record_intents m now seq is st) = fold (\<lambda>i. add_lock (mg_tx m) now (intent_lock_key i)) is (sh_locks st)"
  by (induction m now seq "is" st rule: record_intents.induct) simp_all

lemma record_frame:
  "sh_db (record_intents m now seq is st) = sh_db st" "sh_tombstones (record_intents m now seq is st) = sh_tombstones st"
  by (induction m now seq "is" st rule: record_intents.induct) simp_all

lemma new_rows_props:
  "r \<in> set (new_rows m now seq is) \<Longrightarrow> \<exists>i\<in>set is. \<exists>s. r = prepared_row m now s i"
  by (induction m now seq "is" rule: new_rows.induct) auto

lemma new_rows_sorted: "sorted (map pd_seq (new_rows m now seq is)) \<and> (\<forall>r\<in>set (new_rows m now seq is). seq \<le> pd_seq r)
   \<and> distinct (map pd_seq (new_rows m now seq is))"
proof (induction m now seq "is" rule: new_rows.induct)
  case (2 m now seq i "is")
  have seq: "pd_seq (prepared_row m now seq i) = seq" by (simp add: prepared_row_def)
  from 2 show ?case by (auto simp: seq)
qed simp

lemma new_rows_tx: "r \<in> set (new_rows m now seq is) \<Longrightarrow> pd_tx r = mg_tx m"
  by (induction m now seq "is" rule: new_rows.induct) (auto simp: prepared_row_def)

lemma rows_record:
  assumes "rows_of st (mg_tx m) = []"
  shows "rows_of (record_intents m now seq is st) tx
    = (if tx = mg_tx m then new_rows m now seq is else rows_of st tx)"
proof -
  have e: "filter (\<lambda>r. pd_tx r = mg_tx m) (sh_pending st) = []"
    using assms set_rows [of st "mg_tx m"] by (auto simp: filter_empty_conv)
  have n: "filter (\<lambda>r. pd_tx r = tx) (new_rows m now seq is) = (if tx = mg_tx m then new_rows m now seq is else [])"
    using new_rows_tx by (auto simp: filter_empty_conv filter_id_conv)
  have "sort_key pd_seq (new_rows m now seq is) = new_rows m now seq is"
    using new_rows_sorted [of m now seq "is"] by (simp add: sort_key_id_if_sorted)
  then show ?thesis by (simp add: storedIntentIdentity_def record_pending e n)
qed

section \<open>The invariant\<close>

definition intent_key :: "pending_intent \<Rightarrow> string \<times> nat" where
  "intent_key r = (pd_tx r, pd_seq r)"

text \<open>The rows of one transaction agree on status, epoch, hash and version.\<close>

definition same_vote :: "pending_intent \<Rightarrow> pending_intent \<Rightarrow> bool" where
  "same_vote r s \<longleftrightarrow> pd_tx r = pd_tx s \<longrightarrow>
     pd_status r = pd_status s \<and> pd_epoch r = pd_epoch s \<and> pd_hash r = pd_hash s \<and> pd_protocol r = pd_protocol s"

definition lock_held :: "row_lock list \<Rightarrow> string \<Rightarrow> string \<Rightarrow> bool" where
  "lock_held locks tx k \<longleftrightarrow> (\<exists>l\<in>set locks. lk_key l = k \<and> lk_tx l = tx)"

definition shard_inv :: "'db shard \<Rightarrow> bool" where
  "shard_inv st \<longleftrightarrow>
     distinct (map intent_key (sh_pending st)) \<and> tbl_wf lk_key (sh_locks st) \<and> tbl_wf ts_tx (sh_tombstones st)
     \<and> (\<forall>t\<in>set (sh_tombstones st). validateParticipantTombstone (tombstone_json t) = Inr ())
     \<and> (\<forall>r\<in>set (sh_pending st). \<forall>s\<in>set (sh_pending st). same_vote r s)
     \<and> (\<forall>r\<in>set (sh_pending st). pd_status r \<noteq> Aborted)
     \<and> (\<forall>r\<in>set (sh_pending st). pd_status r = Prepared \<longrightarrow> (\<forall>k\<in>set (pd_lock_keys r). lock_held (sh_locks st) (pd_tx r) k))
     \<and> (\<forall>l\<in>set (sh_locks st). \<exists>r\<in>set (sh_pending st). pd_tx r = lk_tx l \<and> pd_status r = Prepared)
     \<and> (\<forall>t\<in>set (sh_tombstones st). ts_decision t = ''abort'' \<longrightarrow> rows_of st (ts_tx t) = [])"

lemma core_inv: "core st = core st' \<Longrightarrow> shard_inv st = shard_inv st'"
  by (simp add: core_def shard_inv_def storedIntentIdentity_def)

lemma tomb_Some_iff: "shard_inv st \<Longrightarrow> tomb st tx = Some t \<longleftrightarrow> t \<in> set (sh_tombstones st) \<and> ts_tx t = tx"
  by (simp add: tomb_def shard_inv_def tbl_get_Some_iff)

lemma tombstone_ok:
  assumes "shard_inv st"
  shows "tombstone st tx = Inr (tomb st tx)"
proof (cases "tomb st tx")
  case None
  then show ?thesis by (simp add: tombstone_def tomb_def)
next
  case (Some t)
  then have "t \<in> set (sh_tombstones st)" using tomb_Some_iff [OF assms] by blast
  then have "validateParticipantTombstone (tombstone_json t) = Inr ()" using assms by (simp add: shard_inv_def)
  with Some show ?thesis by (simp add: tombstone_def tomb_def)
qed

lemma tomb_decision:
  assumes "shard_inv st" "tomb st tx = Some t"
  shows "ts_decision t = ''commit'' \<or> ts_decision t = ''abort''"
proof -
  have "validateParticipantTombstone (tombstone_json t) = Inr ()"
    using assms tomb_Some_iff [OF assms(1)] by (auto simp: shard_inv_def)
  then show ?thesis
    by (auto simp: validateParticipantTombstone_def tombstone_json_def assertParticipantDecision_def PARTICIPANT_DECISIONS_def)
qed

lemma abort_tomb_rows: "shard_inv st \<Longrightarrow> tomb st tx = Some t \<Longrightarrow> ts_decision t = ''abort'' \<Longrightarrow> rows_of st tx = []"
  using tomb_Some_iff [of st tx t] by (auto simp: shard_inv_def)

lemma rows_status: "shard_inv st \<Longrightarrow> r \<in> set (rows_of st tx) \<Longrightarrow> pd_status r \<noteq> Aborted"
  by (auto simp: shard_inv_def set_rows)

lemma rows_same:
  assumes "shard_inv st" "r \<in> set (rows_of st tx)" "s \<in> set (rows_of st tx)"
  shows "pd_status r = pd_status s" "pd_epoch r = pd_epoch s" "pd_hash r = pd_hash s"
  using assms by (auto simp: shard_inv_def set_rows same_vote_def)

section \<open>Effects\<close>

definition add_tombstone :: "tombstone_row \<Rightarrow> 'db shard \<Rightarrow> 'db shard" where
  "add_tombstone t st = st\<lparr>sh_tombstones := sh_tombstones st @ [t]\<rparr>"

inductive eff :: "'db sql_engine \<Rightarrow> 'db shard \<Rightarrow> 'db shard \<Rightarrow> bool" for sql where
  same: "core st' = core st \<Longrightarrow> eff sql st st'"
| vote: "rows_of st (mg_tx m) = [] \<Longrightarrow> tomb st (mg_tx m) = None \<Longrightarrow> is \<noteq> []
    \<Longrightarrow> foreign_lock st (mg_tx m) (map intent_lock_key is) = None
    \<Longrightarrow> core st' = core (record_intents m now 0 is st) \<Longrightarrow> eff sql st st'"
| adopt: "entirely_unadopted (rows_of st (mg_tx m))
    \<Longrightarrow> core st' = core (st\<lparr>sh_pending := map (adopt_row m) (sh_pending st)\<rparr>) \<Longrightarrow> eff sql st st'"
| decide: "tomb st (ts_tx t) = None \<Longrightarrow> validateParticipantTombstone (tombstone_json t) = Inr ()
    \<Longrightarrow> ts_decision t = ''commit'' \<or> rows_of st (ts_tx t) = []
    \<Longrightarrow> core st' = core (add_tombstone t st) \<Longrightarrow> eff sql st st'"
| drop: "tomb st (ts_tx t) = None \<Longrightarrow> validateParticipantTombstone (tombstone_json t) = Inr ()
    \<Longrightarrow> ts_decision t = ''abort'' \<Longrightarrow> rows_of st (ts_tx t) \<noteq> []
    \<Longrightarrow> core st' = core (forget_intents (ts_tx t) (add_tombstone t st)) \<Longrightarrow> eff sql st st'"
| execute: "tomb st tx = Some t \<Longrightarrow> ts_decision t = ''commit'' \<Longrightarrow> rows_of st tx = r # rs \<Longrightarrow> pd_status r = Prepared
    \<Longrightarrow> apply_now sql now tx st = Inr st' \<Longrightarrow> eff sql st st'"

lemma rows_add [simp]: "rows_of (add_tombstone t st) tx = rows_of st tx"
  by (simp add: storedIntentIdentity_def add_tombstone_def)

lemma tbl_get_snoc:
  "tbl_get key k (xs @ [x]) = (case tbl_get key k xs of None \<Rightarrow> if key x = k then Some x else None | Some y \<Rightarrow> Some y)"
  by (induction xs) (auto simp: tbl_get_def)

lemma tomb_add: "tomb st (ts_tx t) = None \<Longrightarrow> tomb (add_tombstone t st) tx = (if tx = ts_tx t then Some t else tomb st tx)"
  by (auto simp: tomb_def add_tombstone_def tbl_get_snoc split: option.splits)

lemma tomb_forget [simp]: "tomb (forget_intents tx st) tx' = tomb st tx'"
  by (simp add: tomb_def forget_intents_def)

section \<open>Applying\<close>

type_synonym work = "(string \<times> jval list) list"

fun run_work :: "'db sql_engine \<Rightarrow> work \<Rightarrow> 'db \<Rightarrow> 'db option" where
  "run_work sql [] db = Some db"
| "run_work sql ((s, ps) # w) db = (case sql s ps db of Inl _ \<Rightarrow> None | Inr (db', _) \<Rightarrow> run_work sql w db')"

definition work_of :: "pending_intent list \<Rightarrow> work" where
  "work_of rs = map (\<lambda>r. (pd_sql r, pd_params r)) rs"

lemma after_write_frame:
  "after_write now tx r st = (st', e) \<Longrightarrow>
     sh_db st' = sh_db st \<and> sh_pending st' = sh_pending st \<and> sh_locks st' = sh_locks st \<and> sh_tombstones st' = sh_tombstones st"
  by (auto simp: after_write_def writeOrDeleteProvenance_def upsertRowOwner_def enqueueMirrorJob_def Let_def split: if_splits)

lemma apply_rows_frame:
  "apply_rows sql now tx rs e st = Inr (st', e') \<Longrightarrow>
     run_work sql (work_of rs) (sh_db st) = Some (sh_db st')
     \<and> sh_pending st' = sh_pending st \<and> sh_locks st' = sh_locks st \<and> sh_tombstones st' = sh_tombstones st"
proof (induction sql now tx rs e st rule: apply_rows.induct)
  case (2 sql now tx r rs enq st)
  obtain db n where q: "sql (pd_sql r) (pd_params r) (sh_db st) = Inr (db, n)"
    using 2(3) by (auto split: sum.splits)
  show ?case
  proof (cases "0 < n \<and> base_row r")
    case True
    obtain st2 b where a: "after_write now tx r (st\<lparr>sh_db := db\<rparr>) = (st2, b)" by fastforce
    show ?thesis
      using 2(1) [OF q refl refl True a [symmetric]] 2(3) True after_write_frame [OF a]
      by (simp add: q a work_of_def)
  next
    case False
    then have "apply_rows sql now tx (r # rs) enq st = apply_rows sql now tx rs enq (st\<lparr>sh_db := db\<rparr>)"
      by (auto simp: q Let_def)
    then show ?thesis using 2(2) [OF q refl refl False] 2(3) by (simp add: q work_of_def del: apply_rows.simps)
  qed
qed (simp add: work_of_def)

lemma apply_rows_err:
  "apply_rows sql now tx rs e st = Inl msg \<Longrightarrow> run_work sql (work_of rs) (sh_db st) = None"
proof (induction sql now tx rs e st rule: apply_rows.induct)
  case (2 sql now tx r rs enq st)
  show ?case
  proof (cases "sql (pd_sql r) (pd_params r) (sh_db st)")
    case (Inl a)
    then show ?thesis by (simp add: work_of_def)
  next
    case (Inr dn)
    obtain db n where q: "sql (pd_sql r) (pd_params r) (sh_db st) = Inr (db, n)" using Inr by (cases dn) auto
    show ?thesis
    proof (cases "0 < n \<and> base_row r")
      case True
      obtain st2 b where a: "after_write now tx r (st\<lparr>sh_db := db\<rparr>) = (st2, b)" by fastforce
      show ?thesis
        using 2(1) [OF q refl refl True a [symmetric]] 2(3) True after_write_frame [OF a]
        by (simp add: q a work_of_def)
    next
      case False
      then have "apply_rows sql now tx (r # rs) enq st = apply_rows sql now tx rs enq (st\<lparr>sh_db := db\<rparr>)"
      by (auto simp: q Let_def)
    then show ?thesis using 2(2) [OF q refl refl False] 2(3) by (simp add: q work_of_def del: apply_rows.simps)
    qed
  qed
qed simp

lemma apply_now_frame:
  assumes "apply_now sql now tx st = Inr st'"
  shows "run_work sql (work_of (rows_of st tx)) (sh_db st) = Some (sh_db st')"
    "sh_tombstones st' = sh_tombstones st"
    "sh_pending st' = sh_pending (mark_committed now tx st)" "sh_locks st' = sh_locks (mark_committed now tx st)"
proof -
  obtain st1 e where a: "apply_rows sql now tx (rows_of st tx) False st = Inr (st1, e)"
    "st' = (if e then scheduleMirrorAlarmSoon now (mark_committed now tx st1) else mark_committed now tx st1)"
    using assms by (auto simp: apply_now_def applyCommittedIntents_def split: sum.splits)
  have s: "sh_db st' = sh_db (mark_committed now tx st1)" "sh_pending st' = sh_pending (mark_committed now tx st1)"
    "sh_locks st' = sh_locks (mark_committed now tx st1)" "sh_tombstones st' = sh_tombstones (mark_committed now tx st1)"
    by (auto simp: a(2) scheduleMirrorAlarmSoon_def Let_def split: option.splits)
  show "run_work sql (work_of (rows_of st tx)) (sh_db st) = Some (sh_db st')"
    "sh_tombstones st' = sh_tombstones st"
    "sh_pending st' = sh_pending (mark_committed now tx st)" "sh_locks st' = sh_locks (mark_committed now tx st)"
    using apply_rows_frame [OF a(1)] by (simp_all add: s mark_committed_def)
qed

lemma apply_now_err: "apply_now sql now tx st = Inl msg \<Longrightarrow> run_work sql (work_of (rows_of st tx)) (sh_db st) = None"
  by (auto simp: apply_now_def applyCommittedIntents_def split: sum.splits dest!: apply_rows_err)

section \<open>Every effect keeps the invariant\<close>

lemma foreign_lock_None:
  "foreign_lock st tx ks = None \<Longrightarrow> k \<in> set ks \<Longrightarrow> tbl_get lk_key k (sh_locks st) = Some l \<Longrightarrow> lk_tx l = tx"
  by (induction ks) (auto split: option.splits if_splits)

text \<open>Acquiring a list of keys that no other transaction holds.\<close>

definition locked_for :: "row_lock list \<Rightarrow> string \<Rightarrow> string list \<Rightarrow> row_lock list \<Rightarrow> bool" where
  "locked_for before tx ks after \<longleftrightarrow> tbl_wf lk_key after \<and> set before \<subseteq> set after
     \<and> (\<forall>l\<in>set after. l \<in> set before \<or> lk_tx l = tx) \<and> (\<forall>k\<in>set ks. lock_held after tx k)"

lemma add_lock_held:
  assumes "tbl_wf lk_key locks" "\<And>l. tbl_get lk_key k locks = Some l \<Longrightarrow> lk_tx l = tx"
  shows "locked_for locks tx [k] (add_lock tx now k locks)"
proof (cases "tbl_get lk_key k locks")
  case (Some l)
  then have "lk_tx l = tx" "l \<in> set locks" "lk_key l = k"
    using assms tbl_get_Some_iff [OF assms(1)] by blast+
  then show ?thesis using assms(1) Some by (auto simp: locked_for_def add_lock_def lock_held_def)
next
  case None
  then have "\<forall>l\<in>set locks. lk_key l \<noteq> k" using tbl_get_Some_iff [OF assms(1)] by (metis option.distinct(1))
  then show ?thesis using assms(1) None
    by (auto simp: locked_for_def add_lock_def lock_held_def tbl_wf_def)
qed

lemma fold_locks_held:
  assumes "tbl_wf lk_key locks" "\<And>k l. k \<in> set (map f is) \<Longrightarrow> tbl_get lk_key k locks = Some l \<Longrightarrow> lk_tx l = tx"
  shows "locked_for locks tx (map f is) (fold (\<lambda>i. add_lock tx now (f i)) is locks)"
  using assms
proof (induction "is" arbitrary: locks)
  case Nil
  then show ?case by (simp add: locked_for_def)
next
  case (Cons i "is")
  let ?l1 = "add_lock tx now (f i) locks"
  have one: "locked_for locks tx [f i] ?l1"
    using Cons.prems(2) [of "f i"] by (intro add_lock_held [OF Cons.prems(1)]) simp
  then have wf: "tbl_wf lk_key ?l1" by (simp add: locked_for_def)
  have "lk_tx l = tx" if "k \<in> set (map f is)" "tbl_get lk_key k ?l1 = Some l" for k l
  proof -
    have "l \<in> set ?l1" "lk_key l = k" using that(2) tbl_get_Some_iff [OF wf] by blast+
    then consider "l \<in> set locks" | "lk_tx l = tx" using one by (auto simp: locked_for_def)
    then show ?thesis
    proof cases
      case 1
      then have "tbl_get lk_key k locks = Some l" using tbl_get_Some_iff [OF Cons.prems(1)] \<open>lk_key l = k\<close> by blast
      then show ?thesis using Cons.prems(2) [of k l] that(1) by simp
    qed
  qed
  then have rest: "locked_for ?l1 tx (map f is) (fold (\<lambda>i. add_lock tx now (f i)) is ?l1)"
    by (rule Cons.IH [OF wf])
  show ?case using one rest unfolding locked_for_def lock_held_def by (simp add: subset_iff) metis
qed

lemma inv_vote:
  assumes inv: "shard_inv st" and r: "rows_of st (mg_tx m) = []" and t: "tomb st (mg_tx m) = None"
    and ne: "is \<noteq> []" and l: "foreign_lock st (mg_tx m) (map intent_lock_key is) = None"
  shows "shard_inv (record_intents m now 0 is st)"
proof -
  let ?n = "new_rows m now 0 is" and ?st = "record_intents m now 0 is st"
  have none: "\<forall>x\<in>set (sh_pending st). pd_tx x \<noteq> mg_tx m" using r set_rows [of st "mg_tx m"] by auto
  have new: "pd_tx x = mg_tx m \<and> pd_status x = Prepared \<and> pd_epoch x = mg_epoch m \<and> pd_hash x = mg_hash m
      \<and> pd_protocol x = CURRENT_PROTOCOL_VERSION \<and> (\<exists>i\<in>set is. pd_lock_keys x = [intent_lock_key i])" if "x \<in> set ?n" for x
    using new_rows_props [OF that] by (auto simp: prepared_row_def)
  have locks: "locked_for (sh_locks st) (mg_tx m) (map intent_lock_key is) (sh_locks ?st)"
    unfolding record_locks
    using fold_locks_held [of "sh_locks st" intent_lock_key "is" "mg_tx m"] inv foreign_lock_None [OF l]
    by (auto simp: shard_inv_def)
  note I = inv [unfolded shard_inv_def]
  show ?thesis unfolding shard_inv_def record_pending record_frame
  proof (intro conjI)
    show "distinct (map intent_key (sh_pending st @ ?n))"
    proof -
      have "distinct (map intent_key ?n)"
        using new_rows_sorted [of m now 0 "is"] by (auto simp: distinct_map intent_key_def inj_on_def)
      moreover have "set (map intent_key (sh_pending st)) \<inter> set (map intent_key ?n) = {}"
      proof -
        have False if "x \<in> set (sh_pending st)" "y \<in> set ?n" "intent_key x = intent_key y" for x y
          using none new [OF that(2)] that(1,3) by (auto simp: intent_key_def)
        then show ?thesis by fastforce
      qed
      ultimately show ?thesis using I by simp
    qed
    show "tbl_wf lk_key (sh_locks ?st)" using locks by (simp add: locked_for_def)
    show "tbl_wf ts_tx (sh_tombstones st)" using I by blast
    show "\<forall>t\<in>set (sh_tombstones st). validateParticipantTombstone (tombstone_json t) = Inr ()" using I by blast
    show "\<forall>x\<in>set (sh_pending st @ ?n). \<forall>y\<in>set (sh_pending st @ ?n). same_vote x y"
    proof (intro ballI)
      fix x y assume "x \<in> set (sh_pending st @ ?n)" "y \<in> set (sh_pending st @ ?n)"
      then consider "x \<in> set (sh_pending st)" "y \<in> set (sh_pending st)" | "x \<in> set (sh_pending st)" "y \<in> set ?n"
        | "x \<in> set ?n" "y \<in> set (sh_pending st)" | "x \<in> set ?n" "y \<in> set ?n" by auto
      then show "same_vote x y"
      proof cases
        case 1
        then show ?thesis using I by blast
      next
        case 2
        then have "pd_tx x \<noteq> pd_tx y" using none new [OF 2(2)] by auto
        then show ?thesis by (simp add: same_vote_def)
      next
        case 3
        then have "pd_tx x \<noteq> pd_tx y" using none new [OF 3(1)] by auto
        then show ?thesis by (simp add: same_vote_def)
      next
        case 4
        then show ?thesis using new [OF 4(1)] new [OF 4(2)] by (simp add: same_vote_def)
      qed
    qed
    show "\<forall>x\<in>set (sh_pending st @ ?n). pd_status x \<noteq> Aborted" using I new by auto
    show "\<forall>x\<in>set (sh_pending st @ ?n). pd_status x = Prepared \<longrightarrow>
        (\<forall>k\<in>set (pd_lock_keys x). lock_held (sh_locks ?st) (pd_tx x) k)"
    proof (intro ballI impI)
      fix x k assume x: "x \<in> set (sh_pending st @ ?n)" "pd_status x = Prepared" and k: "k \<in> set (pd_lock_keys x)"
      consider (old) "x \<in> set (sh_pending st)" | (fresh) "x \<in> set ?n" using x(1) by auto
      then show "lock_held (sh_locks ?st) (pd_tx x) k"
      proof cases
        case old
        then have "lock_held (sh_locks st) (pd_tx x) k" using I x(2) k by blast
        then show ?thesis using locks by (auto simp: locked_for_def lock_held_def)
      next
        case fresh
        then obtain i where "i \<in> set is" "k = intent_lock_key i" "pd_tx x = mg_tx m" using new [OF fresh] k by auto
        then show ?thesis using locks by (simp add: locked_for_def)
      qed
    qed
    show "\<forall>l\<in>set (sh_locks ?st). \<exists>x\<in>set (sh_pending st @ ?n). pd_tx x = lk_tx l \<and> pd_status x = Prepared"
    proof
      fix l assume "l \<in> set (sh_locks ?st)"
      then consider "l \<in> set (sh_locks st)" | "lk_tx l = mg_tx m" using locks by (auto simp: locked_for_def)
      then show "\<exists>x\<in>set (sh_pending st @ ?n). pd_tx x = lk_tx l \<and> pd_status x = Prepared"
      proof cases
        case 1
        then show ?thesis using I by fastforce
      next
        case 2
        have "?n \<noteq> []" using ne by (cases "is") auto
        then obtain x where "x \<in> set ?n" by (cases ?n) auto
        then show ?thesis using new 2 by fastforce
      qed
    qed
    show "\<forall>t\<in>set (sh_tombstones st). ts_decision t = ''abort'' \<longrightarrow> rows_of ?st (ts_tx t) = []"
    proof (intro ballI impI)
      fix u assume u: "u \<in> set (sh_tombstones st)" "ts_decision u = ''abort''"
      have "ts_tx u \<noteq> mg_tx m"
      proof
        assume "ts_tx u = mg_tx m"
        then have "tomb st (mg_tx m) = Some u" using tomb_Some_iff [OF inv, of "mg_tx m" u] u(1) by blast
        with t show False by simp
      qed
      moreover have "rows_of st (ts_tx u) = []" using I u by blast
      ultimately show "rows_of ?st (ts_tx u) = []" by (simp only: rows_record [OF r] if_False)
    qed
  qed
qed

lemma inv_cong:
  "sh_pending st' = sh_pending st \<Longrightarrow> sh_locks st' = sh_locks st \<Longrightarrow> sh_tombstones st' = sh_tombstones st
   \<Longrightarrow> shard_inv st' = shard_inv st"
  by (simp add: shard_inv_def storedIntentIdentity_def)

lemma adopt_row_frame:
  "pd_tx (adopt_row m r) = pd_tx r" "pd_seq (adopt_row m r) = pd_seq r" "pd_status (adopt_row m r) = pd_status r"
  "pd_lock_keys (adopt_row m r) = pd_lock_keys r" "pd_sql (adopt_row m r) = pd_sql r" "pd_params (adopt_row m r) = pd_params r"
  by (simp_all add: adopt_row_def)

lemma inv_adopt:
  assumes inv: "shard_inv st" and u: "entirely_unadopted (rows_of st (mg_tx m))"
  shows "shard_inv (st\<lparr>sh_pending := map (adopt_row m) (sh_pending st)\<rparr>)"
proof -
  note I = inv [unfolded shard_inv_def]
  let ?st = "st\<lparr>sh_pending := map (adopt_row m) (sh_pending st)\<rparr>"
  have un: "unadopted r" if "r \<in> set (sh_pending st)" "pd_tx r = mg_tx m" for r
    using u that set_rows [of st "mg_tx m"] by (auto simp: entirely_unadopted_def list_all_iff)
  have key: "map intent_key (map (adopt_row m) (sh_pending st)) = map intent_key (sh_pending st)"
    by (simp add: intent_key_def adopt_row_frame)
  have same: "same_vote (adopt_row m r) (adopt_row m s)" if "r \<in> set (sh_pending st)" "s \<in> set (sh_pending st)" for r s
  proof (cases "pd_tx r = pd_tx s")
    case True
    have "same_vote r s" using I that by blast
    then show ?thesis using un [OF that(1)] un [OF that(2)] True by (auto simp: same_vote_def adopt_row_def)
  qed (simp add: same_vote_def adopt_row_frame)
  have rows: "rows_of ?st tx = map (adopt_row m) (rows_of st tx)" for tx
    by (rule rows_map) (simp_all add: adopt_row_frame)
  show ?thesis unfolding shard_inv_def
  proof (intro conjI)
    have "map intent_key (sh_pending ?st) = map intent_key (sh_pending st)" using key by simp
    then show "distinct (map intent_key (sh_pending ?st))" using I by (simp only:)
    show "\<forall>x\<in>set (sh_pending ?st). \<forall>y\<in>set (sh_pending ?st). same_vote x y" using same by auto
    show "\<forall>t\<in>set (sh_tombstones ?st). ts_decision t = ''abort'' \<longrightarrow> rows_of ?st (ts_tx t) = []"
      using I rows by simp
  qed (use I in \<open>auto simp: adopt_row_frame\<close>)
qed

lemma inv_add:
  assumes inv: "shard_inv st" and t: "tomb st (ts_tx t) = None" "validateParticipantTombstone (tombstone_json t) = Inr ()"
    and d: "ts_decision t = ''commit'' \<or> rows_of st (ts_tx t) = []"
  shows "shard_inv (add_tombstone t st)"
proof -
  note I = inv [unfolded shard_inv_def]
  have "\<forall>u\<in>set (sh_tombstones st). ts_tx u \<noteq> ts_tx t"
    using t(1) tomb_Some_iff [OF inv, of "ts_tx t"] by (metis option.distinct(1))
  then have wf: "tbl_wf ts_tx (sh_tombstones st @ [t])" using I by (auto simp: tbl_wf_def)
  have ab: "ts_decision u = ''abort'' \<longrightarrow> rows_of st (ts_tx u) = []" if "u \<in> set (sh_tombstones st @ [t])" for u
    using that I d by auto
  have f: "sh_pending (add_tombstone t st) = sh_pending st" "sh_locks (add_tombstone t st) = sh_locks st"
    "sh_tombstones (add_tombstone t st) = sh_tombstones st @ [t]" by (simp_all add: add_tombstone_def)
  show ?thesis unfolding shard_inv_def f rows_add using I wf ab t(2) by auto
qed

lemma inv_forget:
  assumes inv: "shard_inv st"
  shows "shard_inv (forget_intents tx st)"
proof -
  note I = inv [unfolded shard_inv_def]
  have f: "sh_pending (forget_intents tx st) = filter (\<lambda>r. pd_tx r \<noteq> tx) (sh_pending st)"
    "sh_locks (forget_intents tx st) = filter (\<lambda>l. lk_tx l \<noteq> tx) (sh_locks st)"
    "sh_tombstones (forget_intents tx st) = sh_tombstones st" by (simp_all add: forget_intents_def)
  show ?thesis unfolding shard_inv_def f
  proof (intro conjI)
    show "distinct (map intent_key (filter (\<lambda>r. pd_tx r \<noteq> tx) (sh_pending st)))" using I by (simp add: distinct_map_filter)
    show "tbl_wf lk_key (filter (\<lambda>l. lk_tx l \<noteq> tx) (sh_locks st))" using I by (simp add: tbl_wf_def distinct_map_filter)
    show "\<forall>t\<in>set (sh_tombstones st). ts_decision t = ''abort'' \<longrightarrow> rows_of (forget_intents tx st) (ts_tx t) = []"
      using I by (simp add: rows_forget)
    show "\<forall>r\<in>set (filter (\<lambda>r. pd_tx r \<noteq> tx) (sh_pending st)). pd_status r = Prepared \<longrightarrow>
        (\<forall>k\<in>set (pd_lock_keys r). lock_held (filter (\<lambda>l. lk_tx l \<noteq> tx) (sh_locks st)) (pd_tx r) k)"
    proof (intro ballI impI)
      fix r k assume r: "r \<in> set (filter (\<lambda>r. pd_tx r \<noteq> tx) (sh_pending st))" "pd_status r = Prepared" "k \<in> set (pd_lock_keys r)"
      then have "lock_held (sh_locks st) (pd_tx r) k" "pd_tx r \<noteq> tx" using I by auto
      then show "lock_held (filter (\<lambda>l. lk_tx l \<noteq> tx) (sh_locks st)) (pd_tx r) k" by (auto simp: lock_held_def)
    qed
    show "\<forall>l\<in>set (filter (\<lambda>l. lk_tx l \<noteq> tx) (sh_locks st)). \<exists>r\<in>set (filter (\<lambda>r. pd_tx r \<noteq> tx) (sh_pending st)).
        pd_tx r = lk_tx l \<and> pd_status r = Prepared"
    proof
      fix l assume l: "l \<in> set (filter (\<lambda>l. lk_tx l \<noteq> tx) (sh_locks st))"
      then obtain r where "r \<in> set (sh_pending st)" "pd_tx r = lk_tx l" "pd_status r = Prepared" using I by auto
      then show "\<exists>r\<in>set (filter (\<lambda>r. pd_tx r \<noteq> tx) (sh_pending st)). pd_tx r = lk_tx l \<and> pd_status r = Prepared"
        using l by auto
    qed
  qed (use I in auto)
qed

definition commit_mark :: "int \<Rightarrow> string \<Rightarrow> pending_intent \<Rightarrow> pending_intent" where
  "commit_mark now tx r = (if pd_tx r = tx then r\<lparr>pd_status := Committed, pd_resolved_at := Some now\<rparr> else r)"

lemma commit_mark_frame:
  "pd_tx (commit_mark now tx r) = pd_tx r" "pd_seq (commit_mark now tx r) = pd_seq r"
  "pd_lock_keys (commit_mark now tx r) = pd_lock_keys r" "pd_sql (commit_mark now tx r) = pd_sql r"
  "pd_params (commit_mark now tx r) = pd_params r"
  "pd_status (commit_mark now tx r) = (if pd_tx r = tx then Committed else pd_status r)"
  by (simp_all add: commit_mark_def)

lemma marked:
  "sh_pending (mark_committed now tx st) = map (commit_mark now tx) (sh_pending st)"
  "sh_locks (mark_committed now tx st) = filter (\<lambda>l. lk_tx l \<noteq> tx) (sh_locks st)"
  "sh_tombstones (mark_committed now tx st) = sh_tombstones st"
  "rows_of (mark_committed now tx st) tx' = map (commit_mark now tx) (rows_of st tx')"
proof -
  show p: "sh_pending (mark_committed now tx st) = map (commit_mark now tx) (sh_pending st)"
    "sh_locks (mark_committed now tx st) = filter (\<lambda>l. lk_tx l \<noteq> tx) (sh_locks st)"
    "sh_tombstones (mark_committed now tx st) = sh_tombstones st"
    by (simp_all add: mark_committed_def commit_mark_def)
  have "rows_of (mark_committed now tx st) tx' = rows_of (st\<lparr>sh_pending := map (commit_mark now tx) (sh_pending st)\<rparr>) tx'"
    by (simp add: storedIntentIdentity_def p)
  then show "rows_of (mark_committed now tx st) tx' = map (commit_mark now tx) (rows_of st tx')"
    by (simp add: rows_map commit_mark_frame)
qed

lemma inv_mark:
  assumes inv: "shard_inv st"
  shows "shard_inv (mark_committed now tx st)"
proof -
  note I = inv [unfolded shard_inv_def]
  let ?st = "mark_committed now tx st"
  show ?thesis unfolding shard_inv_def
  proof (intro conjI)
    have "map intent_key (sh_pending ?st) = map intent_key (sh_pending st)"
      by (simp add: marked intent_key_def commit_mark_frame)
    then show "distinct (map intent_key (sh_pending ?st))" using I by (simp only:)
    show "tbl_wf lk_key (sh_locks ?st)" using I by (simp add: marked tbl_wf_def distinct_map_filter)
    show "\<forall>x\<in>set (sh_pending ?st). \<forall>y\<in>set (sh_pending ?st). same_vote x y"
    proof -
      have "same_vote (commit_mark now tx r) (commit_mark now tx s)" if "same_vote r s" for r s
        using that by (simp add: same_vote_def commit_mark_def)
      then show ?thesis using I by (simp add: marked)
    qed
    show "\<forall>r\<in>set (sh_pending ?st). pd_status r = Prepared \<longrightarrow> (\<forall>k\<in>set (pd_lock_keys r). lock_held (sh_locks ?st) (pd_tx r) k)"
    proof (intro ballI impI)
      fix r k assume r: "r \<in> set (sh_pending ?st)" "pd_status r = Prepared" "k \<in> set (pd_lock_keys r)"
      obtain r0 where r0: "r0 \<in> set (sh_pending st)" "r = commit_mark now tx r0" using r(1) by (auto simp: marked)
      have tx: "pd_tx r0 \<noteq> tx" using r(2) by (auto simp: r0(2) commit_mark_frame)
      then have "lock_held (sh_locks st) (pd_tx r0) k" using I r0 r(2,3) by (auto simp: commit_mark_frame)
      then show "lock_held (sh_locks ?st) (pd_tx r) k" using tx by (auto simp: marked lock_held_def r0(2) commit_mark_frame)
    qed
    show "\<forall>l\<in>set (sh_locks ?st). \<exists>r\<in>set (sh_pending ?st). pd_tx r = lk_tx l \<and> pd_status r = Prepared"
    proof
      fix l assume l: "l \<in> set (sh_locks ?st)"
      then obtain r where "r \<in> set (sh_pending st)" "pd_tx r = lk_tx l" "pd_status r = Prepared" using I by (auto simp: marked)
      then have "commit_mark now tx r \<in> set (sh_pending ?st)" "pd_tx (commit_mark now tx r) = lk_tx l"
        "pd_status (commit_mark now tx r) = Prepared" using l by (auto simp: marked commit_mark_frame)
      then show "\<exists>r\<in>set (sh_pending ?st). pd_tx r = lk_tx l \<and> pd_status r = Prepared" by blast
    qed
    show "\<forall>t\<in>set (sh_tombstones ?st). ts_decision t = ''abort'' \<longrightarrow> rows_of ?st (ts_tx t) = []"
      using I by (simp add: marked)
  qed (use I in \<open>auto simp: marked commit_mark_frame\<close>)
qed

lemma forget_add: "forget_intents tx (add_tombstone t st) = add_tombstone t (forget_intents tx st)"
  by (simp add: forget_intents_def add_tombstone_def)

theorem eff_inv: "eff sql st st' \<Longrightarrow> shard_inv st \<Longrightarrow> shard_inv st'"
proof (induction rule: eff.induct)
  case (same st' st)
  then show ?case using core_inv [OF same(1)] by simp
next
  case (vote st m "is" st' now)
  then show ?case using inv_vote [OF vote(6) vote(1-4), of now] core_inv [OF vote(5)] by simp
next
  case (adopt st m st')
  then show ?case using inv_adopt [OF adopt(3,1)] core_inv [OF adopt(2)] by simp
next
  case (decide st t st')
  then show ?case using inv_add [OF decide(5,1,2,3)] core_inv [OF decide(4)] by simp
next
  case (drop st t st')
  have "shard_inv (add_tombstone t (forget_intents (ts_tx t) st))"
    using drop(1,2) by (intro inv_add inv_forget drop(6)) (simp_all add: rows_forget)
  then show ?case using core_inv [OF drop(5)] by (simp add: forget_add)
next
  case (execute st tx t r rs now st')
  have "shard_inv (mark_committed now tx st)" by (rule inv_mark [OF execute(6)])
  then show ?case using apply_now_frame(2-4) [OF execute(5)] inv_cong [of st' "mark_committed now tx st"]
    by (simp add: marked(3))
qed

end
