(* ===== verification/ShardProtocol.thy ===== *)
theory ShardProtocol
  imports ShardLaws
begin

text \<open>
  The participant as an abstract machine: each transaction is idle, prepared with its statements,
  committing, committed or aborted, and the tenant tables change only when a committing
  transaction's statements run, all together. The handlers of the shard refine this machine.
\<close>

section \<open>The abstract machine\<close>

text \<open>
  \<open>P_applied\<close> is a transaction whose statements ran and whose decision is no longer
  remembered, because the retention of its tombstone is over.
\<close>

datatype phase = P_idle | P_prepared work | P_committing work | P_committed | P_applied | P_aborted

definition phase_from :: "pending_intent list \<Rightarrow> tombstone_row option \<Rightarrow> phase" where
  "phase_from rows t =
     (if rows = [] then
        (case t of None \<Rightarrow> P_idle | Some u \<Rightarrow> if ts_decision u = ''commit'' then P_committed else P_aborted)
      else if pd_status (hd rows) = Committed then (if t = None then P_applied else P_committed)
      else if t = None then P_prepared (work_of rows) else P_committing (work_of rows))"

definition phase_of :: "'db shard \<Rightarrow> string \<Rightarrow> phase" where
  "phase_of st tx = phase_from (rows_of st tx) (tomb st tx)"

definition abs_shard :: "'db shard \<Rightarrow> (string \<Rightarrow> phase) \<times> 'db" where
  "abs_shard st = (phase_of st, sh_db st)"

inductive proto :: "'db sql_engine \<Rightarrow> (string \<Rightarrow> phase) \<times> 'db \<Rightarrow> (string \<Rightarrow> phase) \<times> 'db \<Rightarrow> bool" for sql where
  prepare: "p tx = P_idle \<Longrightarrow> w \<noteq> [] \<Longrightarrow> proto sql (p, db) (p(tx := P_prepared w), db)"
| commit: "p tx = P_prepared w \<Longrightarrow> proto sql (p, db) (p(tx := P_committing w), db)"
| abort: "p tx = P_prepared w \<Longrightarrow> proto sql (p, db) (p(tx := P_aborted), db)"
| refuse: "p tx = P_idle \<Longrightarrow> proto sql (p, db) (p(tx := P_aborted), db)"
| learn: "p tx = P_idle \<Longrightarrow> proto sql (p, db) (p(tx := P_committed), db)"
| run: "p tx = P_committing w \<Longrightarrow> run_work sql w db = Some db' \<Longrightarrow> proto sql (p, db) (p(tx := P_committed), db')"
| remember: "p tx = P_applied \<Longrightarrow> proto sql (p, db) (p(tx := P_committed), db)"
| forget: "p tx = P_applied \<Longrightarrow> proto sql (p, db) (p(tx := P_aborted), db)"

text \<open>Phases that no step of the machine leaves.\<close>

lemma proto_final:
  "proto sql a b \<Longrightarrow> fst a tx = P_committed \<or> fst a tx = P_aborted \<Longrightarrow> fst b tx = fst a tx"
  by (induction rule: proto.induct) auto

lemma protos_final:
  "(proto sql)\<^sup>*\<^sup>* a b \<Longrightarrow> fst a tx = P_committed \<or> fst a tx = P_aborted \<Longrightarrow> fst b tx = fst a tx"
  by (induction rule: rtranclp_induct) (auto dest: proto_final)

section \<open>Effects are steps\<close>

lemma phase_core: "core st = core st' \<Longrightarrow> phase_of st = phase_of st'"
proof
  fix tx assume c: "core st = core st'"
  show "phase_of st tx = phase_of st' tx"
    unfolding phase_of_def core_rows [OF c] core_tomb [OF c] ..
qed

lemma abs_core: "core st = core st' \<Longrightarrow> abs_shard st = abs_shard st'"
proof -
  assume c: "core st = core st'"
  then have "sh_db st = sh_db st'" by (simp add: core_def)
  then show ?thesis by (simp only: abs_shard_def phase_core [OF c])
qed

lemma abs_update:
  assumes "\<And>x. x \<noteq> tx \<Longrightarrow> phase_of st' x = phase_of st x" "phase_of st' tx = ph"
  shows "phase_of st' = (phase_of st)(tx := ph)"
  using assms by (intro ext) auto

lemma phase_vote:
  assumes "rows_of st (mg_tx m) = []" "tomb st (mg_tx m) = None" "is \<noteq> []"
  shows "phase_of (record_intents m now 0 is st) = (phase_of st)(mg_tx m := P_prepared (work_of (new_rows m now 0 is)))"
proof (rule abs_update)
  have t: "tomb (record_intents m now 0 is st) x = tomb st x" for x by (simp add: tomb_def record_frame)
  show "phase_of (record_intents m now 0 is st) x = phase_of st x" if "x \<noteq> mg_tx m" for x
    using that by (simp add: phase_of_def t rows_record [OF assms(1)])
  obtain r rs where n: "new_rows m now 0 is = r # rs" using assms(3) by (cases "is") auto
  have "pd_status r = Prepared" using new_rows_props [of r m now 0 "is"] by (auto simp: n prepared_row_def)
  then show "phase_of (record_intents m now 0 is st) (mg_tx m) = P_prepared (work_of (new_rows m now 0 is))"
    by (simp add: phase_of_def phase_from_def t rows_record [OF assms(1)] assms(2) n)
qed

lemma phase_adopt: "phase_of (st\<lparr>sh_pending := map (adopt_row m) (sh_pending st)\<rparr>) = phase_of st"
proof
  fix tx
  let ?st = "st\<lparr>sh_pending := map (adopt_row m) (sh_pending st)\<rparr>"
  have r: "rows_of ?st tx = map (adopt_row m) (rows_of st tx)" by (rule rows_map) (simp_all add: adopt_row_frame)
  have t: "tomb ?st tx = tomb st tx" by (simp add: tomb_def)
  show "phase_of ?st tx = phase_of st tx"
    by (cases "rows_of st tx") (simp_all add: phase_of_def phase_from_def r t work_of_def adopt_row_frame)
qed

lemma phase_add:
  assumes "tomb st (ts_tx t) = None"
  shows "phase_of (add_tombstone t st) = (phase_of st)(ts_tx t := 
     (case rows_of st (ts_tx t) of [] \<Rightarrow> if ts_decision t = ''commit'' then P_committed else P_aborted
      | r # rs \<Rightarrow> if pd_status r = Committed then P_committed else P_committing (work_of (r # rs))))"
  by (rule abs_update) (simp_all add: phase_of_def phase_from_def tomb_add [OF assms] split: list.splits)

lemma phase_drop:
  assumes "tomb st (ts_tx t) = None" "ts_decision t = ''abort''"
  shows "phase_of (forget_intents (ts_tx t) (add_tombstone t st)) = (phase_of st)(ts_tx t := P_aborted)"
  by (rule abs_update) (simp_all add: phase_of_def phase_from_def tomb_add [OF assms(1)] rows_forget assms(2))

lemma phase_execute:
  assumes "tomb st tx = Some t" "rows_of st tx = r # rs" "apply_now sql now tx st = Inr st'"
  shows "phase_of st' = (phase_of st)(tx := P_committed)"
proof (rule abs_update)
  have p: "sh_pending st' = sh_pending (mark_committed now tx st)" "sh_tombstones st' = sh_tombstones st"
    using apply_now_frame(2,3) [OF assms(3)] by simp_all
  have rows: "rows_of st' x = map (commit_mark now tx) (rows_of st x)" for x
    using marked(4) [of now tx st x] by (simp add: storedIntentIdentity_def p(1))
  have t: "tomb st' x = tomb st x" for x by (simp add: tomb_def p(2))
  show "phase_of st' x = phase_of st x" if "x \<noteq> tx" for x
  proof -
    have "commit_mark now tx s = s" if "s \<in> set (rows_of st x)" for s
      using that \<open>x \<noteq> tx\<close> by (auto simp: set_rows commit_mark_def)
    then have "rows_of st' x = rows_of st x" unfolding rows by (rule map_idI)
    then show ?thesis by (simp add: phase_of_def t)
  qed
  have "pd_tx r = tx" using set_rows [of st tx] by (auto simp: assms(2))
  then show "phase_of st' tx = P_committed"
    by (simp add: phase_of_def phase_from_def rows t assms(1,2) commit_mark_frame)
qed

lemma work_nonempty: "rs \<noteq> [] \<Longrightarrow> work_of rs \<noteq> []"
  by (simp add: work_of_def)

theorem eff_refines:
  assumes "eff sql st st'" "shard_inv st"
  shows "(proto sql)\<^sup>=\<^sup>= (abs_shard st) (abs_shard st')"
  using assms
proof (induction rule: eff.induct)
  case (same st' st)
  then show ?case using abs_core [OF same(1)] by simp
next
  case (vote st m "is" st' now)
  have e: "abs_shard st' = ((phase_of st)(mg_tx m := P_prepared (work_of (new_rows m now 0 is))), sh_db st)"
    using abs_core [OF vote(5)] by (simp add: abs_shard_def phase_vote [OF vote(1-3)] record_frame)
  have "phase_of st (mg_tx m) = P_idle" by (simp add: phase_of_def phase_from_def vote(1,2))
  moreover have "work_of (new_rows m now 0 is) \<noteq> []" using vote(3) by (cases "is") (simp_all add: work_of_def)
  ultimately show ?case unfolding e abs_shard_def [of st] by (intro sup2I1 proto.prepare)
next
  case (adopt st m st')
  have "abs_shard st' = abs_shard (st\<lparr>sh_pending := map (adopt_row m) (sh_pending st)\<rparr>)" by (rule abs_core [OF adopt(2)])
  then show ?case unfolding abs_shard_def phase_adopt by simp
next
  case (decide st t st')
  let ?tx = "ts_tx t"
  have e: "abs_shard st' = (phase_of (add_tombstone t st), sh_db st)"
    using abs_core [OF decide(4)] by (simp add: abs_shard_def add_tombstone_def)
  have valid: "ts_decision t = ''commit'' \<or> ts_decision t = ''abort''"
    using decide(2) by (auto simp: validateParticipantTombstone_def tombstone_json_def assertParticipantDecision_def
        PARTICIPANT_DECISIONS_def)
  show ?case
  proof (cases "rows_of st ?tx")
    case Nil
    have i: "phase_of st ?tx = P_idle" by (simp add: phase_of_def phase_from_def decide(1) Nil)
    show ?thesis
    proof (cases "ts_decision t = ''commit''")
      case True
      show ?thesis unfolding e abs_shard_def [of st] phase_add [OF decide(1)] Nil list.case
        by (simp only: True refl if_True) (intro sup2I1 proto.learn i)
    next
      case False
      show ?thesis unfolding e abs_shard_def [of st] phase_add [OF decide(1)] Nil list.case
        by (simp only: False if_False) (intro sup2I1 proto.refuse i)
    qed
  next
    case (Cons r rs)
    show ?thesis
    proof (cases "pd_status r = Committed")
      case True
      have i: "phase_of st ?tx = P_applied" by (simp add: phase_of_def phase_from_def decide(1) Cons True)
      show ?thesis unfolding e abs_shard_def [of st] phase_add [OF decide(1)] Cons list.case
        by (simp only: True refl if_True) (intro sup2I1 proto.remember i)
    next
      case False
      have i: "phase_of st ?tx = P_prepared (work_of (r # rs))" by (simp add: phase_of_def phase_from_def decide(1) Cons False)
      show ?thesis unfolding e abs_shard_def [of st] phase_add [OF decide(1)] Cons list.case
        by (simp only: False if_False) (intro sup2I1 proto.commit i)
    qed
  qed
next
  case (drop st t st')
  let ?tx = "ts_tx t"
  have e: "abs_shard st' = ((phase_of st)(?tx := P_aborted), sh_db st)"
    using abs_core [OF drop(5)] by (simp add: abs_shard_def phase_drop [OF drop(1,3)]) (simp add: forget_intents_def add_tombstone_def)
  obtain r rs where r: "rows_of st ?tx = r # rs" using drop(4) by (cases "rows_of st ?tx") auto
  show ?case
  proof (cases "pd_status r = Committed")
    case True
    have i: "phase_of st ?tx = P_applied" by (simp add: phase_of_def phase_from_def drop(1) r True)
    show ?thesis unfolding e abs_shard_def [of st] by (intro sup2I1 proto.forget i)
  next
    case False
    have i: "phase_of st ?tx = P_prepared (work_of (r # rs))" by (simp add: phase_of_def phase_from_def drop(1) r False)
    show ?thesis unfolding e abs_shard_def [of st] by (rule sup2I1, rule proto.abort, rule i)
  qed
next
  case (execute st tx t r rs now st')
  have i: "phase_of st tx = P_committing (work_of (r # rs))"
    by (simp add: phase_of_def phase_from_def execute(1,3,4))
  have w: "run_work sql (work_of (r # rs)) (sh_db st) = Some (sh_db st')"
    using apply_now_frame(1) [OF execute(5)] by (simp only: execute(3))
  show ?case unfolding abs_shard_def phase_execute [OF execute(1,3,5)] by (rule sup2I1, rule proto.run, rule i, rule w)
qed

lemma effs_refine:
  assumes "(eff sql)\<^sup>*\<^sup>* st st'" "shard_inv st"
  shows "shard_inv st' \<and> (proto sql)\<^sup>*\<^sup>* (abs_shard st) (abs_shard st')"
  using assms
proof (induction rule: rtranclp_induct)
  case (step y z)
  then have "shard_inv y" "(proto sql)\<^sup>*\<^sup>* (abs_shard st) (abs_shard y)" by auto
  moreover have "(proto sql)\<^sup>=\<^sup>= (abs_shard y) (abs_shard z)" by (rule eff_refines [OF step(2)]) fact
  ultimately show ?case using eff_inv [OF step(2)] by (auto intro: rtranclp.rtrancl_into_rtrancl)
qed simp

section \<open>Handlers are sequences of effects\<close>

lemma core_certified: "core (snd (certifiedPrepareResponse port now tx n st)) = core st"
  by (auto simp: certifiedPrepareResponse_def core_def Let_def split: option.splits)

lemma eff_refl: "eff sql st st"
  by (rule eff.same) simp

lemma effs_same: "core st' = core st \<Longrightarrow> (eff sql)\<^sup>*\<^sup>* st st'"
  by (rule r_into_rtranclp, rule eff.same)

lemma payload_phase:
  "participantPayload dg st raw phase is = Inr m \<Longrightarrow> mg_phase m = phase"
  by (auto simp: participantPayload_def versioned_payload_def legacy_payload_def Let_def and_then_ok split: if_splits)

lemma compatible_tomb:
  assumes "shard_inv st" "assertMessageCompatible m st = Inr ()" "tomb st (mg_tx m) = Some t"
  shows "mg_phase m \<noteq> ''prepare''" "mg_phase m = ''commit'' \<Longrightarrow> ts_decision t = ''commit''"
    "mg_phase m = ''abort'' \<Longrightarrow> ts_decision t = ''abort''"
  using assms(2) by (auto simp: assertMessageCompatible_def tombstone_ok [OF assms(1)] assms(3) and_then_ok split: if_splits)

lemma persisted:
  assumes "shard_inv st" "persistTombstone m d now st = Inr st'"
  obtains (old) t where "tomb st (mg_tx m) = Some t" "ts_decision t = d" "st' = st"
  | (fresh) t where "tomb st (mg_tx m) = None" "t = new_tombstone m d now" "ts_tx t = mg_tx m" "ts_decision t = d"
      "validateParticipantTombstone (tombstone_json t) = Inr ()" "st' = add_tombstone t st"
proof (cases "tomb st (mg_tx m)")
  case None
  let ?t = "new_tombstone m d now"
  have p: "and_then (validateParticipantTombstone (tombstone_json ?t)) (\<lambda>_. Inr (add_tombstone ?t st)) = Inr st'"
    using assms(2) by (simp add: persistTombstone_def tombstone_ok [OF assms(1)] None Let_def add_tombstone_def)
  then have "validateParticipantTombstone (tombstone_json ?t) = Inr ()" "st' = add_tombstone ?t st"
    by (auto simp: and_then_ok)
  then show ?thesis using fresh [of ?t] None by (simp add: new_tombstone_def)
next
  case (Some t)
  then show ?thesis
    using old assms(2) by (auto simp: persistTombstone_def tombstone_ok [OF assms(1)] and_then_ok split: if_splits)
qed

lemma prepare_effs:
  assumes inv: "shard_inv st"
  shows "(eff sql)\<^sup>*\<^sup>* st (snd (prepare_new sql port now m is st)) \<or> is = [] \<or> rows_of st (mg_tx m) \<noteq> [] \<or> tomb st (mg_tx m) \<noteq> None"
proof -
  let ?v = "record_intents m now 0 is st"
  have "(eff sql)\<^sup>*\<^sup>* st (snd (certifiedPrepareResponse port now (mg_tx m) (length is) ?v))"
    if "is \<noteq> []" "rows_of st (mg_tx m) = []" "tomb st (mg_tx m) = None"
      "foreign_lock st (mg_tx m) (map intent_lock_key is) = None"
    by (rule r_into_rtranclp, rule eff.vote [OF that(2,3,1,4) core_certified])
  then show ?thesis
    by (auto simp: prepare_new_def split: option.splits validation.splits)
qed

lemma adopted_effs:
  "adoptLegacyPrepared m is st = Inr (n, st') \<Longrightarrow> eff sql st st'"
  by (auto simp: adoptLegacyPrepared_def Let_def split: if_splits intro!: eff.adopt)

lemma handlePrepare_effs:
  assumes inv: "shard_inv st"
  shows "(eff sql)\<^sup>*\<^sup>* st (snd (handlePrepare dg sql port now raw is st))"
proof (cases "is")
  case (Some intents)
  show ?thesis
  proof (cases "intents = [] \<or> (\<exists>e. participantPayload dg st raw ''prepare'' (Some intents) = Inl e)")
    case True
    then show ?thesis by (auto simp: handlePrepare_def Some)
  next
    case False
    then obtain m where ne: "intents \<noteq> []" and m: "participantPayload dg st raw ''prepare'' (Some intents) = Inr m"
      by (cases "participantPayload dg st raw ''prepare'' (Some intents)") auto
    let ?e = "rows_of st (mg_tx m)"
    consider (legacy) "?e \<noteq> []" "entirely_unadopted ?e" | (known) "?e \<noteq> []" "\<not> entirely_unadopted ?e" | (first) "?e = []"
      by blast
    then show ?thesis
    proof cases
      case legacy
      have "(eff sql)\<^sup>*\<^sup>* st (snd (certifiedPrepareResponse port now (mg_tx m) n st1))"
        if "adoptLegacyPrepared m intents st = Inr (n, st1)" for n st1
        by (rule rtranclp_trans [OF r_into_rtranclp, OF adopted_effs [OF that] effs_same [OF core_certified]])
      then show ?thesis using legacy ne
        by (auto simp: handlePrepare_def Some m Let_def effs_same core_certified split: sum.splits)
    next
      case known
      then show ?thesis using ne
        by (auto simp: handlePrepare_def Some m Let_def effs_same core_certified split: sum.splits)
    next
      case first
      show ?thesis
      proof (cases "assertMessageCompatible m st")
        case (Inl e)
        then show ?thesis using first ne by (simp add: handlePrepare_def Some m Let_def)
      next
        case (Inr u)
        have "tomb st (mg_tx m) = None"
          using compatible_tomb(1) [OF inv] Inr payload_phase [OF m] by (cases "tomb st (mg_tx m)") auto
        then have "(eff sql)\<^sup>*\<^sup>* st (snd (prepare_new sql port now m intents st))"
          using prepare_effs [OF inv, of sql port now m intents] ne first by blast
        then show ?thesis using first ne Inr by (simp add: handlePrepare_def Some m Let_def)
      qed
    qed
  qed
qed (simp add: handlePrepare_def)

text \<open>A commit decision recorded over prepared rows, then applied.\<close>

lemma decide_commit_effs:
  assumes inv: "shard_inv st" and p: "persistTombstone m ''commit'' now st = Inr st1"
  shows "(eff sql)\<^sup>*\<^sup>* st st1 \<and> shard_inv st1 \<and> rows_of st1 tx = rows_of st tx
     \<and> (\<exists>t. tomb st1 (mg_tx m) = Some t \<and> ts_decision t = ''commit'')"
  using inv p
proof (cases rule: persisted)
  case (old t)
  then show ?thesis using inv by auto
next
  case (fresh t)
  have e: "eff sql st st1"
    using fresh by (intro eff.decide [of st t]) (simp_all add: core_def)
  have "tomb st (ts_tx t) = None" using fresh by simp
  from tomb_add [OF this, of "mg_tx m"] have "tomb st1 (mg_tx m) = Some t" using fresh(3,6) by simp
  then show ?thesis using e eff_inv [OF e inv] fresh(4,6) by (auto simp: r_into_rtranclp)
qed

lemma commit_effs:
  assumes inv: "shard_inv st" and p: "persistTombstone m ''commit'' now st = Inr st1"
    and r: "rows_of st (mg_tx m) = r # rs" "pd_status r = Prepared" and a: "apply_now sql now (mg_tx m) st1 = Inr st2"
  shows "(eff sql)\<^sup>*\<^sup>* st st2"
proof -
  note d = decide_commit_effs [OF inv p, where sql = sql and tx = "mg_tx m"]
  obtain t where t: "tomb st1 (mg_tx m) = Some t" "ts_decision t = ''commit''" using d by blast
  have "eff sql st1 st2" using eff.execute [OF t _ r(2) a] d r(1) by simp
  then show ?thesis using d by (blast intro: rtranclp.rtrancl_into_rtrancl)
qed

lemma not_committed:
  assumes "shard_inv st" "rows_of st tx = r # rs" "pd_status r \<noteq> Committed"
  shows "pd_status r = Prepared"
  using rows_status [OF assms(1), of r tx] assms(2,3) by (cases "pd_status r") auto

lemma handleCommit_effs:
  assumes inv: "shard_inv st"
  shows "(eff sql)\<^sup>*\<^sup>* st (snd (handleCommit dg sql now raw st))"
proof (cases "participantPayload dg st raw ''commit'' None")
  case (Inr m)
  show ?thesis
  proof (cases "assertMessageCompatible m st")
    case ok: (Inr u)
    show ?thesis
    proof (cases "rows_of st (mg_tx m)")
      case Nil
      then show ?thesis by (auto simp: handleCommit_def Inr ok split: sum.splits option.splits)
    next
      case (Cons r rs)
      show ?thesis
      proof (cases "persistTombstone m ''commit'' now st")
        case (Inl e)
        then show ?thesis by (simp add: handleCommit_def \<open>_ = Inr m\<close> ok Cons)
      next
        case p: (Inr st1)
        have d: "(eff sql)\<^sup>*\<^sup>* st st1" using decide_commit_effs [OF inv p] by blast
        show ?thesis
        proof (cases "pd_status r = Committed")
          case True
          then show ?thesis using d by (simp add: handleCommit_def Inr ok Cons p)
        next
          case False
          then have r: "pd_status r = Prepared" by (rule not_committed [OF inv Cons])
          then show ?thesis
            using d commit_effs [OF inv p Cons r] by (auto simp: handleCommit_def Inr ok Cons p split: sum.splits)
        qed
      qed
    qed
  qed (simp add: handleCommit_def Inr)
qed (simp add: handleCommit_def)

lemma forget_idle:
  assumes inv: "shard_inv st" and r: "rows_of st tx = []"
  shows "core (forget_intents tx st) = core st"
proof -
  have p: "\<forall>x\<in>set (sh_pending st). pd_tx x \<noteq> tx" using r set_rows [of st tx] by auto
  then have "\<forall>l\<in>set (sh_locks st). lk_tx l \<noteq> tx" using inv by (fastforce simp: shard_inv_def)
  then show ?thesis using p by (simp add: core_def forget_intents_def filter_id_conv)
qed

text \<open>An abort decision recorded, then the intents dropped.\<close>

lemma abort_effs:
  assumes inv: "shard_inv st" and p: "persistTombstone m ''abort'' now st = Inr st1"
  shows "(eff sql)\<^sup>*\<^sup>* st (forget_intents (mg_tx m) st1)" "rows_of st (mg_tx m) = [] \<Longrightarrow> (eff sql)\<^sup>*\<^sup>* st st1"
proof -
  have both: "(eff sql)\<^sup>*\<^sup>* st (forget_intents (mg_tx m) st1) \<and> (rows_of st (mg_tx m) = [] \<longrightarrow> (eff sql)\<^sup>*\<^sup>* st st1)"
    using inv p
  proof (cases rule: persisted)
    case (old t)
    have "rows_of st (mg_tx m) = []" by (rule abort_tomb_rows [OF inv old(1,2)])
    then show ?thesis using forget_idle [OF inv] old(3) by (auto intro: effs_same)
  next
    case (fresh t)
    show ?thesis
    proof (cases "rows_of st (mg_tx m) = []")
      case True
      have e: "eff sql st st1" using fresh True by (intro eff.decide [of st t]) (simp_all add: core_def)
      have "rows_of st1 (mg_tx m) = []" using True fresh(6) by simp
      then have "core (forget_intents (mg_tx m) st1) = core st1" by (rule forget_idle [OF eff_inv [OF e inv]])
      then show ?thesis using e by (auto intro: rtranclp_trans [OF r_into_rtranclp effs_same])
    next
      case False
      have "eff sql st (forget_intents (ts_tx t) (add_tombstone t st))"
        using fresh False by (intro eff.drop [of st t]) (simp_all add: core_def)
      then show ?thesis using False fresh(3,6) by (auto intro: r_into_rtranclp)
    qed
  qed
  then show "(eff sql)\<^sup>*\<^sup>* st (forget_intents (mg_tx m) st1)" "rows_of st (mg_tx m) = [] \<Longrightarrow> (eff sql)\<^sup>*\<^sup>* st st1" by blast+
qed

lemma discard_effs:
  assumes inv: "shard_inv st" and t: "tomb st (mg_tx m) = None" and d: "discardUnadoptedLegacy m now st = Inr (n, st')"
  shows "(eff sql)\<^sup>*\<^sup>* st st'"
proof -
  let ?t = "new_tombstone m ''abort'' now"
  have f: "ts_tx ?t = mg_tx m" "ts_decision ?t = ''abort''" by (simp_all add: new_tombstone_def)
  have v: "validateParticipantTombstone (tombstone_json ?t) = Inr ()" "rows_of st (mg_tx m) \<noteq> []"
    "st' = forget_intents (mg_tx m) (add_tombstone ?t st)"
    using d by (auto simp: discardUnadoptedLegacy_def Let_def and_then_ok add_tombstone_def split: if_splits)
  have "eff sql st (forget_intents (ts_tx ?t) (add_tombstone ?t st))"
    by (rule eff.drop [OF _ v(1) f(2) _ refl]) (simp_all add: f t v(2))
  then show ?thesis by (simp add: f v(3) r_into_rtranclp)
qed

lemma handleAbort_effs:
  assumes inv: "shard_inv st"
  shows "(eff sql)\<^sup>*\<^sup>* st (snd (handleAbort dg now raw st))"
proof (cases "participantPayload dg st raw ''abort'' None")
  case m: (Inr m)
  let ?rows = "rows_of st (mg_tx m)"
  note tm = tombstone_ok [OF inv, of "mg_tx m"]
  let ?legacy = "jget raw ''legacy_predecision_abort'' = JBool True \<and> tomb st (mg_tx m) = None \<and> entirely_unadopted ?rows"
  have pre: "(if jget raw ''legacy_predecision_abort'' = JBool True
      then and_then (tombstone st (mg_tx m)) (\<lambda>t. Inr (t = None \<and> entirely_unadopted ?rows)) else Inr False) = Inr ?legacy"
    by (simp add: tm)
  have out: "handleAbort dg now raw st =
     (if ?legacy then (case discardUnadoptedLegacy m now st of Inl e \<Rightarrow> (Protocol_error e, st) | Inr (n, st1) \<Rightarrow> (Legacy_discarded n, st1))
      else case assertMessageCompatible m st of Inl e \<Rightarrow> (Protocol_error e, st)
      | Inr _ \<Rightarrow>
          if ?rows = [] then
            (if map_option ts_decision (tomb st (mg_tx m)) = Some ''abort'' then (Already_resolved, st)
             else case persistTombstone m ''abort'' now st of
                    Inl e \<Rightarrow> (Protocol_error e, st) | Inr st1 \<Rightarrow> (Already_resolved, st1))
          else if list_ex (\<lambda>r. pd_status r = Committed) ?rows then (Already_committed, st)
          else case persistTombstone m ''abort'' now st of
                 Inl e \<Rightarrow> (Protocol_error e, st)
               | Inr st1 \<Rightarrow> (Abort_ok, forget_intents (mg_tx m) st1))"
  proof -
    have two: "(case b of True \<Rightarrow> B | False \<Rightarrow> C) = (if b then B else C)" for b and B C :: "shard_reply \<times> 'a shard"
      by (cases b) simp_all
    show ?thesis unfolding handleAbort_def m sum.case Let_def pre two unfolding tm sum.case by (rule refl)
  qed
  show ?thesis
  proof (cases ?legacy)
    case True
    then show ?thesis
      using discard_effs [OF inv] by (auto simp: out split: sum.splits)
  next
    case False
    show ?thesis
    proof (cases "assertMessageCompatible m st")
      case (Inl e)
      then show ?thesis using False by (auto simp: out)
    next
      case ok: (Inr u)
      show ?thesis
      proof (cases "persistTombstone m ''abort'' now st")
        case (Inl e)
        then show ?thesis using False by (auto simp: out ok)
      next
        case p: (Inr st1)
        show ?thesis using False abort_effs [OF inv p] by (auto simp: out ok p)
      qed
    qed
  qed
qed (simp add: handleAbort_def)

lemma handleRecover_effs:
  assumes inv: "shard_inv st"
  shows "(eff sql)\<^sup>*\<^sup>* st (snd (handleRecover dg sql now raw st))"
proof (cases "participantPayload dg st raw ''recover'' None")
  case m: (Inr m)
  note tm = tombstone_ok [OF inv, of "mg_tx m"]
  show ?thesis
  proof (cases "assertMessageCompatible m st")
    case (Inl e)
    then show ?thesis by (simp add: handleRecover_def m)
  next
    case ok: (Inr u)
    define decision where "decision = (case tomb st (mg_tx m) of Some t \<Rightarrow> Some (ts_decision t)
       | None \<Rightarrow> if jget raw ''decision'' = JStr ''commit'' \<or> jget raw ''decision'' = JStr ''abort''
                 then Some (str_of (jget raw ''decision'')) else None)"
    have dec: "d = ''commit'' \<or> d = ''abort''" if "decision = Some d" for d
      using that tomb_decision [OF inv, of "mg_tx m"] by (auto simp: decision_def split: option.splits if_splits)
    note unf = handleRecover_def m sum.case ok tm Let_def decision_def [symmetric]
    show ?thesis
    proof (cases decision)
      case None
      then show ?thesis by (simp add: unf)
    next
      case (Some d)
      show ?thesis
      proof (cases "persistTombstone m d now st")
        case (Inl e)
        then show ?thesis by (simp add: unf Some)
      next
        case p: (Inr st1)
        from dec [OF Some] show ?thesis
        proof
          assume a: "d = ''abort''"
          then show ?thesis using abort_effs(1) [OF inv] p by (simp add: unf Some)
        next
          assume c: "d = ''commit''"
          have p': "persistTombstone m ''commit'' now st = Inr st1" using p c by simp
          note e = decide_commit_effs [OF inv p', where sql = sql and tx = "mg_tx m"]
          have r1: "rows_of st1 (mg_tx m) = rows_of st (mg_tx m)" using e by blast
          have out: "snd (handleRecover dg sql now raw st) = (case rows_of st (mg_tx m) of [] \<Rightarrow> st1
              | r # rs \<Rightarrow> if pd_status r = Committed then st1
                         else (case apply_now sql now (mg_tx m) st1 of Inl msg \<Rightarrow> st1 | Inr st2 \<Rightarrow> st2))"
            using p' c by (simp add: unf Some r1 split: list.splits sum.splits)
          show ?thesis
          proof (cases "rows_of st (mg_tx m)")
            case Nil
            then show ?thesis using e by (simp add: out)
          next
            case (Cons r rs)
            then show ?thesis
              using e commit_effs [OF inv p' Cons] not_committed [OF inv Cons] by (auto simp: out split: sum.splits)
          qed
        qed
      qed
    qed
  qed
qed (simp add: handleRecover_def)

section \<open>The sweep\<close>

lemma metadata_row:
  "pendingMetadata st tx = Some p \<Longrightarrow> \<exists>rs. rows_of st tx = p # rs"
  by (auto simp: pendingMetadata_def split: list.splits)

lemma sweep_one_effs:
  assumes inv: "shard_inv st" and s: "list_all (\<lambda>r. pd_status r = Prepared) (rows_of st tx)"
  shows "(eff sql)\<^sup>*\<^sup>* st (sweep_one sql now ask tx st)"
proof (cases "pendingMetadata st tx")
  case (Some p)
  obtain rs where r: "rows_of st tx = p # rs" using metadata_row [OF Some] by blast
  let ?rc = "queryCoordinatorDecision (ask tx)"
  let ?m = "recovery_payload tx ?rc p"
  have tx: "mg_tx ?m = tx" by (simp add: recovery_payload_def)
  have pr: "pd_status p = Prepared" using s r by simp
  have c: "(eff sql)\<^sup>*\<^sup>* st (case persistTombstone ?m ''commit'' now st of Inl e \<Rightarrow> st
      | Inr st1 \<Rightarrow> (case apply_now sql now tx st1 of Inl msg \<Rightarrow> st1 | Inr st2 \<Rightarrow> st2))"
  proof (cases "persistTombstone ?m ''commit'' now st")
    case p1: (Inr st1)
    have "(eff sql)\<^sup>*\<^sup>* st st1" using decide_commit_effs [OF inv p1] by blast
    then show ?thesis using commit_effs [OF inv p1, unfolded tx, OF r pr] by (auto simp: p1 split: sum.splits)
  qed simp
  have a: "(eff sql)\<^sup>*\<^sup>* st (case persistTombstone ?m ''abort'' now st of Inl e \<Rightarrow> st | Inr st1 \<Rightarrow> forget_intents tx st1)"
  proof (cases "persistTombstone ?m ''abort'' now st")
    case p1: (Inr st1)
    then show ?thesis using abort_effs(1) [OF inv p1, unfolded tx] by simp
  qed simp
  show ?thesis
    using c a by (simp add: sweep_one_def Let_def Some)
qed (simp add: sweep_one_def Let_def)

text \<open>The sweep of one transaction leaves the rows of the others.\<close>

lemma rows_other:
  assumes "\<And>r. r \<in> set (sh_pending st) \<Longrightarrow> pd_tx r \<noteq> tx \<Longrightarrow> f r = r" "\<And>r. pd_tx (f r) = pd_tx r" "\<And>r. pd_seq (f r) = pd_seq r"
    "sh_pending st' = map f (sh_pending st)" "tx' \<noteq> tx"
  shows "rows_of st' tx' = rows_of st tx'"
proof -
  have "rows_of st' tx' = rows_of (st\<lparr>sh_pending := map f (sh_pending st)\<rparr>) tx'"
    by (simp add: storedIntentIdentity_def assms(4))
  also have "\<dots> = map f (rows_of st tx')" by (rule rows_map [OF assms(2,3)])
  also have "\<dots> = rows_of st tx'"
  proof (rule map_idI)
    fix r assume "r \<in> set (rows_of st tx')"
    then have "r \<in> set (sh_pending st)" "pd_tx r \<noteq> tx" using assms(5) by (auto simp: set_rows)
    then show "f r = r" by (rule assms(1))
  qed
  finally show ?thesis .
qed

lemma apply_now_other:
  assumes "apply_now sql now tx st = Inr st'" "tx' \<noteq> tx"
  shows "rows_of st' tx' = rows_of st tx'"
proof (rule rows_other [where f = "commit_mark now tx", OF _ commit_mark_frame(1,2) _ assms(2)])
  show "sh_pending st' = map (commit_mark now tx) (sh_pending st)"
    using apply_now_frame(3) [OF assms(1)] by (simp add: marked)
qed (simp add: commit_mark_def)

lemma persist_rows: "persistTombstone m d now st = Inr st1 \<Longrightarrow> rows_of st1 tx = rows_of st tx"
  by (auto simp: persistTombstone_def and_then_ok Let_def storedIntentIdentity_def split: option.splits if_splits)

lemma sweep_one_other: "tx' \<noteq> tx \<Longrightarrow> rows_of (sweep_one sql now ask tx st) tx' = rows_of st tx'"
  by (auto simp: sweep_one_def Let_def rows_forget persist_rows apply_now_other split: option.splits sum.splits)

lemma sweep_effs:
  assumes "shard_inv st" "distinct txs" "\<And>tx. tx \<in> set txs \<Longrightarrow> list_all (\<lambda>r. pd_status r = Prepared) (rows_of st tx)"
  shows "(eff sql)\<^sup>*\<^sup>* st (foldl (\<lambda>s tx. sweep_one sql now ask tx s) st txs)"
  using assms
proof (induction txs arbitrary: st)
  case (Cons tx txs)
  let ?s = "sweep_one sql now ask tx st"
  have one: "(eff sql)\<^sup>*\<^sup>* st ?s" using Cons.prems by (intro sweep_one_effs) auto
  have inv: "shard_inv ?s" using effs_refine [OF one Cons.prems(1)] by blast
  have "list_all (\<lambda>r. pd_status r = Prepared) (rows_of ?s tx')" if "tx' \<in> set txs" for tx'
  proof -
    have "tx' \<noteq> tx" using Cons.prems(2) that by auto
    then show ?thesis using Cons.prems(3) [of tx'] that by (simp add: sweep_one_other)
  qed
  then have "(eff sql)\<^sup>*\<^sup>* ?s (foldl (\<lambda>s tx. sweep_one sql now ask tx s) ?s txs)"
    using Cons.prems(2) by (intro Cons.IH [OF inv]) auto
  with one show ?case by simp
qed simp

lemma stale_prepared:
  assumes inv: "shard_inv st" and s: "tx \<in> set (stale_txs now st)"
  shows "list_all (\<lambda>r. pd_status r = Prepared) (rows_of st tx)"
proof -
  obtain r where r: "r \<in> set (sh_pending st)" "pd_tx r = tx" "pd_status r = Prepared"
    using s by (auto simp: stale_txs_def)
  then have m: "r \<in> set (rows_of st tx)" by (simp add: set_rows)
  have "pd_status s = Prepared" if "s \<in> set (rows_of st tx)" for s
    using rows_same(1) [OF inv that m] r(3) by (rule trans)
  then show ?thesis by (simp only: list_all_iff ball_simps) blast
qed

lemma sweepStale_effs:
  assumes inv: "shard_inv st"
  shows "(eff sql)\<^sup>*\<^sup>* st (sweepStalePendingIntents sql now ask st)"
  unfolding sweepStalePendingIntents_def
proof (rule sweep_effs [OF inv])
  show "distinct (stale_txs now st)" unfolding stale_txs_def by (rule distinct_remdups)
qed (rule stale_prepared [OF inv])

end
