(* ===== verification/ShardTheorems.thy ===== *)
theory ShardTheorems
  imports ShardProtocol
begin

text \<open>
  The requests of one shard interleave in any order; between two requests any time may pass. What
  holds of the shard then: it refines the abstract participant, a row is locked by at most one
  transaction, a vote binds, and a decision is final until its retention is over.
\<close>

section \<open>Runs of a shard\<close>

inductive shard_step :: "digest_fn \<Rightarrow> 'db sql_engine \<Rightarrow> int \<Rightarrow> 'db shard \<Rightarrow> 'db shard \<Rightarrow> bool" for dg sql now st where
  prepare: "shard_step dg sql now st (snd (handlePrepare dg sql port now raw is st))"
| commit: "shard_step dg sql now st (snd (handleCommit dg sql now raw st))"
| abort: "shard_step dg sql now st (snd (handleAbort dg now raw st))"
| recover: "shard_step dg sql now st (snd (handleRecover dg sql now raw st))"
| sweep: "shard_step dg sql now st (sweepStalePendingIntents sql now ask st)"
| prune: "shard_step dg sql now st (prune_tombstones now st)"
| fence_vbucket: "shard_step dg sql now st (handleFenceVbucket vb st)"
| unfence_vbucket: "shard_step dg sql now st (handleUnfenceVbucket vb st)"
| fence_ring: "shard_step dg sql now st (handleFenceIndexRing ix st)"
| unfence_ring: "shard_step dg sql now st (handleUnfenceIndexRing ix st)"

text \<open>
  The other writers of the tenant tables (\<open>/execute\<close>, \<open>/migrate-import\<close>, \<open>/delete-vbucket-rows\<close> and
  the mirror worker) are not two-phase commit: between two of its requests they may change the
  tables, the provenance of their rows, the mirror queue and the alarm in any way, and they write
  none of its bookkeeping (intents, row locks, tombstones).
\<close>

inductive shard_run :: "digest_fn \<Rightarrow> 'db sql_engine \<Rightarrow> int \<Rightarrow> 'db shard \<Rightarrow> 'db shard \<Rightarrow> bool" for dg sql limit st where
  start: "shard_run dg sql limit st st"
| step: "shard_run dg sql limit st st' \<Longrightarrow> shard_step dg sql now st' st'' \<Longrightarrow> now \<le> limit
    \<Longrightarrow> shard_run dg sql limit st st''"
| data: "shard_run dg sql limit st st'
    \<Longrightarrow> shard_run dg sql limit st (st'\<lparr>sh_db := db, sh_owners := owners, sh_mirror := jobs, sh_alarm := at\<rparr>)"

definition new_shard :: "'db \<Rightarrow> 'db shard" where
  "new_shard db = \<lparr>sh_db = db, sh_pending = [], sh_locks = [], sh_tombstones = [], sh_owners = [], sh_mirror = [],
     sh_markers = [], sh_fenced_vbuckets = [], sh_fenced_rings = [], sh_alarm = None\<rparr>"

lemma new_shard_inv: "shard_inv (new_shard db)"
  by (simp add: shard_inv_def new_shard_def tbl_wf_def)

lemma step_effs:
  assumes "shard_step dg sql now st st'" "shard_inv st"
  shows "(eff sql)\<^sup>*\<^sup>* st st' \<or> st' = prune_tombstones now st"
  using assms
proof (cases rule: shard_step.cases)
  case prepare
  then show ?thesis using handlePrepare_effs [OF assms(2)] by simp
next
  case commit
  then show ?thesis using handleCommit_effs [OF assms(2)] by simp
next
  case abort
  then show ?thesis using handleAbort_effs [OF assms(2)] by simp
next
  case recover
  then show ?thesis using handleRecover_effs [OF assms(2)] by simp
next
  case sweep
  then show ?thesis using sweepStale_effs [OF assms(2)] by simp
next
  case prune
  then show ?thesis by simp
next
  case fence_vbucket
  then show ?thesis by (simp add: handleFenceVbucket_def core_def effs_same)
next
  case unfence_vbucket
  then show ?thesis by (simp add: handleUnfenceVbucket_def core_def effs_same)
next
  case fence_ring
  then show ?thesis by (simp add: handleFenceIndexRing_def core_def effs_same)
next
  case unfence_ring
  then show ?thesis by (simp add: handleUnfenceIndexRing_def core_def effs_same)
qed

lemma data_frame:
  assumes "st' = st\<lparr>sh_db := db, sh_owners := owners, sh_mirror := jobs, sh_alarm := at\<rparr>"
  shows "shard_inv st' = shard_inv st" "tomb st' tx = tomb st tx" "phase_of st' = phase_of st"
proof -
  have "rows_of st' tx = rows_of st tx" "tomb st' tx = tomb st tx" for tx
    by (simp_all add: assms storedIntentIdentity_def tomb_def)
  then show "phase_of st' = phase_of st" "tomb st' tx = tomb st tx" by (simp_all add: phase_of_def fun_eq_iff)
  show "shard_inv st' = shard_inv st" by (simp add: assms shard_inv_def storedIntentIdentity_def)
qed

section \<open>Pruning\<close>

text \<open>The end of a tombstone's retention, seen from the abstract machine.\<close>

definition expires :: "(string \<Rightarrow> phase) \<times> 'db \<Rightarrow> (string \<Rightarrow> phase) \<times> 'db \<Rightarrow> bool" where
  "expires a b \<longleftrightarrow> snd b = snd a \<and> (\<forall>tx. fst b tx = fst a tx
     \<or> fst a tx = P_committed \<and> fst b tx \<in> {P_idle, P_applied}
     \<or> fst a tx = P_aborted \<and> fst b tx = P_idle
     \<or> (\<exists>w. fst a tx = P_committing w \<and> fst b tx = P_prepared w))"

lemma inv_prune:
  assumes inv: "shard_inv st"
  shows "shard_inv (prune_tombstones now st)"
proof -
  note I = inv [unfolded shard_inv_def]
  have f: "sh_pending (prune_tombstones now st) = sh_pending st" "sh_locks (prune_tombstones now st) = sh_locks st"
    "sh_tombstones (prune_tombstones now st) = filter (\<lambda>t. \<not> ts_deadline t < now) (sh_tombstones st)"
    "rows_of (prune_tombstones now st) tx = rows_of st tx" for tx
    by (simp_all add: prune_tombstones_def storedIntentIdentity_def)
  have "tbl_wf ts_tx (filter (\<lambda>t. \<not> ts_deadline t < now) (sh_tombstones st))"
    using I by (simp add: tbl_wf_def distinct_map_filter)
  then show ?thesis unfolding shard_inv_def f using I by simp
qed

lemma option_eqI: "(\<And>t. a = Some t \<longleftrightarrow> b = Some t) \<Longrightarrow> a = b"
  by (metis option.exhaust)

lemma tomb_prune:
  assumes "shard_inv st"
  shows "tomb (prune_tombstones now st) tx =
    (case tomb st tx of None \<Rightarrow> None | Some t \<Rightarrow> if ts_deadline t < now then None else Some t)"
proof -
  define kept where "kept = (\<lambda>u :: tombstone_row option. case u of None \<Rightarrow> None | Some t \<Rightarrow> if ts_deadline t < now then None else Some t)"
  note P = tomb_Some_iff [OF inv_prune [OF assms]] and S = tomb_Some_iff [OF assms]
  have m: "t \<in> set (sh_tombstones (prune_tombstones now st)) \<longleftrightarrow> t \<in> set (sh_tombstones st) \<and> \<not> ts_deadline t < now" for t
    by (auto simp: prune_tombstones_def)
  have "tomb (prune_tombstones now st) tx = Some t \<longleftrightarrow> tomb st tx = Some t \<and> \<not> ts_deadline t < now" for t
    unfolding P S m by blast
  then have "tomb (prune_tombstones now st) tx = Some t \<longleftrightarrow> kept (tomb st tx) = Some t" for t
    by (cases "tomb st tx") (auto simp: kept_def)
  then show ?thesis unfolding kept_def [symmetric] by (rule option_eqI)
qed

lemma prune_expires:
  assumes "shard_inv st"
  shows "expires (abs_shard st) (abs_shard (prune_tombstones now st))"
proof -
  have r: "rows_of (prune_tombstones now st) tx = rows_of st tx" "sh_db (prune_tombstones now st) = sh_db st" for tx
    by (simp_all add: prune_tombstones_def storedIntentIdentity_def)
  have "phase_of (prune_tombstones now st) tx = phase_of st tx
     \<or> phase_of st tx = P_committed \<and> phase_of (prune_tombstones now st) tx \<in> {P_idle, P_applied}
     \<or> phase_of st tx = P_aborted \<and> phase_of (prune_tombstones now st) tx = P_idle
     \<or> (\<exists>w. phase_of st tx = P_committing w \<and> phase_of (prune_tombstones now st) tx = P_prepared w)" for tx
  proof (cases "tomb (prune_tombstones now st) tx = tomb st tx")
    case True
    then show ?thesis by (simp add: phase_of_def r)
  next
    case False
    then obtain t where "tomb st tx = Some t" "tomb (prune_tombstones now st) tx = None"
      unfolding tomb_prune [OF assms] by (cases "tomb st tx") (simp_all split: if_splits)
    then show ?thesis by (cases "rows_of st tx") (simp_all add: phase_of_def phase_from_def r)
  qed
  then show ?thesis by (simp add: expires_def abs_shard_def r)
qed

section \<open>Refinement\<close>

lemma run_inv: "shard_run dg sql limit st st' \<Longrightarrow> shard_inv st \<Longrightarrow> shard_inv st'"
proof (induction rule: shard_run.induct)
  case (step st' now st'')
  then have inv: "shard_inv st'" by blast
  show ?case using step_effs [OF step(2) inv] effs_refine [OF _ inv] inv_prune [OF inv] by blast
next
  case (data st' db owners jobs at)
  show ?case unfolding data_frame(1) [OF refl] by (rule data.IH [OF data.prems])
qed

lemma prune_changes:
  assumes "shard_inv st" "phase_of (prune_tombstones now st) tx \<noteq> phase_of st tx"
  shows "\<exists>t. tomb st tx = Some t \<and> ts_deadline t < now"
proof -
  have "rows_of (prune_tombstones now st) tx = rows_of st tx" by (simp add: prune_tombstones_def storedIntentIdentity_def)
  then have "tomb (prune_tombstones now st) tx \<noteq> tomb st tx" using assms(2) by (auto simp: phase_of_def)
  then show ?thesis unfolding tomb_prune [OF assms(1)] by (auto split: option.splits if_splits)
qed

text \<open>
  C21: A shard refines the abstract participant. However it was used before, from an empty start,
  and whatever other writers did to its tables in between, every request of two-phase commit it
  serves (prepare, commit, abort, recover, the sweep of stale intents, a fence) is a sequence of
  steps of the protocol, in which the tenant tables change only by running all statements of a
  transaction whose commit decision is durable; and pruning changes no table and forgets only
  decisions whose retention deadline has passed.
\<close>

theorem participant_refines:
  assumes "shard_run dg sql limit (new_shard db) st" "shard_step dg sql now st st'"
  shows "(proto sql)\<^sup>*\<^sup>* (abs_shard st) (abs_shard st')
    \<or> st' = prune_tombstones now st \<and> expires (abs_shard st) (abs_shard st')
       \<and> (\<forall>tx. phase_of st' tx \<noteq> phase_of st tx \<longrightarrow> (\<exists>t. tomb st tx = Some t \<and> ts_deadline t < now))"
proof -
  have inv: "shard_inv st" by (rule run_inv [OF assms(1) new_shard_inv])
  show ?thesis
    using step_effs [OF assms(2) inv] effs_refine [OF _ inv] prune_expires [OF inv] prune_changes [OF inv] by blast
qed

section \<open>Locks\<close>

text \<open>
  C24: A row is locked by one transaction. In every state a shard reaches, two intents that are
  prepared and share a lock key belong to the same transaction, and that transaction holds the
  lock row; and no lock row outlives the prepared intents of its transaction.
\<close>

theorem row_locks_exclusive:
  assumes "shard_run dg sql limit (new_shard db) st"
  shows "(\<forall>r s k. {r, s} \<subseteq> set (sh_pending st) \<and> pd_status r = Prepared \<and> pd_status s = Prepared
      \<and> k \<in> set (pd_lock_keys r) \<and> k \<in> set (pd_lock_keys s) \<longrightarrow> pd_tx r = pd_tx s \<and> lock_held (sh_locks st) (pd_tx r) k)
    \<and> list_all (\<lambda>l. list_ex (\<lambda>r. pd_tx r = lk_tx l \<and> pd_status r = Prepared) (sh_pending st)) (sh_locks st)"
proof -
  have inv: "shard_inv st" by (rule run_inv [OF assms new_shard_inv])
  note I = inv [unfolded shard_inv_def]
  have one: "a = b" if two: "lock_held (sh_locks st) a k" "lock_held (sh_locks st) b k" for a b k
  proof -
    obtain l m where "l \<in> set (sh_locks st)" "m \<in> set (sh_locks st)" "lk_key l = k" "lk_key m = k" "lk_tx l = a" "lk_tx m = b"
      using two unfolding lock_held_def by blast
    moreover have "inj_on lk_key (set (sh_locks st))" using I by (simp add: tbl_wf_def distinct_map)
    ultimately show ?thesis by (metis inj_onD)
  qed
  have held: "lock_held (sh_locks st) (pd_tx r) k"
    if "r \<in> set (sh_pending st)" "pd_status r = Prepared" "k \<in> set (pd_lock_keys r)" for r k
    using I that by blast
  have "list_all (\<lambda>l. list_ex (\<lambda>r. pd_tx r = lk_tx l \<and> pd_status r = Prepared) (sh_pending st)) (sh_locks st)"
    using I by (simp add: list_all_iff list_ex_iff)
  then show ?thesis using one held by (simp only: insert_subset) blast
qed

section \<open>A vote binds\<close>

definition phase_message :: "string \<Rightarrow> string \<Rightarrow> int \<Rightarrow> string \<Rightarrow> jval" where
  "phase_message phase tx epoch hash = JObj
     [(''protocol_version'', jint CURRENT_PROTOCOL_VERSION), (''tx_id'', JStr tx), (''epoch'', jint epoch),
      (''phase'', JStr phase), (''operation_hash'', JStr hash)]"

text \<open>A time whose retention deadline is still a date.\<close>

definition clock_ok :: "int \<Rightarrow> bool" where
  "clock_ok now \<longleftrightarrow> time_in_range now \<and> time_in_range (now + PARTICIPANT_TOMBSTONE_RETENTION_MS)"

lemma message_payload:
  assumes "validateParticipantPhaseMessage (phase_message phase tx epoch hash) = Inr ()"
  shows "participantPayload dg st (phase_message phase tx epoch hash) phase is
    = Inr \<lparr>mg_tx = tx, mg_epoch = epoch, mg_phase = phase, mg_hash = hash, mg_legacy = False\<rparr>"
proof -
  let ?raw = "phase_message phase tx epoch hash"
  have m: "JObj (map (\<lambda>k. (k, jget ?raw k)) [''protocol_version'', ''tx_id'', ''epoch'', ''phase'', ''operation_hash'']) = ?raw"
    by (simp add: phase_message_def)
  have v: "versioned_payload ?raw phase = Inr \<lparr>mg_tx = tx, mg_epoch = epoch, mg_phase = phase, mg_hash = hash, mg_legacy = False\<rparr>"
    unfolding versioned_payload_def m Let_def assms by (simp add: phase_message_def)
  have "jget ?raw ''protocol_version'' \<noteq> JUndef" by (simp add: phase_message_def)
  then show ?thesis unfolding participantPayload_def v by simp
qed

lemma new_tombstone_valid:
  assumes "validateParticipantPhaseMessage (phase_message phase tx epoch hash) = Inr ()" "clock_ok now"
    "d = ''commit'' \<or> d = ''abort''"
  shows "validateParticipantTombstone (tombstone_json (new_tombstone
     \<lparr>mg_tx = tx, mg_epoch = epoch, mg_phase = phase, mg_hash = hash, mg_legacy = False\<rparr> d now)) = Inr ()"
proof -
  have a: "assertNonEmptyString (JStr tx) = Inr ()" "assertEpoch (jint epoch) = Inr ()" "assertSha256Hex (JStr hash) = Inr ()"
    "assertWritableProtocolVersion (jint CURRENT_PROTOCOL_VERSION) = Inr ()"
    using assms(1) by (simp_all add: validateParticipantPhaseMessage_def phase_message_def)
  have v: "assertReadableProtocolVersion (jint CURRENT_PROTOCOL_VERSION) = Inr ()"
    by code_simp
  have w: "assertRetentionWindow (JStr (toISOString now)) (JStr (toISOString (now + PARTICIPANT_TOMBSTONE_RETENTION_MS)))
      PARTICIPANT_TOMBSTONE_RETENTION_DAYS = Inr ()"
    unfolding retention_ok_iff using assms(2)
    by (intro exI [of _ now] exI [of _ "now + PARTICIPANT_TOMBSTONE_RETENTION_MS"])
       (simp add: clock_ok_def PARTICIPANT_TOMBSTONE_RETENTION_MS_def)
  show ?thesis
    using a v w assms(3)
    by (auto simp: validateParticipantTombstone_def tombstone_json_def new_tombstone_def assertParticipantDecision_def
        PARTICIPANT_DECISIONS_def assertPlainObject_def)
qed

text \<open>The message of a coordinator that knows the vote of a transaction.\<close>

definition known_vote :: "'db shard \<Rightarrow> string \<Rightarrow> int \<Rightarrow> string \<Rightarrow> bool" where
  "known_vote st tx epoch hash \<longleftrightarrow>
     (case pendingMetadata st tx of None \<Rightarrow> False
      | Some p \<Rightarrow> pd_status p = Prepared \<and> pd_epoch p = epoch \<and> pd_hash p = hash)
     \<and> (case tomb st tx of None \<Rightarrow> True | Some t \<Rightarrow> ts_epoch t = epoch \<and> ts_hash t = hash)"

lemma commit_accepted:
  assumes inv: "shard_inv st" and k: "known_vote st tx epoch hash" and now: "clock_ok now"
    and v: "validateParticipantPhaseMessage (phase_message ''commit'' tx epoch hash) = Inr ()"
    and m: "m = \<lparr>mg_tx = tx, mg_epoch = epoch, mg_phase = ''commit'', mg_hash = hash, mg_legacy = False\<rparr>"
  shows "assertMessageCompatible m st = Inr () \<and> (\<exists>st1. persistTombstone m ''commit'' now st = Inr st1)"
proof -
  obtain p where p: "pendingMetadata st tx = Some p" "pd_epoch p = epoch" "pd_hash p = hash"
    using k by (auto simp: known_vote_def split: option.splits)
  show ?thesis
  proof (cases "tomb st tx")
    case None
    have "validateParticipantTombstone (tombstone_json (new_tombstone m ''commit'' now)) = Inr ()"
      unfolding m by (rule new_tombstone_valid [OF v now]) simp
    moreover have f: "mg_tx m = tx" "mg_epoch m = epoch" "mg_hash m = hash" by (simp_all add: m)
    ultimately show ?thesis
      by (simp add: assertMessageCompatible_def persistTombstone_def tombstone_ok [OF inv] f None p Let_def)
  next
    case (Some t)
    have t: "ts_epoch t = epoch" "ts_hash t = hash" using k Some by (simp_all add: known_vote_def)
    have "rows_of st tx \<noteq> []" using p by (auto simp: pendingMetadata_def)
    then have d: "ts_decision t = ''commit''"
      using tomb_decision [OF inv Some] abort_tomb_rows [OF inv Some] by blast
    have tv: "validateParticipantTombstone (tombstone_json t) = Inr ()" "ts_tx t = tx"
      using tomb_Some_iff [OF inv, of tx t] Some inv by (simp_all add: shard_inv_def)
    have j: "payload_json m = phase_message ''commit'' tx epoch hash" by (simp add: m payload_json_def phase_message_def)
    have "\<not> contradicts (JStr ''commit'') (JStr ''commit'')" by (simp add: contradicts_def)
    then have g: "validateParticipantMessageAgainstTombstone (payload_json m) (tombstone_json t) = Inr ()"
      using v tv t d unfolding j validateParticipantMessageAgainstTombstone_def
      by (simp add: phase_message_def tombstone_json_def)
    have f: "mg_tx m = tx" "mg_phase m = ''commit''" by (simp_all add: m)
    show ?thesis
      by (simp add: assertMessageCompatible_def persistTombstone_def tombstone_ok [OF inv] f Some g d)
  qed
qed

lemma apply_now_total:
  "run_work sql (work_of (rows_of st tx)) (sh_db st) = Some db' \<Longrightarrow> \<exists>st'. apply_now sql now tx st = Inr st'"
  "run_work sql (work_of (rows_of st tx)) (sh_db st) = None \<Longrightarrow> \<exists>msg. apply_now sql now tx st = Inl msg"
  using apply_now_err [of sql now tx st] apply_now_frame(1) [of sql now tx st]
  by (cases "apply_now sql now tx st"; simp)+

text \<open>
  C22: A vote binds the participant to the commit. In every state a shard reaches, a transaction that
  is prepared accepts the commit of a coordinator that names its epoch and hash, however often the
  message comes: the statements run, all of them in their order, the transaction is committed, no
  other transaction's phase changes and exactly its own locks are released; or one statement
  throws, which a vote does not rule out, and then the state of the shard is the one before the
  request with nothing but the commit decision recorded: no table, lock, provenance or mirror row
  has changed, and the intents stay for the next attempt.
\<close>

theorem prepared_vote_binds:
  assumes "shard_run dg sql limit (new_shard db) st" "known_vote st tx epoch hash" "clock_ok now"
    "validateParticipantPhaseMessage (phase_message ''commit'' tx epoch hash) = Inr ()"
    "handleCommit dg sql now (phase_message ''commit'' tx epoch hash) st = (reply, st')"
  shows "case run_work sql (work_of (rows_of st tx)) (sh_db st) of
      Some db' \<Rightarrow> reply = Commit_ok \<and> sh_db st' = db' \<and> phase_of st' = (phase_of st)(tx := P_committed)
        \<and> sh_locks st' = filter (\<lambda>l. lk_tx l \<noteq> tx) (sh_locks st)
    | None \<Rightarrow> reply = Internal_error \<and> phase_of st' = (phase_of st)(tx := P_committing (work_of (rows_of st tx)))
        \<and> st' = (if tomb st tx = None
             then st\<lparr>sh_tombstones := sh_tombstones st @ [new_tombstone
                    \<lparr>mg_tx = tx, mg_epoch = epoch, mg_phase = ''commit'', mg_hash = hash, mg_legacy = False\<rparr> ''commit'' now]\<rparr>
             else st)"
proof -
  let ?m = "\<lparr>mg_tx = tx, mg_epoch = epoch, mg_phase = ''commit'', mg_hash = hash, mg_legacy = False\<rparr>"
  have inv: "shard_inv st" by (rule run_inv [OF assms(1) new_shard_inv])
  obtain st1 where c: "assertMessageCompatible ?m st = Inr ()" and p: "persistTombstone ?m ''commit'' now st = Inr st1"
    using commit_accepted [OF inv assms(2,3,4) refl] by blast
  obtain r rs where r: "rows_of st tx = r # rs" "pd_status r = Prepared"
    using assms(2) by (auto simp: known_vote_def pendingMetadata_def split: option.splits list.splits)
  have d: "shard_inv st1" "rows_of st1 tx = r # rs" "\<exists>t. tomb st1 tx = Some t \<and> ts_decision t = ''commit''"
    using decide_commit_effs [OF inv p, where sql = sql and tx = tx] r(1) by simp_all
  then obtain t where t: "tomb st1 tx = Some t" by blast
  have st1: "st1 = (if tomb st tx = None then st\<lparr>sh_tombstones := sh_tombstones st @ [new_tombstone ?m ''commit'' now]\<rparr> else st)"
    by (cases rule: persisted [OF inv p]) (simp_all add: add_tombstone_def)
  then have db1: "sh_db st1 = sh_db st" "sh_locks st1 = sh_locks st" "rows_of st1 x = rows_of st x" for x
    by (simp_all add: storedIntentIdentity_def)
  have "phase_of st1 x = phase_of st x" if "x \<noteq> tx" for x
    using that tomb_add [of st "new_tombstone ?m ''commit'' now"]
    by (auto simp: phase_of_def st1 storedIntentIdentity_def add_tombstone_def new_tombstone_def)
  moreover have "phase_of st1 tx = P_committing (work_of (rows_of st tx))"
    using t r by (simp add: phase_of_def phase_from_def db1(3))
  ultimately have ph1: "phase_of st1 = (phase_of st)(tx := P_committing (work_of (rows_of st tx)))" by (rule abs_update)
  have out: "handleCommit dg sql now (phase_message ''commit'' tx epoch hash) st
      = (case apply_now sql now tx st1 of Inl message \<Rightarrow> (Internal_error, st1) | Inr st2 \<Rightarrow> (Commit_ok, st2))"
    by (simp add: handleCommit_def message_payload [OF assms(4)] c r p)
  show ?thesis
  proof (cases "run_work sql (work_of (rows_of st tx)) (sh_db st)")
    case None
    then have "run_work sql (work_of (rows_of st1 tx)) (sh_db st1) = None" by (simp add: db1)
    then obtain msg where "apply_now sql now tx st1 = Inl msg" using apply_now_total(2) [where now = now] by metis
    then have "reply = Internal_error" "st' = st1" using assms(5) by (simp_all add: out)
    then show ?thesis using None ph1 st1 by simp
  next
    case (Some db')
    then have w: "run_work sql (work_of (rows_of st1 tx)) (sh_db st1) = Some db'" by (simp add: db1)
    then obtain st2 where a: "apply_now sql now tx st1 = Inr st2" using apply_now_total(1) [OF w, where now = now] by blast
    then have e: "reply = Commit_ok" "st' = st2" using assms(5) by (simp_all add: out)
    have "sh_locks st2 = filter (\<lambda>l. lk_tx l \<noteq> tx) (sh_locks st1)" using apply_now_frame(4) [OF a] by (simp add: marked)
    moreover have "phase_of st2 = (phase_of st)(tx := P_committed)" by (simp add: phase_execute [OF t d(2) a] ph1)
    ultimately show ?thesis using Some e w apply_now_frame(1) [OF a] db1(2) by simp
  qed
qed

text \<open>The first commit of a voted transaction: the decision is recorded, then the statements run.\<close>

lemma commit_first:
  assumes inv: "shard_inv st" and k: "known_vote st tx epoch hash" "tomb st tx = None" and now: "clock_ok now"
    and v: "validateParticipantPhaseMessage (phase_message ''commit'' tx epoch hash) = Inr ()"
  shows "handleCommit dg sql now (phase_message ''commit'' tx epoch hash) st =
    (let st1 = add_tombstone (new_tombstone \<lparr>mg_tx = tx, mg_epoch = epoch, mg_phase = ''commit'', mg_hash = hash,
                                mg_legacy = False\<rparr> ''commit'' now) st
     in case apply_now sql now tx st1 of Inl message \<Rightarrow> (Internal_error, st1) | Inr st2 \<Rightarrow> (Commit_ok, st2))"
proof -
  let ?m = "\<lparr>mg_tx = tx, mg_epoch = epoch, mg_phase = ''commit'', mg_hash = hash, mg_legacy = False\<rparr>"
  have c: "assertMessageCompatible ?m st = Inr ()" using commit_accepted [OF inv k(1) now v refl] by blast
  obtain r rs where r: "rows_of st tx = r # rs" "pd_status r = Prepared"
    using k(1) by (auto simp: known_vote_def pendingMetadata_def split: option.splits list.splits)
  have p: "persistTombstone ?m ''commit'' now st = Inr (add_tombstone (new_tombstone ?m ''commit'' now) st)"
    using new_tombstone_valid [OF v now, of "''commit''"]
    by (simp add: persistTombstone_def tombstone_ok [OF inv] k(2) Let_def add_tombstone_def)
  show ?thesis by (simp add: handleCommit_def message_payload [OF v] c r p Let_def)
qed

section \<open>A decision is final\<close>

lemma eff_tomb: "eff sql st st' \<Longrightarrow> tomb st tx = Some t \<Longrightarrow> tomb st' tx = Some t"
proof (induction rule: eff.induct)
  case (same st' st)
  then show ?case using core_tomb [OF same(1)] by simp
next
  case (vote st m "is" st' now)
  then show ?case using core_tomb [OF vote(5)] by (simp add: tomb_def record_frame)
next
  case (adopt st m st')
  then show ?case using core_tomb [OF adopt(2)] by (simp add: tomb_def)
next
  case (decide st u st')
  then show ?case using core_tomb [OF decide(4)] tomb_add [OF decide(1)] by auto
next
  case (drop st u st')
  then show ?case using core_tomb [OF drop(5)] tomb_add [OF drop(1)] by auto
next
  case (execute st tx' u r rs now st')
  then show ?case using apply_now_frame(2) [OF execute(5)] by (simp add: tomb_def)
qed

lemma effs_tomb: "(eff sql)\<^sup>*\<^sup>* st st' \<Longrightarrow> tomb st tx = Some t \<Longrightarrow> tomb st' tx = Some t"
  by (induction rule: rtranclp_induct) (auto dest: eff_tomb)

text \<open>
  C23: A participant keeps its decision. Whatever requests a shard serves, in whatever order, up to
  the retention deadline of a recorded decision, the decision stays recorded; a transaction that
  was committed or aborted stays so, so its statements do not run again.
\<close>

theorem participant_decision_final:
  assumes "shard_run dg sql limit (new_shard db) st" "tomb st tx = Some t" "shard_run dg sql (ts_deadline t) st st'"
  shows "tomb st' tx = Some t
    \<and> (phase_of st tx = P_committed \<or> phase_of st tx = P_aborted \<longrightarrow> phase_of st' tx = phase_of st tx)"
proof -
  have inv: "shard_inv st" by (rule run_inv [OF assms(1) new_shard_inv])
  from assms(3) have "shard_inv st' \<and> tomb st' tx = Some t
    \<and> (phase_of st tx = P_committed \<or> phase_of st tx = P_aborted \<longrightarrow> phase_of st' tx = phase_of st tx)"
  proof (induction rule: shard_run.induct)
    case start
    then show ?case using inv assms(2) by blast
  next
    case (step st' now st'')
    then have i: "shard_inv st'" and t: "tomb st' tx = Some t" by blast+
    from step_effs [OF step(2) i] show ?case
    proof
      assume e: "(eff sql)\<^sup>*\<^sup>* st' st''"
      have "shard_inv st''" "(proto sql)\<^sup>*\<^sup>* (abs_shard st') (abs_shard st'')" using effs_refine [OF e i] by blast+
      moreover have "phase_of st'' tx = phase_of st' tx" if "phase_of st' tx = P_committed \<or> phase_of st' tx = P_aborted"
        using protos_final [OF calculation(2), of tx] that by (simp add: abs_shard_def)
      ultimately show ?thesis using effs_tomb [OF e t] step.IH by auto
    next
      assume p: "st'' = prune_tombstones now st'"
      have k: "tomb st'' tx = Some t" using t step(3) by (simp add: p tomb_prune [OF i])
      have "phase_of st'' tx = phase_of st' tx"
        unfolding phase_of_def k t by (simp add: p prune_tombstones_def storedIntentIdentity_def)
      then show ?thesis using inv_prune [OF i] k step.IH p by simp
    qed
  next
    case (data st' db owners jobs at)
    then show ?case unfolding data_frame [OF refl] by blast
  qed
  then show ?thesis by blast
qed

end
