(* ===== verification/ShardSamples.thy ===== *)
theory ShardSamples
  imports ShardTheorems
begin

text \<open>
  A shard with an engine whose only constraint is that no statement runs twice (a unique index),
  the theorems on it, and what the model shows of the code: a vote does not make the commit succeed.
\<close>

definition unique_sql :: "string list sql_engine" where
  "unique_sql s ps db = (if s \<in> set db then Inl ''UNIQUE constraint failed'' else Inr (db @ [s], 1))"

definition vote_intent :: "string \<Rightarrow> prepare_intent" where
  "vote_intent pk = \<lparr>pi_sql = ''I'', pi_params = None, pi_tenantId = ''t'', pi_table = ''a'', pi_partitionKey = pk,
     pi_vbucket = None, pi_op = Some ''insert'', pi_mirror = None, pi_extra = []\<rparr>"

definition no_bookmarks :: bookmark_port where
  "no_bookmarks = \<lparr>bp_bound = False, bp_first = None, bp_second = None\<rparr>"

definition sample_hash :: string where "sample_hash = replicate 64 (CHR ''a'')"

definition voted :: "string \<Rightarrow> string \<Rightarrow> string list shard \<Rightarrow> string list shard" where
  "voted tx pk st = snd (handlePrepare zero_digest unique_sql no_bookmarks 1000
     (phase_message ''prepare'' tx 1 sample_hash) (Some [vote_intent pk]) st)"

abbreviation sample_start :: "string list shard" where "sample_start \<equiv> new_shard []"

definition vote_row :: "string \<Rightarrow> string \<Rightarrow> pending_intent" where
  "vote_row tx pk = prepared_row \<lparr>mg_tx = tx, mg_epoch = 1, mg_phase = ''prepare'', mg_hash = sample_hash, mg_legacy = False\<rparr>
     1000 0 (vote_intent pk)"

definition vote_lock :: "string \<Rightarrow> string \<Rightarrow> row_lock" where
  "vote_lock tx pk = \<lparr>lk_key = intent_lock_key (vote_intent pk), lk_tx = tx, lk_acquired_at = 1000\<rparr>"

definition one_vote :: "string list shard" where
  "one_vote = sample_start\<lparr>sh_pending := [vote_row ''x'' ''k''], sh_locks := [vote_lock ''x'' ''k'']\<rparr>"

definition two_votes :: "string list shard" where
  "two_votes = sample_start\<lparr>sh_pending := [vote_row ''x'' ''k'', vote_row ''y'' ''l''],
     sh_locks := [vote_lock ''x'' ''k'', vote_lock ''y'' ''l'']\<rparr>"

lemma vote_x: "voted ''x'' ''k'' sample_start = one_vote"
  by code_simp

lemma vote_y: "handlePrepare zero_digest unique_sql no_bookmarks 1000 (phase_message ''prepare'' ''y'' 1 sample_hash)
    (Some [vote_intent ''l'']) one_vote = (Prepare_ok 1 None, two_votes)"
  by code_simp

lemma one_vote_run: "shard_run zero_digest unique_sql 5000 sample_start one_vote"
proof -
  have "shard_run zero_digest unique_sql 5000 sample_start (voted ''x'' ''k'' sample_start)"
    unfolding voted_def by (rule shard_run.step [OF shard_run.start shard_step.prepare]) simp
  then show ?thesis unfolding vote_x .
qed

lemma two_votes_run: "shard_run zero_digest unique_sql 5000 sample_start two_votes"
proof -
  have "shard_step zero_digest unique_sql 1000 one_vote two_votes"
    using shard_step.prepare [of zero_digest unique_sql 1000 one_vote no_bookmarks
        "phase_message ''prepare'' ''y'' 1 sample_hash" "Some [vote_intent ''l'']"] unfolding vote_y by simp
  from shard_run.step [OF one_vote_run this] show ?thesis by simp
qed

lemma sample_clock: "clock_ok 2000"
  by code_simp

lemma sample_commit_valid:
  "validateParticipantPhaseMessage (phase_message ''commit'' ''x'' 1 sample_hash) = Inr ()"
  "validateParticipantPhaseMessage (phase_message ''commit'' ''y'' 1 sample_hash) = Inr ()"
  by code_simp+

lemma sample_known:
  "known_vote one_vote ''x'' 1 sample_hash \<and> tomb one_vote ''x'' = None"
  "known_vote two_votes ''x'' 1 sample_hash \<and> tomb two_votes ''x'' = None"
  by code_simp+

definition decision_of :: "string \<Rightarrow> tombstone_row" where
  "decision_of tx = new_tombstone \<lparr>mg_tx = tx, mg_epoch = 1, mg_phase = ''commit'', mg_hash = sample_hash, mg_legacy = False\<rparr>
     ''commit'' 2000"

definition one_done :: "string list shard" where
  "one_done = one_vote\<lparr>sh_db := [''I''], sh_locks := [], sh_tombstones := [decision_of ''x''],
     sh_pending := [(vote_row ''x'' ''k'')\<lparr>pd_status := Committed, pd_resolved_at := Some 2000\<rparr>]\<rparr>"

definition two_done :: "string list shard" where
  "two_done = two_votes\<lparr>sh_db := [''I''], sh_locks := [vote_lock ''y'' ''l''], sh_tombstones := [decision_of ''x''],
     sh_pending := [(vote_row ''x'' ''k'')\<lparr>pd_status := Committed, pd_resolved_at := Some 2000\<rparr>, vote_row ''y'' ''l'']\<rparr>"

lemma applied_x:
  "apply_now unique_sql 2000 ''x'' (add_tombstone (decision_of ''x'') one_vote) = Inr one_done"
  "apply_now unique_sql 2000 ''x'' (add_tombstone (decision_of ''x'') two_votes) = Inr two_done"
  "apply_now unique_sql 2000 ''y'' (add_tombstone (decision_of ''y'') two_done) = Inl ''UNIQUE constraint failed''"
  by code_simp+

lemma commit_x:
  "handleCommit zero_digest unique_sql 2000 (phase_message ''commit'' ''x'' 1 sample_hash) one_vote = (Commit_ok, one_done)"
  "handleCommit zero_digest unique_sql 2000 (phase_message ''commit'' ''x'' 1 sample_hash) two_votes = (Commit_ok, two_done)"
  using commit_first [OF run_inv [OF one_vote_run new_shard_inv] _ _ sample_clock sample_commit_valid(1), of zero_digest unique_sql]
    commit_first [OF run_inv [OF two_votes_run new_shard_inv] _ _ sample_clock sample_commit_valid(1), of zero_digest unique_sql]
    sample_known by (simp_all add: decision_of_def [symmetric] applied_x)

lemma one_done_run: "shard_run zero_digest unique_sql 5000 sample_start one_done"
  using shard_run.step [OF one_vote_run shard_step.commit, of 2000 "phase_message ''commit'' ''x'' 1 sample_hash"]
  unfolding commit_x by simp

lemma two_done_run: "shard_run zero_digest unique_sql 5000 sample_start two_done"
  using shard_run.step [OF two_votes_run shard_step.commit, of 2000 "phase_message ''commit'' ''x'' 1 sample_hash"]
  unfolding commit_x by simp

section \<open>The theorems on it\<close>

theorem participant_refines_witness:
  "(proto unique_sql)\<^sup>*\<^sup>* (abs_shard one_vote) (abs_shard one_done) \<and> sh_db one_vote \<noteq> sh_db one_done"
proof -
  have "shard_step zero_digest unique_sql 2000 one_vote one_done"
    using shard_step.commit [of zero_digest unique_sql 2000 one_vote "phase_message ''commit'' ''x'' 1 sample_hash"]
    unfolding commit_x by simp
  moreover have "sh_db one_vote \<noteq> sh_db one_done" "one_done \<noteq> prune_tombstones 2000 one_vote"
    by (simp_all add: one_done_def one_vote_def prune_tombstones_def new_shard_def)
  ultimately show ?thesis using participant_refines [OF one_vote_run] by blast
qed

theorem row_locks_exclusive_witness:
  "list_all (\<lambda>l. list_ex (\<lambda>r. pd_tx r = lk_tx l \<and> pd_status r = Prepared) (sh_pending two_votes)) (sh_locks two_votes)
   \<and> length (sh_locks two_votes) = 2"
  by (intro conjI conjunct2 [OF row_locks_exclusive [OF two_votes_run]]) (simp add: two_votes_def)

theorem prepared_vote_binds_witness:
  "phase_of one_done ''x'' = P_committed \<and> sh_db one_done = [''I'']"
proof -
  have "run_work unique_sql (work_of (rows_of one_vote ''x'')) (sh_db one_vote) = Some [''I'']"
    by code_simp
  then show ?thesis
    using prepared_vote_binds [OF one_vote_run conjunct1 [OF sample_known(1)] sample_clock sample_commit_valid(1) commit_x(1)]
    by simp
qed

theorem participant_decision_final_witness:
  "tomb (prune_tombstones 3000 one_done) ''x'' = Some (decision_of ''x'')"
proof -
  have t: "tomb one_done ''x'' = Some (decision_of ''x'')" "(3000::int) \<le> ts_deadline (decision_of ''x'')" by code_simp+
  have "shard_run zero_digest unique_sql (ts_deadline (decision_of ''x'')) one_done (prune_tombstones 3000 one_done)"
    by (rule shard_run.step [OF shard_run.start shard_step.prune t(2)])
  then show ?thesis using participant_decision_final [OF one_done_run t(1)] by blast
qed

section \<open>What the code does not promise\<close>

text \<open>
  A vote does not make the commit succeed. Two transactions lock different rows and each passes its
  validation, because validation runs against the committed tables only; they violate the same
  unique index. Both vote, the first commits, and the statements of the second throw.
\<close>

theorem prepared_commit_can_fail:
  "fst (handlePrepare zero_digest unique_sql no_bookmarks 1000 (phase_message ''prepare'' ''y'' 1 sample_hash)
      (Some [vote_intent ''l'']) one_vote) = Prepare_ok 1 None
   \<and> handleCommit zero_digest unique_sql 2000 (phase_message ''commit'' ''x'' 1 sample_hash) two_votes = (Commit_ok, two_done)
   \<and> fst (handleCommit zero_digest unique_sql 2000 (phase_message ''commit'' ''y'' 1 sample_hash) two_done) = Internal_error"
proof -
  have k: "known_vote two_done ''y'' 1 sample_hash" "tomb two_done ''y'' = None" by code_simp+
  show ?thesis
    using commit_first [OF run_inv [OF two_done_run new_shard_inv] k sample_clock sample_commit_valid(2), of zero_digest unique_sql]
    by (simp add: vote_y commit_x decision_of_def [symmetric] applied_x)
qed

text \<open>
  Recovery lacks the guard of abort. Once the tombstone of a committed transaction is pruned, an
  abort request still finds the committed intents and answers that the transaction was committed; a
  recover request with the decision abort records the abort and reports the transaction aborted.
\<close>

definition recover_abort :: jval where
  "recover_abort = JObj [(''protocol_version'', jint CURRENT_PROTOCOL_VERSION), (''tx_id'', JStr ''x''), (''epoch'', jint 1),
      (''phase'', JStr ''recover''), (''operation_hash'', JStr sample_hash), (''decision'', JStr ''abort'')]"

definition forgotten :: "string list shard" where
  "forgotten = prune_tombstones (2001 + PARTICIPANT_TOMBSTONE_RETENTION_MS) one_done"

lemma recover_payload_ok: "participantPayload zero_digest forgotten recover_abort ''recover'' None
  = Inr \<lparr>mg_tx = ''x'', mg_epoch = 1, mg_phase = ''recover'', mg_hash = sample_hash, mg_legacy = False\<rparr>"
  by code_simp

lemma abort_committed: "fst (handleAbort zero_digest 1 (phase_message ''abort'' ''x'' 1 sample_hash) forgotten) = Already_committed"
  by code_simp

theorem recover_aborts_committed:
  "fst (handleAbort zero_digest 1 (phase_message ''abort'' ''x'' 1 sample_hash) forgotten) = Already_committed
   \<and> fst (handleRecover zero_digest unique_sql 2000 recover_abort forgotten) = Recovered ''aborted'' 1
   \<and> sh_db (snd (handleRecover zero_digest unique_sql 2000 recover_abort forgotten)) = [''I'']"
proof -
  let ?m = "\<lparr>mg_tx = ''x'', mg_epoch = 1, mg_phase = ''recover'', mg_hash = sample_hash, mg_legacy = False\<rparr>"
  have c: "assertMessageCompatible ?m forgotten = Inr ()" "tombstone forgotten ''x'' = Inr None" "sh_db forgotten = [''I'']"
    by code_simp+
  have "validateParticipantPhaseMessage (phase_message ''recover'' ''x'' 1 sample_hash) = Inr ()" by code_simp
  from new_tombstone_valid [OF this sample_clock, of "''abort''"]
  have p: "persistTombstone ?m ''abort'' 2000 forgotten = Inr (add_tombstone (new_tombstone ?m ''abort'' 2000) forgotten)"
    by (simp add: persistTombstone_def c(2) Let_def add_tombstone_def)
  have d: "jget recover_abort ''decision'' = JStr ''abort''" by (simp add: recover_abort_def)
  show ?thesis
    unfolding abort_committed handleRecover_def recover_payload_ok
    by (simp add: c d p forget_intents_def add_tombstone_def)
qed

text \<open>A commit for a transaction the shard knows nothing of is an error, not an idempotent success.\<close>

theorem unknown_commit_refused:
  "fst (handleCommit zero_digest unique_sql 2000 (phase_message ''commit'' ''x'' 1 sample_hash) sample_start)
     = Protocol_error TX_DECISION_UNAVAILABLE"
  by code_simp

end
