(* ===== verification/CoordCircuit.thy ===== *)
theory CoordCircuit
  imports TxStates
begin

text \<open>
  The circuit breaker in front of the control plane (\<open>src/coordinator.ts\<close>): the single row of
  \<open>manifest_admission_circuit\<close> and the four operations on it. Times are milliseconds of
  \<open>Date.now()\<close>; a failure is recorded with the time its attempt began.
\<close>

section \<open>The breaker\<close>

definition failure_threshold :: nat where "failure_threshold = 3"
definition failure_window_ms :: int where "failure_window_ms = 30000"
definition maximum_cooldown_ms :: int where "maximum_cooldown_ms = 5 * 60000"

record circuit =
  ci_failure_count :: nat
  ci_window_started :: int
  ci_open_until :: int
  ci_open_count :: nat
  ci_probe :: bool
  ci_probe_until :: int

definition new_circuit :: circuit where
  "new_circuit = \<lparr>ci_failure_count = 0, ci_window_started = 0, ci_open_until = 0, ci_open_count = 0,
     ci_probe = False, ci_probe_until = 0\<rparr>"

datatype attempt = A_closed | A_probe | A_open int

definition beginAdmissionAttempt :: "int \<Rightarrow> circuit \<Rightarrow> attempt \<times> circuit" where
  "beginAdmissionAttempt now c =
     (if ci_open_until c > now
      then (A_open (min MAX_DURABLE_OBJECT_RETRY_AFTER_MS (max 1 (ci_open_until c - now))), c)
      else if ci_open_until c > 0 then
        (if ci_probe c \<and> ci_probe_until c > now
         then (A_open (min DEFAULT_DURABLE_OBJECT_RETRY_AFTER_MS (max 1 (ci_probe_until c - now))), c)
         else (A_probe, c\<lparr>ci_probe := True, ci_probe_until := now + failure_window_ms\<rparr>))
      else (A_closed, c))"

definition recordAdmissionSuccess :: "circuit \<Rightarrow> circuit" where
  "recordAdmissionSuccess c = c\<lparr>ci_failure_count := 0, ci_window_started := 0, ci_open_until := 0,
     ci_open_count := 0, ci_probe := False, ci_probe_until := 0\<rparr>"

definition recordAdmissionNeutral :: "circuit \<Rightarrow> circuit" where
  "recordAdmissionNeutral c = c\<lparr>ci_probe := False, ci_probe_until := 0\<rparr>"

definition recordAdmissionFailure :: "int \<Rightarrow> attempt \<Rightarrow> circuit \<Rightarrow> circuit" where
  "recordAdmissionFailure now attempt c =
     (let insideWindow = ci_window_started c > 0 \<and> now - ci_window_started c \<le> failure_window_ms;
          failureCount = (if insideWindow then ci_failure_count c + 1 else 1);
          shouldOpen = (attempt = A_probe \<or> failureCount \<ge> failure_threshold)
      in if shouldOpen then
           (let cooldown = min maximum_cooldown_ms (failure_window_ms * 2 ^ min (ci_open_count c) 10)
            in c\<lparr>ci_failure_count := 0, ci_window_started := 0, ci_open_until := now + cooldown,
                 ci_open_count := ci_open_count c + 1, ci_probe := False, ci_probe_until := 0\<rparr>)
         else c\<lparr>ci_failure_count := failureCount,
                ci_window_started := (if insideWindow then ci_window_started c else now),
                ci_probe := False, ci_probe_until := 0\<rparr>)"

lemmas circuit_defs = beginAdmissionAttempt_def recordAdmissionSuccess_def recordAdmissionNeutral_def
  recordAdmissionFailure_def failure_threshold_def failure_window_ms_def maximum_cooldown_ms_def Let_def

section \<open>Any history of calls\<close>









text \<open>
  C39: The breaker trips and recovers. Three failures of admitted attempts within the failure window
  refuse every attempt for at least 30 seconds; then one attempt is a probe, and until it is answered
  no other attempt is admitted for 30 seconds; a failed probe refuses attempts again, and a success
  admits every attempt.
\<close>

theorem circuit_trips:
  assumes "0 < t1" "t1 \<le> t2" "t2 \<le> t3" "t3 \<le> t1 + failure_window_ms" "ci_window_started c = 0"
  shows "let opened = fold (\<lambda>t. recordAdmissionFailure t A_closed) [t1, t2, t3] c;
      probing = snd (beginAdmissionAttempt p opened)
    in (now < t3 + failure_window_ms \<longrightarrow> (\<exists>r. fst (beginAdmissionAttempt now opened) = A_open r))
     \<and> (t3 + maximum_cooldown_ms \<le> p \<longrightarrow> fst (beginAdmissionAttempt p opened) = A_probe
         \<and> (now < p + failure_window_ms \<longrightarrow> (\<exists>r. fst (beginAdmissionAttempt now probing) = A_open r))
         \<and> (now < p + failure_window_ms \<longrightarrow>
              (\<exists>r. fst (beginAdmissionAttempt now (recordAdmissionFailure p A_probe probing)) = A_open r)))
     \<and> (0 \<le> now \<longrightarrow> fst (beginAdmissionAttempt now (recordAdmissionSuccess probing)) = A_closed)"
proof -
  let ?cool = "\<lambda>n. min maximum_cooldown_ms (failure_window_ms * 2 ^ min n 10)"
  have cool: "failure_window_ms \<le> ?cool n" "?cool n \<le> maximum_cooldown_ms" for n
    by (simp_all add: circuit_defs)
  define opened where "opened = fold (\<lambda>t. recordAdmissionFailure t A_closed) [t1, t2, t3] c"
  have o1: "ci_open_until opened = t3 + ?cool (ci_open_count c)" "ci_open_count opened = Suc (ci_open_count c)"
      "ci_probe opened = False"
    using assms by (simp_all add: opened_def circuit_defs)
  have w: "0 < failure_window_ms" by (simp add: failure_window_ms_def)
  have pos: "0 < ci_open_until opened" unfolding o1(1) using w cool(1) [of "ci_open_count c"] assms(1-3) by linarith
  have a: "\<exists>r. fst (beginAdmissionAttempt now opened) = A_open r" if "now < t3 + failure_window_ms"
  proof -
    have "now < ci_open_until opened" unfolding o1(1) using that cool(1) [of "ci_open_count c"] by linarith
    then show ?thesis by (simp add: beginAdmissionAttempt_def)
  qed
  have b: "beginAdmissionAttempt p opened = (A_probe, opened\<lparr>ci_probe := True, ci_probe_until := p + failure_window_ms\<rparr>)"
    if "t3 + maximum_cooldown_ms \<le> p"
  proof -
    have "ci_open_until opened \<le> p" unfolding o1(1) using that cool(2) [of "ci_open_count c"] by linarith
    then show ?thesis using pos by (simp add: beginAdmissionAttempt_def o1(3))
  qed
  have f: "ci_open_until (recordAdmissionFailure p A_probe d) = p + ?cool (ci_open_count d)" for d
    by (simp add: recordAdmissionFailure_def Let_def)
  have d: "\<exists>r. fst (beginAdmissionAttempt now (recordAdmissionFailure p A_probe d)) = A_open r" if "now < p + failure_window_ms" for d
  proof -
    have "now < ci_open_until (recordAdmissionFailure p A_probe d)"
      unfolding f using that cool(1) [of "ci_open_count d"] by linarith
    then show ?thesis by (simp add: beginAdmissionAttempt_def)
  qed
  have e: "\<exists>r. fst (beginAdmissionAttempt now (opened\<lparr>ci_probe := True, ci_probe_until := p + failure_window_ms\<rparr>)) = A_open r"
    if "now < p + failure_window_ms"
    using that pos by (simp add: beginAdmissionAttempt_def)
  have s: "fst (beginAdmissionAttempt now (recordAdmissionSuccess d)) = A_closed" if "0 \<le> now" for d
    using that by (simp add: beginAdmissionAttempt_def recordAdmissionSuccess_def)
  show ?thesis
    unfolding opened_def [symmetric] Let_def using a b d e s by simp
qed

theorem circuit_trips_witness:
  "fst (beginAdmissionAttempt 29000 (fold (\<lambda>t. recordAdmissionFailure t A_closed) [1, 2, 3] new_circuit)) = A_open 1003
   \<and> (\<exists>r. fst (beginAdmissionAttempt 29000 (fold (\<lambda>t. recordAdmissionFailure t A_closed) [1, 2, 3] new_circuit)) = A_open r)"
  using circuit_trips [of 1 2 3 new_circuit 400000 29000]
  by (simp add: new_circuit_def circuit_defs MAX_DURABLE_OBJECT_RETRY_AFTER_MS_def)

end
