(* ===== verification/CoordState.thy ===== *)
theory CoordState
  imports CoordCircuit ShardTheorems JournalTerminal JournalLedger
begin

text \<open>
  The durable state of a transaction coordinator (\<open>CoordinatorDO\<close>, \<open>src/coordinator.ts\<close>): one
  record per table row, the queries and writes its handlers share, and what they build from a row:
  the redo participants, the reservation, the terminal intents. A JSON column holds the value it
  was written from; ISO texts of instants are their milliseconds; an absent string column is \<open>[]\<close>
  where the code tests it with \<open>||\<close>. The column of the participants' shard ids is never read and
  left out.
\<close>

section \<open>Rows\<close>

record begin_participant =
  bg_shard :: string
  bg_intents :: "prepare_intent list"

record begin_payload =
  bq_tx :: string
  bq_fleet :: string
  bq_coordinator :: string
  bq_participants :: "begin_participant list"

record tx_row =
  rw_tx :: string
  rw_status :: tx_state
  rw_created_at :: int
  rw_participants :: "begin_participant list"
  rw_hash :: string
  rw_protocol :: int
  rw_model :: int
  rw_epoch :: int
  rw_decision :: tx_decision
  rw_fleet :: string
  rw_coordinator :: string
  rw_redo_envelope :: "jval option"
  rw_registration :: "jval option"
  rw_assignment_request :: "jval option"
  rw_reservation :: "jval option"
  rw_reservation_hash :: "string option"
  rw_finalize_request :: "jval option"
  rw_cancel_request :: "jval option"
  rw_envelope_intent :: "jval option"
  rw_record :: "jval option"
  rw_record_hash :: "string option"
  rw_decided_at_ms :: "int option"
  rw_sequence :: "int option"
  rw_result :: "string option"
  rw_last_error :: "tx_code option"
  rw_updated_at :: int

datatype vote_status = Vote_pending | Vote_prepared | Vote_committed

record participant_row =
  pt_tx :: string
  pt_shard :: string
  pt_status :: vote_status
  pt_updated_at :: int
  pt_epoch :: int
  pt_hash :: string
  pt_bookmark :: "string option"

datatype recovery_action =
  Act_reserve | Act_finalize | Act_cancel | Act_manifest | Act_commit | Act_abort | Act_legacy_abort | Act_release

record recovery_row =
  rq_tx :: string
  rq_action :: recovery_action
  rq_next :: int
  rq_attempts :: nat

record restore_discard =
  rd_restore :: string
  rd_generation :: int
  rd_at :: int

record coordinator =
  co_txs :: "tx_row list"
  co_parts :: "participant_row list"
  co_queue :: "recovery_row list"
  co_circuit :: circuit
  co_discard :: "restore_discard option"
  co_alarm :: "int option"

definition new_coordinator :: coordinator where
  "new_coordinator = \<lparr>co_txs = [], co_parts = [], co_queue = [], co_circuit = new_circuit, co_discard = None,
     co_alarm = None\<rparr>"

text \<open>
  What the coordinator runs on: the digest, the collation key of \<open>localeCompare\<close>, whether the
  restore authority is bound, and the fleet of the deployment.
\<close>

record co_env =
  ev_digest :: digest_fn
  ev_collate :: "string \<Rightarrow> string"
  ev_restore_bound :: bool
  ev_fleet :: string

definition RECOVERY_BASE_DELAY_MS :: int where "RECOVERY_BASE_DELAY_MS = 5000"
definition RECOVERY_MAX_DELAY_MS :: int where "RECOVERY_MAX_DELAY_MS = 60000"
definition COORDINATOR_WRITE_STATE_MODEL_VERSION :: int where "COORDINATOR_WRITE_STATE_MODEL_VERSION = 2"

definition STATE_MODEL_1_STATES :: "tx_state list" where
  "STATE_MODEL_1_STATES = [Tx_new, Preparing, Abort_decided, Aborting, tx_state.Aborted, tx_state.Prepared,
     Commit_decided, Commit_pending_manifest, Manifest_registered, Committing, Committed_pending_ack,
     tx_state.Committed, Quarantined]"

section \<open>Errors\<close>

datatype co_error = Thrown js_error | Cas_lost tx_state | Gate_denied | Untyped_error

fun thrown :: "js_error + 'a \<Rightarrow> co_error + 'a" where
  "thrown (Inl e) = Inl (Thrown e)"
| "thrown (Inr a) = Inr a"

abbreviation fails :: "tx_code \<Rightarrow> js_error + 'a" where
  "fails c \<equiv> Inl (Violation c)"

lemma thrown_ok [simp]: "thrown r = Inr a \<longleftrightarrow> r = Inr a"
  by (cases r) simp_all

section \<open>Queries and writes\<close>

definition loadTx :: "string \<Rightarrow> coordinator \<Rightarrow> tx_row option" where
  "loadTx tx st = tbl_get rw_tx tx (co_txs st)"

definition stateOf :: "tx_row \<Rightarrow> js_error + tx_state" where
  "stateOf row =
     and_then (violation (assertReadableProtocolVersion (jint (rw_protocol row)))) (\<lambda>_.
     and_then (violation (assertReadableTransactionStateModelVersion (jint (rw_model row)))) (\<lambda>_.
       if rw_model row = 1 \<and> rw_status row \<notin> set STATE_MODEL_1_STATES then fails TX_VERSION_UNSUPPORTED
       else Inr (rw_status row)))"

definition isV2 :: "tx_row \<Rightarrow> bool" where
  "isV2 row \<longleftrightarrow> rw_model row = 2"

definition coordinator_of :: "tx_row \<Rightarrow> string" where
  "coordinator_of row = (if rw_coordinator row = [] then rw_tx row else rw_coordinator row)"

text \<open>\<open>UPDATE transactions SET ... WHERE tx_id = ?\<close>\<close>

definition update_tx :: "string \<Rightarrow> (tx_row \<Rightarrow> tx_row) \<Rightarrow> coordinator \<Rightarrow> coordinator" where
  "update_tx tx f st = st\<lparr>co_txs := map (\<lambda>r. if rw_tx r = tx then f r else r) (co_txs st)\<rparr>"

definition queueRecovery :: "string \<Rightarrow> recovery_action \<Rightarrow> int \<Rightarrow> nat \<Rightarrow> coordinator \<Rightarrow> coordinator" where
  "queueRecovery tx action at attemptCount st = st\<lparr>co_queue := tbl_put rq_tx
     \<lparr>rq_tx = tx, rq_action = action, rq_next = at, rq_attempts = attemptCount\<rparr> (co_queue st)\<rparr>"

definition drop_recovery :: "string \<Rightarrow> coordinator \<Rightarrow> coordinator" where
  "drop_recovery tx st = st\<lparr>co_queue := tbl_del rq_tx tx (co_queue st)\<rparr>"

definition ensureAlarmScheduled :: "int \<Rightarrow> coordinator \<Rightarrow> coordinator" where
  "ensureAlarmScheduled atLeastByMs st =
     (case co_alarm st of None \<Rightarrow> st\<lparr>co_alarm := Some atLeastByMs\<rparr>
      | Some existing \<Rightarrow> if existing > atLeastByMs then st\<lparr>co_alarm := Some atLeastByMs\<rparr> else st)"

text \<open>The compare-and-set of the status; \<open>extra\<close> is what the same SQL transaction also writes.\<close>

definition transition ::
  "int \<Rightarrow> string \<Rightarrow> tx_state list \<Rightarrow> tx_state \<Rightarrow> (coordinator \<Rightarrow> coordinator) \<Rightarrow> coordinator \<Rightarrow> co_error + coordinator" where
  "transition now tx expected next extra st =
     (case loadTx tx st of None \<Rightarrow> Inl Untyped_error
      | Some current \<Rightarrow>
          and_then (thrown (stateOf current)) (\<lambda>currentState.
            if currentState \<notin> set expected then Inl (Cas_lost currentState)
            else and_then (thrown (violation (assertTransactionTransition currentState next))) (\<lambda>_.
              Inr (extra (update_tx tx (\<lambda>r. r\<lparr>rw_status := next, rw_updated_at := now\<rparr>) st)))))"

definition retry_delay :: "nat \<Rightarrow> int" where
  "retry_delay priorAttempt = min RECOVERY_MAX_DELAY_MS (RECOVERY_BASE_DELAY_MS * 2 ^ min priorAttempt 10)"

text \<open>\<open>None\<close> for \<open>onlyWhile\<close> is its absence; the answer says whether work was scheduled.\<close>

definition reschedule ::
  "int \<Rightarrow> string \<Rightarrow> recovery_action \<Rightarrow> tx_state list option \<Rightarrow> coordinator \<Rightarrow> js_error + (bool \<times> coordinator)" where
  "reschedule now tx action onlyWhile st =
     and_then (case onlyWhile of None \<Rightarrow> Inr True
       | Some states \<Rightarrow> (case loadTx tx st of None \<Rightarrow> Inr False
           | Some current \<Rightarrow> and_then (stateOf current) (\<lambda>s. Inr (s \<in> set states)))) (\<lambda>go.
       if \<not> go then Inr (False, st)
       else (let priorAttempt = (case tbl_get rq_tx tx (co_queue st) of None \<Rightarrow> 0 | Some q \<Rightarrow> rq_attempts q);
                 due = now + retry_delay priorAttempt
             in Inr (True, (queueRecovery tx action due (priorAttempt + 1) st)\<lparr>co_alarm := Some due\<rparr>)))"

section \<open>Redo participants\<close>

definition nullable_json :: "('a \<Rightarrow> jval) \<Rightarrow> 'a option \<Rightarrow> jval" where
  "nullable_json f v = (case v of None \<Rightarrow> JNull | Some a \<Rightarrow> f a)"

definition redo_intent :: "nat \<Rightarrow> prepare_intent \<Rightarrow> jval" where
  "redo_intent intentSeq i = JObj
     [(''intent_seq'', jint (int intentSeq)), (''sql'', JStr (pi_sql i)), (''params'', JArr (intent_params i)),
      (''tenant_id'', JStr (pi_tenantId i)), (''table_name'', JStr (pi_table i)),
      (''partition_key'', JStr (pi_partitionKey i)), (''vbucket'', nullable_json jint (pi_vbucket i)),
      (''operation'', nullable_json JStr (pi_op i)), (''mirror_target_participant_id'', nullable_json JStr (pi_mirror i))]"

definition redo_participant :: "int \<Rightarrow> begin_participant \<Rightarrow> jval" where
  "redo_participant epoch p = JObj
     [(''participant_id'', JStr (bg_shard p)), (''epoch'', jint epoch),
      (''intents'', JArr (map (\<lambda>(n, i). redo_intent n i) (enumerate 0 (bg_intents p))))]"

definition normalizedParticipants :: "co_env \<Rightarrow> begin_participant list \<Rightarrow> begin_participant list" where
  "normalizedParticipants env ps = sort_key (\<lambda>p. ev_collate env (bg_shard p)) ps"

definition redoParticipants :: "co_env \<Rightarrow> begin_participant list \<Rightarrow> int \<Rightarrow> jval list" where
  "redoParticipants env ps epoch = map (redo_participant epoch) (normalizedParticipants env ps)"

definition bookmark_of :: "string \<Rightarrow> string \<Rightarrow> coordinator \<Rightarrow> string option" where
  "bookmark_of tx shard st =
     Option.bind (find (\<lambda>p. pt_tx p = tx \<and> pt_shard p = shard) (co_parts st)) pt_bookmark"

definition with_bookmark :: "jval \<Rightarrow> string \<Rightarrow> jval" where
  "with_bookmark p b = JObj ((case p of JObj kvs \<Rightarrow> kvs | _ \<Rightarrow> []) @ [(''prepare_bookmark'', JStr b)])"

fun all_results :: "('e + 'a) list \<Rightarrow> 'e + 'a list" where
  "all_results [] = Inr []"
| "all_results (r # rs) = and_then r (\<lambda>a. and_then (all_results rs) (\<lambda>as. Inr (a # as)))"

definition redoParticipantsV2 :: "co_env \<Rightarrow> tx_row \<Rightarrow> coordinator \<Rightarrow> js_error + jval list" where
  "redoParticipantsV2 env row st = all_results (map
     (\<lambda>p. case bookmark_of (rw_tx row) (str_of (jget p ''participant_id'')) st of
            None \<Rightarrow> fails TX_ENVELOPE_INVALID
          | Some b \<Rightarrow> if b = [] then fails TX_ENVELOPE_INVALID else Inr (with_bookmark p b))
     (redoParticipants env (rw_participants row) (rw_epoch row)))"

definition hasExactPrepareBookmarks :: "tx_row \<Rightarrow> coordinator \<Rightarrow> bool" where
  "hasExactPrepareBookmarks row st =
     (let expected = length (rw_participants row);
          rows = filter (\<lambda>p. pt_tx p = rw_tx row) (co_parts st);
          exact = filter (\<lambda>p. pt_bookmark p \<noteq> None \<and> pt_bookmark p \<noteq> Some []) rows
      in length rows = expected \<and> rows \<noteq> [] \<and> length exact = expected)"

section \<open>Identity\<close>

text \<open>\<open>JSON.stringify\<close>: keys in the order of the object.\<close>

fun json_stringify :: "jval \<Rightarrow> string" where
  "json_stringify (JStr s) = json_quote s"
| "json_stringify (JBool b) = (if b then ''true'' else ''false'')"
| "json_stringify (JNum n) = (case num_text n of Inl e \<Rightarrow> ''null'' | Inr t \<Rightarrow> t)"
| "json_stringify (JArr vs) = ''['' @ join_comma (map json_stringify vs) @ '']''"
| "json_stringify (JObj kvs) =
     ''{'' @ join_comma (map (\<lambda>kv. field_text (fst kv, json_stringify (snd kv))) kvs) @ ''}''"
| "json_stringify _ = ''null''"

definition participants_json :: "begin_participant list \<Rightarrow> jval" where
  "participants_json ps = JArr (map (\<lambda>p. JObj
     [(''shardId'', JStr (bg_shard p)), (''intents'', JArr (map intent_json (bg_intents p)))]) ps)"

datatype identity = Current | Legacy | Invalid_identity

definition coordinatorIdentity :: "co_env \<Rightarrow> tx_row \<Rightarrow> tx_code + identity" where
  "coordinatorIdentity env row =
     and_then (hashParticipantOperations (ev_digest env)
         (redoParticipants env (rw_participants row) (if rw_epoch row = 0 then 1 else rw_epoch row)))
       (\<lambda>currentHash. Inr
         (if rw_hash row = currentHash then Current
          else if rw_redo_envelope row \<noteq> None \<or> rw_registration row \<noteq> None then Invalid_identity
          else if rw_hash row = [] then Legacy
          else if rw_hash row = sha256Hex (ev_digest env) (json_stringify (participants_json (rw_participants row)))
          then Legacy else Invalid_identity))"

section \<open>Envelopes, reservations and intents\<close>

definition retentionDeadline :: "int \<Rightarrow> js_error + string" where
  "retentionDeadline decidedAt = iso_text (decidedAt + COORDINATOR_RETENTION_DAYS * ms_per_day)"

definition envelopeFor ::
  "co_env \<Rightarrow> string \<Rightarrow> string \<Rightarrow> string \<Rightarrow> begin_participant list \<Rightarrow> int \<Rightarrow> int \<Rightarrow> js_error + jval" where
  "envelopeFor env tx fleet coordinatorId participants epoch commitDecidedAt =
     (let redo = redoParticipants env participants epoch
      in and_then (iso_text commitDecidedAt) (\<lambda>decidedText.
         and_then (retentionDeadline commitDecidedAt) (\<lambda>deadlineText.
         and_then (violation (hashParticipantOperations (ev_digest env) redo)) (\<lambda>operationHash.
           let envelope = JObj
             [(''protocol_version'', jint CURRENT_PROTOCOL_VERSION),
              (''format_version'', jint REDO_ENVELOPE_V1_FORMAT_VERSION), (''tx_id'', JStr tx),
              (''fleet_id'', JStr fleet), (''coordinator_id'', JStr coordinatorId), (''decision'', JStr ''commit''),
              (''decision_epoch'', jint epoch), (''commit_decided_at'', JStr decidedText),
              (''retention_deadline'', JStr deadlineText), (''operation_hash'', JStr operationHash),
              (''participants'', JArr redo)]
           in and_then (violation (validateRedoEnvelope (ev_digest env) envelope)) (\<lambda>_. Inr envelope)))))"

definition routeAssignmentRequest ::
  "co_env \<Rightarrow> string \<Rightarrow> string \<Rightarrow> string \<Rightarrow> string \<Rightarrow> int \<Rightarrow> js_error + jval" where
  "routeAssignmentRequest env tx fleet coordinatorId operationHash decisionEpoch =
     and_then (violation (hashCanonicalJson (ev_digest env) (JArr
         [JStr ''coordinator-manifest-route'', JStr fleet, JStr tx, JStr coordinatorId, JStr operationHash,
          jint decisionEpoch])))
       (\<lambda>key. Inr (JObj
         [(''draft'', JObj [(''fleet_id'', JStr fleet), (''tx_id'', JStr tx), (''coordinator_id'', JStr coordinatorId),
            (''operation_hash'', JStr operationHash), (''decision_epoch'', jint decisionEpoch)]),
          (''idempotency_key'', JStr key)]))"

definition validateAssignedReservation :: "co_env \<Rightarrow> jval \<Rightarrow> jval \<Rightarrow> string \<Rightarrow> mcheck" where
  "validateAssignedReservation env request reservation reservationHash =
     and_then (validateManifestReservation reservation) (\<lambda>_.
     and_then (hashManifestReservation (ev_digest env) reservation) (\<lambda>expectedHash.
       let draft = jget request ''draft''
       in require (expectedHash = reservationHash
            \<and> jget reservation ''fleet_id'' = jget draft ''fleet_id''
            \<and> jget reservation ''tx_id'' = jget draft ''tx_id''
            \<and> jget reservation ''coordinator_id'' = jget draft ''coordinator_id''
            \<and> jget reservation ''operation_hash'' = jget draft ''operation_hash''
            \<and> jget reservation ''decision_epoch'' = jget draft ''decision_epoch'')
          (Violation MANIFEST_RESERVATION_CONFLICT)))"

definition reservationFor :: "co_env \<Rightarrow> tx_row \<Rightarrow> js_error + (jval \<times> string)" where
  "reservationFor env row =
     (case (rw_reservation row, rw_reservation_hash row) of
        (Some reservation, Some stored) \<Rightarrow>
          if stored = [] then fails TX_DECISION_UNAVAILABLE
          else and_then (validateManifestReservation reservation) (\<lambda>_.
               and_then (hashManifestReservation (ev_digest env) reservation) (\<lambda>reservationHash.
                 if reservationHash \<noteq> stored
                   \<or> jget reservation ''tx_id'' \<noteq> JStr (rw_tx row)
                   \<or> jget reservation ''fleet_id'' \<noteq> JStr (rw_fleet row)
                   \<or> jget reservation ''coordinator_id'' \<noteq> JStr (coordinator_of row)
                   \<or> jget reservation ''operation_hash'' \<noteq> JStr (rw_hash row)
                   \<or> jget reservation ''decision_epoch'' \<noteq> jint (rw_epoch row)
                 then fails MANIFEST_RESERVATION_CONFLICT else Inr (reservation, reservationHash)))
      | _ \<Rightarrow> fails TX_DECISION_UNAVAILABLE)"

definition request_json :: "jval \<Rightarrow> string \<Rightarrow> jval \<Rightarrow> jval" where
  "request_json reservation reservationHash intent = JObj
     [(''reservation'', reservation), (''reservation_hash'', JStr reservationHash), (''intent'', intent)]"

text \<open>\<open>canonicalJson\<close> of a column: it throws on what JSON cannot hold.\<close>

definition stored_json :: "jval \<Rightarrow> js_error + jval" where
  "stored_json v = and_then (violation (canonicalJson v)) (\<lambda>_. Inr v)"

definition cancel_request :: "co_env \<Rightarrow> tx_row \<Rightarrow> js_error + jval" where
  "cancel_request env row =
     and_then (reservationFor env row) (\<lambda>(reservation, reservationHash).
     and_then (violation (hashCanonicalJson (ev_digest env)
         (JArr [JStr ''coordinator-manifest-cancel'', JStr reservationHash]))) (\<lambda>key.
       let intent = JObj
         [(''protocol_version'', jint CURRENT_PROTOCOL_VERSION),
          (''format_version'', jint MANIFEST_TERMINAL_INTENT_FORMAT_VERSION), (''tx_id'', JStr (rw_tx row)),
          (''reservation_hash'', JStr reservationHash), (''operation_hash'', JStr (rw_hash row)),
          (''decision_epoch'', jint (rw_epoch row)), (''idempotency_key'', JStr key)]
       in and_then (validateManifestCancelIntent intent) (\<lambda>_.
            stored_json (request_json reservation reservationHash intent))))"

definition cancelRequestFor :: "co_env \<Rightarrow> tx_row \<Rightarrow> js_error + jval" where
  "cancelRequestFor env row =
     (case rw_cancel_request row of None \<Rightarrow> fails TX_DECISION_UNAVAILABLE
      | Some request \<Rightarrow>
          (let intent = jget request ''intent''
           in and_then (validateManifestReservation (jget request ''reservation'')) (\<lambda>_.
              and_then (validateManifestCancelIntent intent) (\<lambda>_.
              and_then (hashManifestReservation (ev_digest env) (jget request ''reservation'')) (\<lambda>reservationHash.
                if JStr reservationHash \<noteq> jget request ''reservation_hash''
                  \<or> jget intent ''reservation_hash'' \<noteq> JStr reservationHash
                  \<or> jget intent ''tx_id'' \<noteq> JStr (rw_tx row)
                  \<or> jget intent ''operation_hash'' \<noteq> JStr (rw_hash row)
                  \<or> jget intent ''decision_epoch'' \<noteq> jint (rw_epoch row)
                then fails MANIFEST_TERMINAL_CONFLICT else Inr request)))))"

text \<open>
  What a commit decision will be made of: the redo envelope without its decision time, and the
  finalization request. The bookmarks of all participants select the envelope format.
\<close>

definition envelope_intent :: "co_env \<Rightarrow> tx_row \<Rightarrow> coordinator \<Rightarrow> js_error + jval" where
  "envelope_intent env row st =
     (let checkpointCertified = hasExactPrepareBookmarks row st
      in and_then (if checkpointCertified then redoParticipantsV2 env row st
                   else Inr (redoParticipants env (rw_participants row) (rw_epoch row)))
        (\<lambda>participants. Inr (JObj
          [(''protocol_version'', jint CURRENT_PROTOCOL_VERSION),
           (''format_version'', jint (if checkpointCertified then CURRENT_REDO_ENVELOPE_FORMAT_VERSION
                                     else REDO_ENVELOPE_V1_FORMAT_VERSION)),
           (''tx_id'', JStr (rw_tx row)), (''fleet_id'', JStr (rw_fleet row)),
           (''coordinator_id'', JStr (coordinator_of row)), (''decision'', JStr ''commit''),
           (''decision_epoch'', jint (rw_epoch row)), (''operation_hash'', JStr (rw_hash row)),
           (''participants'', JArr participants)])))"

definition with_times :: "jval \<Rightarrow> jval \<Rightarrow> jval \<Rightarrow> jval" where
  "with_times envelope decided deadline =
     jset ''retention_deadline'' deadline (jset ''commit_decided_at'' decided envelope)"

definition check_writable :: "int \<Rightarrow> jval \<Rightarrow> mcheck" where
  "check_writable now intent =
     (if jget intent ''format_version'' = jint CURRENT_REDO_ENVELOPE_FORMAT_VERSION
      then and_then (iso_text now) (\<lambda>decided. and_then (retentionDeadline now) (\<lambda>deadline.
        violation (validateWritableRedoEnvelopeStructure (with_times intent (JStr decided) (JStr deadline)))))
      else Inr ())"

definition finalize_request :: "co_env \<Rightarrow> tx_row \<Rightarrow> jval \<Rightarrow> jval \<Rightarrow> string \<Rightarrow> js_error + jval" where
  "finalize_request env row envelopeIntent reservation reservationHash =
     and_then (violation (hashParticipantOperations (ev_digest env) (arr_of (jget envelopeIntent ''participants''))))
       (\<lambda>computed.
     and_then (require (computed = rw_hash row) (Violation TX_ENVELOPE_HASH_MISMATCH)) (\<lambda>_.
     and_then (violation (hashCanonicalJson (ev_digest env) envelopeIntent)) (\<lambda>envelopeHash.
     and_then (violation (hashCanonicalJson (ev_digest env)
         (JArr [JStr ''coordinator-manifest-finalize'', JStr reservationHash, JStr envelopeHash]))) (\<lambda>key.
       let intent = JObj
         [(''protocol_version'', jint CURRENT_PROTOCOL_VERSION),
          (''format_version'', jint MANIFEST_TERMINAL_INTENT_FORMAT_VERSION), (''tx_id'', JStr (rw_tx row)),
          (''reservation_hash'', JStr reservationHash), (''redo_envelope_hash'', JStr envelopeHash),
          (''operation_hash'', JStr (rw_hash row)), (''decision_epoch'', jint (rw_epoch row)),
          (''idempotency_key'', JStr key)]
       in and_then (validateManifestFinalizeIntent intent) (\<lambda>_.
            Inr (request_json reservation reservationHash intent))))))"

definition finalizeRequestFor :: "co_env \<Rightarrow> tx_row \<Rightarrow> js_error + jval" where
  "finalizeRequestFor env row =
     (case (rw_finalize_request row, rw_envelope_intent row) of
        (Some request, Some envelopeIntent) \<Rightarrow>
          (let intent = jget request ''intent''
           in and_then (validateManifestReservation (jget request ''reservation'')) (\<lambda>_.
              and_then (validateManifestFinalizeIntent intent) (\<lambda>_.
              and_then (hashManifestReservation (ev_digest env) (jget request ''reservation'')) (\<lambda>reservationHash.
              and_then (violation (hashCanonicalJson (ev_digest env) envelopeIntent)) (\<lambda>envelopeHash.
                if JStr reservationHash \<noteq> jget request ''reservation_hash''
                  \<or> jget intent ''reservation_hash'' \<noteq> JStr reservationHash
                  \<or> jget intent ''redo_envelope_hash'' \<noteq> JStr envelopeHash
                  \<or> jget intent ''tx_id'' \<noteq> JStr (rw_tx row)
                  \<or> jget intent ''operation_hash'' \<noteq> JStr (rw_hash row)
                  \<or> jget intent ''decision_epoch'' \<noteq> jint (rw_epoch row)
                then fails MANIFEST_TERMINAL_CONFLICT else Inr request)))))
      | _ \<Rightarrow> fails TX_DECISION_UNAVAILABLE)"

text \<open>The envelope a finalized record completes; an envelope that has its times keeps them.\<close>

definition completed_envelope :: "jval \<Rightarrow> jval \<Rightarrow> jval" where
  "completed_envelope stored record =
     (if ''commit_decided_at'' \<in> set (jkeys stored) \<and> ''retention_deadline'' \<in> set (jkeys stored) then stored
      else with_times stored (jget record ''commit_decided_at'') (jget record ''retention_deadline''))"

end
