(* ===== verification/CoordSteps.thy ===== *)
theory CoordSteps
  imports CoordState
begin

text \<open>
  The recovery procedures of the coordinator (\<open>src/coordinator.ts\<close>), cut at their awaits. A
  procedure that waits is a \<open>step\<close>: what it waits for, with the local variables it goes on with. One
  function per stretch between two awaits takes the answer and gives the next step and the new
  state, so any interleaving of requests, alarms and answers is a sequence of these functions.
  Restore gates asserted one after the other are one answer: whether all of them were open. A hash
  is an await too, but where the code reads no table between it and the answer before it, the two
  stretches are one. Calls to the control plane give \<open>None\<close> when the binding is absent or they throw.
\<close>

section \<open>Replies and steps\<close>

datatype co_reply =
    R_ok tx_state
  | R_accepted tx_state
  | R_error tx_code
  | R_busy tx_code failure_classification
  | R_prepare_failed string
  | R_resolved string
  | R_missing_fields
  | R_not_found
  | R_fleet_mismatch
  | R_discarded
  | R_status jval
  | R_done

fun http_status :: "co_reply \<Rightarrow> int" where
  "http_status (R_accepted s) = 202"
| "http_status (R_error c) = ERROR_HTTP_STATUS c"
| "http_status (R_busy c f) = ERROR_HTTP_STATUS c"
| "http_status (R_prepare_failed shard) = 409"
| "http_status R_missing_fields = 400"
| "http_status R_not_found = 404"
| "http_status R_fleet_mismatch = 409"
| "http_status R_discarded = 409"
| "http_status _ = 200"

text \<open>What still happens to the answer of an inner procedure.\<close>

datatype wrap = W_prepare_failed string | W_force_abort | W_repaired string | W_alarm string recovery_action

record resolve_body =
  rb_tx :: string
  rb_finalized :: bool
  rb_selected_hash :: string
  rb_evidence_hash :: string
  rb_actor :: string
  rb_reason :: string
  rb_key :: string

datatype co_step =
    S_done "co_error + co_reply"
  | S_under wrap co_step
  | S_begin begin_payload "tx_row option"
  | S_assign begin_payload string jval int attempt
  | S_reserve tx_row
  | S_reserve_sent tx_row string
  | S_prepare tx_row
  | S_decide_abort tx_row "bool option"
  | S_abort tx_row "bool option"
  | S_abort_sent tx_row tx_row bool
  | S_cancel tx_row
  | S_cancel_reserve tx_row jval
  | S_cancel_sent tx_row jval
  | S_decide_commit tx_row
  | S_record_commit tx_row jval jval
  | S_finalize tx_row
  | S_finalize_sent tx_row tx_state jval
  | S_register tx_row tx_state jval jval string
  | S_commit tx_row
  | S_commit_sent tx_row
  | S_release tx_row
  | S_release_sent tx_row jval
  | S_resolve tx_row resolve_body jval jval
  | S_alarm recovery_row "tx_row option"
  | S_retry string recovery_action
  | S_legacy tx_row

abbreviation S_error :: "tx_code \<Rightarrow> co_step" where
  "S_error c \<equiv> S_done (Inr (R_error c))"

fun finish :: "wrap \<Rightarrow> co_error + co_reply \<Rightarrow> co_step" where
  "finish (W_alarm tx action) (Inl e) = S_retry tx action"
| "finish (W_alarm tx action) (Inr r) = S_done (Inr R_done)"
| "finish w (Inl e) = S_done (Inl e)"
| "finish (W_prepare_failed shard) (Inr r) = S_done (Inr (R_prepare_failed shard))"
| "finish W_force_abort (Inr r) = S_done (Inr (if http_status r = 409 then R_ok tx_state.Aborted else r))"
| "finish (W_repaired h) (Inr r) = S_done (Inr (if http_status r \<noteq> 409 then r else R_resolved h))"

fun under :: "wrap \<Rightarrow> co_step \<Rightarrow> co_step" where
  "under w (S_done r) = finish w r"
| "under w s = S_under w s"

text \<open>A throw ends the procedure; the state is what was written before it.\<close>

definition proceed :: "co_error + 'a \<Rightarrow> coordinator \<Rightarrow> ('a \<Rightarrow> co_step \<times> coordinator) \<Rightarrow> co_step \<times> coordinator" where
  "proceed r st f = (case r of Inl e \<Rightarrow> (S_done (Inl e), st) | Inr a \<Rightarrow> f a)"

definition gated :: "bool \<Rightarrow> coordinator \<Rightarrow> co_step \<times> coordinator \<Rightarrow> co_step \<times> coordinator" where
  "gated gate st k = (if gate then k else (S_done (Inl Gate_denied), st))"

definition load_or_fail :: "string \<Rightarrow> coordinator \<Rightarrow> co_error + tx_row" where
  "load_or_fail tx st = (case loadTx tx st of None \<Rightarrow> Inl Untyped_error | Some r \<Rightarrow> Inr r)"

text \<open>A transition whose lost compare-and-set goes on with the row another request left.\<close>

definition cas ::
  "co_error + coordinator \<Rightarrow> string \<Rightarrow> coordinator \<Rightarrow> (tx_row \<Rightarrow> co_step) \<Rightarrow> (coordinator \<Rightarrow> co_step \<times> coordinator) \<Rightarrow> co_step \<times> coordinator" where
  "cas r tx st lost onwards = (case r of
       Inl (Cas_lost s) \<Rightarrow> proceed (load_or_fail tx st) st (\<lambda>latest. (lost latest, st))
     | Inl e \<Rightarrow> (S_done (Inl e), st)
     | Inr st1 \<Rightarrow> onwards st1)"

section \<open>Resuming a transaction\<close>

definition resume :: "co_env \<Rightarrow> tx_row \<Rightarrow> coordinator \<Rightarrow> co_step" where
  "resume env row st =
     (if co_discard st \<noteq> None then S_done (Inr R_discarded)
      else case stateOf row of Inl e \<Rightarrow> S_done (Inl (Thrown e))
      | Inr state \<Rightarrow> (case state of
          Tx_new \<Rightarrow> S_error TX_INVALID_TRANSITION
        | Manifest_reserving \<Rightarrow> S_reserve row
        | Commit_deciding \<Rightarrow> S_finalize row
        | Aborted_pending_manifest_cancel \<Rightarrow> S_cancel row
        | Preparing \<Rightarrow> (case coordinatorIdentity env row of
              Inl e \<Rightarrow> S_done (Inl (Thrown (Violation e)))
            | Inr i \<Rightarrow> if i = Legacy then S_legacy row else S_prepare row)
        | tx_state.Prepared \<Rightarrow> (case coordinatorIdentity env row of
              Inl e \<Rightarrow> S_done (Inl (Thrown (Violation e)))
            | Inr i \<Rightarrow> if i = Legacy then S_legacy row
                       else if i = Invalid_identity then S_error TX_ID_REQUEST_MISMATCH
                       else if isV2 row then S_decide_commit row else S_legacy row)
        | Abort_decided \<Rightarrow> S_abort row None
        | Aborting \<Rightarrow> S_abort row None
        | tx_state.Aborted \<Rightarrow> S_error TX_ABORTED
        | Commit_decided \<Rightarrow> if isV2 row \<and> rw_finalize_request row \<noteq> None then S_finalize row else S_legacy row
        | Commit_pending_manifest \<Rightarrow>
            if isV2 row \<and> rw_finalize_request row \<noteq> None then S_finalize row else S_legacy row
        | Manifest_registered \<Rightarrow> S_commit row
        | Committing \<Rightarrow> S_commit row
        | Committed_pending_ack \<Rightarrow> S_commit row
        | tx_state.Committed \<Rightarrow> S_done (Inr (R_ok tx_state.Committed))
        | Quarantined \<Rightarrow> S_error TX_QUARANTINED))"

definition authorized_states :: "tx_state list" where
  "authorized_states = [Manifest_registered, Committing, Committed_pending_ack, tx_state.Committed]"

definition resumeRecoveryOnce :: "co_env \<Rightarrow> tx_row \<Rightarrow> coordinator \<Rightarrow> co_step" where
  "resumeRecoveryOnce env row st =
     (case stateOf row of Inl e \<Rightarrow> S_done (Inl (Thrown e))
      | Inr state \<Rightarrow> if state = Aborted_pending_manifest_cancel then S_cancel row
                     else if state \<in> set authorized_states then S_commit row else resume env row st)"

text \<open>Waiting for another attempt: the work is rescheduled and the request accepted.\<close>

definition wait_for ::
  "int \<Rightarrow> string \<Rightarrow> recovery_action \<Rightarrow> tx_state list option \<Rightarrow> co_reply \<Rightarrow> coordinator \<Rightarrow> co_step \<times> coordinator" where
  "wait_for now tx action onlyWhile reply st =
     (case reschedule now tx action onlyWhile st of
        Inl e \<Rightarrow> (S_done (Inl (Thrown e)), st) | Inr (scheduled, st1) \<Rightarrow> (S_done (Inr reply), st1))"

text \<open>The status another procedure left, when it is not one this one goes on from.\<close>

definition still ::
  "co_env \<Rightarrow> (tx_row \<Rightarrow> coordinator \<Rightarrow> co_step) \<Rightarrow> string \<Rightarrow> tx_state list \<Rightarrow> coordinator
   \<Rightarrow> (tx_row \<Rightarrow> co_step \<times> coordinator) \<Rightarrow> co_step \<times> coordinator" where
  "still env other tx states st k =
     proceed (load_or_fail tx st) st (\<lambda>latest. proceed (thrown (stateOf latest)) st (\<lambda>state.
       if state \<in> set states then k latest else (other latest st, st)))"

section \<open>Reservation\<close>

definition reconcileReservation :: "co_env \<Rightarrow> bool \<Rightarrow> tx_row \<Rightarrow> coordinator \<Rightarrow> co_step \<times> coordinator" where
  "reconcileReservation env gate row st = gated gate st
     (proceed (thrown (stateOf row)) st (\<lambda>state.
        if state \<noteq> Manifest_reserving then (resume env row st, st)
        else proceed (thrown (reservationFor env row)) st (\<lambda>(reservation, reservationHash).
          (S_reserve_sent row reservationHash, st))))"

fun reserved_hash :: "reserve_reply \<Rightarrow> string" where
  "reserved_hash (Reserved h f c) = h"
| "reserved_hash (AlreadyReserved h f c) = h"
| "reserved_hash (ReserveRefused s b n c) = []"

fun reserve_unavailable :: "reserve_reply option \<Rightarrow> bool" where
  "reserve_unavailable None = True"
| "reserve_unavailable (Some (ReserveRefused status exists http code)) = (status = ''unavailable'')"
| "reserve_unavailable _ = False"

fun rejected_absent :: "reserve_reply option \<Rightarrow> tx_code option" where
  "rejected_absent (Some (ReserveRefused status exists http code)) =
     (if status = ''rejected_absent'' \<and> \<not> exists then Some code else None)"
| "rejected_absent _ = None"

definition reserve_answer ::
  "co_env \<Rightarrow> int \<Rightarrow> reserve_reply option \<Rightarrow> tx_row \<Rightarrow> string \<Rightarrow> coordinator \<Rightarrow> co_step \<times> coordinator" where
  "reserve_answer env now result row0 reservationHash st =
     still env (resume env) (rw_tx row0) [Manifest_reserving] st (\<lambda>row.
       let tx = rw_tx row
       in if reserve_unavailable result
          then wait_for now tx Act_reserve (Some [Manifest_reserving]) (R_accepted Manifest_reserving) st
          else if reserve_ok (the result) then
            (if reserved_hash (the result) \<noteq> reservationHash
             then (S_done (Inl (Thrown (Violation MANIFEST_RESERVATION_CONFLICT))), st)
             else cas (transition now tx [Manifest_reserving] Preparing (drop_recovery tx) st) tx st
               (\<lambda>concurrent. resume env concurrent st)
               (\<lambda>st1. proceed (load_or_fail tx st1) st1 (\<lambda>preparing. (S_prepare preparing, st1))))
          else (case rejected_absent result of
              Some code \<Rightarrow> proceed (transition now tx [Manifest_reserving] tx_state.Aborted
                 (\<lambda>s. drop_recovery tx (update_tx tx (\<lambda>r. r\<lparr>rw_decision := Abort_decision, rw_last_error := Some code,
                    rw_result := Some ''aborted''\<rparr>) s)) st) st
                 (\<lambda>st1. (S_error TX_ABORTED, st1))
            | None \<Rightarrow> (S_decide_abort row None, st)))"

section \<open>Prepare\<close>

text \<open>
  One participant's answer to a prepare: whether the response was a success, its bookmark and
  whether it is exact; a call that throws is \<open>V_failed\<close>.
\<close>

record vote =
  vt_ok :: bool
  vt_bookmark :: string
  vt_exact :: bool

definition vote_ok :: "co_env \<Rightarrow> vote \<Rightarrow> bool" where
  "vote_ok env v \<longleftrightarrow> vt_ok v \<and> \<not> (ev_restore_bound env \<and> vt_bookmark v \<noteq> [] \<and> \<not> vt_exact v)"

definition vote_bookmark :: "vote \<Rightarrow> string option" where
  "vote_bookmark v = (if vt_bookmark v \<noteq> [] \<and> vt_exact v then Some (vt_bookmark v) else None)"

definition record_vote :: "int \<Rightarrow> string \<Rightarrow> string \<times> vote \<Rightarrow> coordinator \<Rightarrow> coordinator" where
  "record_vote now tx sv st = st\<lparr>co_parts := map (\<lambda>p. if pt_tx p = tx \<and> pt_shard p = fst sv
       then p\<lparr>pt_status := Vote_prepared, pt_bookmark := vote_bookmark (snd sv), pt_updated_at := now\<rparr> else p)
     (co_parts st)\<rparr>"

definition prepare_answer ::
  "co_env \<Rightarrow> int \<Rightarrow> vote list \<Rightarrow> tx_row \<Rightarrow> coordinator \<Rightarrow> co_step \<times> coordinator" where
  "prepare_answer env now votes row st =
     (let tx = rw_tx row; outcomes = zip (map bg_shard (rw_participants row)) votes
      in case find (\<lambda>sv. \<not> vote_ok env (snd sv)) outcomes of
        Some failed \<Rightarrow>
          proceed (load_or_fail tx st) st (\<lambda>latest. proceed (thrown (stateOf latest)) st (\<lambda>latestState.
            if isCommitDecidedOrLater latestState then (resume env latest st, st)
            else (under (W_prepare_failed (fst failed)) (S_decide_abort latest None), st)))
      | None \<Rightarrow>
          (case transition now tx [Preparing] tx_state.Prepared (\<lambda>s. fold (record_vote now tx) outcomes s) st of
             Inl (Cas_lost s) \<Rightarrow> proceed (load_or_fail tx st) st (\<lambda>latest. (resume env latest st, st))
           | Inl e \<Rightarrow> (S_done (Inl e), st)
           | Inr st1 \<Rightarrow> proceed (load_or_fail tx st1) st1 (\<lambda>latest. (resume env latest st1, st1))))"

section \<open>Abort\<close>

definition abort_states :: "tx_state list" where
  "abort_states = [Abort_decided, Aborting, Aborted_pending_manifest_cancel, tx_state.Aborted]"

text \<open>\<open>knownLegacy\<close> is the argument of the abort that follows; only a forced abort knows it.\<close>

definition persistAbortDecision ::
  "co_env \<Rightarrow> int \<Rightarrow> bool \<Rightarrow> tx_row \<Rightarrow> bool option \<Rightarrow> coordinator \<Rightarrow> co_step \<times> coordinator" where
  "persistAbortDecision env now gate row knownLegacy st0 = gated gate st0
     (let st = ensureAlarmScheduled now st0; tx = rw_tx row
      in proceed (thrown (if isV2 row then and_then (cancel_request env row) (\<lambda>c. Inr (Some c)) else Inr None)) st
       (\<lambda>cancelRequest.
          let expected = (if isV2 row then [Manifest_reserving, Preparing, tx_state.Prepared] else [Preparing, tx_state.Prepared])
          in case transition now tx expected Abort_decided
              (\<lambda>s. queueRecovery tx (if knownLegacy = Some True then Act_legacy_abort else Act_abort) now 0
                (update_tx tx (\<lambda>r. r\<lparr>rw_decision := Abort_decision,
                   rw_cancel_request := (case cancelRequest of None \<Rightarrow> rw_cancel_request r | Some c \<Rightarrow> Some c)\<rparr>) s)) st of
            Inl (Cas_lost lostTo) \<Rightarrow> (case loadTx tx st of None \<Rightarrow> (S_done (Inl (Cas_lost lostTo)), st)
              | Some latest \<Rightarrow> proceed (thrown (stateOf latest)) st (\<lambda>s.
                  if s \<in> set abort_states then (S_abort latest knownLegacy, st) else (S_done (Inl (Cas_lost lostTo)), st)))
          | Inl e \<Rightarrow> (S_done (Inl e), st)
          | Inr st1 \<Rightarrow> proceed (load_or_fail tx st1) st1 (\<lambda>aborting. (S_abort aborting knownLegacy, st1))))"

definition message_row :: "co_env \<Rightarrow> tx_row \<Rightarrow> bool \<Rightarrow> tx_code + tx_row" where
  "message_row env row legacy =
     (if legacy then and_then (hashParticipantOperations (ev_digest env) (redoParticipants env (rw_participants row) 1))
        (\<lambda>h. Inr (row\<lparr>rw_protocol := CURRENT_PROTOCOL_VERSION, rw_epoch := 1, rw_hash := h\<rparr>))
      else Inr row)"

definition send_abort :: "co_env \<Rightarrow> tx_row \<Rightarrow> bool option \<Rightarrow> coordinator \<Rightarrow> co_step \<times> coordinator" where
  "send_abort env current knownLegacy st =
     proceed (thrown (violation (case knownLegacy of Some b \<Rightarrow> Inr b
        | None \<Rightarrow> and_then (coordinatorIdentity env current) (\<lambda>i. Inr (i = Legacy))))) st (\<lambda>legacy.
     proceed (thrown (violation (message_row env current legacy))) st (\<lambda>messageRow.
       (S_abort_sent current messageRow legacy, st)))"

definition reconcileAbort ::
  "co_env \<Rightarrow> int \<Rightarrow> bool \<Rightarrow> tx_row \<Rightarrow> bool option \<Rightarrow> coordinator \<Rightarrow> co_step \<times> coordinator" where
  "reconcileAbort env now gate row knownLegacy st = gated gate st
     (proceed (thrown (stateOf row)) st (\<lambda>state.
        if state = Abort_decided then
          cas (transition now (rw_tx row) [Abort_decided] Aborting id st) (rw_tx row) st
            (\<lambda>latest. resume env latest st)
            (\<lambda>st1. proceed (load_or_fail (rw_tx row) st1) st1 (\<lambda>current. send_abort env current knownLegacy st1))
        else if state = tx_state.Aborted then (S_error TX_ABORTED, st)
        else if state = Aborted_pending_manifest_cancel then (S_cancel row, st)
        else if state \<noteq> Aborting then (S_error TX_INVALID_TRANSITION, st)
        else send_abort env row knownLegacy st))"

definition abort_answer ::
  "co_env \<Rightarrow> int \<Rightarrow> bool list \<Rightarrow> tx_row \<Rightarrow> bool \<Rightarrow> coordinator \<Rightarrow> co_step \<times> coordinator" where
  "abort_answer env now acks current legacy st =
     (let tx = rw_tx current
      in if list_all (\<lambda>b. b) acks then
           (if isV2 current then
              cas (transition now tx [Aborting] Aborted_pending_manifest_cancel (queueRecovery tx Act_cancel now 0) st) tx st
                (\<lambda>latest. resume env latest st)
                (\<lambda>st1. proceed (load_or_fail tx st1) st1 (\<lambda>pending. (S_cancel pending, st1)))
            else proceed (transition now tx [Aborting] tx_state.Aborted
                (\<lambda>s. update_tx tx (\<lambda>r. r\<lparr>rw_result := Some ''aborted''\<rparr>) (drop_recovery tx s)) st) st
                (\<lambda>st1. (S_error TX_ABORTED, st1)))
         else wait_for now tx (if legacy then Act_legacy_abort else Act_abort) None (R_error TX_ABORTED) st)"

section \<open>Cancellation of the reservation\<close>

abbreviation pending_cancel :: "tx_state list" where
  "pending_cancel \<equiv> [Aborted_pending_manifest_cancel]"

definition reconcileCancelOnce :: "co_env \<Rightarrow> bool \<Rightarrow> tx_row \<Rightarrow> coordinator \<Rightarrow> co_step \<times> coordinator" where
  "reconcileCancelOnce env gate row st = gated gate st
     (proceed (thrown (stateOf row)) st (\<lambda>state.
        if state = tx_state.Aborted then (S_error TX_ABORTED, st)
        else if state \<noteq> Aborted_pending_manifest_cancel then (resumeRecoveryOnce env row st, st)
        else if tbl_get rq_tx (rw_tx row) (co_queue st) = None
              \<and> rw_last_error row \<in> {Some MANIFEST_QUARANTINED, Some MANIFEST_RESERVATION_CONFLICT}
        then (S_done (Inr (R_accepted Aborted_pending_manifest_cancel)), st)
        else proceed (thrown (cancelRequestFor env row)) st (\<lambda>request. (S_cancel_reserve row request, st))))"

definition park :: "tx_code \<Rightarrow> string \<Rightarrow> coordinator \<Rightarrow> coordinator" where
  "park code tx st = drop_recovery tx (update_tx tx (\<lambda>r. r\<lparr>rw_last_error := Some code\<rparr>) st)"

definition end_aborted :: "int \<Rightarrow> string \<Rightarrow> coordinator \<Rightarrow> co_step \<times> coordinator" where
  "end_aborted now tx st = proceed (transition now tx pending_cancel tx_state.Aborted
     (\<lambda>s. update_tx tx (\<lambda>r. r\<lparr>rw_result := Some ''aborted''\<rparr>) (drop_recovery tx s)) st) st
     (\<lambda>st1. (S_error TX_ABORTED, st1))"

definition wait_cancel :: "int \<Rightarrow> string \<Rightarrow> coordinator \<Rightarrow> co_step \<times> coordinator" where
  "wait_cancel now tx st =
     wait_for now tx Act_cancel (Some pending_cancel) (R_accepted Aborted_pending_manifest_cancel) st"

definition end_quarantined :: "int \<Rightarrow> string \<Rightarrow> tx_state \<Rightarrow> tx_code \<Rightarrow> coordinator \<Rightarrow> co_step \<times> coordinator" where
  "end_quarantined now tx state code st = proceed (transition now tx [state] Quarantined
     (\<lambda>s. drop_recovery tx (update_tx tx (\<lambda>r. r\<lparr>rw_decision := Quarantined_decision, rw_last_error := Some code\<rparr>) s)) st) st
     (\<lambda>st1. (S_error code, st1))"

fun reserve_quarantined :: "reserve_reply option \<Rightarrow> tx_code option" where
  "reserve_quarantined (Some (ReserveRefused status exists http code)) =
     (if status = ''quarantined'' then Some code else None)"
| "reserve_quarantined _ = None"

definition cancel_reserve_answer ::
  "co_env \<Rightarrow> int \<Rightarrow> reserve_reply option \<Rightarrow> tx_row \<Rightarrow> jval \<Rightarrow> coordinator \<Rightarrow> co_step \<times> coordinator" where
  "cancel_reserve_answer env now reserveResult row0 request st =
     still env (resumeRecoveryOnce env) (rw_tx row0) pending_cancel st (\<lambda>row.
       let tx = rw_tx row
       in if reserve_unavailable reserveResult then wait_cancel now tx st
          else case reserve_quarantined reserveResult of
            Some code \<Rightarrow> (S_done (Inr (R_accepted Aborted_pending_manifest_cancel)), park code tx st)
          | None \<Rightarrow> if rejected_absent reserveResult \<noteq> None then end_aborted now tx st else (S_cancel_sent row request, st))"

definition cancel_answer ::
  "co_env \<Rightarrow> int \<Rightarrow> cancel_reply option \<Rightarrow> tx_row \<Rightarrow> coordinator \<Rightarrow> co_step \<times> coordinator" where
  "cancel_answer env now result row0 st =
     still env (resumeRecoveryOnce env) (rw_tx row0) pending_cancel st (\<lambda>row.
       let tx = rw_tx row
       in case result of
            None \<Rightarrow> wait_cancel now tx st
          | Some (CancelRefused status http code) \<Rightarrow>
              if status = ''unavailable'' then wait_cancel now tx st
              else if status = ''quarantined_pending_resolution''
              then (S_done (Inr (R_accepted Aborted_pending_manifest_cancel)), park code tx st)
              else end_quarantined now tx Aborted_pending_manifest_cancel code st
          | Some _ \<Rightarrow> end_aborted now tx st)"

end
