(* ===== verification/CoordCommit.thy ===== *)
theory CoordCommit
  imports CoordSteps
begin

text \<open>
  The commit side of the coordinator (\<open>src/coordinator.ts\<close>): the decision, the finalization of the
  manifest, the commits of the participants and the release of the manifest's retention.
\<close>

section \<open>Decision\<close>

text \<open>
  \<open>persistCommitDeciding\<close> reads the bookmarks, then hashes, then writes: two stretches.
\<close>

definition persistCommitDeciding ::
  "co_env \<Rightarrow> int \<Rightarrow> bool \<Rightarrow> tx_row \<Rightarrow> coordinator \<Rightarrow> co_step \<times> coordinator" where
  "persistCommitDeciding env now gate row st0 = gated gate st0
     (let st = ensureAlarmScheduled now st0
      in proceed (thrown
          (and_then (reservationFor env row) (\<lambda>(reservation, reservationHash).
           and_then (envelope_intent env row st) (\<lambda>intent.
           and_then (check_writable now intent) (\<lambda>_.
           and_then (finalize_request env row intent reservation reservationHash) (\<lambda>request.
             Inr (intent, request))))))) st
        (\<lambda>(intent, request). (S_record_commit row intent request, st)))"

definition record_commit ::
  "co_env \<Rightarrow> int \<Rightarrow> tx_row \<Rightarrow> jval \<Rightarrow> jval \<Rightarrow> coordinator \<Rightarrow> co_step \<times> coordinator" where
  "record_commit env now row intent request st =
     (let tx = rw_tx row
      in case transition now tx [tx_state.Prepared] Commit_deciding
          (\<lambda>s. queueRecovery tx Act_finalize now 0 (update_tx tx (\<lambda>r. r\<lparr>rw_decision := Commit_decision,
             rw_envelope_intent := Some intent, rw_finalize_request := Some request\<rparr>) s)) st of
        Inl (Cas_lost lostTo) \<Rightarrow> (case loadTx tx st of None \<Rightarrow> (S_done (Inl (Cas_lost lostTo)), st)
          | Some latest \<Rightarrow> proceed (thrown (stateOf latest)) st (\<lambda>s.
              if isCommitDecidedOrLater s then (S_finalize latest, st) else (S_done (Inl (Cas_lost lostTo)), st)))
      | Inl e \<Rightarrow> (S_done (Inl e), st)
      | Inr st1 \<Rightarrow> proceed (load_or_fail tx st1) st1 (\<lambda>deciding. (S_finalize deciding, st1)))"

section \<open>Finalization\<close>

definition deciding_states :: "tx_state list" where
  "deciding_states = [Commit_deciding, Commit_pending_manifest]"

definition reconcileFinalize :: "co_env \<Rightarrow> bool \<Rightarrow> tx_row \<Rightarrow> coordinator \<Rightarrow> co_step \<times> coordinator" where
  "reconcileFinalize env gate row st = gated gate st
     (proceed (thrown (stateOf row)) st (\<lambda>state.
        if state \<notin> set deciding_states then (resume env row st, st)
        else proceed (thrown (finalizeRequestFor env row)) st (\<lambda>request. (S_finalize_sent row state request, st))))"

text \<open>The record against the row and the request, and the envelope it completes.\<close>

definition accept_record :: "co_env \<Rightarrow> tx_row \<Rightarrow> jval \<Rightarrow> jval \<Rightarrow> string \<Rightarrow> js_error + jval" where
  "accept_record env row request r recordHash =
     and_then (validateManifestRecordV2 r) (\<lambda>_.
     and_then (hashManifestRecordV2 (ev_digest env) r) (\<lambda>expectedRecordHash.
     and_then (require (expectedRecordHash = recordHash
         \<and> jget r ''tx_id'' = JStr (rw_tx row) \<and> jget r ''fleet_id'' = JStr (rw_fleet row)
         \<and> jget r ''coordinator_id'' = JStr (coordinator_of row) \<and> jget r ''operation_hash'' = JStr (rw_hash row)
         \<and> jget r ''decision_epoch'' = jint (rw_epoch row)
         \<and> jget r ''reservation_hash'' = jget request ''reservation_hash''
         \<and> jget r ''envelope_hash'' = jget (jget request ''intent'') ''redo_envelope_hash'')
       (Violation MANIFEST_TERMINAL_CONFLICT)) (\<lambda>_.
       let completed = completed_envelope (case rw_envelope_intent row of None \<Rightarrow> JNull | Some i \<Rightarrow> i) r
       in and_then (violation (validateRedoEnvelope (ev_digest env) completed)) (\<lambda>_. Inr completed))))"

definition co_finalize_answer ::
  "co_env \<Rightarrow> int \<Rightarrow> finalize_reply option \<Rightarrow> tx_row \<Rightarrow> tx_state \<Rightarrow> jval \<Rightarrow> coordinator \<Rightarrow> co_step \<times> coordinator" where
  "co_finalize_answer env now result row0 state request st =
     still env (resume env) (rw_tx row0) [state] st (\<lambda>row.
       let tx = rw_tx row;
           wait = wait_for now tx Act_finalize (Some deciding_states) (R_accepted Commit_pending_manifest);
           unavailable = (if state = Commit_deciding
             then cas (transition now tx [Commit_deciding] Commit_pending_manifest id st) tx st
                    (\<lambda>concurrent. resume env concurrent st) wait
             else wait st);
           accepted = (\<lambda>r h. proceed (thrown (accept_record env row request r h)) st
             (\<lambda>completed. (S_register row state completed r h, st)))
       in case result of
            None \<Rightarrow> unavailable
          | Some (FinalizeRefused status http code) \<Rightarrow>
              if status = ''unavailable'' then unavailable else end_quarantined now tx state code st
          | Some (Finalized r h) \<Rightarrow> accepted r h
          | Some (AlreadyFinalized r h) \<Rightarrow> accepted r h)"

definition register_decision :: "jval \<Rightarrow> jval \<Rightarrow> string \<Rightarrow> tx_row \<Rightarrow> tx_row" where
  "register_decision completed r recordHash row = row
     \<lparr>rw_redo_envelope := Some completed, rw_record := Some r, rw_record_hash := Some recordHash,
      rw_decided_at_ms := Some (int_of (jget r ''commit_decided_at_ms'')),
      rw_sequence := Some (int_of (jget r ''decision_sequence''))\<rparr>"

definition register_record ::
  "co_env \<Rightarrow> int \<Rightarrow> tx_row \<Rightarrow> tx_state \<Rightarrow> jval \<Rightarrow> jval \<Rightarrow> string \<Rightarrow> coordinator \<Rightarrow> co_step \<times> coordinator" where
  "register_record env now row state completed r recordHash st =
     (let tx = rw_tx row
      in cas (transition now tx [state] Manifest_registered
           (\<lambda>s. queueRecovery tx Act_commit now 0 (update_tx tx (register_decision completed r recordHash) s)) st) tx st
         (\<lambda>concurrent. resume env concurrent st)
         (\<lambda>st1. proceed (load_or_fail tx st1) st1 (\<lambda>registered. (S_commit registered, st1))))"

section \<open>Commit\<close>

definition reconcileCommitOnce :: "co_env \<Rightarrow> int \<Rightarrow> bool \<Rightarrow> tx_row \<Rightarrow> coordinator \<Rightarrow> co_step \<times> coordinator" where
  "reconcileCommitOnce env now gate row st = gated gate st
     (proceed (thrown (stateOf row)) st (\<lambda>state.
        if state = Manifest_registered then
          cas (transition now (rw_tx row) [Manifest_registered] Committing id st) (rw_tx row) st
            S_commit
            (\<lambda>st1. proceed (load_or_fail (rw_tx row) st1) st1 (\<lambda>current. (S_commit_sent current, st1)))
        else if state = tx_state.Committed then (S_done (Inr (R_ok tx_state.Committed)), st)
        else if state \<noteq> Committing \<and> state \<noteq> Committed_pending_ack then (resumeRecoveryOnce env row st, st)
        else (S_commit_sent row, st)))"

definition record_ack :: "int \<Rightarrow> string \<Rightarrow> string \<times> bool \<Rightarrow> coordinator \<Rightarrow> coordinator" where
  "record_ack now tx ack st = (if snd ack
     then st\<lparr>co_parts := map (\<lambda>p. if pt_tx p = tx \<and> pt_shard p = fst ack
       then p\<lparr>pt_status := Vote_committed, pt_updated_at := now\<rparr> else p) (co_parts st)\<rparr> else st)"

definition recordAcknowledgments ::
  "int \<Rightarrow> string \<Rightarrow> (string \<times> bool) list \<Rightarrow> bool \<Rightarrow> coordinator \<Rightarrow> coordinator" where
  "recordAcknowledgments now tx acks queueCommitRecovery st =
     (let st1 = fold (record_ack now tx) acks st
      in if list_all snd acks
         then update_tx tx (\<lambda>r. r\<lparr>rw_result := Some ''committed''\<rparr>) (queueRecovery tx Act_release now 0 st1)
         else if queueCommitRecovery then queueRecovery tx Act_commit now 0 st1 else st1)"

definition commit_answer ::
  "co_env \<Rightarrow> int \<Rightarrow> bool list \<Rightarrow> tx_row \<Rightarrow> coordinator \<Rightarrow> co_step \<times> coordinator" where
  "commit_answer env now answers row st0 =
     (let tx = rw_tx row; acks = zip (map bg_shard (rw_participants row)) answers;
          allAcknowledged = list_all snd acks;
          nextState = (if allAcknowledged then tx_state.Committed else Committed_pending_ack);
          st = (if allAcknowledged then ensureAlarmScheduled now st0 else st0)
      in proceed (load_or_fail tx st) st (\<lambda>latest. proceed (thrown (stateOf latest)) st (\<lambda>latestState.
           if latestState = tx_state.Committed then (S_done (Inr (R_ok tx_state.Committed)), st)
           else if latestState \<noteq> Committing \<and> latestState \<noteq> Committed_pending_ack
           then (resumeRecoveryOnce env latest st, st)
           else proceed (if latestState = nextState
               then Inr (recordAcknowledgments now tx acks False (update_tx tx (\<lambda>r. r\<lparr>rw_updated_at := now\<rparr>) st))
               else transition now tx [Committing, Committed_pending_ack] nextState
                      (recordAcknowledgments now tx acks True) st) st
             (\<lambda>st1. if allAcknowledged then (S_done (Inr (R_ok tx_state.Committed)), st1)
                else wait_for now tx Act_commit (Some [Committing, Committed_pending_ack])
                       (R_accepted Committed_pending_ack) st1))))"

section \<open>Release\<close>

definition release_request :: "co_env \<Rightarrow> tx_row \<Rightarrow> js_error + jval" where
  "release_request env row =
     and_then (reservationFor env row) (\<lambda>(reservation, reservationHash).
       case (rw_record row, rw_record_hash row) of
         (Some r, Some h) \<Rightarrow>
           if h = [] then fails TX_DECISION_UNAVAILABLE
           else and_then (validateManifestRecordV2 r) (\<lambda>_.
                and_then (hashManifestRecordV2 (ev_digest env) r) (\<lambda>actual.
                and_then (require (actual = h) (Violation MANIFEST_TERMINAL_CONFLICT)) (\<lambda>_.
                  Inr (JObj [(''reservation'', reservation), (''reservation_hash'', JStr reservationHash),
                    (''record_hash'', JStr h),
                    (''retention_deadline_ms'', case parse_iso (str_of (jget r ''retention_deadline'')) of
                       None \<Rightarrow> JNum JNaN | Some t \<Rightarrow> jint t)]))))
       | _ \<Rightarrow> fails TX_DECISION_UNAVAILABLE)"

definition reconcileManifestReleaseOnce :: "co_env \<Rightarrow> bool \<Rightarrow> tx_row \<Rightarrow> coordinator \<Rightarrow> co_step \<times> coordinator" where
  "reconcileManifestReleaseOnce env gate row st = gated gate st
     (proceed (thrown (stateOf row)) st (\<lambda>state.
        if state \<noteq> tx_state.Committed then (S_done (Inl (Thrown (Violation TX_INVALID_TRANSITION))), st)
        else if isV2 row then proceed (thrown (release_request env row)) st (\<lambda>request. (S_release_sent row request, st))
        else if rw_registration row = None then (S_done (Inr R_done), drop_recovery (rw_tx row) st)
        else (S_legacy row, st)))"

definition release_answer ::
  "co_env \<Rightarrow> int \<Rightarrow> release_reply option \<Rightarrow> tx_row \<Rightarrow> coordinator \<Rightarrow> co_step \<times> coordinator" where
  "release_answer env now result row st =
     (let tx = rw_tx row
      in case result of
           None \<Rightarrow> wait_for now tx Act_release None R_done st
         | Some (ReleaseRefused status http code) \<Rightarrow>
             wait_for now tx Act_release None R_done
               (if status = ''quarantined'' then update_tx tx (\<lambda>r. r\<lparr>rw_last_error := Some code\<rparr>) st else st)
         | Some _ \<Rightarrow> (S_done (Inr R_done), drop_recovery tx st))"

end
