(* ===== verification/CoordHandlers.thy ===== *)
theory CoordHandlers
  imports CoordCommit
begin

text \<open>
  The entry points of the coordinator (\<open>src/coordinator.ts\<close>): begin, status, forced abort,
  quarantine resolution, the stored envelope, statistics and the alarm; and \<open>advance\<close>, which gives a
  waiting step its answer. The gate of a mutating route is asserted before its handler; the discard
  directives of the restore authority are not modelled, so a registration is acknowledged or denied.
\<close>

section \<open>Begin\<close>

definition handleBegin :: "co_env \<Rightarrow> bool \<Rightarrow> begin_payload \<Rightarrow> coordinator \<Rightarrow> co_step \<times> coordinator" where
  "handleBegin env gate body st = gated gate st
     (if co_discard st \<noteq> None then (S_done (Inr R_discarded), st)
      else if bq_tx body = [] \<or> bq_participants body = [] then (S_done (Inr R_missing_fields), st)
      else (let fleetId = (if bq_fleet body = [] then ''default'' else bq_fleet body);
                coordinatorId = (if bq_coordinator body = [] then bq_tx body else bq_coordinator body)
            in if ev_restore_bound env \<and> fleetId \<noteq> ev_fleet env then (S_done (Inr R_fleet_mismatch), st)
               else (S_begin (body\<lparr>bq_fleet := fleetId, bq_coordinator := coordinatorId,
                        bq_participants := normalizedParticipants env (bq_participants body)\<rparr>)
                      (loadTx (bq_tx body) st), st)))"

text \<open>Retrying a transaction the coordinator already knows.\<close>

definition retry_legacy :: "co_env \<Rightarrow> begin_payload \<Rightarrow> tx_row \<Rightarrow> coordinator \<Rightarrow> co_step \<times> coordinator" where
  "retry_legacy env body existing st =
     proceed (thrown (stateOf existing)) st (\<lambda>state.
     proceed (thrown (violation (canonicalJson (participants_json (normalizedParticipants env (rw_participants existing)))))) st (\<lambda>a.
     proceed (thrown (violation (canonicalJson (participants_json (bq_participants body))))) st (\<lambda>b.
       if a \<noteq> b then (S_error TX_ID_REQUEST_MISMATCH, st)
       else if state \<in> {Preparing, tx_state.Prepared, tx_state.Committed, tx_state.Aborted} then (resume env existing st, st)
       else (S_error TX_ID_REQUEST_MISMATCH, st))))"

definition begin_registered ::
  "co_env \<Rightarrow> int \<Rightarrow> bool \<Rightarrow> begin_payload \<Rightarrow> tx_row option \<Rightarrow> coordinator \<Rightarrow> co_step \<times> coordinator" where
  "begin_registered env now registered body existing st = gated registered st
     (let tx = bq_tx body; ps = bq_participants body
      in proceed (thrown (violation (case existing of None \<Rightarrow> Inr None
           | Some row \<Rightarrow> and_then (coordinatorIdentity env row) (\<lambda>i. Inr (Some i))))) st (\<lambda>identity.
        if identity = Some Legacy then retry_legacy env body (the existing) st
        else proceed (thrown (envelopeFor env tx (bq_fleet body) (bq_coordinator body) ps 1 now)) st (\<lambda>preflight.
          let operationHash = str_of (jget preflight ''operation_hash'')
          in case existing of
            Some row \<Rightarrow>
              if identity = Some Invalid_identity \<or> rw_hash row \<noteq> operationHash
              then (S_error TX_ID_REQUEST_MISMATCH, st) else (resume env row st, st)
          | None \<Rightarrow>
              proceed (thrown (routeAssignmentRequest env tx (bq_fleet body) (bq_coordinator body) operationHash 1)) st
                (\<lambda>request. case beginAdmissionAttempt now (co_circuit st) of
                   (A_open retry, c) \<Rightarrow>
                     (S_done (Inr (R_busy TX_MANIFEST_UNAVAILABLE
                        \<lparr>fc_overloaded = False, fc_retryable = True, fc_retry_after_ms = retry\<rparr>)), st\<lparr>co_circuit := c\<rparr>)
                 | (attempt, c) \<Rightarrow> (S_assign body operationHash request now attempt, st\<lparr>co_circuit := c\<rparr>)))))"

datatype assign_result = As_absent | As_threw jval | As_refused string tx_protocol_error | As_ok jval string

text \<open>The flags of an error object that the classification reads.\<close>

definition rpc_error_json :: "tx_protocol_error \<Rightarrow> jval" where
  "rpc_error_json e = JObj ([(''retryable'', JBool (pe_retryable e))]
     @ (if pe_overloaded e then [(''overloaded'', JBool True)] else [])
     @ (case pe_retry_after_ms e of None \<Rightarrow> [] | Some ms \<Rightarrow> [(''retry_after_ms'', jint ms)]))"

definition new_tx_row :: "begin_payload \<Rightarrow> string \<Rightarrow> jval \<Rightarrow> jval \<Rightarrow> string \<Rightarrow> int \<Rightarrow> tx_row" where
  "new_tx_row body operationHash request reservation reservationHash now =
     \<lparr>rw_tx = bq_tx body, rw_status = Manifest_reserving, rw_created_at = now, rw_participants = bq_participants body,
      rw_hash = operationHash, rw_protocol = CURRENT_PROTOCOL_VERSION, rw_model = COORDINATOR_WRITE_STATE_MODEL_VERSION,
      rw_epoch = 1, rw_decision = Undecided, rw_fleet = bq_fleet body, rw_coordinator = bq_coordinator body,
      rw_redo_envelope = None, rw_registration = None, rw_assignment_request = Some request,
      rw_reservation = Some reservation, rw_reservation_hash = Some reservationHash, rw_finalize_request = None,
      rw_cancel_request = None, rw_envelope_intent = None, rw_record = None, rw_record_hash = None,
      rw_decided_at_ms = None, rw_sequence = None, rw_result = None, rw_last_error = None, rw_updated_at = now\<rparr>"

definition new_participant :: "string \<Rightarrow> string \<Rightarrow> int \<Rightarrow> begin_participant \<Rightarrow> participant_row" where
  "new_participant tx operationHash now p =
     \<lparr>pt_tx = tx, pt_shard = bg_shard p, pt_status = Vote_pending, pt_updated_at = now, pt_epoch = 1,
      pt_hash = operationHash, pt_bookmark = None\<rparr>"

text \<open>The inserting SQL transaction; a taken primary key throws and rolls it back.\<close>

definition insert_tx :: "tx_row \<Rightarrow> int \<Rightarrow> coordinator \<Rightarrow> co_error + coordinator" where
  "insert_tx row now st =
     (let tx = rw_tx row; parts = map (new_participant tx (rw_hash row) now) (rw_participants row)
      in if loadTx tx st \<noteq> None \<or> \<not> distinct (map pt_shard parts)
           \<or> list_ex (\<lambda>p. pt_tx p = tx \<and> pt_shard p \<in> set (map pt_shard parts)) (co_parts st)
         then Inl Untyped_error
         else Inr (queueRecovery tx Act_reserve now 0
                (st\<lparr>co_txs := co_txs st @ [row], co_parts := co_parts st @ parts\<rparr>)))"

definition assign_answer ::
  "co_env \<Rightarrow> int \<Rightarrow> assign_result \<Rightarrow> begin_payload \<Rightarrow> string \<Rightarrow> jval \<Rightarrow> int \<Rightarrow> attempt \<Rightarrow> coordinator
   \<Rightarrow> co_step \<times> coordinator" where
  "assign_answer env now result body operationHash request admissionNow attempt st =
     (let failed = st\<lparr>co_circuit := recordAdmissionFailure admissionNow attempt (co_circuit st)\<rparr>
      in case result of
        As_absent \<Rightarrow> (S_error TX_MANIFEST_UNAVAILABLE, failed)
      | As_threw e \<Rightarrow> (S_done (Inr (R_busy TX_MANIFEST_UNAVAILABLE (classifyDurableObjectFailure e))), failed)
      | As_refused status e \<Rightarrow>
          (let st1 = (if pe_retryable e \<or> pe_overloaded e then failed
                      else st\<lparr>co_circuit := recordAdmissionNeutral (co_circuit st)\<rparr>)
           in if pe_overloaded e \<or> status = ''unavailable''
              then (S_done (Inr (R_busy TX_MANIFEST_UNAVAILABLE (classifyDurableObjectFailure (rpc_error_json e)))), st1)
              else (S_error (pe_code e), st1))
      | As_ok reservation reservationHash \<Rightarrow>
          (let st1 = st\<lparr>co_circuit := recordAdmissionSuccess (co_circuit st)\<rparr>
           in proceed (thrown (and_then (validateAssignedReservation env request reservation reservationHash)
                 (\<lambda>_. and_then (stored_json request) (\<lambda>_. stored_json reservation)))) st1 (\<lambda>_.
              let st2 = ensureAlarmScheduled now st1
              in case insert_tx (new_tx_row body operationHash request reservation reservationHash now) now st2 of
                   Inl e \<Rightarrow> (case loadTx (bq_tx body) st2 of
                       None \<Rightarrow> (S_done (Inl e), st2)
                     | Some concurrent \<Rightarrow> if rw_hash concurrent = operationHash then (resume env concurrent st2, st2)
                                          else (S_done (Inl e), st2))
                 | Inr st3 \<Rightarrow> proceed (load_or_fail (bq_tx body) st3) st3 (\<lambda>row. (S_reserve row, st3)))))"

section \<open>Status\<close>

definition state_text :: "tx_state \<Rightarrow> string" where
  "state_text s = (case find (\<lambda>p. snd p = s) TRANSACTION_STATES of None \<Rightarrow> [] | Some p \<Rightarrow> fst p)"

fun decision_text :: "tx_decision \<Rightarrow> string" where
  "decision_text Undecided = ''undecided''"
| "decision_text Abort_decision = ''abort''"
| "decision_text Commit_decision = ''commit''"
| "decision_text Quarantined_decision = ''quarantined''"

definition candidate :: "string \<Rightarrow> js_error + string \<Rightarrow> js_error + jval" where
  "candidate kind h = and_then h (\<lambda>t. Inr (JObj [(''kind'', JStr kind), (''hash'', JStr t)]))"

definition quarantine_candidates :: "co_env \<Rightarrow> tx_row \<Rightarrow> js_error + jval list" where
  "quarantine_candidates env row = all_results (
     (case rw_record_hash row of None \<Rightarrow> [] | Some h \<Rightarrow> if h = [] then [] else [candidate ''record'' (Inr h)])
     @ (case rw_finalize_request row of None \<Rightarrow> []
        | Some r \<Rightarrow> [candidate ''finalize_intent'' (hashManifestFinalizeIntent (ev_digest env) (jget r ''intent''))])
     @ (case rw_cancel_request row of None \<Rightarrow> []
        | Some r \<Rightarrow> [candidate ''cancel_intent'' (violation (hashCanonicalJson (ev_digest env) (jget r ''intent'')))]))"

definition status_json :: "tx_row \<Rightarrow> tx_state \<Rightarrow> jval list \<Rightarrow> jval" where
  "status_json row state candidates = JObj (
     [(''found'', JBool True), (''status'', JStr (state_text state)), (''decision'', JStr (decision_text (rw_decision row))),
      (''epoch'', jint (rw_epoch row)), (''operationHash'', JStr (rw_hash row)),
      (''commitAuthorized'', JBool (state \<in> set authorized_states))]
     @ (if state \<in> {Quarantined, Aborted_pending_manifest_cancel} then [(''quarantineCandidates'', JArr candidates)] else []))"

definition co_handleTxStatus :: "co_env \<Rightarrow> string \<Rightarrow> coordinator \<Rightarrow> co_error + co_reply" where
  "co_handleTxStatus env tx st =
     (if tx = [] then Inr R_missing_fields
      else case co_discard st of
        Some d \<Rightarrow> and_then (thrown (iso_text (rd_at d))) (\<lambda>at. Inr (R_status (JObj
            [(''found'', JBool True), (''status'', JStr ''quarantined''), (''decision'', JStr ''quarantined''),
             (''discarded_by_restore'', JBool True), (''restore_id'', JStr (rd_restore d)),
             (''generation'', jint (rd_generation d)), (''discarded_at'', JStr at)])))
      | None \<Rightarrow> (case loadTx tx st of None \<Rightarrow> Inr (R_status (JObj [(''found'', JBool False)]))
          | Some row \<Rightarrow> and_then (thrown (stateOf row)) (\<lambda>state.
              and_then (thrown (quarantine_candidates env row)) (\<lambda>candidates.
                Inr (R_status (status_json row state candidates))))))"

definition handleRedoEnvelope :: "co_env \<Rightarrow> string \<Rightarrow> string \<Rightarrow> coordinator \<Rightarrow> co_error + co_reply" where
  "handleRedoEnvelope env tx envelopeHash st =
     (if tx = [] \<or> envelopeHash = [] then Inr R_missing_fields
      else case loadTx tx st of None \<Rightarrow> Inr R_not_found
      | Some row \<Rightarrow> (case rw_redo_envelope row of None \<Rightarrow> Inr R_not_found
          | Some envelope \<Rightarrow>
              and_then (thrown (violation (validateRedoEnvelope (ev_digest env) envelope))) (\<lambda>_.
              and_then (thrown (violation (if isV2 row then hashFinalizedRedoEnvelope (ev_digest env) envelope
                                           else hashRedoEnvelope (ev_digest env) envelope))) (\<lambda>actualHash.
                Inr (if actualHash \<noteq> envelopeHash then R_error TX_ENVELOPE_HASH_MISMATCH
                     else R_status (JObj [(''ok'', JBool True), (''state_model_version'', jint (rw_model row)),
                                          (''envelope'', envelope)]))))))"

fun action_text :: "recovery_action \<Rightarrow> string" where
  "action_text Act_reserve = ''reserve''"
| "action_text Act_finalize = ''finalize''"
| "action_text Act_cancel = ''cancel''"
| "action_text Act_manifest = ''manifest''"
| "action_text Act_commit = ''commit''"
| "action_text Act_abort = ''abort''"
| "action_text Act_legacy_abort = ''legacy_abort''"
| "action_text Act_release = ''release''"

definition co_handleStats :: "coordinator \<Rightarrow> co_reply" where
  "co_handleStats st = R_status (JObj
     [(''ok'', JBool True),
      (''status'', case co_txs st of [] \<Rightarrow> JNull | r # rs \<Rightarrow> JStr (state_text (rw_status r))),
      (''recovery'', case co_queue st of [] \<Rightarrow> JNull
         | q # qs \<Rightarrow> JObj [(''action'', JStr (action_text (rq_action q))), (''attemptCount'', jint (int (rq_attempts q)))])])"

section \<open>Forced abort\<close>

definition handleForceAbort :: "co_env \<Rightarrow> bool \<Rightarrow> string \<Rightarrow> coordinator \<Rightarrow> co_step \<times> coordinator" where
  "handleForceAbort env gate tx st = gated gate st
     (if co_discard st \<noteq> None then (S_done (Inr R_discarded), st)
      else if tx = [] then (S_done (Inr R_missing_fields), st)
      else case loadTx tx st of None \<Rightarrow> (S_done (Inr R_not_found), st)
      | Some row \<Rightarrow> proceed (thrown (stateOf row)) st (\<lambda>state.
          if isCommitDecidedOrLater state then (S_error TX_COMMIT_ALREADY_DECIDED, st)
          else if state = Quarantined then (S_error TX_QUARANTINED, st)
          else if state = tx_state.Aborted then (S_done (Inr (R_ok tx_state.Aborted)), st)
          else if state = Aborted_pending_manifest_cancel then (S_cancel row, st)
          else proceed (thrown (violation (coordinatorIdentity env row))) st (\<lambda>identity.
            if identity = Invalid_identity then (S_error TX_ID_REQUEST_MISMATCH, st)
            else (let known = Some (identity = Legacy)
                  in (under W_force_abort
                        (if state = Abort_decided \<or> state = Aborting then S_abort row known else S_decide_abort row known), st)))))"

end
