(* ===== verification/CoordAlarm.thy ===== *)
theory CoordAlarm
  imports CoordHandlers
begin

text \<open>
  Quarantine resolution, the recovery alarm and the dispatch of answers of the coordinator
  (\<open>src/coordinator.ts\<close>).
\<close>

section \<open>Quarantine resolution\<close>

definition coordinator_state_json :: "tx_row \<Rightarrow> string \<Rightarrow> string \<Rightarrow> jval" where
  "coordinator_state_json row reservationHash sourceHash = JObj
     [(''tx_id'', JStr (rw_tx row)), (''coordinator_id'', JStr (coordinator_of row)),
      (''state'', JStr (state_text (rw_status row))), (''decision'', JStr (decision_text (rw_decision row))),
      (''epoch'', jint (rw_epoch row)), (''operation_hash'', JStr (rw_hash row)),
      (''reservation_hash'', JStr reservationHash), (''authorization_source_hash'', JStr sourceHash)]"

definition resolution_json :: "resolve_body \<Rightarrow> jval \<Rightarrow> string \<Rightarrow> jval \<Rightarrow> jval \<Rightarrow> string \<Rightarrow> jval" where
  "resolution_json body reservation reservationHash intent state stateHash = JObj
     [(''reservation'', reservation), (''reservation_hash'', JStr reservationHash),
      (''resolution'', JStr (if rb_finalized body then ''FINALIZED'' else ''CANCELLED'')),
      (''selected_hash'', JStr (rb_selected_hash body)), (''evidence_hash'', JStr (rb_evidence_hash body)),
      (''actor'', JStr (rb_actor body)), (''reason'', JStr (rb_reason body)), (''terminal_intent'', intent),
      (''coordinator_state'', state), (''coordinator_state_hash'', JStr stateHash),
      (''idempotency_key'', JStr (rb_key body))]"

definition handleResolveManifestQuarantine ::
  "co_env \<Rightarrow> bool \<Rightarrow> resolve_body \<Rightarrow> coordinator \<Rightarrow> co_step \<times> coordinator" where
  "handleResolveManifestQuarantine env gate body st = gated gate st
     (if co_discard st \<noteq> None then (S_done (Inr R_discarded), st)
      else if [] \<in> {rb_tx body, rb_selected_hash body, rb_evidence_hash body, rb_actor body, rb_reason body, rb_key body}
      then (S_done (Inr R_missing_fields), st)
      else case loadTx (rb_tx body) st of None \<Rightarrow> (S_done (Inr R_not_found), st)
      | Some row \<Rightarrow>
          if \<not> isV2 row then (S_error TX_VERSION_UNSUPPORTED, st)
          else proceed (thrown (reservationFor env row)) st (\<lambda>(reservation, reservationHash).
            case (if rb_finalized body then rw_finalize_request row else rw_cancel_request row) of
              None \<Rightarrow> (S_error TX_DECISION_UNAVAILABLE, st)
            | Some stored \<Rightarrow>
                (let intent = jget stored ''intent''
                 in proceed (thrown (and_then (if rb_finalized body then validateManifestFinalizeIntent intent
                                               else validateManifestCancelIntent intent) (\<lambda>_.
                      and_then (violation (hashCanonicalJson (ev_digest env) intent)) (\<lambda>sourceHash.
                      and_then (stateOf row) (\<lambda>state.
                      let cs = coordinator_state_json row reservationHash sourceHash
                      in and_then (violation (hashCanonicalJson (ev_digest env) cs)) (\<lambda>stateHash.
                        Inr (resolution_json body reservation reservationHash intent cs stateHash))))))) st
                      (\<lambda>request. (S_resolve row body intent request, st)))))"

text \<open>The row is still the one the attested state was read from.\<close>

definition unchanged :: "tx_row \<Rightarrow> string \<Rightarrow> tx_row \<Rightarrow> bool" where
  "unchanged row reservationHash current \<longleftrightarrow>
     rw_status current = rw_status row \<and> rw_decision current = rw_decision row \<and> rw_epoch current = rw_epoch row
     \<and> rw_hash current = rw_hash row \<and> rw_reservation_hash current = Some reservationHash"

definition repair_finalized ::
  "int \<Rightarrow> tx_row \<Rightarrow> string \<Rightarrow> jval \<Rightarrow> jval \<Rightarrow> string \<Rightarrow> coordinator \<Rightarrow> co_error + coordinator" where
  "repair_finalized now row reservationHash completed r recordHash st =
     (case loadTx (rw_tx row) st of None \<Rightarrow> Inl (Cas_lost Quarantined)
      | Some current \<Rightarrow> and_then (thrown (stateOf current)) (\<lambda>currentState.
          if \<not> unchanged row reservationHash current \<or> rw_finalize_request current \<noteq> rw_finalize_request row
          then Inl (Cas_lost currentState)
          else let nextState = (if currentState \<in> set authorized_states then currentState else Manifest_registered)
               in and_then (thrown (violation (assertTransactionTransition currentState nextState))) (\<lambda>_.
                 let st1 = update_tx (rw_tx row) (\<lambda>c. (register_decision completed r recordHash c)
                       \<lparr>rw_status := nextState, rw_decision := Commit_decision, rw_last_error := None,
                        rw_updated_at := now\<rparr>) st
                 in Inr (if nextState = Manifest_registered then queueRecovery (rw_tx row) Act_commit now 0 st1 else st1))))"

definition repair_cancelled :: "int \<Rightarrow> tx_row \<Rightarrow> string \<Rightarrow> coordinator \<Rightarrow> co_error + (tx_state \<times> coordinator)" where
  "repair_cancelled now row reservationHash st =
     (case loadTx (rw_tx row) st of None \<Rightarrow> Inl (Cas_lost Quarantined)
      | Some current \<Rightarrow> and_then (thrown (stateOf current)) (\<lambda>currentState.
          if \<not> unchanged row reservationHash current \<or> rw_cancel_request current \<noteq> rw_cancel_request row
          then Inl (Cas_lost currentState)
          else let nextState = (if currentState \<in> {Abort_decided, Aborting} then currentState else tx_state.Aborted)
               in and_then (thrown (violation (assertTransactionTransition currentState nextState))) (\<lambda>_.
                 let st1 = update_tx (rw_tx row) (\<lambda>c. c\<lparr>rw_status := nextState, rw_decision := Abort_decision,
                        rw_result := (if nextState = tx_state.Aborted then Some ''aborted'' else rw_result c),
                        rw_last_error := None, rw_updated_at := now\<rparr>) st
                 in Inr (nextState, if nextState = tx_state.Aborted then drop_recovery (rw_tx row) st1
                                    else queueRecovery (rw_tx row) Act_abort now 0 st1))))"

text \<open>A lost repair is an invalid transition; other errors escape.\<close>

definition repair_error :: "co_error \<Rightarrow> co_step" where
  "repair_error e = (case e of Cas_lost s \<Rightarrow> S_error TX_INVALID_TRANSITION | _ \<Rightarrow> S_done (Inl e))"

definition resolve_finalized ::
  "co_env \<Rightarrow> int \<Rightarrow> (jval \<times> string) option \<Rightarrow> tx_row \<Rightarrow> jval \<Rightarrow> string \<Rightarrow> coordinator \<Rightarrow> co_step \<times> coordinator" where
  "resolve_finalized env now record_hash row intent reservationHash st =
     (case record_hash of None \<Rightarrow> (S_error TX_DECISION_UNAVAILABLE, st)
      | Some (r, h) \<Rightarrow>
          proceed (thrown (and_then (validateManifestRecordV2 r) (\<lambda>_. hashManifestRecordV2 (ev_digest env) r))) st (\<lambda>actual.
            if actual \<noteq> h \<or> jget r ''tx_id'' \<noteq> JStr (rw_tx row) \<or> jget r ''reservation_hash'' \<noteq> JStr reservationHash
              \<or> jget r ''envelope_hash'' \<noteq> jget intent ''redo_envelope_hash''
            then (S_error MANIFEST_TERMINAL_CONFLICT, st)
            else case rw_envelope_intent row of None \<Rightarrow> (S_error TX_DECISION_UNAVAILABLE, st)
            | Some stored \<Rightarrow>
                (let completed = completed_envelope stored r
                 in proceed (thrown (violation (validateRedoEnvelope (ev_digest env) completed))) st (\<lambda>_.
                   case repair_finalized now row reservationHash completed r h st of
                     Inl e \<Rightarrow> (repair_error e, st)
                   | Inr st1 \<Rightarrow> proceed (load_or_fail (rw_tx row) st1) st1 (\<lambda>resolved. (S_commit resolved, st1))))))"

definition resolve_answer ::
  "co_env \<Rightarrow> int \<Rightarrow> resolution_reply option \<Rightarrow> tx_row \<Rightarrow> resolve_body \<Rightarrow> jval \<Rightarrow> jval \<Rightarrow> coordinator \<Rightarrow> co_step \<times> coordinator" where
  "resolve_answer env now result row body intent request st =
     (let reservationHash = str_of (jget request ''reservation_hash'')
      in case result of
        None \<Rightarrow> (S_error TX_MANIFEST_UNAVAILABLE, st)
      | Some (ResolutionRefused status http code) \<Rightarrow> (S_error code, st)
      | Some (Resolved fresh resolution attestationHash r) \<Rightarrow>
          if resolution = ''FINALIZED'' then resolve_finalized env now r row intent reservationHash st
          else (case repair_cancelled now row reservationHash st of
              Inl e \<Rightarrow> (repair_error e, st)
            | Inr (state, st1) \<Rightarrow>
                if state \<noteq> tx_state.Aborted
                then proceed (load_or_fail (rw_tx row) st1) st1
                       (\<lambda>repaired. (under (W_repaired attestationHash) (S_abort repaired None), st1))
                else (S_done (Inr (R_resolved attestationHash)), st1)))"

section \<open>The alarm\<close>

definition next_work :: "recovery_row list \<Rightarrow> recovery_row option" where
  "next_work q = (case sort_key rq_next q of [] \<Rightarrow> None | w # ws \<Rightarrow> Some w)"

text \<open>The alarm that fires is no longer scheduled.\<close>

definition co_alarm_start :: "coordinator \<Rightarrow> co_step \<times> coordinator" where
  "co_alarm_start st0 =
     (let st = st0\<lparr>co_alarm := None\<rparr>
      in if co_discard st \<noteq> None then (S_done (Inr R_done), st)
         else case next_work (co_queue st) of None \<Rightarrow> (S_done (Inr R_done), st)
         | Some work \<Rightarrow> (S_alarm work (loadTx (rq_tx work) st), st))"

definition co_alarm_answer ::
  "co_env \<Rightarrow> int \<Rightarrow> bool \<Rightarrow> recovery_row \<Rightarrow> tx_row option \<Rightarrow> coordinator \<Rightarrow> co_step \<times> coordinator" where
  "co_alarm_answer env now registered work row st =
     (let finished = S_done (Inr R_done)
      in if \<not> registered then (finished, st\<lparr>co_alarm := Some (now + DEFAULT_DURABLE_OBJECT_RETRY_AFTER_MS)\<rparr>)
         else case row of None \<Rightarrow> (finished, drop_recovery (rq_tx work) st)
         | Some row \<Rightarrow> (case tbl_get rq_tx (rq_tx work) (co_queue st) of
               None \<Rightarrow> (finished, st)
             | Some stillQueued \<Rightarrow>
                 if rq_action stillQueued \<noteq> rq_action work \<or> rq_next stillQueued \<noteq> rq_next work
                 then (finished, ensureAlarmScheduled (max now (rq_next stillQueued)) st)
                 else if rq_next stillQueued > now then (finished, ensureAlarmScheduled (rq_next stillQueued) st)
                 else (under (W_alarm (rq_tx work) (rq_action work))
                         (if rq_action work = Act_release then S_release row else resume env row st), st)))"

section \<open>Answers\<close>

datatype co_input =
    I_gate bool
  | I_assign assign_result
  | I_reserve "reserve_reply option"
  | I_votes "vote list"
  | I_acks "bool list"
  | I_cancel "cancel_reply option"
  | I_finalize "finalize_reply option"
  | I_release "release_reply option"
  | I_resolution "resolution_reply option"

fun gate_in where "gate_in (I_gate g) = Some g" | "gate_in _ = None"
fun assign_in where "assign_in (I_assign r) = Some r" | "assign_in _ = None"
fun reserve_in where "reserve_in (I_reserve r) = Some r" | "reserve_in _ = None"
fun votes_in where "votes_in (I_votes vs) = Some vs" | "votes_in _ = None"
fun acks_in where "acks_in (I_acks bs) = Some bs" | "acks_in _ = None"
fun cancel_in where "cancel_in (I_cancel r) = Some r" | "cancel_in _ = None"
fun finalize_in where "finalize_in (I_finalize r) = Some r" | "finalize_in _ = None"
fun release_in where "release_in (I_release r) = Some r" | "release_in _ = None"
fun resolution_in where "resolution_in (I_resolution r) = Some r" | "resolution_in _ = None"

text \<open>\<open>advance\<close> gives a waiting step its answer; an answer of another kind leaves it waiting.\<close>

definition given :: "'a option \<Rightarrow> co_step \<Rightarrow> coordinator \<Rightarrow> ('a \<Rightarrow> co_step \<times> coordinator) \<Rightarrow> co_step \<times> coordinator" where
  "given x s st k = (case x of None \<Rightarrow> (s, st) | Some a \<Rightarrow> k a)"

primrec advance :: "co_env \<Rightarrow> int \<Rightarrow> co_input \<Rightarrow> co_step \<Rightarrow> coordinator \<Rightarrow> co_step \<times> coordinator" where
  "advance env now i (S_done r) st = (S_done r, st)"
| "advance env now i (S_under w s) st = (case advance env now i s st of (s', st') \<Rightarrow> (under w s', st'))"
| "advance env now i (S_begin body existing) st =
     given (gate_in i) (S_begin body existing) st (\<lambda>g. begin_registered env now g body existing st)"
| "advance env now i (S_assign body h request t a) st =
     given (assign_in i) (S_assign body h request t a) st (\<lambda>r. assign_answer env now r body h request t a st)"
| "advance env now i (S_reserve row) st = given (gate_in i) (S_reserve row) st (\<lambda>g. reconcileReservation env g row st)"
| "advance env now i (S_reserve_sent row h) st =
     given (reserve_in i) (S_reserve_sent row h) st (\<lambda>r. reserve_answer env now r row h st)"
| "advance env now i (S_prepare row) st = given (votes_in i) (S_prepare row) st (\<lambda>vs. prepare_answer env now vs row st)"
| "advance env now i (S_decide_abort row known) st =
     given (gate_in i) (S_decide_abort row known) st (\<lambda>g. persistAbortDecision env now g row known st)"
| "advance env now i (S_abort row known) st =
     given (gate_in i) (S_abort row known) st (\<lambda>g. reconcileAbort env now g row known st)"
| "advance env now i (S_abort_sent row m legacy) st =
     given (acks_in i) (S_abort_sent row m legacy) st (\<lambda>acks. abort_answer env now acks row legacy st)"
| "advance env now i (S_cancel row) st = given (gate_in i) (S_cancel row) st (\<lambda>g. reconcileCancelOnce env g row st)"
| "advance env now i (S_cancel_reserve row request) st =
     given (reserve_in i) (S_cancel_reserve row request) st (\<lambda>r. cancel_reserve_answer env now r row request st)"
| "advance env now i (S_cancel_sent row request) st =
     given (cancel_in i) (S_cancel_sent row request) st (\<lambda>r. cancel_answer env now r row st)"
| "advance env now i (S_decide_commit row) st =
     given (gate_in i) (S_decide_commit row) st (\<lambda>g. persistCommitDeciding env now g row st)"
| "advance env now i (S_record_commit row intent request) st = record_commit env now row intent request st"
| "advance env now i (S_finalize row) st = given (gate_in i) (S_finalize row) st (\<lambda>g. reconcileFinalize env g row st)"
| "advance env now i (S_finalize_sent row s request) st =
     given (finalize_in i) (S_finalize_sent row s request) st (\<lambda>r. co_finalize_answer env now r row s request st)"
| "advance env now i (S_register row s completed r h) st = register_record env now row s completed r h st"
| "advance env now i (S_commit row) st = given (gate_in i) (S_commit row) st (\<lambda>g. reconcileCommitOnce env now g row st)"
| "advance env now i (S_commit_sent row) st =
     given (acks_in i) (S_commit_sent row) st (\<lambda>acks. commit_answer env now acks row st)"
| "advance env now i (S_release row) st =
     given (gate_in i) (S_release row) st (\<lambda>g. reconcileManifestReleaseOnce env g row st)"
| "advance env now i (S_release_sent row request) st =
     given (release_in i) (S_release_sent row request) st (\<lambda>r. release_answer env now r row st)"
| "advance env now i (S_resolve row body intent request) st =
     given (resolution_in i) (S_resolve row body intent request) st
       (\<lambda>r. resolve_answer env now r row body intent request st)"
| "advance env now i (S_alarm work row) st =
     given (gate_in i) (S_alarm work row) st (\<lambda>g. co_alarm_answer env now g work row st)"
| "advance env now i (S_retry tx action) st = wait_for now tx action None R_done st"
| "advance env now i (S_legacy row) st = (S_legacy row, st)"

text \<open>What the client of a route sees; \<open>None\<close> is the untyped internal error.\<close>

definition fetch_reply :: "co_error + co_reply \<Rightarrow> (int \<times> tx_code option) option" where
  "fetch_reply r = (case r of
       Inr reply \<Rightarrow> Some (http_status reply, case reply of R_error c \<Rightarrow> Some c | R_busy c f \<Rightarrow> Some c | _ \<Rightarrow> None)
     | Inl (Thrown (Violation c)) \<Rightarrow> Some (ERROR_HTTP_STATUS c, Some c)
     | Inl Gate_denied \<Rightarrow> Some (503, None)
     | Inl _ \<Rightarrow> None)"

end
