(* ===== verification/CoordInv.thy ===== *)
theory CoordInv
  imports CoordAlarm
begin

text \<open>
  The invariant of the coordinator: what a transaction row says is consistent, whatever procedure
  wrote it last; the rows that procedures carry across their awaits are earlier versions of the
  stored rows; and recovery work is queued for every transaction that needs it. The invariant is
  relative to two sets of pairs of a shard and a transaction: the votes and the commit
  acknowledgements that participants have given.
\<close>

section \<open>Consistent rows\<close>

type_synonym replies = "(string \<times> string) set"

definition everyone :: "tx_row \<Rightarrow> replies" where
  "everyone row = (\<lambda>p. (bg_shard p, rw_tx row)) ` set (rw_participants row)"

definition commit_side :: "tx_row \<Rightarrow> bool" where
  "commit_side row \<longleftrightarrow> rw_finalize_request row \<noteq> None"

definition abort_side :: "tx_row \<Rightarrow> bool" where
  "abort_side row \<longleftrightarrow> rw_cancel_request row \<noteq> None \<or> rw_status row = tx_state.Aborted"

fun side_ok :: "tx_state \<Rightarrow> bool \<Rightarrow> bool \<Rightarrow> bool \<Rightarrow> bool" where
  "side_ok Tx_new f c r = False"
| "side_ok Commit_decided f c r = False"
| "side_ok Manifest_reserving f c r = (\<not> f \<and> \<not> c)"
| "side_ok Preparing f c r = (\<not> f \<and> \<not> c)"
| "side_ok tx_state.Prepared f c r = (\<not> f \<and> \<not> c)"
| "side_ok Abort_decided f c r = (\<not> f \<and> c)"
| "side_ok Aborting f c r = (\<not> f \<and> c)"
| "side_ok Aborted_pending_manifest_cancel f c r = (\<not> f \<and> c)"
| "side_ok tx_state.Aborted f c r = (\<not> f)"
| "side_ok Commit_deciding f c r = (f \<and> \<not> c)"
| "side_ok Commit_pending_manifest f c r = (f \<and> \<not> c)"
| "side_ok Manifest_registered f c r = (f \<and> \<not> c \<and> r)"
| "side_ok Committing f c r = (f \<and> \<not> c \<and> r)"
| "side_ok Committed_pending_ack f c r = (f \<and> \<not> c \<and> r)"
| "side_ok tx_state.Committed f c r = (f \<and> \<not> c \<and> r)"
| "side_ok Quarantined f c r = (f \<noteq> c)"

definition row_inv :: "co_env \<Rightarrow> replies \<Rightarrow> replies \<Rightarrow> tx_row \<Rightarrow> bool" where
  "row_inv env V A row \<longleftrightarrow>
     rw_model row = 2 \<and> rw_protocol row = 1 \<and> rw_epoch row = 1
     \<and> hashParticipantOperations (ev_digest env) (redoParticipants env (rw_participants row) 1) = Inr (rw_hash row)
     \<and> side_ok (rw_status row) (rw_finalize_request row \<noteq> None) (rw_cancel_request row \<noteq> None) (rw_record row \<noteq> None)
     \<and> rw_decision row = decisionForState (rw_status row)
     \<and> (rw_status row = tx_state.Prepared \<or> commit_side row \<longrightarrow> everyone row \<subseteq> V)
     \<and> (rw_status row = tx_state.Committed \<longrightarrow> everyone row \<subseteq> A)"

text \<open>One version of a row and a later one.\<close>

definition later :: "tx_row \<Rightarrow> tx_row \<Rightarrow> bool" where
  "later row row' \<longleftrightarrow>
     rw_tx row' = rw_tx row \<and> rw_participants row' = rw_participants row \<and> rw_hash row' = rw_hash row
     \<and> (rw_finalize_request row \<noteq> None \<longrightarrow> rw_finalize_request row' = rw_finalize_request row)
     \<and> (rw_cancel_request row \<noteq> None \<longrightarrow> rw_cancel_request row' = rw_cancel_request row)
     \<and> (rw_record row \<noteq> None \<longrightarrow> rw_record row' \<noteq> None)
     \<and> (rw_status row = tx_state.Aborted \<longrightarrow> rw_status row' = tx_state.Aborted)
     \<and> (rw_status row = tx_state.Committed \<longrightarrow> rw_status row' = tx_state.Committed)"

lemma later_refl [simp]: "later row row"
  by (simp add: later_def)

lemma later_trans: "later a b \<Longrightarrow> later b c \<Longrightarrow> later a c"
  by (auto simp: later_def)

lemma row_inv_mono: "row_inv env V A row \<Longrightarrow> V \<subseteq> V' \<Longrightarrow> A \<subseteq> A' \<Longrightarrow> row_inv env V' A' row"
  by (auto simp: row_inv_def)

lemma row_state: "row_inv env V A row \<Longrightarrow> stateOf row = Inr (rw_status row)"
proof -
  assume i: "row_inv env V A row"
  have p: "assertReadableProtocolVersion (jint 1) = Inr ()"
    and m: "assertReadableTransactionStateModelVersion (jint 2) = Inr ()" by code_simp+
  show ?thesis using i by (simp add: stateOf_def row_inv_def p m)
qed

lemma row_current: "row_inv env V A row \<Longrightarrow> coordinatorIdentity env row = Inr Current"
  by (simp add: coordinatorIdentity_def row_inv_def)

lemma row_v2: "row_inv env V A row \<Longrightarrow> isV2 row"
  by (simp add: isV2_def row_inv_def)

text \<open>Both sides are never taken.\<close>

lemma row_exclusive: "row_inv env V A row \<Longrightarrow> \<not> (commit_side row \<and> abort_side row)"
  by (cases "rw_status row") (auto simp: row_inv_def commit_side_def abort_side_def)

section \<open>The invariant\<close>

definition queued :: "string \<Rightarrow> coordinator \<Rightarrow> bool" where
  "queued tx st \<longleftrightarrow> tbl_get rq_tx tx (co_queue st) \<noteq> None"

definition needs_work :: "tx_row \<Rightarrow> bool" where
  "needs_work row \<longleftrightarrow> rw_status row \<in> {Manifest_reserving, Abort_decided, Aborting, Aborted_pending_manifest_cancel,
     Commit_deciding, Commit_pending_manifest, Manifest_registered, Committing, Committed_pending_ack}"

definition parked_cancel :: "tx_row \<Rightarrow> bool" where
  "parked_cancel row \<longleftrightarrow> rw_status row = Aborted_pending_manifest_cancel \<and> rw_last_error row \<noteq> None"

definition co_inv :: "co_env \<Rightarrow> replies \<Rightarrow> replies \<Rightarrow> coordinator \<Rightarrow> bool" where
  "co_inv env V A st \<longleftrightarrow> co_discard st = None
     \<and> (\<forall>tx row. loadTx tx st = Some row \<longrightarrow>
          row_inv env V A row \<and> (needs_work row \<longrightarrow> queued tx st \<or> parked_cancel row))
     \<and> (\<forall>tx. queued tx st \<longrightarrow> loadTx tx st \<noteq> None)"

definition co_advances :: "coordinator \<Rightarrow> coordinator \<Rightarrow> bool" where
  "co_advances st st' \<longleftrightarrow> (\<forall>tx row. loadTx tx st = Some row \<longrightarrow> (\<exists>row'. loadTx tx st' = Some row' \<and> later row row'))"

lemma co_advances_refl [simp]: "co_advances st st"
  by (simp add: co_advances_def)

lemma co_advances_trans: "co_advances a b \<Longrightarrow> co_advances b c \<Longrightarrow> co_advances a c"
  unfolding co_advances_def by (meson later_trans)

text \<open>A row a procedure carries: consistent, and an earlier version of the stored one.\<close>

definition known :: "co_env \<Rightarrow> replies \<Rightarrow> replies \<Rightarrow> coordinator \<Rightarrow> tx_row \<Rightarrow> bool" where
  "known env V A st row \<longleftrightarrow> row_inv env V A row \<and> (\<exists>cur. loadTx (rw_tx row) st = Some cur \<and> later row cur)"

lemma loadTx_key: "loadTx tx st = Some row \<Longrightarrow> rw_tx row = tx"
  unfolding loadTx_def by (rule tbl_get_key)

lemma known_loaded: "co_inv env V A st \<Longrightarrow> loadTx tx st = Some row \<Longrightarrow> known env V A st row"
  using loadTx_key [of tx st row] by (auto simp: known_def co_inv_def)

lemma known_mono:
  assumes "known env V A st row" "co_advances st st'" "V \<subseteq> V'" "A \<subseteq> A'"
  shows "known env V' A' st' row"
proof -
  obtain cur where c: "row_inv env V A row" "loadTx (rw_tx row) st = Some cur" "later row cur"
    using assms(1) by (auto simp: known_def)
  then obtain cur' where "loadTx (rw_tx row) st' = Some cur'" "later cur cur'" using assms(2) by (auto simp: co_advances_def)
  then show ?thesis using c row_inv_mono [OF c(1) assms(3,4)] later_trans by (auto simp: known_def)
qed

fun wrap_ok :: "coordinator \<Rightarrow> wrap \<Rightarrow> bool" where
  "wrap_ok st (W_alarm tx action) = (loadTx tx st \<noteq> None)"
| "wrap_ok st w = True"

text \<open>What a waiting procedure may rely on; the predecessor's procedures never run.\<close>

primrec step_ok :: "co_env \<Rightarrow> replies \<Rightarrow> replies \<Rightarrow> coordinator \<Rightarrow> co_step \<Rightarrow> bool" where
  "step_ok env V A st (S_done r) = True"
| "step_ok env V A st (S_under w s) = (wrap_ok st w \<and> step_ok env V A st s)"
| "step_ok env V A st (S_begin body existing) = (case existing of None \<Rightarrow> True | Some row \<Rightarrow> known env V A st row)"
| "step_ok env V A st (S_assign body h request t a) =
     (hashParticipantOperations (ev_digest env) (redoParticipants env (bq_participants body) 1) = Inr h)"
| "step_ok env V A st (S_reserve row) = known env V A st row"
| "step_ok env V A st (S_reserve_sent row h) = known env V A st row"
| "step_ok env V A st (S_prepare row) = known env V A st row"
| "step_ok env V A st (S_decide_abort row k) = (known env V A st row \<and> k \<noteq> Some True)"
| "step_ok env V A st (S_abort row k) = (known env V A st row \<and> k \<noteq> Some True)"
| "step_ok env V A st (S_abort_sent row m legacy) = (known env V A st row \<and> rw_cancel_request row \<noteq> None \<and> m = row \<and> \<not> legacy)"
| "step_ok env V A st (S_cancel row) = known env V A st row"
| "step_ok env V A st (S_cancel_reserve row request) = known env V A st row"
| "step_ok env V A st (S_cancel_sent row request) = known env V A st row"
| "step_ok env V A st (S_decide_commit row) = known env V A st row"
| "step_ok env V A st (S_record_commit row intent request) = known env V A st row"
| "step_ok env V A st (S_finalize row) = known env V A st row"
| "step_ok env V A st (S_finalize_sent row s request) = (known env V A st row \<and> s \<in> set deciding_states)"
| "step_ok env V A st (S_register row s completed r h) = (known env V A st row \<and> s \<in> set deciding_states)"
| "step_ok env V A st (S_commit row) = known env V A st row"
| "step_ok env V A st (S_commit_sent row) = (known env V A st row \<and> commit_side row \<and> rw_record row \<noteq> None)"
| "step_ok env V A st (S_release row) = known env V A st row"
| "step_ok env V A st (S_release_sent row request) = (known env V A st row \<and> rw_status row = tx_state.Committed)"
| "step_ok env V A st (S_resolve row body intent request) = (known env V A st row
     \<and> (if rb_finalized body then rw_finalize_request row else rw_cancel_request row) \<noteq> None)"
| "step_ok env V A st (S_alarm work row) = (case row of None \<Rightarrow> False | Some r \<Rightarrow> known env V A st r)"
| "step_ok env V A st (S_retry tx action) = (loadTx tx st \<noteq> None)"
| "step_ok env V A st (S_legacy row) = False"

lemma co_advances_load: "co_advances st st' \<Longrightarrow> loadTx tx st \<noteq> None \<Longrightarrow> loadTx tx st' \<noteq> None"
  by (auto simp: co_advances_def)

lemma wrap_mono: "wrap_ok st w \<Longrightarrow> co_advances st st' \<Longrightarrow> wrap_ok st' w"
  by (cases w) (auto dest: co_advances_load)

lemma step_mono:
  assumes "co_advances st st'" "V \<subseteq> V'" "A \<subseteq> A'"
  shows "step_ok env V A st s \<Longrightarrow> step_ok env V' A' st' s"
proof (induction s)
  case (S_under w s)
  then show ?case using wrap_mono [OF _ assms(1)] by simp
next
  case (S_retry tx action)
  then show ?case using co_advances_load [OF assms(1)] by simp
qed (auto intro: known_mono [OF _ assms] split: option.splits)

section \<open>What writes do to the rows\<close>

lemma tbl_get_map:
  assumes "\<And>r. key (f r) = key r"
  shows "tbl_get key k (map f t) = map_option f (tbl_get key k t)"
  using assms by (induction t) (auto simp: tbl_get_def)

lemma load_update [simp]:
  assumes "\<And>r. rw_tx (f r) = rw_tx r"
  shows "loadTx x (update_tx tx f st) = (if x = tx then map_option f (loadTx x st) else loadTx x st)"
proof -
  have "loadTx x (update_tx tx f st) = map_option (\<lambda>r. if rw_tx r = tx then f r else r) (loadTx x st)"
    unfolding loadTx_def update_tx_def by (simp add: tbl_get_map assms)
  also have "\<dots> = (if x = tx then map_option f (loadTx x st) else loadTx x st)"
    using loadTx_key [of x st] by (cases "loadTx x st") auto
  finally show ?thesis .
qed

lemma update_frame [simp]:
  "queued x (update_tx tx f st) = queued x st" "co_discard (update_tx tx f st) = co_discard st"
  "co_parts (update_tx tx f st) = co_parts st" "co_queue (update_tx tx f st) = co_queue st"
  by (simp_all add: update_tx_def queued_def)

lemma queue_frame [simp]:
  "loadTx x (queueRecovery tx a t n st) = loadTx x st" "co_discard (queueRecovery tx a t n st) = co_discard st"
  "queued x (queueRecovery tx a t n st) = (x = tx \<or> queued x st)"
  by (auto simp: loadTx_def queueRecovery_def queued_def tbl_get_put)

lemma drop_frame [simp]:
  "loadTx x (drop_recovery tx st) = loadTx x st" "co_discard (drop_recovery tx st) = co_discard st"
  "queued x (drop_recovery tx st) = (x \<noteq> tx \<and> queued x st)"
  by (simp_all add: loadTx_def drop_recovery_def queued_def tbl_get_del)

lemma co_alarm_frame [simp]:
  "loadTx x (ensureAlarmScheduled t st) = loadTx x st" "co_discard (ensureAlarmScheduled t st) = co_discard st"
  "queued x (ensureAlarmScheduled t st) = queued x st"
  by (simp_all add: loadTx_def ensureAlarmScheduled_def queued_def split: option.splits)

lemma field_frame [simp]:
  "loadTx x (st\<lparr>co_alarm := al\<rparr>) = loadTx x st" "queued x (st\<lparr>co_alarm := al\<rparr>) = queued x st"
  "loadTx x (st\<lparr>co_circuit := ci\<rparr>) = loadTx x st" "queued x (st\<lparr>co_circuit := ci\<rparr>) = queued x st"
  "loadTx x (st\<lparr>co_parts := ps\<rparr>) = loadTx x st" "queued x (st\<lparr>co_parts := ps\<rparr>) = queued x st"
  by (simp_all add: loadTx_def queued_def)

text \<open>A state with the same rows and queue keys, and one in which a single row moved on.\<close>

lemma frame_inv:
  assumes "co_inv env V A st" "\<And>x. loadTx x st' = loadTx x st" "\<And>x. queued x st' = queued x st"
    "co_discard st' = co_discard st"
  shows "co_inv env V A st' \<and> co_advances st st'"
  using assms by (simp add: co_inv_def co_advances_def)

lemma change_inv:
  assumes "co_inv env V A st" "loadTx tx st = Some cur" "row_inv env V A row'" "later cur row'"
    "\<And>x. loadTx x st' = (if x = tx then Some row' else loadTx x st)"
    "\<And>x. x \<noteq> tx \<Longrightarrow> queued x st' = queued x st" "needs_work row' \<Longrightarrow> queued tx st' \<or> parked_cancel row'"
    "co_discard st' = co_discard st"
  shows "co_inv env V A st' \<and> co_advances st st'"
  using assms by (auto simp: co_inv_def co_advances_def)

lemma inv_row: "co_inv env V A st \<Longrightarrow> loadTx tx st = Some row \<Longrightarrow> row_inv env V A row"
  by (simp add: co_inv_def)

lemma inv_work: "co_inv env V A st \<Longrightarrow> loadTx tx st = Some row \<Longrightarrow> needs_work row \<Longrightarrow> queued tx st \<or> parked_cancel row"
  by (simp add: co_inv_def)

section \<open>Stretches that keep the invariant\<close>

definition co_keeps :: "co_env \<Rightarrow> replies \<Rightarrow> replies \<Rightarrow> coordinator \<Rightarrow> co_step \<times> coordinator \<Rightarrow> bool" where
  "co_keeps env V A st r \<longleftrightarrow> co_inv env V A (snd r) \<and> co_advances st (snd r) \<and> step_ok env V A (snd r) (fst r)"

lemma co_keeps_here: "co_inv env V A st \<Longrightarrow> step_ok env V A st s \<Longrightarrow> co_keeps env V A st (s, st)"
  by (simp add: co_keeps_def)

lemma co_keeps_from: "co_advances st0 st \<Longrightarrow> co_keeps env V A st r \<Longrightarrow> co_keeps env V A st0 r"
  unfolding co_keeps_def by (blast intro: co_advances_trans)

lemma co_keeps_proceed:
  assumes "co_inv env V A st" "\<And>a. r = Inr a \<Longrightarrow> co_keeps env V A st (f a)"
  shows "co_keeps env V A st (proceed r st f)"
  using assms by (cases r) (simp_all add: proceed_def co_keeps_def)

lemma co_keeps_gated: "co_inv env V A st \<Longrightarrow> (gate \<Longrightarrow> co_keeps env V A st k) \<Longrightarrow> co_keeps env V A st (gated gate st k)"
  by (simp add: gated_def co_keeps_def)

lemma co_keeps_load:
  assumes "co_inv env V A st" "\<And>row. loadTx tx st = Some row \<Longrightarrow> known env V A st row \<Longrightarrow> co_keeps env V A st (f row)"
  shows "co_keeps env V A st (proceed (load_or_fail tx st) st f)"
  using assms by (auto intro!: co_keeps_proceed simp: load_or_fail_def known_loaded split: option.splits)

lemma co_keeps_cas:
  assumes "co_inv env V A st" "\<And>st1. r = Inr st1 \<Longrightarrow> co_keeps env V A st (onwards st1)"
    "\<And>row. known env V A st row \<Longrightarrow> step_ok env V A st (lost row)"
  shows "co_keeps env V A st (cas r tx st lost onwards)"
proof (cases r)
  case (Inl e)
  then show ?thesis
    using assms(1,3) by (cases e) (auto simp: cas_def intro!: co_keeps_here co_keeps_load)
qed (simp add: cas_def assms(2))

lemma co_keeps_still:
  assumes "co_inv env V A st" "\<And>row. known env V A st row \<Longrightarrow> step_ok env V A st (other row st)"
    "\<And>row. loadTx tx st = Some row \<Longrightarrow> known env V A st row \<Longrightarrow> rw_status row \<in> set states \<Longrightarrow> co_keeps env V A st (k row)"
  shows "co_keeps env V A st (still env other tx states st k)"
  unfolding still_def
proof (rule co_keeps_load [OF assms(1)])
  fix row assume l: "loadTx tx st = Some row" "known env V A st row"
  show "co_keeps env V A st (proceed (thrown (stateOf row)) st (\<lambda>state. if state \<in> set states then k row else (other row st, st)))"
    using l assms by (intro co_keeps_proceed) (auto simp: row_state [OF inv_row [OF assms(1)]] intro!: co_keeps_here)
qed

text \<open>A transition finds the row in an expected state from which the table allows the step.\<close>

lemma transition_row:
  assumes "co_inv env V A st" "transition now tx expected next extra st = Inr st'"
  obtains cur where "loadTx tx st = Some cur" "row_inv env V A cur" "rw_status cur \<in> set expected"
    "st' = extra (update_tx tx (\<lambda>r. r\<lparr>rw_status := next, rw_updated_at := now\<rparr>) st)"
  using assms by (auto simp: transition_def and_then_ok row_state [OF inv_row [OF assms(1)]] inv_row
      split: option.splits if_splits)

lemma reschedule_keeps:
  assumes "co_inv env V A st" "reschedule now tx action onlyWhile st = Inr (b, st')"
    "onlyWhile = None \<Longrightarrow> loadTx tx st \<noteq> None"
  shows "co_inv env V A st' \<and> co_advances st st'"
proof (cases "b")
  case True
  then have l: "loadTx tx st \<noteq> None" and s: "loadTx x st' = loadTx x st" "queued x st' = (x = tx \<or> queued x st)"
    "co_discard st' = co_discard st" for x
    using assms(2,3) by (auto simp: reschedule_def and_then_ok Let_def split: option.splits if_splits)
  then show ?thesis using assms(1) by (auto simp: co_inv_def co_advances_def)
next
  case False
  then have "st' = st" using assms(2) by (auto simp: reschedule_def and_then_ok Let_def split: option.splits if_splits)
  then show ?thesis using assms(1) by simp
qed

lemma co_keeps_wait:
  assumes "co_inv env V A st" "onlyWhile = None \<Longrightarrow> loadTx tx st \<noteq> None"
  shows "co_keeps env V A st (wait_for now tx action onlyWhile reply st)"
proof (cases "reschedule now tx action onlyWhile st")
  case (Inl e)
  then show ?thesis using assms(1) by (simp add: wait_for_def co_keeps_def)
next
  case (Inr p)
  then show ?thesis
    using reschedule_keeps [OF assms(1) _ assms(2), where st' = "snd p" and b = "fst p"]
    by (cases p) (auto simp: wait_for_def co_keeps_def)
qed

lemma resume_ok: "co_inv env V A st \<Longrightarrow> known env V A st row \<Longrightarrow> step_ok env V A st (resume env row st)"
  using row_state [of env V A row] row_current [of env V A row] row_v2 [of env V A row]
  by (cases "rw_status row") (auto simp: resume_def known_def row_inv_def)

lemma resumeRecovery_ok: "co_inv env V A st \<Longrightarrow> known env V A st row \<Longrightarrow> step_ok env V A st (resumeRecoveryOnce env row st)"
  using row_state [of env V A row] resume_ok [of env V A st row] by (auto simp: resumeRecoveryOnce_def known_def)

lemma step_finish: "wrap_ok st w \<Longrightarrow> step_ok env V A st (finish w r)"
  by (cases "(w, r)" rule: finish.cases) simp_all

lemma step_under: "wrap_ok st w \<Longrightarrow> step_ok env V A st s \<Longrightarrow> step_ok env V A st (under w s)"
  by (cases "(w, s)" rule: under.cases) (simp_all add: step_finish)

end
