(* ===== verification/CoordKeeps.thy ===== *)
theory CoordKeeps
  imports CoordInv
begin

text \<open>
  Every stretch of every procedure of the coordinator keeps the invariant: first the transitions it
  makes, one lemma each, then the stretches themselves, put together by the rules of \<open>co_keeps\<close>.
\<close>

section \<open>Transitions\<close>

lemmas row_defs = row_inv_def later_def needs_work_def decision_defs commit_side_def everyone_def

text \<open>The row after a transition, and what is left to show of it.\<close>

lemma moved:
  assumes "co_inv env V A st" "transition now tx expected next (\<lambda>s. q (update_tx tx f s)) st = Inr st1"
    "\<And>r. rw_tx (f r) = rw_tx r"
    "\<And>x s. loadTx x (q s) = loadTx x s" "\<And>s. co_discard (q s) = co_discard s" "\<And>x s. x \<noteq> tx \<Longrightarrow> queued x (q s) = queued x s"
    "\<And>cur. row_inv env V A cur \<Longrightarrow> rw_status cur \<in> set expected \<Longrightarrow>
      row_inv env V A (f (cur\<lparr>rw_status := next, rw_updated_at := now\<rparr>))
      \<and> later cur (f (cur\<lparr>rw_status := next, rw_updated_at := now\<rparr>))"
    "\<And>cur s. loadTx tx st = Some cur \<Longrightarrow> rw_status cur \<in> set expected \<Longrightarrow> (\<And>x. queued x s = queued x st) \<Longrightarrow>
       needs_work (f (cur\<lparr>rw_status := next, rw_updated_at := now\<rparr>)) \<Longrightarrow>
       queued tx (q s) \<or> parked_cancel (f (cur\<lparr>rw_status := next, rw_updated_at := now\<rparr>))"
  shows "co_inv env V A st1 \<and> co_advances st st1"
proof -
  obtain cur where c: "loadTx tx st = Some cur" "row_inv env V A cur" "rw_status cur \<in> set expected"
    and s: "st1 = q (update_tx tx f (update_tx tx (\<lambda>r. r\<lparr>rw_status := next, rw_updated_at := now\<rparr>) st))"
    by (rule transition_row [OF assms(1,2)])
  let ?row = "f (cur\<lparr>rw_status := next, rw_updated_at := now\<rparr>)"
  show ?thesis
  proof (rule change_inv [OF assms(1) c(1), where row' = ?row])
    show "row_inv env V A ?row" "later cur ?row" using assms(7) [OF c(2,3)] by simp_all
    show "loadTx x st1 = (if x = tx then Some ?row else loadTx x st)" for x
      by (simp add: s assms(3,4) c(1))
    show "queued x st1 = queued x st" if "x \<noteq> tx" for x using that by (simp add: s assms(6))
    show "queued tx st1 \<or> parked_cancel ?row" if "needs_work ?row"
      unfolding s by (rule assms(8) [OF c(1,3) _ that]) simp
    show "co_discard st1 = co_discard st" by (simp add: s assms(5))
  qed
qed

lemma update_id: "update_tx tx (\<lambda>r. r) s = s"
  by (simp add: update_tx_def)

lemma moved_plain:
  assumes "co_inv env V A st" "transition now tx expected next q st = Inr st1"
    "\<And>x s. loadTx x (q s) = loadTx x s" "\<And>s. co_discard (q s) = co_discard s" "\<And>x s. x \<noteq> tx \<Longrightarrow> queued x (q s) = queued x s"
    "\<And>cur. row_inv env V A cur \<Longrightarrow> rw_status cur \<in> set expected \<Longrightarrow>
      row_inv env V A (cur\<lparr>rw_status := next, rw_updated_at := now\<rparr>) \<and> later cur (cur\<lparr>rw_status := next, rw_updated_at := now\<rparr>)"
    "\<And>cur s. loadTx tx st = Some cur \<Longrightarrow> rw_status cur \<in> set expected \<Longrightarrow> (\<And>x. queued x s = queued x st) \<Longrightarrow>
       needs_work (cur\<lparr>rw_status := next, rw_updated_at := now\<rparr>) \<Longrightarrow>
       queued tx (q s) \<or> parked_cancel (cur\<lparr>rw_status := next, rw_updated_at := now\<rparr>)"
  shows "co_inv env V A st1 \<and> co_advances st st1"
proof (rule moved [where f = "\<lambda>r. r" and q = q, OF assms(1)])
  show "transition now tx expected next (\<lambda>s. q (update_tx tx (\<lambda>r. r) s)) st = Inr st1"
    using assms(2) by (simp add: update_id)
  show "queued tx (q s) \<or> parked_cancel (cur\<lparr>rw_status := next, rw_updated_at := now\<rparr>)"
    if "loadTx tx st = Some cur" "rw_status cur \<in> set expected" "\<And>x. queued x s = queued x st"
      "needs_work (cur\<lparr>rw_status := next, rw_updated_at := now\<rparr>)" for cur s
    using that by (rule assms(7))
qed (simp_all add: assms(3-6))

text \<open>Work that is not a parked cancellation is queued.\<close>

lemma work_queued:
  assumes "co_inv env V A st" "loadTx tx st = Some cur" "needs_work cur" "rw_status cur \<noteq> Aborted_pending_manifest_cancel"
  shows "queued tx st"
  using inv_work [OF assms(1-3)] assms(4) by (simp add: parked_cancel_def)

lemma to_preparing:
  assumes "co_inv env V A st" "transition now tx [Manifest_reserving] Preparing (drop_recovery tx) st = Inr st1"
  shows "co_inv env V A st1 \<and> co_advances st st1"
  by (rule moved_plain [OF assms]) (auto simp: row_defs)

lemma to_rejected:
  assumes "co_inv env V A st" "transition now tx [Manifest_reserving] tx_state.Aborted
      (\<lambda>s. drop_recovery tx (update_tx tx (\<lambda>r. r\<lparr>rw_decision := Abort_decision, rw_last_error := Some code,
         rw_result := Some ''aborted''\<rparr>) s)) st = Inr st1"
  shows "co_inv env V A st1 \<and> co_advances st st1"
  by (rule moved [OF assms]) (auto simp: row_defs)

lemma to_abort_decided:
  assumes "co_inv env V A st" "c \<noteq> None"
    "transition now tx [Manifest_reserving, Preparing, tx_state.Prepared] Abort_decided
      (\<lambda>s. queueRecovery tx a t n (update_tx tx (\<lambda>r. r\<lparr>rw_decision := Abort_decision,
         rw_cancel_request := (case c of None \<Rightarrow> rw_cancel_request r | Some c \<Rightarrow> Some c)\<rparr>) s)) st = Inr st1"
  shows "co_inv env V A st1 \<and> co_advances st st1"
  by (rule moved [OF assms(1,3)]) (use assms(2) in \<open>auto simp: row_defs\<close>)

lemma to_aborting:
  assumes "co_inv env V A st" "transition now tx [Abort_decided] Aborting id st = Inr st1"
  shows "co_inv env V A st1 \<and> co_advances st st1"
  by (rule moved_plain [OF assms]) (auto simp: row_defs intro: work_queued [OF assms(1)])

lemma to_pending_cancel:
  assumes "co_inv env V A st" "transition now tx [Aborting] Aborted_pending_manifest_cancel (queueRecovery tx a t n) st = Inr st1"
  shows "co_inv env V A st1 \<and> co_advances st st1"
  by (rule moved_plain [OF assms]) (auto simp: row_defs)

lemma to_aborted:
  assumes "co_inv env V A st" "transition now tx pending_cancel tx_state.Aborted
      (\<lambda>s. update_tx tx (\<lambda>r. r\<lparr>rw_result := Some ''aborted''\<rparr>) (drop_recovery tx s)) st = Inr st1"
  shows "co_inv env V A st1 \<and> co_advances st st1"
proof -
  have e: "update_tx tx f (drop_recovery tx s) = drop_recovery tx (update_tx tx f s)" for f s
    by (simp add: update_tx_def drop_recovery_def)
  show ?thesis by (rule moved [OF assms(1) assms(2) [unfolded e]]) (auto simp: row_defs)
qed

lemma to_quarantined:
  assumes "co_inv env V A st" "state \<in> {Aborted_pending_manifest_cancel, Commit_deciding, Commit_pending_manifest}"
    "transition now tx [state] Quarantined (\<lambda>s. drop_recovery tx (update_tx tx
       (\<lambda>r. r\<lparr>rw_decision := Quarantined_decision, rw_last_error := Some code\<rparr>) s)) st = Inr st1"
  shows "co_inv env V A st1 \<and> co_advances st st1"
  by (rule moved [OF assms(1,3)]) (use assms(2) in \<open>auto simp: row_defs\<close>)

lemma to_commit_deciding:
  assumes "co_inv env V A st" "transition now tx [tx_state.Prepared] Commit_deciding
      (\<lambda>s. queueRecovery tx a t n (update_tx tx (\<lambda>r. r\<lparr>rw_decision := Commit_decision,
         rw_envelope_intent := Some intent, rw_finalize_request := Some request\<rparr>) s)) st = Inr st1"
  shows "co_inv env V A st1 \<and> co_advances st st1"
  by (rule moved [OF assms]) (auto simp: row_defs)

lemma to_pending_manifest:
  assumes "co_inv env V A st" "transition now tx [Commit_deciding] Commit_pending_manifest id st = Inr st1"
  shows "co_inv env V A st1 \<and> co_advances st st1"
  by (rule moved_plain [OF assms]) (auto simp: row_defs intro: work_queued [OF assms(1)])

lemma to_registered:
  assumes "co_inv env V A st" "state \<in> set deciding_states"
    "transition now tx [state] Manifest_registered
      (\<lambda>s. queueRecovery tx a t n (update_tx tx (register_decision completed r h) s)) st = Inr st1"
  shows "co_inv env V A st1 \<and> co_advances st st1"
  by (rule moved [OF assms(1,3)])
     (use assms(2) in \<open>auto simp: row_defs register_decision_def deciding_states_def\<close>)

lemma to_committing:
  assumes "co_inv env V A st" "transition now tx [Manifest_registered] Committing id st = Inr st1"
  shows "co_inv env V A st1 \<and> co_advances st st1"
  by (rule moved_plain [OF assms]) (auto simp: row_defs intro: work_queued [OF assms(1)])

text \<open>What a transition leaves in the table.\<close>

lemma transition_result:
  assumes "co_inv env V A st" "transition now tx expected next (\<lambda>s. q (update_tx tx f s)) st = Inr st1"
    "\<And>r. rw_tx (f r) = rw_tx r" "\<And>x s. loadTx x (q s) = loadTx x s"
  obtains cur where "loadTx tx st = Some cur" "row_inv env V A cur" "rw_status cur \<in> set expected"
    "loadTx tx st1 = Some (f (cur\<lparr>rw_status := next, rw_updated_at := now\<rparr>))"
  by (rule transition_row [OF assms(1,2)]) (simp add: assms(3,4) that)

end
