(* ===== verification/CoordKeeps2.thy ===== *)
theory CoordKeeps2
  imports CoordKeeps
begin

section \<open>Stretches\<close>

lemma known_inv: "known env V A st row \<Longrightarrow> row_inv env V A row"
  by (simp add: known_def)

lemma known_state: "known env V A st row \<Longrightarrow> stateOf row = Inr (rw_status row)"
  by (rule row_state [OF known_inv])

lemma known_load: "known env V A st row \<Longrightarrow> loadTx (rw_tx row) st \<noteq> None"
  by (auto simp: known_def)

lemma co_keeps_next: "co_inv env V A st1 \<and> co_advances st st1 \<Longrightarrow> co_keeps env V A st1 r \<Longrightarrow> co_keeps env V A st r"
  using co_keeps_from by blast

lemma co_keeps_state:
  assumes "co_inv env V A st" "known env V A st row" "co_keeps env V A st (f (rw_status row))"
  shows "co_keeps env V A st (proceed (thrown (stateOf row)) st f)"
  using assms by (intro co_keeps_proceed) (simp_all add: known_state)

lemma co_keeps_end: "co_inv env V A st \<Longrightarrow> co_keeps env V A st (S_done r, st)"
  by (simp add: co_keeps_here)

lemma co_keeps_loaded:
  assumes "co_inv env V A st" "loadTx tx st = Some row" "known env V A st row \<Longrightarrow> co_keeps env V A st (f row)"
  shows "co_keeps env V A st (proceed (load_or_fail tx st) st f)"
  using assms by (simp add: load_or_fail_def proceed_def known_loaded)

lemma reconcileReservation_keeps:
  assumes "co_inv env V A st" "known env V A st row"
  shows "co_keeps env V A st (reconcileReservation env gate row st)"
  unfolding reconcileReservation_def
  using assms by (auto intro!: co_keeps_gated co_keeps_state co_keeps_here co_keeps_proceed resume_ok split: prod.splits)

lemma reserve_answer_keeps:
  assumes inv: "co_inv env V A st" and "known env V A st row0"
  shows "co_keeps env V A st (reserve_answer env now result row0 h st)"
  unfolding reserve_answer_def Let_def
proof (rule co_keeps_still [OF inv])
  fix row assume k: "known env V A st row" and l: "loadTx (rw_tx row0) st = Some row" and s: "rw_status row \<in> set [Manifest_reserving]"
  let ?tx = "rw_tx row"
  have acked: "co_keeps env V A st (cas (transition now ?tx [Manifest_reserving] Preparing (drop_recovery ?tx) st) ?tx st
      (\<lambda>concurrent. resume env concurrent st)
      (\<lambda>st1. proceed (load_or_fail ?tx st1) st1 (\<lambda>preparing. (S_prepare preparing, st1))))"
  proof (rule co_keeps_cas [OF inv])
    fix st1 assume "transition now ?tx [Manifest_reserving] Preparing (drop_recovery ?tx) st = Inr st1"
    then have n: "co_inv env V A st1 \<and> co_advances st st1" by (rule to_preparing [OF inv])
    then show "co_keeps env V A st (proceed (load_or_fail ?tx st1) st1 (\<lambda>preparing. (S_prepare preparing, st1)))"
      by (intro co_keeps_next [OF n] co_keeps_load co_keeps_here) (simp_all)
  qed (rule resume_ok [OF inv])
  have gone: "co_keeps env V A st (proceed (transition now ?tx [Manifest_reserving] tx_state.Aborted
      (\<lambda>s. drop_recovery ?tx (update_tx ?tx (\<lambda>r. r\<lparr>rw_decision := Abort_decision, rw_last_error := Some code,
         rw_result := Some ''aborted''\<rparr>) s)) st) st (\<lambda>st1. (S_error TX_ABORTED, st1)))" for code
    by (rule co_keeps_proceed [OF inv]) (rule co_keeps_next [OF to_rejected [OF inv]], assumption, rule co_keeps_end,
        use to_rejected [OF inv] in blast)
  show "co_keeps env V A st (if reserve_unavailable result
      then wait_for now ?tx Act_reserve (Some [Manifest_reserving]) (R_accepted Manifest_reserving) st
      else if reserve_ok (the result) then
        (if reserved_hash (the result) \<noteq> h then (S_done (Inl (Thrown (Violation MANIFEST_RESERVATION_CONFLICT))), st)
         else cas (transition now ?tx [Manifest_reserving] Preparing (drop_recovery ?tx) st) ?tx st
           (\<lambda>concurrent. resume env concurrent st)
           (\<lambda>st1. proceed (load_or_fail ?tx st1) st1 (\<lambda>preparing. (S_prepare preparing, st1))))
      else (case rejected_absent result of
          None \<Rightarrow> (S_decide_abort row None, st)
        | Some code \<Rightarrow> proceed (transition now ?tx [Manifest_reserving] tx_state.Aborted
             (\<lambda>s. drop_recovery ?tx (update_tx ?tx (\<lambda>r. r\<lparr>rw_decision := Abort_decision, rw_last_error := Some code,
                rw_result := Some ''aborted''\<rparr>) s)) st) st (\<lambda>st1. (S_error TX_ABORTED, st1))))"
    using acked gone k inv by (auto intro!: co_keeps_wait co_keeps_here split: option.splits)
qed (rule resume_ok [OF inv])

lemma votes_frame [simp]:
  "loadTx x (fold (record_vote now tx) os st) = loadTx x st" "queued x (fold (record_vote now tx) os st) = queued x st"
  "co_discard (fold (record_vote now tx) os st) = co_discard st"
  by (induction os arbitrary: st) (simp_all add: record_vote_def)

lemma prepare_answer_keeps:
  assumes inv: "co_inv env V A st" and k: "known env V A st row"
    and votes: "list_all2 (\<lambda>p v. vt_ok v \<longrightarrow> (bg_shard p, rw_tx row) \<in> V) (rw_participants row) votes"
  shows "co_keeps env V A st (prepare_answer env now votes row st)"
proof -
  let ?os = "zip (map bg_shard (rw_participants row)) votes"
  show ?thesis
  proof (cases "find (\<lambda>sv. \<not> vote_ok env (snd sv)) ?os")
    case (Some failed)
    have "co_keeps env V A st (proceed (load_or_fail (rw_tx row) st) st (\<lambda>latest. proceed (thrown (stateOf latest)) st (\<lambda>latestState.
        if isCommitDecidedOrLater latestState then (resume env latest st, st)
        else (under (W_prepare_failed (fst failed)) (S_decide_abort latest None), st))))"
      using inv by (auto intro!: co_keeps_load co_keeps_state co_keeps_here resume_ok step_under)
    then show ?thesis by (simp add: prepare_answer_def Let_def Some)
  next
    case None
    have all: "vote_ok env v" if mem: "v \<in> set votes" for v
    proof -
      have "length (rw_participants row) = length votes" using votes by (rule list_all2_lengthD)
      moreover obtain i where "i < length votes" "votes ! i = v" using mem by (auto simp: in_set_conv_nth)
      ultimately have i: "i < length ?os" "snd (?os ! i) = v" by simp_all
      have "?os ! i \<in> set ?os" by (rule nth_mem [OF i(1)])
      then show ?thesis using None i(2) unfolding find_None_iff by blast
    qed
    have "(bg_shard p, rw_tx row) \<in> V" if p: "p \<in> set (rw_participants row)" for p
    proof -
      obtain i where i: "i < length (rw_participants row)" "rw_participants row ! i = p"
        using p unfolding in_set_conv_nth by blast
      have "votes ! i \<in> set votes" using i(1) list_all2_lengthD [OF votes] by simp
      then have "vt_ok (votes ! i)" using all unfolding vote_ok_def by blast
      then show ?thesis using list_all2_nthD [OF votes i(1)] i(2) by simp
    qed
    then have yes: "everyone row \<subseteq> V" by (auto simp: everyone_def)
    have inv1: "co_inv env V A st1 \<and> co_advances st st1"
      if t: "transition now (rw_tx row) [Preparing] tx_state.Prepared (\<lambda>s. fold (record_vote now (rw_tx row)) ?os s) st = Inr st1" for st1
    proof -
      obtain cur where c: "loadTx (rw_tx row) st = Some cur" "row_inv env V A cur" "rw_status cur \<in> set [Preparing]"
        and s: "st1 = fold (record_vote now (rw_tx row)) ?os
          (update_tx (rw_tx row) (\<lambda>r. r\<lparr>rw_status := tx_state.Prepared, rw_updated_at := now\<rparr>) st)"
        by (rule transition_row [OF inv t])
      have e: "everyone cur = everyone row" using k c(1) by (auto simp: known_def later_def everyone_def)
      show ?thesis
        by (rule change_inv [OF inv c(1), where row' = "cur\<lparr>rw_status := tx_state.Prepared, rw_updated_at := now\<rparr>"])
           (use c yes e in \<open>auto simp: row_defs s\<close>)
    qed
    show ?thesis
    proof (cases "transition now (rw_tx row) [Preparing] tx_state.Prepared (\<lambda>s. fold (record_vote now (rw_tx row)) ?os s) st")
      case (Inl e)
      then show ?thesis
        using inv by (cases e) (auto simp: prepare_answer_def Let_def None intro!: co_keeps_load co_keeps_here resume_ok)
    next
      case (Inr st1)
      have "co_keeps env V A st (proceed (load_or_fail (rw_tx row) st1) st1 (\<lambda>latest. (resume env latest st1, st1)))"
        using inv1 [OF Inr] by (intro co_keeps_next [OF inv1 [OF Inr]]) (auto intro!: co_keeps_load co_keeps_here resume_ok)
      then show ?thesis by (simp add: prepare_answer_def Let_def None Inr)
    qed
  qed
qed

section \<open>The abort side\<close>

lemma persistAbortDecision_keeps:
  assumes inv: "co_inv env V A st0" and k0: "known env V A st0 row" and kn: "kl \<noteq> Some True"
  shows "co_keeps env V A st0 (persistAbortDecision env now gate row kl st0)"
  unfolding persistAbortDecision_def Let_def
proof (rule co_keeps_gated [OF inv])
  define st where "st = ensureAlarmScheduled now st0"
  have f: "co_inv env V A st \<and> co_advances st0 st" unfolding st_def by (rule frame_inv [OF inv]) simp_all
  then have i: "co_inv env V A st" and k: "known env V A st row" using known_mono [OF k0] by blast+
  have v2: "isV2 row" by (rule row_v2 [OF known_inv [OF k]])
  let ?t = "\<lambda>c. transition now (rw_tx row) [Manifest_reserving, Preparing, tx_state.Prepared] Abort_decided
      (\<lambda>s. queueRecovery (rw_tx row) (if kl = Some True then Act_legacy_abort else Act_abort) now 0
        (update_tx (rw_tx row) (\<lambda>r. r\<lparr>rw_decision := Abort_decision,
           rw_cancel_request := (case c of None \<Rightarrow> rw_cancel_request r | Some c \<Rightarrow> Some c)\<rparr>) s)) st"
  have t: "co_keeps env V A st (case ?t (Some c) of
      Inl (Cas_lost lostTo) \<Rightarrow> (case loadTx (rw_tx row) st of None \<Rightarrow> (S_done (Inl (Cas_lost lostTo)), st)
        | Some latest \<Rightarrow> proceed (thrown (stateOf latest)) st (\<lambda>s.
            if s \<in> set abort_states then (S_abort latest kl, st) else (S_done (Inl (Cas_lost lostTo)), st)))
    | Inl e \<Rightarrow> (S_done (Inl e), st)
    | Inr st1 \<Rightarrow> proceed (load_or_fail (rw_tx row) st1) st1 (\<lambda>aborting. (S_abort aborting kl, st1)))" for c
  proof (cases "?t (Some c)")
    case (Inl e)
    show ?thesis
      unfolding Inl sum.case using i kn known_loaded [OF i]
      by (cases e) (auto intro!: co_keeps_here co_keeps_state split: option.splits)
  next
    case (Inr st1)
    have n: "co_inv env V A st1 \<and> co_advances st st1" by (rule to_abort_decided [OF i _ Inr]) simp
    then have "co_keeps env V A st (proceed (load_or_fail (rw_tx row) st1) st1 (\<lambda>aborting. (S_abort aborting kl, st1)))"
      using kn by (intro co_keeps_next [OF n] co_keeps_load co_keeps_here) simp_all
    then show ?thesis unfolding Inr sum.case .
  qed
  show "co_keeps env V A st0 (proceed (thrown (if isV2 row then and_then (cancel_request env row) (\<lambda>c. Inr (Some c)) else Inr None))
      (ensureAlarmScheduled now st0)
      (\<lambda>cancelRequest. case transition now (rw_tx row)
          (if isV2 row then [Manifest_reserving, Preparing, tx_state.Prepared] else [Preparing, tx_state.Prepared]) Abort_decided
          (\<lambda>s. queueRecovery (rw_tx row) (if kl = Some True then Act_legacy_abort else Act_abort) now 0
            (update_tx (rw_tx row) (\<lambda>r. r\<lparr>rw_decision := Abort_decision,
               rw_cancel_request := (case cancelRequest of None \<Rightarrow> rw_cancel_request r | Some c \<Rightarrow> Some c)\<rparr>) s))
          (ensureAlarmScheduled now st0) of
        Inl (Cas_lost lostTo) \<Rightarrow> (case loadTx (rw_tx row) (ensureAlarmScheduled now st0) of
            None \<Rightarrow> (S_done (Inl (Cas_lost lostTo)), ensureAlarmScheduled now st0)
          | Some latest \<Rightarrow> proceed (thrown (stateOf latest)) (ensureAlarmScheduled now st0) (\<lambda>s.
              if s \<in> set abort_states then (S_abort latest kl, ensureAlarmScheduled now st0)
              else (S_done (Inl (Cas_lost lostTo)), ensureAlarmScheduled now st0)))
      | Inl e \<Rightarrow> (S_done (Inl e), ensureAlarmScheduled now st0)
      | Inr st1 \<Rightarrow> proceed (load_or_fail (rw_tx row) st1) st1 (\<lambda>aborting. (S_abort aborting kl, st1))))"
    unfolding st_def [symmetric] if_P [OF v2]
  proof (rule co_keeps_next [OF f], rule co_keeps_proceed [OF i])
    fix a assume "thrown (and_then (cancel_request env row) (\<lambda>c. Inr (Some c))) = Inr a"
    then obtain c where a: "a = Some c" by (auto simp: and_then_ok)
    show "co_keeps env V A st (case ?t a of
      Inl (Cas_lost lostTo) \<Rightarrow> (case loadTx (rw_tx row) st of None \<Rightarrow> (S_done (Inl (Cas_lost lostTo)), st)
        | Some latest \<Rightarrow> proceed (thrown (stateOf latest)) st (\<lambda>s.
            if s \<in> set abort_states then (S_abort latest kl, st) else (S_done (Inl (Cas_lost lostTo)), st)))
    | Inl e \<Rightarrow> (S_done (Inl e), st)
    | Inr st1 \<Rightarrow> proceed (load_or_fail (rw_tx row) st1) st1 (\<lambda>aborting. (S_abort aborting kl, st1)))"
      unfolding a by (rule t)
  qed
qed

lemma send_abort_keeps:
  assumes inv: "co_inv env V A st" and k: "known env V A st row" and "rw_cancel_request row \<noteq> None" "kl \<noteq> Some True"
  shows "co_keeps env V A st (send_abort env row kl st)"
  unfolding send_abort_def
  using assms row_current [OF known_inv [OF k]]
  by (cases kl) (auto intro!: co_keeps_proceed co_keeps_here simp: message_row_def)

lemma reconcileAbort_keeps:
  assumes inv: "co_inv env V A st" and k: "known env V A st row" and kn: "kl \<noteq> Some True"
  shows "co_keeps env V A st (reconcileAbort env now gate row kl st)"
  unfolding reconcileAbort_def
proof (rule co_keeps_gated [OF inv], rule co_keeps_state [OF inv k])
  let ?tx = "rw_tx row"
  have decided: "co_keeps env V A st (cas (transition now ?tx [Abort_decided] Aborting id st) ?tx st
      (\<lambda>latest. resume env latest st) (\<lambda>st1. proceed (load_or_fail ?tx st1) st1 (\<lambda>current. send_abort env current kl st1)))"
  proof (rule co_keeps_cas [OF inv])
    fix st1 assume t: "transition now ?tx [Abort_decided] Aborting id st = Inr st1"
    have n: "co_inv env V A st1 \<and> co_advances st st1" by (rule to_aborting [OF inv t])
    obtain cur where c: "row_inv env V A cur" "rw_status cur \<in> set [Abort_decided]"
        "loadTx ?tx st = Some cur" "st1 = id (update_tx ?tx (\<lambda>r. r\<lparr>rw_status := Aborting, rw_updated_at := now\<rparr>) st)"
      by (rule transition_row [OF inv t])
    show "co_keeps env V A st (proceed (load_or_fail ?tx st1) st1 (\<lambda>current. send_abort env current kl st1))"
    proof (rule co_keeps_next [OF n], rule co_keeps_loaded)
      show "loadTx ?tx st1 = Some (cur\<lparr>rw_status := Aborting, rw_updated_at := now\<rparr>)" using c by simp
    qed (use n c kn in \<open>auto intro!: send_abort_keeps simp: row_inv_def\<close>)
  qed (rule resume_ok [OF inv])
  have pending: "rw_status row = Aborting \<Longrightarrow> rw_cancel_request row \<noteq> None" using known_inv [OF k] by (simp add: row_inv_def)
  show "co_keeps env V A st (if rw_status row = Abort_decided then
        cas (transition now ?tx [Abort_decided] Aborting id st) ?tx st (\<lambda>latest. resume env latest st)
          (\<lambda>st1. proceed (load_or_fail ?tx st1) st1 (\<lambda>current. send_abort env current kl st1))
      else if rw_status row = tx_state.Aborted then (S_error TX_ABORTED, st)
      else if rw_status row = Aborted_pending_manifest_cancel then (S_cancel row, st)
      else if rw_status row \<noteq> Aborting then (S_error TX_INVALID_TRANSITION, st)
      else send_abort env row kl st)"
    using decided inv k kn pending by (auto intro!: co_keeps_here send_abort_keeps)
qed

lemma end_aborted_keeps:
  assumes "co_inv env V A st"
  shows "co_keeps env V A st (end_aborted now tx st)"
  unfolding end_aborted_def
  by (rule co_keeps_proceed [OF assms], rule co_keeps_next [OF to_aborted [OF assms]], assumption, rule co_keeps_end)
     (use to_aborted [OF assms] in blast)

lemma end_quarantined_keeps:
  assumes "co_inv env V A st" "state \<in> {Aborted_pending_manifest_cancel, Commit_deciding, Commit_pending_manifest}"
  shows "co_keeps env V A st (end_quarantined now tx state code st)"
  unfolding end_quarantined_def
  by (rule co_keeps_proceed [OF assms(1)], rule co_keeps_next [OF to_quarantined [OF assms]], assumption, rule co_keeps_end)
     (use to_quarantined [OF assms] in blast)

lemma abort_answer_keeps:
  assumes inv: "co_inv env V A st" and k: "known env V A st row"
  shows "co_keeps env V A st (abort_answer env now acks row legacy st)"
proof -
  let ?tx = "rw_tx row"
  have v2: "isV2 row" by (rule row_v2 [OF known_inv [OF k]])
  have all: "co_keeps env V A st (cas (transition now ?tx [Aborting] Aborted_pending_manifest_cancel (queueRecovery ?tx Act_cancel now 0) st)
      ?tx st (\<lambda>latest. resume env latest st) (\<lambda>st1. proceed (load_or_fail ?tx st1) st1 (\<lambda>pending. (S_cancel pending, st1))))"
  proof (rule co_keeps_cas [OF inv])
    fix st1 assume "transition now ?tx [Aborting] Aborted_pending_manifest_cancel (queueRecovery ?tx Act_cancel now 0) st = Inr st1"
    then have n: "co_inv env V A st1 \<and> co_advances st st1" by (rule to_pending_cancel [OF inv])
    then show "co_keeps env V A st (proceed (load_or_fail ?tx st1) st1 (\<lambda>pending. (S_cancel pending, st1)))"
      by (intro co_keeps_next [OF n] co_keeps_load co_keeps_here) simp_all
  qed (rule resume_ok [OF inv])
  show ?thesis
    unfolding abort_answer_def Let_def if_P [OF v2]
    using all known_load [OF k] inv by (simp add: co_keeps_wait)
qed

lemma reconcileCancelOnce_keeps:
  assumes "co_inv env V A st" "known env V A st row"
  shows "co_keeps env V A st (reconcileCancelOnce env gate row st)"
  unfolding reconcileCancelOnce_def
  by (rule co_keeps_gated [OF assms(1)], rule co_keeps_state [OF assms])
     (use assms in \<open>auto intro!: co_keeps_here co_keeps_proceed resumeRecovery_ok\<close>)

lemma park_keeps:
  assumes "co_inv env V A st" "loadTx tx st = Some row" "rw_status row = Aborted_pending_manifest_cancel"
  shows "co_inv env V A (park code tx st) \<and> co_advances st (park code tx st)"
  unfolding park_def
  by (rule change_inv [OF assms(1,2), where row' = "row\<lparr>rw_last_error := Some code\<rparr>"])
     (use inv_row [OF assms(1,2)] assms(2,3) in \<open>auto simp: row_defs parked_cancel_def\<close>)

lemma cancel_reserve_answer_keeps:
  assumes inv: "co_inv env V A st" and "known env V A st row0"
  shows "co_keeps env V A st (cancel_reserve_answer env now result row0 request st)"
  unfolding cancel_reserve_answer_def Let_def wait_cancel_def
proof (rule co_keeps_still [OF inv])
  fix row assume k: "known env V A st row" and l: "loadTx (rw_tx row0) st = Some row" "rw_status row \<in> set pending_cancel"
  have tx: "loadTx (rw_tx row) st = Some row" using loadTx_key [OF l(1)] l(1) by simp
  have p: "co_inv env V A (park code (rw_tx row) st) \<and> co_advances st (park code (rw_tx row) st)" for code
    by (rule park_keeps [OF inv tx]) (use l(2) in simp)
  have parked: "co_keeps env V A st (S_done r, park code (rw_tx row) st)" for r code
    using p [of code] by (simp add: co_keeps_def)
  show "co_keeps env V A st (if reserve_unavailable result
      then wait_for now (rw_tx row) Act_cancel (Some pending_cancel) (R_accepted Aborted_pending_manifest_cancel) st
      else case reserve_quarantined result of
        None \<Rightarrow> if rejected_absent result \<noteq> None then end_aborted now (rw_tx row) st else (S_cancel_sent row request, st)
      | Some code \<Rightarrow> (S_done (Inr (R_accepted Aborted_pending_manifest_cancel)), park code (rw_tx row) st))"
    using inv k parked by (auto intro!: co_keeps_wait co_keeps_here end_aborted_keeps split: option.splits)
qed (rule resumeRecovery_ok [OF inv])

lemma cancel_answer_keeps:
  assumes inv: "co_inv env V A st" and "known env V A st row0"
  shows "co_keeps env V A st (cancel_answer env now result row0 st)"
  unfolding cancel_answer_def Let_def wait_cancel_def
proof (rule co_keeps_still [OF inv])
  fix row assume k: "known env V A st row" and l: "loadTx (rw_tx row0) st = Some row" "rw_status row \<in> set pending_cancel"
  have tx: "loadTx (rw_tx row) st = Some row" using loadTx_key [OF l(1)] l(1) by simp
  have p: "co_inv env V A (park code (rw_tx row) st) \<and> co_advances st (park code (rw_tx row) st)" for code
    by (rule park_keeps [OF inv tx]) (use l(2) in simp)
  have parked: "co_keeps env V A st (S_done r, park code (rw_tx row) st)" for r code
    using p [of code] by (simp add: co_keeps_def)
  show "co_keeps env V A st (case result of
        None \<Rightarrow> wait_for now (rw_tx row) Act_cancel (Some pending_cancel) (R_accepted Aborted_pending_manifest_cancel) st
      | Some (CancelRefused status http code) \<Rightarrow>
          if status = ''unavailable''
          then wait_for now (rw_tx row) Act_cancel (Some pending_cancel) (R_accepted Aborted_pending_manifest_cancel) st
          else if status = ''quarantined_pending_resolution''
          then (S_done (Inr (R_accepted Aborted_pending_manifest_cancel)), park code (rw_tx row) st)
          else end_quarantined now (rw_tx row) Aborted_pending_manifest_cancel code st
      | Some _ \<Rightarrow> end_aborted now (rw_tx row) st)"
    using inv parked
    by (auto intro!: co_keeps_wait end_aborted_keeps end_quarantined_keeps split: option.splits cancel_reply.splits)
qed (rule resumeRecovery_ok [OF inv])

end
