(* ===== verification/CoordKeeps3.thy ===== *)
theory CoordKeeps3
  imports CoordKeeps2
begin

section \<open>The commit side\<close>

lemma persistCommitDeciding_keeps:
  assumes inv: "co_inv env V A st0" and k0: "known env V A st0 row"
  shows "co_keeps env V A st0 (persistCommitDeciding env now gate row st0)"
proof -
  have f: "co_inv env V A (ensureAlarmScheduled now st0) \<and> co_advances st0 (ensureAlarmScheduled now st0)"
    by (rule frame_inv [OF inv]) simp_all
  then have k: "known env V A (ensureAlarmScheduled now st0) row" using known_mono [OF k0] by blast
  show ?thesis
    unfolding persistCommitDeciding_def Let_def
    using f k by (intro co_keeps_gated [OF inv] co_keeps_next [OF f] co_keeps_proceed) (auto intro!: co_keeps_here)
qed

lemma record_commit_keeps:
  assumes inv: "co_inv env V A st" and k: "known env V A st row"
  shows "co_keeps env V A st (record_commit env now row intent request st)"
proof -
  let ?tx = "rw_tx row"
  let ?t = "transition now ?tx [tx_state.Prepared] Commit_deciding
      (\<lambda>s. queueRecovery ?tx Act_finalize now 0 (update_tx ?tx (\<lambda>r. r\<lparr>rw_decision := Commit_decision,
         rw_envelope_intent := Some intent, rw_finalize_request := Some request\<rparr>) s)) st"
  show ?thesis
  proof (cases ?t)
    case (Inl e)
    show ?thesis
      unfolding record_commit_def Let_def Inl sum.case
      using inv known_loaded [OF inv] by (cases e) (auto intro!: co_keeps_here co_keeps_state split: option.splits)
  next
    case (Inr st1)
    have n: "co_inv env V A st1 \<and> co_advances st st1" by (rule to_commit_deciding [OF inv Inr])
    then have "co_keeps env V A st (proceed (load_or_fail ?tx st1) st1 (\<lambda>deciding. (S_finalize deciding, st1)))"
      by (intro co_keeps_next [OF n] co_keeps_load co_keeps_here) simp_all
    then show ?thesis unfolding record_commit_def Let_def Inr sum.case .
  qed
qed

lemma reconcileFinalize_keeps:
  assumes "co_inv env V A st" "known env V A st row"
  shows "co_keeps env V A st (reconcileFinalize env gate row st)"
  unfolding reconcileFinalize_def
  by (rule co_keeps_gated [OF assms(1)], rule co_keeps_state [OF assms])
     (use assms in \<open>auto intro!: co_keeps_here co_keeps_proceed resume_ok\<close>)

lemma finalize_answer_keeps:
  assumes inv: "co_inv env V A st" and "known env V A st row0" and d: "state \<in> set deciding_states"
  shows "co_keeps env V A st (co_finalize_answer env now result row0 state request st)"
  unfolding co_finalize_answer_def Let_def
proof (rule co_keeps_still [OF inv])
  fix row assume k: "known env V A st row"
  let ?tx = "rw_tx row"
  let ?wait = "wait_for now ?tx Act_finalize (Some deciding_states) (R_accepted Commit_pending_manifest)"
  define unavailable where "unavailable = (if state = Commit_deciding
      then cas (transition now ?tx [Commit_deciding] Commit_pending_manifest id st) ?tx st
             (\<lambda>concurrent. resume env concurrent st) ?wait
      else ?wait st)"
  have w: "co_keeps env V A s (?wait s)" if "co_inv env V A s" for s by (rule co_keeps_wait [OF that]) simp
  have u: "co_keeps env V A st unavailable"
  proof -
    have "co_keeps env V A st (cas (transition now ?tx [Commit_deciding] Commit_pending_manifest id st) ?tx st
             (\<lambda>concurrent. resume env concurrent st) ?wait)"
      by (rule co_keeps_cas [OF inv]) (use co_keeps_next [OF to_pending_manifest [OF inv]] to_pending_manifest [OF inv] w resume_ok [OF inv] in blast)+
    then show ?thesis using w [OF inv] by (simp add: unavailable_def)
  qed
  have a: "co_keeps env V A st (proceed (thrown (accept_record env row request r h)) st (\<lambda>completed. (S_register row state completed r h, st)))" for r h
    using inv k d by (auto intro!: co_keeps_proceed co_keeps_here)
  have q: "co_keeps env V A st (end_quarantined now ?tx state code st)" for code
    by (rule end_quarantined_keeps [OF inv]) (use d in \<open>auto simp: deciding_states_def\<close>)
  show "co_keeps env V A st (case result of
        None \<Rightarrow> if state = Commit_deciding
          then cas (transition now ?tx [Commit_deciding] Commit_pending_manifest id st) ?tx st
             (\<lambda>concurrent. resume env concurrent st) ?wait else ?wait st
      | Some (Finalized r h) \<Rightarrow> proceed (thrown (accept_record env row request r h)) st
          (\<lambda>completed. (S_register row state completed r h, st))
      | Some (AlreadyFinalized r h) \<Rightarrow> proceed (thrown (accept_record env row request r h)) st
          (\<lambda>completed. (S_register row state completed r h, st))
      | Some (FinalizeRefused status http code) \<Rightarrow> if status = ''unavailable'' then (if state = Commit_deciding
          then cas (transition now ?tx [Commit_deciding] Commit_pending_manifest id st) ?tx st
             (\<lambda>concurrent. resume env concurrent st) ?wait else ?wait st)
          else end_quarantined now ?tx state code st)"
    unfolding unavailable_def [symmetric] using u a q by (auto split: option.splits finalize_reply.splits)
qed (rule resume_ok [OF inv])

lemma register_record_keeps:
  assumes inv: "co_inv env V A st" and k: "known env V A st row" and d: "state \<in> set deciding_states"
  shows "co_keeps env V A st (register_record env now row state completed r h st)"
  unfolding register_record_def Let_def
proof (rule co_keeps_cas [OF inv])
  fix st1 assume "transition now (rw_tx row) [state] Manifest_registered
      (\<lambda>s. queueRecovery (rw_tx row) Act_commit now 0 (update_tx (rw_tx row) (register_decision completed r h) s)) st = Inr st1"
  then have n: "co_inv env V A st1 \<and> co_advances st st1" by (rule to_registered [OF inv d])
  then show "co_keeps env V A st (proceed (load_or_fail (rw_tx row) st1) st1 (\<lambda>registered. (S_commit registered, st1)))"
    by (intro co_keeps_next [OF n] co_keeps_load co_keeps_here) simp_all
qed (rule resume_ok [OF inv])

lemma authorized_row:
  "row_inv env V A row \<Longrightarrow> rw_status row \<in> set authorized_states \<Longrightarrow> commit_side row \<and> rw_record row \<noteq> None"
  by (auto simp: row_inv_def authorized_states_def commit_side_def)

lemma reconcileCommitOnce_keeps:
  assumes inv: "co_inv env V A st" and k: "known env V A st row"
  shows "co_keeps env V A st (reconcileCommitOnce env now gate row st)"
  unfolding reconcileCommitOnce_def
proof (rule co_keeps_gated [OF inv], rule co_keeps_state [OF inv k])
  let ?tx = "rw_tx row"
  have first: "co_keeps env V A st (cas (transition now ?tx [Manifest_registered] Committing id st) ?tx st S_commit
      (\<lambda>st1. proceed (load_or_fail ?tx st1) st1 (\<lambda>current. (S_commit_sent current, st1))))"
  proof (rule co_keeps_cas [OF inv])
    fix st1 assume t: "transition now ?tx [Manifest_registered] Committing id st = Inr st1"
    have n: "co_inv env V A st1 \<and> co_advances st st1" by (rule to_committing [OF inv t])
    obtain cur where c: "row_inv env V A cur" "rw_status cur \<in> set [Manifest_registered]"
        "loadTx ?tx st = Some cur" "st1 = id (update_tx ?tx (\<lambda>r. r\<lparr>rw_status := Committing, rw_updated_at := now\<rparr>) st)"
      by (rule transition_row [OF inv t])
    have l: "loadTx ?tx st1 = Some (cur\<lparr>rw_status := Committing, rw_updated_at := now\<rparr>)" using c by simp
    have "row_inv env V A (cur\<lparr>rw_status := Committing, rw_updated_at := now\<rparr>)" using n inv_row [OF _ l] by blast
    from authorized_row [OF this] show "co_keeps env V A st (proceed (load_or_fail ?tx st1) st1 (\<lambda>current. (S_commit_sent current, st1)))"
      by (intro co_keeps_next [OF n] co_keeps_loaded [OF _ l] co_keeps_here) (use n in \<open>simp_all add: authorized_states_def\<close>)
  qed simp
  have a: "rw_status row = Committing \<or> rw_status row = Committed_pending_ack \<Longrightarrow> commit_side row \<and> rw_record row \<noteq> None"
    using authorized_row [OF known_inv [OF k]] by (auto simp: authorized_states_def)
  show "co_keeps env V A st (if rw_status row = Manifest_registered then
          cas (transition now ?tx [Manifest_registered] Committing id st) ?tx st S_commit
            (\<lambda>st1. proceed (load_or_fail ?tx st1) st1 (\<lambda>current. (S_commit_sent current, st1)))
      else if rw_status row = tx_state.Committed then (S_done (Inr (R_ok tx_state.Committed)), st)
      else if rw_status row \<noteq> Committing \<and> rw_status row \<noteq> Committed_pending_ack then (resumeRecoveryOnce env row st, st)
      else (S_commit_sent row, st))"
    using first inv k a by (auto intro!: co_keeps_here resumeRecovery_ok)
qed

lemma acks_frame [simp]:
  "loadTx x (fold (record_ack now tx) as st) = loadTx x st" "queued x (fold (record_ack now tx) as st) = queued x st"
  "co_discard (fold (record_ack now tx) as st) = co_discard st"
  by (induction as arbitrary: st) (simp_all add: record_ack_def)

lemma recordAcks_frame:
  "loadTx x (recordAcknowledgments now tx acks q st) = (if list_all snd acks \<and> x = tx
     then map_option (\<lambda>r. r\<lparr>rw_result := Some ''committed''\<rparr>) (loadTx x st) else loadTx x st)"
  "queued x (recordAcknowledgments now tx acks q st) \<longleftrightarrow> queued x st \<or> x = tx \<and> (list_all snd acks \<or> q)"
  "co_discard (recordAcknowledgments now tx acks q st) = co_discard st"
  by (auto simp: recordAcknowledgments_def Let_def)

lemma commit_answer_keeps:
  assumes inv0: "co_inv env V A st0" and k0: "known env V A st0 row"
    and acked: "list_all2 (\<lambda>p b. b \<longrightarrow> (bg_shard p, rw_tx row) \<in> A) (rw_participants row) answers"
  shows "co_keeps env V A st0 (commit_answer env now answers row st0)"
proof -
  let ?tx = "rw_tx row"
  define acks where "acks = zip (map bg_shard (rw_participants row)) answers"
  define all where "all = list_all snd acks"
  define st where "st = (if all then ensureAlarmScheduled now st0 else st0)"
  define next_state where "next_state = (if all then tx_state.Committed else Committed_pending_ack)"
  have f: "co_inv env V A st \<and> co_advances st0 st"
    using frame_inv [OF inv0, of "ensureAlarmScheduled now st0"] inv0 by (simp add: st_def)
  then have inv: "co_inv env V A st" and k: "known env V A st row" using known_mono [OF k0] by blast+
  have yes: "everyone row \<subseteq> A" if "all"
  proof
    fix x assume "x \<in> everyone row"
    then obtain i where i: "i < length (rw_participants row)" "x = (bg_shard (rw_participants row ! i), ?tx)"
      by (auto simp: everyone_def in_set_conv_nth)
    have l: "length (rw_participants row) = length answers" by (rule list_all2_lengthD [OF acked])
    then have "acks ! i \<in> set acks" using i(1) by (intro nth_mem) (simp add: acks_def)
    then have "answers ! i" using that i(1) l unfolding all_def list_all_iff by (auto simp: acks_def)
    then show "x \<in> A" using list_all2_nthD [OF acked i(1)] i(2) by simp
  qed
  have moved1: "co_inv env V A st1 \<and> co_advances st st1"
    if t: "transition now ?tx [Committing, Committed_pending_ack] next_state (recordAcknowledgments now ?tx acks True) st = Inr st1" for st1
  proof -
    obtain cur where c: "loadTx ?tx st = Some cur" "row_inv env V A cur" "rw_status cur \<in> set [Committing, Committed_pending_ack]"
      and s: "st1 = recordAcknowledgments now ?tx acks True (update_tx ?tx (\<lambda>r. r\<lparr>rw_status := next_state, rw_updated_at := now\<rparr>) st)"
      by (rule transition_row [OF inv t])
    have e: "everyone cur = everyone row" using k c(1) by (auto simp: known_def later_def everyone_def)
    define row' where "row' = (if all then cur\<lparr>rw_status := next_state, rw_updated_at := now, rw_result := Some ''committed''\<rparr>
      else cur\<lparr>rw_status := next_state, rw_updated_at := now\<rparr>)"
    have ev: "everyone row' \<subseteq> A" if "all" using yes [OF that] e by (simp add: row'_def everyone_def)
    have evV: "everyone row' = everyone cur" by (simp add: row'_def everyone_def)
    have st: "rw_status cur = Committing \<or> rw_status cur = Committed_pending_ack" using c(3) by simp
    have q: "queued ?tx st" by (rule work_queued [OF inv c(1)]) (use st in \<open>auto simp: needs_work_def\<close>)
    show ?thesis
    proof (rule change_inv [OF inv c(1), where row' = row'])
      show "row_inv env V A row'"
      proof (cases "all")
        case True
        then show ?thesis using c(2) st ev evV
          by (elim disjE) (simp_all add: row_inv_def row'_def next_state_def decision_defs commit_side_def)
      next
        case False
        then show ?thesis using c(2) st evV
          by (elim disjE) (simp_all add: row_inv_def row'_def next_state_def decision_defs commit_side_def)
      qed
      show "later cur row'" using st by (elim disjE) (simp_all add: later_def row'_def)
      show "loadTx x st1 = (if x = ?tx then Some row' else loadTx x st)" for x
        using c(1) by (simp add: s recordAcks_frame all_def [symmetric] row'_def)
      show "queued x st1 = queued x st" if "x \<noteq> ?tx" for x using that by (simp add: s recordAcks_frame)
      show "queued ?tx st1 \<or> parked_cancel row'" using q by (simp add: s recordAcks_frame)
      show "co_discard st1 = co_discard st" by (simp add: s recordAcks_frame)
    qed
  qed
  have same1: "co_inv env V A st1 \<and> co_advances st st1"
    if "loadTx ?tx st = Some cur" "rw_status cur = next_state" "next_state \<noteq> tx_state.Committed"
      "st1 = recordAcknowledgments now ?tx acks False (update_tx ?tx (\<lambda>r. r\<lparr>rw_updated_at := now\<rparr>) st)" for cur st1
  proof -
    have "\<not> all" using that(3) by (auto simp: next_state_def split: if_splits)
    moreover have "queued ?tx st"
      by (rule work_queued [OF inv that(1)]) (use that(2) calculation in \<open>simp_all add: next_state_def needs_work_def\<close>)
    ultimately show ?thesis
      using inv_row [OF inv that(1)] that(1)
      by (intro change_inv [OF inv that(1), where row' = "cur\<lparr>rw_updated_at := now\<rparr>"])
         (auto simp: row_inv_def later_def commit_side_def everyone_def that(4) recordAcks_frame all_def [symmetric])
  qed
  have final: "co_keeps env V A st1 (if all then (S_done (Inr (R_ok tx_state.Committed)), st1)
      else wait_for now ?tx Act_commit (Some [Committing, Committed_pending_ack]) (R_accepted Committed_pending_ack) st1)"
    if "co_inv env V A st1" for st1
    using that by (auto intro!: co_keeps_end co_keeps_wait)
  show ?thesis
    unfolding commit_answer_def Let_def acks_def [symmetric] all_def [symmetric] st_def [symmetric] next_state_def [symmetric]
  proof (rule co_keeps_next [OF f], rule co_keeps_load [OF inv], rule co_keeps_state [OF inv])
    fix latest assume l: "loadTx ?tx st = Some latest" and kl: "known env V A st latest"
    then show "known env V A st latest" by blast
    show "co_keeps env V A st (if rw_status latest = tx_state.Committed then (S_done (Inr (R_ok tx_state.Committed)), st)
      else if rw_status latest \<noteq> Committing \<and> rw_status latest \<noteq> Committed_pending_ack then (resumeRecoveryOnce env latest st, st)
      else proceed (if rw_status latest = next_state
          then Inr (recordAcknowledgments now ?tx acks False (update_tx ?tx (\<lambda>r. r\<lparr>rw_updated_at := now\<rparr>) st))
          else transition now ?tx [Committing, Committed_pending_ack] next_state (recordAcknowledgments now ?tx acks True) st) st
        (\<lambda>st1. if all then (S_done (Inr (R_ok tx_state.Committed)), st1)
          else wait_for now ?tx Act_commit (Some [Committing, Committed_pending_ack]) (R_accepted Committed_pending_ack) st1))"
    proof (cases "rw_status latest = Committing \<or> rw_status latest = Committed_pending_ack")
      case True
      have "co_keeps env V A st (proceed (if rw_status latest = next_state
          then Inr (recordAcknowledgments now ?tx acks False (update_tx ?tx (\<lambda>r. r\<lparr>rw_updated_at := now\<rparr>) st))
          else transition now ?tx [Committing, Committed_pending_ack] next_state (recordAcknowledgments now ?tx acks True) st) st
        (\<lambda>st1. if all then (S_done (Inr (R_ok tx_state.Committed)), st1)
          else wait_for now ?tx Act_commit (Some [Committing, Committed_pending_ack]) (R_accepted Committed_pending_ack) st1))"
      proof (rule co_keeps_proceed [OF inv])
        fix st1 assume r: "(if rw_status latest = next_state
          then Inr (recordAcknowledgments now ?tx acks False (update_tx ?tx (\<lambda>r. r\<lparr>rw_updated_at := now\<rparr>) st))
          else transition now ?tx [Committing, Committed_pending_ack] next_state (recordAcknowledgments now ?tx acks True) st) = Inr st1"
        have "co_inv env V A st1 \<and> co_advances st st1"
        proof (cases "rw_status latest = next_state")
          case s: True
          have "next_state \<noteq> tx_state.Committed" using True s by auto
          then show ?thesis using same1 [OF l s] r s by simp
        next
          case False
          then show ?thesis using moved1 r by simp
        qed
        then show "co_keeps env V A st (if all then (S_done (Inr (R_ok tx_state.Committed)), st1)
          else wait_for now ?tx Act_commit (Some [Committing, Committed_pending_ack]) (R_accepted Committed_pending_ack) st1)"
          using co_keeps_next [OF _ final] by blast
      qed
      then show ?thesis using True by auto
    next
      case False
      then show ?thesis using inv kl by (auto intro!: co_keeps_end co_keeps_here resumeRecovery_ok)
    qed
  qed
qed

end
