(* ===== verification/CoordRun.thy ===== *)
theory CoordRun
  imports CoordKeeps3
begin

section \<open>Release, begin and forced abort\<close>

lemma reconcileManifestReleaseOnce_keeps:
  assumes inv: "co_inv env V A st" and k: "known env V A st row"
  shows "co_keeps env V A st (reconcileManifestReleaseOnce env gate row st)"
  unfolding reconcileManifestReleaseOnce_def
  by (rule co_keeps_gated [OF inv], rule co_keeps_state [OF inv k])
     (use inv k row_v2 [OF known_inv [OF k]] in \<open>auto intro!: co_keeps_here co_keeps_end co_keeps_proceed\<close>)

lemma release_answer_keeps:
  assumes inv: "co_inv env V A st" and k: "known env V A st row" and c: "rw_status row = tx_state.Committed"
  shows "co_keeps env V A st (release_answer env now result row st)"
proof -
  let ?tx = "rw_tx row"
  obtain cur where l: "loadTx ?tx st = Some cur" "later row cur" using k by (auto simp: known_def)
  then have done_: "rw_status cur = tx_state.Committed" using c by (simp add: later_def)
  have w: "co_keeps env V A s (wait_for now ?tx Act_release None R_done s)" if "co_inv env V A s" "loadTx ?tx s \<noteq> None" for s
    using that by (simp add: co_keeps_wait)
  have e: "co_inv env V A (update_tx ?tx (\<lambda>r. r\<lparr>rw_last_error := Some code\<rparr>) st)
      \<and> co_advances st (update_tx ?tx (\<lambda>r. r\<lparr>rw_last_error := Some code\<rparr>) st)" for code
    by (rule change_inv [OF inv l(1), where row' = "cur\<lparr>rw_last_error := Some code\<rparr>"])
       (use inv_row [OF inv l(1)] l(1) done_ in \<open>auto simp: row_defs\<close>)
  have ew: "co_keeps env V A st (wait_for now ?tx Act_release None R_done (update_tx ?tx (\<lambda>r. r\<lparr>rw_last_error := Some code\<rparr>) st))" for code
    by (rule co_keeps_next [OF e], rule w) (use e l(1) in auto)
  have d: "co_inv env V A (drop_recovery ?tx st) \<and> co_advances st (drop_recovery ?tx st)"
    by (rule change_inv [OF inv l(1), where row' = cur])
       (use inv_row [OF inv l(1)] l(1) done_ in \<open>auto simp: needs_work_def\<close>)
  have dd: "co_keeps env V A st (S_done r, drop_recovery ?tx st)" for r using d by (simp add: co_keeps_def)
  show ?thesis
    unfolding release_answer_def Let_def
    using w [OF inv] ew dd l(1) by (auto split: option.splits release_reply.splits)
qed

lemma handleBegin_keeps:
  assumes "co_inv env V A st"
  shows "co_keeps env V A st (handleBegin env gate body st)"
  unfolding handleBegin_def Let_def
  using assms by (auto intro!: co_keeps_gated co_keeps_end co_keeps_here known_loaded split: option.splits)

lemma circuit_keeps: "co_inv env V A st \<Longrightarrow> co_inv env V A (st\<lparr>co_circuit := c\<rparr>) \<and> co_advances st (st\<lparr>co_circuit := c\<rparr>)"
  by (rule frame_inv) simp_all

lemma begin_registered_keeps:
  assumes inv: "co_inv env V A st" and k: "case existing of None \<Rightarrow> True | Some row \<Rightarrow> known env V A st row"
  shows "co_keeps env V A st (begin_registered env now registered body existing st)"
proof -
  have i: "(case existing of None \<Rightarrow> Inr None | Some row \<Rightarrow> and_then (coordinatorIdentity env row) (\<lambda>i. Inr (Some i)))
      = (Inr (map_option (\<lambda>r. Current) existing) :: tx_code + identity option)"
    using k row_current [OF known_inv] by (auto split: option.splits)
  have h: "hashParticipantOperations (ev_digest env) (redoParticipants env (bq_participants body) 1) = Inr (str_of (jget e ''operation_hash''))"
    if "envelopeFor env (bq_tx body) (bq_fleet body) (bq_coordinator body) (bq_participants body) 1 now = Inr e" for e
    using that by (auto simp: envelopeFor_def Let_def and_then_ok)
  have new: "co_keeps env V A st (case beginAdmissionAttempt now (co_circuit st) of
       (A_open retry, c) \<Rightarrow> (S_done (Inr (R_busy TX_MANIFEST_UNAVAILABLE
            \<lparr>fc_overloaded = False, fc_retryable = True, fc_retry_after_ms = retry\<rparr>)), st\<lparr>co_circuit := c\<rparr>)
     | (attempt, c) \<Rightarrow> (S_assign body hash request now attempt, st\<lparr>co_circuit := c\<rparr>))"
    if "hashParticipantOperations (ev_digest env) (redoParticipants env (bq_participants body) 1) = Inr hash" for hash request
    using circuit_keeps [OF inv] that by (auto simp: co_keeps_def split: prod.splits attempt.splits)
  show ?thesis
    unfolding begin_registered_def Let_def i
    using inv k new h
    by (cases existing) (auto intro!: co_keeps_gated co_keeps_proceed co_keeps_end co_keeps_here resume_ok)
qed

lemma insert_keeps:
  assumes inv: "co_inv env V A st" and r: "insert_tx row now st = Inr st1" and i: "row_inv env V A row"
  shows "co_inv env V A st1 \<and> co_advances st st1"
proof -
  have n: "loadTx (rw_tx row) st = None" using r by (auto simp: insert_tx_def Let_def split: if_splits)
  have q: "queued x st1 \<longleftrightarrow> x = rw_tx row \<or> queued x st" "co_discard st1 = co_discard st" for x
    using r by (auto simp: insert_tx_def Let_def queued_def queueRecovery_def tbl_get_put split: if_splits)
  have l: "loadTx x st1 = (if x = rw_tx row then Some row else loadTx x st)" for x
  proof -
    have "co_txs st1 = co_txs st @ [row]" using r by (auto simp: insert_tx_def Let_def queueRecovery_def split: if_splits)
    moreover have "find (\<lambda>r. rw_tx r = x) (t @ [row]) = (case find (\<lambda>r. rw_tx r = x) t of Some y \<Rightarrow> Some y | None \<Rightarrow> if rw_tx row = x then Some row else None)" for t
      by (induction t) auto
    ultimately show ?thesis using n by (auto simp: loadTx_def tbl_get_def split: option.splits)
  qed
  show ?thesis using inv n i unfolding co_inv_def co_advances_def q l by auto
qed

lemma assign_answer_keeps:
  assumes inv: "co_inv env V A st"
    and h: "hashParticipantOperations (ev_digest env) (redoParticipants env (bq_participants body) 1) = Inr hash"
  shows "co_keeps env V A st (assign_answer env now result body hash request t a st)"
proof -
  have c: "co_keeps env V A st (S_done r, st\<lparr>co_circuit := x\<rparr>)" for r x
    using circuit_keeps [OF inv] by (simp add: co_keeps_def)
  have ok: "co_keeps env V A st (assign_answer env now (As_ok reservation rh) body hash request t a st)" for reservation rh
  proof -
    define st1 where "st1 = st\<lparr>co_circuit := recordAdmissionSuccess (co_circuit st)\<rparr>"
    define st2 where "st2 = ensureAlarmScheduled now st1"
    define row where "row = new_tx_row body hash request reservation rh now"
    have f1: "co_inv env V A st1 \<and> co_advances st st1" unfolding st1_def by (rule circuit_keeps [OF inv])
    have f2: "co_inv env V A st2 \<and> co_advances st1 st2" unfolding st2_def by (rule frame_inv) (use f1 in auto)
    have r: "row_inv env V A row"
      using h by (simp add: row_inv_def row_def new_tx_row_def decision_defs commit_side_def COORDINATOR_WRITE_STATE_MODEL_VERSION_def
          CURRENT_PROTOCOL_VERSION_def)
    have "co_keeps env V A st2 (case insert_tx row now st2 of
         Inl e \<Rightarrow> (case loadTx (bq_tx body) st2 of None \<Rightarrow> (S_done (Inl e), st2)
           | Some concurrent \<Rightarrow> if rw_hash concurrent = hash then (resume env concurrent st2, st2) else (S_done (Inl e), st2))
       | Inr st3 \<Rightarrow> proceed (load_or_fail (bq_tx body) st3) st3 (\<lambda>row. (S_reserve row, st3)))"
    proof (cases "insert_tx row now st2")
      case (Inl e)
      then show ?thesis using f2 known_loaded [of env V A st2] by (auto intro!: co_keeps_end co_keeps_here resume_ok split: option.splits)
    next
      case (Inr st3)
      have n: "co_inv env V A st3 \<and> co_advances st2 st3" using insert_keeps [OF _ Inr r] f2 by blast
      then have "co_keeps env V A st2 (proceed (load_or_fail (bq_tx body) st3) st3 (\<lambda>row. (S_reserve row, st3)))"
        by (intro co_keeps_next [OF n] co_keeps_load co_keeps_here) simp_all
      then show ?thesis unfolding Inr sum.case .
    qed
    then have "co_keeps env V A st1 (proceed (thrown (and_then (validateAssignedReservation env request reservation rh)
        (\<lambda>_. and_then (stored_json request) (\<lambda>_. stored_json reservation)))) st1 (\<lambda>_. case insert_tx row now st2 of
         Inl e \<Rightarrow> (case loadTx (bq_tx body) st2 of None \<Rightarrow> (S_done (Inl e), st2)
           | Some concurrent \<Rightarrow> if rw_hash concurrent = hash then (resume env concurrent st2, st2) else (S_done (Inl e), st2))
       | Inr st3 \<Rightarrow> proceed (load_or_fail (bq_tx body) st3) st3 (\<lambda>row. (S_reserve row, st3))))"
      using f1 f2 by (intro co_keeps_proceed co_keeps_next [OF f2]) auto
    then show ?thesis
      unfolding assign_answer_def Let_def assign_result.case st1_def [symmetric] st2_def [symmetric] row_def [symmetric]
      by (rule co_keeps_next [OF f1])
  qed
  show ?thesis
  proof (cases result)
    case (As_ok reservation rh)
    then show ?thesis using ok by simp
  qed (use c in \<open>auto simp: assign_answer_def Let_def\<close>)
qed

lemma handleForceAbort_keeps:
  assumes inv: "co_inv env V A st"
  shows "co_keeps env V A st (handleForceAbort env gate tx st)"
proof (cases "loadTx tx st")
  case None
  then show ?thesis using inv unfolding handleForceAbort_def by (auto intro!: co_keeps_gated co_keeps_end)
next
  case (Some row)
  have k: "known env V A st row" by (rule known_loaded [OF inv Some])
  have "co_keeps env V A st (proceed (thrown (stateOf row)) st (\<lambda>state.
          if isCommitDecidedOrLater state then (S_error TX_COMMIT_ALREADY_DECIDED, st)
          else if state = Quarantined then (S_error TX_QUARANTINED, st)
          else if state = tx_state.Aborted then (S_done (Inr (R_ok tx_state.Aborted)), st)
          else if state = Aborted_pending_manifest_cancel then (S_cancel row, st)
          else proceed (thrown (violation (coordinatorIdentity env row))) st (\<lambda>identity.
            if identity = Invalid_identity then (S_error TX_ID_REQUEST_MISMATCH, st)
            else (let known = Some (identity = Legacy)
                  in (under W_force_abort
                        (if state = Abort_decided \<or> state = Aborting then S_abort row known else S_decide_abort row known), st)))))"
    using inv k row_current [OF known_inv [OF k]]
    by (auto intro!: co_keeps_state co_keeps_end co_keeps_here co_keeps_proceed step_under simp: Let_def)
  then show ?thesis using inv unfolding handleForceAbort_def Some option.case by (auto intro!: co_keeps_gated co_keeps_end)
qed

section \<open>Quarantine resolution\<close>

lemma handleResolve_keeps:
  assumes inv: "co_inv env V A st"
  shows "co_keeps env V A st (handleResolveManifestQuarantine env gate body st)"
proof (cases "loadTx (rb_tx body) st")
  case None
  then show ?thesis using inv unfolding handleResolveManifestQuarantine_def by (auto intro!: co_keeps_gated co_keeps_end)
next
  case (Some row)
  have k: "known env V A st row" by (rule known_loaded [OF inv Some])
  show ?thesis
    unfolding handleResolveManifestQuarantine_def Some option.case Let_def
    using inv k
    by (auto intro!: co_keeps_gated co_keeps_end co_keeps_proceed co_keeps_here split: option.splits if_splits)
qed

lemma repair_finalized_keeps:
  assumes inv: "co_inv env V A st" and k: "known env V A st row" and f: "rw_finalize_request row \<noteq> None"
    and r: "repair_finalized now row rh completed r h st = Inr st1"
  shows "co_inv env V A st1 \<and> co_advances st st1"
proof -
  let ?tx = "rw_tx row"
  obtain cur where l: "loadTx ?tx st = Some cur" "later row cur" using k by (auto simp: known_def)
  have ri: "row_inv env V A cur" by (rule inv_row [OF inv l(1)])
  have fc: "rw_finalize_request cur \<noteq> None" using l(2) f by (simp add: later_def)
  define s where "s = (if rw_status cur \<in> set authorized_states then rw_status cur else Manifest_registered)"
  let ?f = "\<lambda>c. (register_decision completed r h c)\<lparr>rw_status := s, rw_decision := Commit_decision, rw_last_error := None,
      rw_updated_at := now\<rparr>"
  have st1: "st1 = (if s = Manifest_registered then queueRecovery ?tx Act_commit now 0 (update_tx ?tx ?f st) else update_tx ?tx ?f st)"
    using r by (auto simp: repair_finalized_def l(1) row_state [OF ri] and_then_ok Let_def s_def register_decision_def split: if_splits)
  have sc: "s \<in> set authorized_states" by (simp add: s_def authorized_states_def)
  have sd: "s = rw_status cur \<or> s = Manifest_registered" by (simp add: s_def)
  show ?thesis
  proof (rule change_inv [OF inv l(1), where row' = "?f cur"])
    have nc: "rw_cancel_request cur = None" "rw_status cur \<noteq> tx_state.Aborted"
      using ri fc by (cases "rw_status cur"; simp add: row_inv_def)+
    have v: "everyone cur \<subseteq> V" using ri fc by (simp add: row_inv_def commit_side_def)
    have e: "everyone (?f cur) = everyone cur" by (simp add: everyone_def register_decision_def)
    have a: "s = tx_state.Committed \<longrightarrow> everyone cur \<subseteq> A" using ri sd by (auto simp: row_inv_def)
    show "row_inv env V A (?f cur)"
      unfolding row_inv_def e using ri sc fc nc v a
      by (auto simp: row_inv_def register_decision_def authorized_states_def decision_defs)
    have "rw_status cur = tx_state.Committed \<longrightarrow> s = tx_state.Committed" by (simp add: s_def authorized_states_def)
    then show "later cur (?f cur)" using nc by (simp add: later_def register_decision_def)
    show "loadTx x st1 = (if x = ?tx then Some (?f cur) else loadTx x st)" for x
      using l(1) by (simp add: st1 register_decision_def)
    show "queued x st1 = queued x st" if "x \<noteq> ?tx" for x using that by (simp add: st1)
    show "queued ?tx st1 \<or> parked_cancel (?f cur)" if n: "needs_work (?f cur)"
    proof (cases "s = Manifest_registered")
      case True
      then show ?thesis by (simp add: st1)
    next
      case False
      then have "needs_work cur" "rw_status cur \<noteq> Aborted_pending_manifest_cancel"
        using n sd sc by (auto simp: needs_work_def authorized_states_def)
      then show ?thesis using work_queued [OF inv l(1)] by (simp add: st1)
    qed
    show "co_discard st1 = co_discard st" by (simp add: st1)
  qed
qed

lemma repair_cancelled_keeps:
  assumes inv: "co_inv env V A st" and k: "known env V A st row" and f: "rw_cancel_request row \<noteq> None"
    and r: "repair_cancelled now row rh st = Inr (s, st1)"
  shows "co_inv env V A st1 \<and> co_advances st st1"
proof -
  let ?tx = "rw_tx row"
  obtain cur where l: "loadTx ?tx st = Some cur" "later row cur" using k by (auto simp: known_def)
  have ri: "row_inv env V A cur" by (rule inv_row [OF inv l(1)])
  have fc: "rw_cancel_request cur \<noteq> None" using l(2) f by (simp add: later_def)
  let ?f = "\<lambda>c. c\<lparr>rw_status := s, rw_decision := Abort_decision,
      rw_result := (if s = tx_state.Aborted then Some ''aborted'' else rw_result c), rw_last_error := None, rw_updated_at := now\<rparr>"
  have s: "s = (if rw_status cur \<in> {Abort_decided, Aborting} then rw_status cur else tx_state.Aborted)"
    and st1: "st1 = (if s = tx_state.Aborted then drop_recovery ?tx (update_tx ?tx ?f st) else queueRecovery ?tx Act_abort now 0 (update_tx ?tx ?f st))"
    using r by (auto simp: repair_cancelled_def l(1) row_state [OF ri] and_then_ok Let_def split: if_splits)
  have nf: "rw_finalize_request cur = None" "rw_status cur \<noteq> tx_state.Committed" "rw_status cur \<noteq> tx_state.Prepared"
    using ri fc by (cases "rw_status cur"; simp add: row_inv_def)+
  show ?thesis
  proof (rule change_inv [OF inv l(1), where row' = "?f cur"])
    show "row_inv env V A (?f cur)"
      using ri fc nf by (auto simp: row_inv_def s decision_defs commit_side_def)
    show "later cur (?f cur)" using nf by (simp add: later_def s)
    show "loadTx x st1 = (if x = ?tx then Some (?f cur) else loadTx x st)" for x using l(1) by (simp add: st1)
    show "queued x st1 = queued x st" if "x \<noteq> ?tx" for x using that by (simp add: st1)
    show "queued ?tx st1 \<or> parked_cancel (?f cur)" if "needs_work (?f cur)" using that by (auto simp: st1 needs_work_def)
    show "co_discard st1 = co_discard st" by (simp add: st1)
  qed
qed

lemma repair_error_keeps: "co_inv env V A st \<Longrightarrow> co_keeps env V A st (repair_error e, st)"
  by (cases e) (simp_all add: repair_error_def co_keeps_end)

lemma resolve_answer_keeps:
  assumes inv: "co_inv env V A st" and k: "known env V A st row"
    and f: "(if rb_finalized body then rw_finalize_request row else rw_cancel_request row) \<noteq> None"
    and e: "\<And>fresh res a r. result = Some (Resolved fresh res a r) \<Longrightarrow> res = (if rb_finalized body then ''FINALIZED'' else ''CANCELLED'')"
  shows "co_keeps env V A st (resolve_answer env now result row body intent request st)"
proof -
  define rh where "rh = str_of (jget request ''reservation_hash'')"
  have fin: "co_keeps env V A st (resolve_finalized env now r row intent rh st)" if b: "rb_finalized body" for r
  proof -
    have repaired: "co_keeps env V A st (case repair_finalized now row rh completed rec h st of
        Inl e \<Rightarrow> (repair_error e, st)
      | Inr st1 \<Rightarrow> proceed (load_or_fail (rw_tx row) st1) st1 (\<lambda>resolved. (S_commit resolved, st1)))" for completed rec h
    proof (cases "repair_finalized now row rh completed rec h st")
      case (Inl x)
      then show ?thesis using repair_error_keeps [OF inv] by simp
    next
      case (Inr st1)
      have n: "co_inv env V A st1 \<and> co_advances st st1" by (rule repair_finalized_keeps [OF inv k _ Inr]) (use f b in simp)
      then have "co_keeps env V A st (proceed (load_or_fail (rw_tx row) st1) st1 (\<lambda>resolved. (S_commit resolved, st1)))"
        by (intro co_keeps_next [OF n] co_keeps_load co_keeps_here) simp_all
      then show ?thesis by (simp add: Inr)
    qed
    show ?thesis unfolding resolve_finalized_def Let_def
      using inv repaired by (auto intro!: co_keeps_end co_keeps_proceed split: option.splits)
  qed
  have can: "co_keeps env V A st (case repair_cancelled now row rh st of
        Inl e \<Rightarrow> (repair_error e, st)
      | Inr (state, st1) \<Rightarrow>
          if state \<noteq> tx_state.Aborted
          then proceed (load_or_fail (rw_tx row) st1) st1
                 (\<lambda>repaired. (under (W_repaired att) (S_abort repaired None), st1))
          else (S_done (Inr (R_resolved att)), st1))" if b: "\<not> rb_finalized body" for att
  proof (cases "repair_cancelled now row rh st")
    case (Inl x)
    then show ?thesis using repair_error_keeps [OF inv] by simp
  next
    case (Inr p)
    obtain s st1 where p: "p = (s, st1)" by (cases p)
    have n: "co_inv env V A st1 \<and> co_advances st st1" by (rule repair_cancelled_keeps [OF inv k _ Inr [unfolded p]]) (use f b in simp)
    have "co_keeps env V A st (if s \<noteq> tx_state.Aborted
          then proceed (load_or_fail (rw_tx row) st1) st1 (\<lambda>repaired. (under (W_repaired att) (S_abort repaired None), st1))
          else (S_done (Inr (R_resolved att)), st1))"
      using n by (intro co_keeps_next [OF n]) (auto intro!: co_keeps_load co_keeps_here co_keeps_end step_under)
    then show ?thesis unfolding Inr p sum.case prod.case .
  qed
  show ?thesis
  proof (cases result)
    case None
    then show ?thesis using inv by (simp add: resolve_answer_def co_keeps_end)
  next
    case (Some reply)
    show ?thesis
    proof (cases reply)
      case (ResolutionRefused status http code)
      then show ?thesis using inv by (simp add: resolve_answer_def Some co_keeps_end)
    next
      case (Resolved fresh res att r)
      have res: "res = (if rb_finalized body then ''FINALIZED'' else ''CANCELLED'')" by (rule e) (simp add: Some Resolved)
      show ?thesis
        using fin [of r] can [of att] res
        by (simp add: resolve_answer_def Some Resolved rh_def [symmetric] Let_def split del: sum.split)
    qed
  qed
qed

section \<open>The alarm\<close>

lemma co_alarm_start_keeps:
  assumes inv: "co_inv env V A st"
  shows "co_keeps env V A st (co_alarm_start st)"
proof -
  define st1 where "st1 = st\<lparr>co_alarm := None\<rparr>"
  have f: "co_inv env V A st1 \<and> co_advances st st1" unfolding st1_def by (rule frame_inv [OF inv]) simp_all
  show ?thesis
  proof (cases "next_work (co_queue st1)")
    case None
    then show ?thesis using f by (simp add: co_alarm_start_def st1_def [symmetric] co_keeps_def)
  next
    case (Some work)
    obtain ws where "sort_key rq_next (co_queue st1) = work # ws"
      using Some by (auto simp: next_work_def split: list.splits)
    then have "set (work # ws) = set (co_queue st1)" by (metis set_sort)
    then have "work \<in> set (co_queue st1)" by auto
    then have "queued (rq_tx work) st1"
      by (auto simp: queued_def tbl_get_def find_None_iff)
    then obtain row where l: "loadTx (rq_tx work) st1 = Some row" using f by (auto simp: co_inv_def)
    have "known env V A st1 row" using f known_loaded [OF _ l] by blast
    then show ?thesis using f Some by (simp add: co_alarm_start_def st1_def [symmetric] co_keeps_def l)
  qed
qed

lemma co_alarm_answer_keeps:
  assumes inv: "co_inv env V A st" and k: "case row of None \<Rightarrow> False | Some r \<Rightarrow> known env V A st r"
  shows "co_keeps env V A st (co_alarm_answer env now registered work row st)"
proof -
  obtain r where r: "row = Some r" "known env V A st r" using k by (cases row) auto
  have a: "co_keeps env V A st (S_done x, st\<lparr>co_alarm := al\<rparr>)" for x al
    using frame_inv [OF inv, of "st\<lparr>co_alarm := al\<rparr>"] by (simp add: co_keeps_def)
  have b: "co_keeps env V A st (S_done x, ensureAlarmScheduled t st)" for x t
    using frame_inv [OF inv, of "ensureAlarmScheduled t st"] by (simp add: co_keeps_def)
  have l: "tbl_get rq_tx (rq_tx work) (co_queue st) \<noteq> None \<Longrightarrow> loadTx (rq_tx work) st \<noteq> None"
    using inv by (auto simp: co_inv_def queued_def)
  show ?thesis
    unfolding co_alarm_answer_def Let_def r(1) option.case
    using a b l inv r(2) by (auto intro!: co_keeps_end co_keeps_here step_under resume_ok split: option.splits)
qed

section \<open>Every procedure\<close>

text \<open>
  What the world answers: votes and acknowledgements are those the participants gave, and a
  resolution is the one that was asked for.
\<close>

primrec input_ok :: "replies \<Rightarrow> replies \<Rightarrow> co_input \<Rightarrow> co_step \<Rightarrow> bool" where
  "input_ok V A i (S_done r) = True"
| "input_ok V A i (S_under w s) = input_ok V A i s"
| "input_ok V A i (S_begin body existing) = True"
| "input_ok V A i (S_assign body h request t a) = True"
| "input_ok V A i (S_reserve row) = True"
| "input_ok V A i (S_reserve_sent row h) = True"
| "input_ok V A i (S_prepare row) = (case votes_in i of None \<Rightarrow> True
     | Some vs \<Rightarrow> list_all2 (\<lambda>p v. vt_ok v \<longrightarrow> (bg_shard p, rw_tx row) \<in> V) (rw_participants row) vs)"
| "input_ok V A i (S_decide_abort row k) = True"
| "input_ok V A i (S_abort row k) = True"
| "input_ok V A i (S_abort_sent row m legacy) = True"
| "input_ok V A i (S_cancel row) = True"
| "input_ok V A i (S_cancel_reserve row request) = True"
| "input_ok V A i (S_cancel_sent row request) = True"
| "input_ok V A i (S_decide_commit row) = True"
| "input_ok V A i (S_record_commit row intent request) = True"
| "input_ok V A i (S_finalize row) = True"
| "input_ok V A i (S_finalize_sent row s request) = True"
| "input_ok V A i (S_register row s completed r h) = True"
| "input_ok V A i (S_commit row) = True"
| "input_ok V A i (S_commit_sent row) = (case acks_in i of None \<Rightarrow> True
     | Some bs \<Rightarrow> list_all2 (\<lambda>p b. b \<longrightarrow> (bg_shard p, rw_tx row) \<in> A) (rw_participants row) bs)"
| "input_ok V A i (S_release row) = True"
| "input_ok V A i (S_release_sent row request) = True"
| "input_ok V A i (S_resolve row body intent request) = (case resolution_in i of
       Some (Some (Resolved fresh res a r)) \<Rightarrow> res = (if rb_finalized body then ''FINALIZED'' else ''CANCELLED'')
     | _ \<Rightarrow> True)"
| "input_ok V A i (S_alarm work row) = True"
| "input_ok V A i (S_retry tx action) = True"
| "input_ok V A i (S_legacy row) = True"

lemma co_keeps_given:
  "co_inv env V A st \<Longrightarrow> step_ok env V A st s \<Longrightarrow> (\<And>a. x = Some a \<Longrightarrow> co_keeps env V A st (k a)) \<Longrightarrow> co_keeps env V A st (given x s st k)"
  by (cases x) (simp_all add: given_def co_keeps_here)

theorem advance_keeps:
  assumes inv: "co_inv env V A st"
  shows "step_ok env V A st s \<Longrightarrow> input_ok V A i s \<Longrightarrow> co_keeps env V A st (advance env now i s st)"
proof (induction s)
  case (S_under w s)
  then have "co_keeps env V A st (advance env now i s st)" "wrap_ok st w" by simp_all
  moreover obtain s' st' where "advance env now i s st = (s', st')" by (cases "advance env now i s st")
  ultimately show ?case using wrap_mono [of st w st'] step_under [of st' w env V A s'] by (simp add: co_keeps_def)
next
  case (S_retry tx action)
  then show ?case by (simp add: co_keeps_wait inv)
next
  case (S_resolve row body intent request)
  have "co_keeps env V A st (resolve_answer env now x row body intent request st)" if "resolution_in i = Some x" for x
    by (rule resolve_answer_keeps [OF inv]) (use S_resolve that in auto)
  then show ?case using S_resolve inv by (auto intro!: co_keeps_given)
next
  case (S_begin body existing)
  show ?case unfolding advance.simps
    by (rule co_keeps_given [OF inv S_begin(1)], rule begin_registered_keeps [OF inv]) (use S_begin in simp_all)
next
  case (S_assign body h request t a)
  show ?case unfolding advance.simps
    by (rule co_keeps_given [OF inv S_assign(1)], rule assign_answer_keeps [OF inv]) (use S_assign in simp_all)
next
  case (S_reserve row)
  show ?case unfolding advance.simps
    by (rule co_keeps_given [OF inv S_reserve(1)], rule reconcileReservation_keeps [OF inv]) (use S_reserve in simp_all)
next
  case (S_reserve_sent row h)
  show ?case unfolding advance.simps
    by (rule co_keeps_given [OF inv S_reserve_sent(1)], rule reserve_answer_keeps [OF inv]) (use S_reserve_sent in simp_all)
next
  case (S_decide_abort row k)
  show ?case unfolding advance.simps
    by (rule co_keeps_given [OF inv S_decide_abort(1)], rule persistAbortDecision_keeps [OF inv]) (use S_decide_abort in simp_all)
next
  case (S_abort row k)
  show ?case unfolding advance.simps
    by (rule co_keeps_given [OF inv S_abort(1)], rule reconcileAbort_keeps [OF inv]) (use S_abort in simp_all)
next
  case (S_abort_sent row m legacy)
  show ?case unfolding advance.simps
    by (rule co_keeps_given [OF inv S_abort_sent(1)], rule abort_answer_keeps [OF inv]) (use S_abort_sent in simp_all)
next
  case (S_cancel row)
  show ?case unfolding advance.simps
    by (rule co_keeps_given [OF inv S_cancel(1)], rule reconcileCancelOnce_keeps [OF inv]) (use S_cancel in simp_all)
next
  case (S_cancel_reserve row request)
  show ?case unfolding advance.simps
    by (rule co_keeps_given [OF inv S_cancel_reserve(1)], rule cancel_reserve_answer_keeps [OF inv]) (use S_cancel_reserve in simp_all)
next
  case (S_cancel_sent row request)
  show ?case unfolding advance.simps
    by (rule co_keeps_given [OF inv S_cancel_sent(1)], rule cancel_answer_keeps [OF inv]) (use S_cancel_sent in simp_all)
next
  case (S_decide_commit row)
  show ?case unfolding advance.simps
    by (rule co_keeps_given [OF inv S_decide_commit(1)], rule persistCommitDeciding_keeps [OF inv]) (use S_decide_commit in simp_all)
next
  case (S_finalize row)
  show ?case unfolding advance.simps
    by (rule co_keeps_given [OF inv S_finalize(1)], rule reconcileFinalize_keeps [OF inv]) (use S_finalize in simp_all)
next
  case (S_finalize_sent row s request)
  show ?case unfolding advance.simps
    by (rule co_keeps_given [OF inv S_finalize_sent(1)], rule finalize_answer_keeps [OF inv]) (use S_finalize_sent in simp_all)
next
  case (S_commit row)
  show ?case unfolding advance.simps
    by (rule co_keeps_given [OF inv S_commit(1)], rule reconcileCommitOnce_keeps [OF inv]) (use S_commit in simp_all)
next
  case (S_release row)
  show ?case unfolding advance.simps
    by (rule co_keeps_given [OF inv S_release(1)], rule reconcileManifestReleaseOnce_keeps [OF inv]) (use S_release in simp_all)
next
  case (S_release_sent row request)
  show ?case unfolding advance.simps
    by (rule co_keeps_given [OF inv S_release_sent(1)], rule release_answer_keeps [OF inv]) (use S_release_sent in simp_all)
next
  case (S_alarm work row)
  show ?case unfolding advance.simps
    by (rule co_keeps_given [OF inv S_alarm(1)], rule co_alarm_answer_keeps [OF inv]) (use S_alarm in simp_all)
next
  case (S_prepare row)
  show ?case unfolding advance.simps
    by (rule co_keeps_given [OF inv S_prepare(1)], rule prepare_answer_keeps [OF inv]) (use S_prepare in simp_all)
next
  case (S_commit_sent row)
  show ?case unfolding advance.simps
    by (rule co_keeps_given [OF inv S_commit_sent(1)], rule commit_answer_keeps [OF inv]) (use S_commit_sent in simp_all)
next
  case (S_record_commit row intent request)
  show ?case unfolding advance.simps by (rule record_commit_keeps [OF inv]) (use S_record_commit in simp_all)
next
  case (S_register row s completed r h)
  show ?case unfolding advance.simps by (rule register_record_keeps [OF inv]) (use S_register in simp_all)
qed (simp_all add: inv co_keeps_here)

end
