(* ===== verification/CommitOrigins.thy ===== *)
theory CommitOrigins
  imports CoordRun
begin

text \<open>
  Where a participant's decision comes from, and what its positive answers mean: a tombstone a
  handler records carries the decision of the message or of the coordinator's status; a prepare that
  is answered with success leaves the transaction voted, a commit so answered leaves it committed.
\<close>

section \<open>Where a tombstone comes from\<close>

text \<open>From one state to the next, a transaction may have got a tombstone with an allowed decision.\<close>

definition tombs_by :: "(string \<Rightarrow> string \<Rightarrow> bool) \<Rightarrow> 'db shard \<Rightarrow> 'db shard \<Rightarrow> bool" where
  "tombs_by allowed st st' \<longleftrightarrow>
     (\<forall>tx t. tomb st' tx = Some t \<longrightarrow> tomb st tx = Some t \<or> allowed tx (ts_decision t))"

lemma tombs_same: "sh_tombstones st' = sh_tombstones st \<Longrightarrow> tombs_by al st st'"
  by (simp add: tombs_by_def tomb_def)

lemma tombs_refl [simp]: "tombs_by al st st"
  by (simp add: tombs_by_def)

lemma tombs_trans: "tombs_by al a b \<Longrightarrow> tombs_by al b c \<Longrightarrow> tombs_by al a c"
  unfolding tombs_by_def by blast

lemma tombs_then: "tombs_by al a b \<Longrightarrow> sh_tombstones c = sh_tombstones b \<Longrightarrow> tombs_by al a c"
  by (erule tombs_trans) (rule tombs_same)

lemma persist_by:
  assumes "persistTombstone m d now st = Inr st'" "al (mg_tx m) d"
  shows "tombs_by al st st'"
proof (cases "tombstone st (mg_tx m)")
  case (Inr e)
  show ?thesis
  proof (cases e)
    case None
    then have n: "tbl_get ts_tx (mg_tx m) (sh_tombstones st) = None"
      using Inr by (auto simp: tombstone_def and_then_ok split: option.splits)
    have s: "sh_tombstones st' = sh_tombstones st @ [new_tombstone m d now]"
      using assms(1) by (auto simp: persistTombstone_def Inr None Let_def and_then_ok)
    have f: "find P (xs @ [y]) = (case find P xs of None \<Rightarrow> if P y then Some y else None | Some z \<Rightarrow> Some z)"
      for P xs and y :: tombstone_row by (induction xs) auto
    show ?thesis
      using n assms(2) by (auto simp: tombs_by_def tomb_def s tbl_get_def f new_tombstone_def split: option.splits if_splits)
  next
    case (Some t)
    then have "st' = st" using assms(1) by (auto simp: persistTombstone_def Inr and_then_ok split: if_splits)
    then show ?thesis by simp
  qed
qed (use assms in \<open>simp add: persistTombstone_def\<close>)

lemma apply_tombs: "apply_now sql now tx st = Inr st' \<Longrightarrow> sh_tombstones st' = sh_tombstones st"
  by (rule apply_now_frame(2))

lemma forget_tombs [simp]: "sh_tombstones (forget_intents tx st) = sh_tombstones st"
  by (simp add: forget_intents_def)

lemma certified_tombs: "sh_tombstones (snd (certifiedPrepareResponse port now tx n st)) = sh_tombstones st"
  by (auto simp: certifiedPrepareResponse_def Let_def split: option.splits)

lemma prepare_tombs: "sh_tombstones (snd (handlePrepare dg sql port now raw is st)) = sh_tombstones st"
proof -
  have n: "sh_tombstones (snd (prepare_new sql port now m is st)) = sh_tombstones st" for m "is"
    by (auto simp: prepare_new_def certified_tombs record_frame split: option.splits validation.splits)
  have a: "adoptLegacyPrepared m is st = Inr (k, st1) \<Longrightarrow> sh_tombstones st1 = sh_tombstones st" for m "is" k st1
    by (auto simp: adoptLegacyPrepared_def Let_def split: if_splits)
  show ?thesis
    by (auto simp: handlePrepare_def Let_def n certified_tombs split: option.splits sum.splits dest: a)
qed

lemma message_tx: "participantPayload dg st (phase_message ph tx e h) ph' is = Inr m \<Longrightarrow> mg_tx m = tx"
  by (auto simp: participantPayload_def versioned_payload_def phase_message_def and_then_ok Let_def split: if_splits)

lemma commit_by:
  assumes "al tx ''commit''"
  shows "tombs_by al st (snd (handleCommit dg sql now (phase_message ''commit'' tx e h) st))"
proof (cases "participantPayload dg st (phase_message ''commit'' tx e h) ''commit'' None")
  case (Inr m)
  have p: "persistTombstone m ''commit'' now st = Inr st1 \<Longrightarrow> tombs_by al st st1" for st1
    using persist_by [of m "''commit''" now st st1 al] message_tx [OF Inr] assms by simp
  show ?thesis
    unfolding handleCommit_def Inr sum.case
    by (auto split: sum.splits option.splits list.splits intro: p intro!: tombs_then [OF p] dest: apply_tombs)
qed (simp add: handleCommit_def)

lemma two_ways: "(case b of True \<Rightarrow> B | False \<Rightarrow> C) = (if b then B else C)" for b and B C :: "shard_reply \<times> 'a shard"
  by (cases b) simp_all

lemma abort_by:
  assumes "al tx ''abort''"
  shows "tombs_by al st (snd (handleAbort dg now (phase_message ''abort'' tx e h) st))"
proof (cases "participantPayload dg st (phase_message ''abort'' tx e h) ''abort'' None")
  case (Inr m)
  have p: "persistTombstone m ''abort'' now st = Inr st1 \<Longrightarrow> tombs_by al st st1" for st1
    using persist_by [of m "''abort''" now st st1 al] message_tx [OF Inr] assms by simp
  have l: "jget (phase_message ''abort'' tx e h) ''legacy_predecision_abort'' \<noteq> JBool True" by (simp add: phase_message_def)
  show ?thesis
    unfolding handleAbort_def Inr sum.case Let_def if_not_P [OF l] two_ways
    by (auto split: sum.splits option.splits intro: p intro!: tombs_then [OF p])
qed (simp add: handleAbort_def)

lemma sweep_one_by:
  assumes "rc_decision (queryCoordinatorDecision (ask tx)) = CD_committed \<Longrightarrow> al tx ''commit''"
    "rc_decision (queryCoordinatorDecision (ask tx)) = CD_aborted \<Longrightarrow> al tx ''abort''"
  shows "tombs_by al st (sweep_one sql now ask tx st)"
proof (cases "pendingMetadata st tx")
  case (Some r)
  let ?rc = "queryCoordinatorDecision (ask tx)"
  let ?m = "recovery_payload tx ?rc r"
  have m: "mg_tx ?m = tx" by (simp add: recovery_payload_def)
  have c: "persistTombstone ?m ''commit'' now st = Inr st1 \<Longrightarrow> rc_decision ?rc = CD_committed \<Longrightarrow> tombs_by al st st1" for st1
    using persist_by [of ?m "''commit''" now st st1 al] assms(1) by (simp add: m)
  have a: "persistTombstone ?m ''abort'' now st = Inr st1 \<Longrightarrow> rc_decision ?rc = CD_aborted \<Longrightarrow> tombs_by al st st1" for st1
    using persist_by [of ?m "''abort''" now st st1 al] assms(2) by (simp add: m)
  show ?thesis
  proof (cases "rc_decision ?rc")
    case CD_committed
    then show ?thesis
      unfolding sweep_one_def Let_def Some option.case
      by (auto split: sum.splits intro: c intro!: tombs_then [OF c] dest: apply_tombs)
  next
    case CD_aborted
    then show ?thesis
      unfolding sweep_one_def Let_def Some option.case
      by (auto split: sum.splits intro!: tombs_then [OF a])
  qed (simp_all add: sweep_one_def Let_def Some)
qed (simp add: sweep_one_def Let_def)

lemma sweep_by:
  assumes "\<And>tx. rc_decision (queryCoordinatorDecision (ask tx)) = CD_committed \<Longrightarrow> al tx ''commit''"
    "\<And>tx. rc_decision (queryCoordinatorDecision (ask tx)) = CD_aborted \<Longrightarrow> al tx ''abort''"
  shows "tombs_by al st (sweepStalePendingIntents sql now ask st)"
proof -
  have "tombs_by al st (foldl (\<lambda>s tx. sweep_one sql now ask tx s) st txs)" for txs
    by (induction txs rule: rev_induct) (auto intro: tombs_trans sweep_one_by assms)
  then show ?thesis by (simp add: sweepStalePendingIntents_def)
qed

section \<open>What a positive answer means\<close>

lemma certified_rows: "rows_of (snd (certifiedPrepareResponse port now tx n st)) x = rows_of st x"
  by (rule core_rows [OF core_certified])

lemma prepared_voted:
  assumes inv: "shard_inv st" and r: "handlePrepare dg sql port now (phase_message ''prepare'' tx e h) is st = (Prepare_ok n b, st')"
  shows "rows_of st' tx \<noteq> []"
proof -
  obtain intents where i: "is = Some intents" "intents \<noteq> []" using r by (auto simp: handlePrepare_def split: option.splits if_splits)
  obtain m where m: "participantPayload dg st (phase_message ''prepare'' tx e h) ''prepare'' (Some intents) = Inr m"
    using r i by (auto simp: handlePrepare_def split: sum.splits)
  have tx: "mg_tx m = tx" by (rule message_tx [OF m])
  have keep: "certifiedPrepareResponse port now x k st = (Prepare_ok n b, st') \<Longrightarrow> rows_of st x \<noteq> [] \<Longrightarrow> rows_of st' x \<noteq> []" for x k
    using certified_rows [of port now x k st x] by (metis snd_conv)
  have adopt: "certifiedPrepareResponse port now x k st1 = (Prepare_ok n b, st') \<Longrightarrow> rows_of st x \<noteq> [] \<Longrightarrow>
      adoptLegacyPrepared m intents st = Inr (k', st1) \<Longrightarrow> x = mg_tx m \<Longrightarrow> rows_of st' x \<noteq> []" for x k k' st1
  proof -
    assume c: "certifiedPrepareResponse port now x k st1 = (Prepare_ok n b, st')" and ne: "rows_of st x \<noteq> []"
      and a: "adoptLegacyPrepared m intents st = Inr (k', st1)"
    have "st1 = st\<lparr>sh_pending := map (adopt_row m) (sh_pending st)\<rparr>"
      using a by (auto simp: adoptLegacyPrepared_def Let_def split: if_splits)
    then have "rows_of st1 x = map (adopt_row m) (rows_of st x)" by (simp add: rows_map adopt_row_frame)
    then show "rows_of st' x \<noteq> []" using certified_rows [of port now x k st1 x] c ne by simp
  qed
  have fresh: "prepare_new sql port now m intents st = (Prepare_ok n b, st') \<Longrightarrow> rows_of st (mg_tx m) = [] \<Longrightarrow> rows_of st' (mg_tx m) \<noteq> []"
  proof -
    assume p: "prepare_new sql port now m intents st = (Prepare_ok n b, st')" and e: "rows_of st (mg_tx m) = []"
    have c: "certifiedPrepareResponse port now (mg_tx m) (length intents) (record_intents m now 0 intents st) = (Prepare_ok n b, st')"
      using p by (auto simp: prepare_new_def split: option.splits validation.splits)
    have "rows_of st' (mg_tx m) = new_rows m now 0 intents"
      using certified_rows [of port now "mg_tx m" "length intents" "record_intents m now 0 intents st" "mg_tx m"] c
      by (simp add: rows_record [OF e])
    moreover have "new_rows m now 0 intents \<noteq> []" using i(2) by (cases intents) simp_all
    ultimately show ?thesis by simp
  qed
  have "handlePrepare dg sql port now (phase_message ''prepare'' tx e h) is st =
     (let existing = rows_of st (mg_tx m)
      in if existing \<noteq> [] \<and> entirely_unadopted existing then
           if \<not> legacyIntentsSemanticallyMatch existing intents then (Protocol_error TX_ENVELOPE_HASH_MISMATCH, st)
           else (case adoptLegacyPrepared m intents st of
                   Inl e \<Rightarrow> (Protocol_error e, st)
                 | Inr (adopted, st1) \<Rightarrow> certifiedPrepareResponse port now (mg_tx m) adopted st1)
         else case assertMessageCompatible m st of
                Inl e \<Rightarrow> (Protocol_error e, st)
              | Inr _ \<Rightarrow> if existing \<noteq> [] then certifiedPrepareResponse port now (mg_tx m) (length existing) st
                          else prepare_new sql port now m intents st)"
    unfolding handlePrepare_def i(1) option.case if_not_P [OF i(2)] m sum.case Let_def
    by (simp add: phase_message_def)
  then show ?thesis
    using r keep [of "mg_tx m"] adopt [of "mg_tx m"] fresh unfolding tx [symmetric]
    by (auto simp: Let_def split: sum.splits if_splits prod.splits)
qed

text \<open>
  A participant that voted: the statements are stored, or an abort has dropped them.
\<close>

definition voted_for :: "'db shard \<Rightarrow> string \<Rightarrow> bool" where
  "voted_for st tx \<longleftrightarrow> rows_of st tx \<noteq> [] \<or> (\<exists>t. tomb st tx = Some t \<and> ts_decision t = ''abort'')"

lemma voted_eff:
  assumes "eff sql st st'" "voted_for st tx"
  shows "voted_for st' tx"
proof -
  have t: "tomb st' tx = Some t" if "tomb st tx = Some t" for t by (rule eff_tomb [OF assms(1) that])
  have "rows_of st' tx \<noteq> [] \<or> (\<exists>t. tomb st' tx = Some t \<and> ts_decision t = ''abort'')" if r: "rows_of st tx \<noteq> []"
    using assms(1)
  proof (cases rule: eff.cases)
    case same
    then show ?thesis using core_rows [OF same(1), of tx] r by simp
  next
    case (vote m "is" now)
    have "tx \<noteq> mg_tx m" using vote(1) r by auto
    then show ?thesis using core_rows [OF vote(5), of tx] rows_record [OF vote(1)] r by simp
  next
    case (adopt m)
    have "rows_of st' tx = map (adopt_row m) (rows_of st tx)"
      using core_rows [OF adopt(2), of tx] by (simp add: rows_map adopt_row_frame)
    then show ?thesis using r by simp
  next
    case (decide u)
    then show ?thesis using core_rows [OF decide(4), of tx] r by simp
  next
    case (drop u)
    have "tomb st' tx = Some u" if "tx = ts_tx u"
      using core_tomb [OF drop(5), of tx] tomb_add [OF drop(1)] that by simp
    moreover have "rows_of st' tx = rows_of st tx" if "tx \<noteq> ts_tx u"
      using core_rows [OF drop(5), of tx] that by (simp add: rows_forget)
    ultimately show ?thesis using drop(3) r by (cases "tx = ts_tx u") simp_all
  next
    case (execute x u q rs now)
    have "rows_of st' tx = rows_of (mark_committed now x st) tx"
      using apply_now_frame(3) [OF execute(5)] by (simp add: storedIntentIdentity_def)
    then show ?thesis using r by (simp add: marked)
  qed
  then show ?thesis using assms(2) t unfolding voted_for_def by blast
qed

lemma voted_effs: "(eff sql)\<^sup>*\<^sup>* st st' \<Longrightarrow> voted_for st tx \<Longrightarrow> voted_for st' tx"
  by (induction rule: rtranclp_induct) (auto dest: voted_eff)

text \<open>All statements of a committed transaction that are stored have been applied.\<close>

lemma committed_rows:
  assumes "shard_inv st" "phase_of st tx = P_committed" "r \<in> set (rows_of st tx)"
  shows "pd_status r = Committed"
proof -
  obtain q qs where q: "rows_of st tx = q # qs" using assms(3) by (cases "rows_of st tx") auto
  have c: "pd_status q = Committed"
    using assms(2) by (auto simp: phase_of_def phase_from_def q split: if_splits)
  have "q \<in> set (sh_pending st)" "r \<in> set (sh_pending st)" "pd_tx q = tx" "pd_tx r = tx"
    using assms(3) set_rows [of st tx] by (auto simp: q)
  then have "same_vote q r" using assms(1) by (simp add: shard_inv_def)
  then show ?thesis using c \<open>pd_tx q = tx\<close> \<open>pd_tx r = tx\<close> by (simp add: same_vote_def)
qed

lemma committed_phase:
  assumes "tomb st tx = Some t" "ts_decision t = ''commit''" "\<And>r. r \<in> set (rows_of st tx) \<Longrightarrow> pd_status r = Committed"
  shows "phase_of st tx = P_committed"
  using assms by (cases "rows_of st tx") (auto simp: phase_of_def phase_from_def)

lemma commit_acked:
  assumes inv: "shard_inv st" and r: "handleCommit dg sql now (phase_message ''commit'' tx e h) st = (reply, st')"
    and ok: "reply_ok reply"
  shows "phase_of st' tx = P_committed"
proof -
  obtain m where m: "participantPayload dg st (phase_message ''commit'' tx e h) ''commit'' None = Inr m"
    using r ok by (cases "participantPayload dg st (phase_message ''commit'' tx e h) ''commit'' None") (auto simp: handleCommit_def)
  have tx: "mg_tx m = tx" by (rule message_tx [OF m])
  obtain u where c: "assertMessageCompatible m st = Inr u"
    using r ok by (cases "assertMessageCompatible m st") (auto simp: handleCommit_def m)
  note H = r [unfolded handleCommit_def m sum.case c tx tombstone_ok [OF inv]]
  show ?thesis
  proof (cases "rows_of st tx")
    case Nil
    then obtain t where "tomb st tx = Some t" "ts_decision t = ''commit''" "st' = st"
      using H ok by (auto split: option.splits if_splits)
    then show ?thesis using Nil by (intro committed_phase) auto
  next
    case (Cons r rs)
    obtain st1 where p: "persistTombstone m ''commit'' now st = Inr st1"
      using H ok by (cases "persistTombstone m ''commit'' now st") (auto simp: Cons split: if_splits)
    have d: "shard_inv st1" "rows_of st1 tx = r # rs" "\<exists>t. tomb st1 tx = Some t \<and> ts_decision t = ''commit''"
      using decide_commit_effs [OF inv p, where sql = sql and tx = tx] Cons tx by simp_all
    then obtain t where t: "tomb st1 tx = Some t" "ts_decision t = ''commit''" by blast
    show ?thesis
    proof (cases "pd_status r = Committed")
      case True
      then have "st' = st1" using H by (simp add: Cons p)
      then show ?thesis using t True by (simp add: phase_of_def phase_from_def d(2))
    next
      case False
      then have "pd_status r \<noteq> Aborted" using ok H by (auto simp: Cons)
      then obtain st2 where a: "apply_now sql now tx st1 = Inr st2" "st' = st2"
        using H ok False by (cases "apply_now sql now tx st1") (auto simp: Cons p)
      then show ?thesis using phase_execute [OF t(1) d(2) a(1)] by simp
    qed
  qed
qed

end
