(* ===== verification/CommitSystem.thy ===== *)
theory CommitSystem
  imports CommitOrigins
begin

text \<open>
  Two-phase commit as a whole: a coordinator, its waiting procedures and the shards. Requests, alarms,
  answers, deliveries of messages, sweeps and the ends of retentions come in any order; a message is
  delivered any number of times, or never, once a procedure has sent it, also long after the
  procedure that sent it ended; answers of shards and of the coordinator are used as late.
\<close>

section \<open>The cluster\<close>

record 'db cluster =
  cl_co :: coordinator
  cl_steps :: "co_step set"
  cl_shards :: "string \<Rightarrow> 'db shard"
  cl_votes :: replies
  cl_acks :: replies
  cl_answers :: "(string \<times> jval) set"
  cl_expired :: replies

definition new_cluster :: "(string \<Rightarrow> 'db) \<Rightarrow> 'db cluster" where
  "new_cluster dbs = \<lparr>cl_co = new_coordinator, cl_steps = {}, cl_shards = (\<lambda>sh. new_shard (dbs sh)), cl_votes = {},
     cl_acks = {}, cl_answers = {}, cl_expired = {}\<rparr>"

text \<open>The request that enters the coordinator, or its alarm.\<close>

inductive entered :: "co_env \<Rightarrow> coordinator \<Rightarrow> co_step \<times> coordinator \<Rightarrow> bool" for env co where
  begin_tx: "entered env co (handleBegin env gate body co)"
| force_abort: "entered env co (handleForceAbort env gate tx co)"
| resolve: "entered env co (handleResolveManifestQuarantine env gate rbody co)"
| alarm: "entered env co (co_alarm_start co)"

text \<open>What a waiting procedure has sent, whatever wraps its answer.\<close>

primrec sending :: "co_step \<Rightarrow> co_step" where
  "sending (S_done r) = S_done r"
| "sending (S_under w s) = sending s"
| "sending (S_begin body existing) = S_begin body existing"
| "sending (S_assign body h request t a) = S_assign body h request t a"
| "sending (S_reserve row) = S_reserve row"
| "sending (S_reserve_sent row h) = S_reserve_sent row h"
| "sending (S_prepare row) = S_prepare row"
| "sending (S_decide_abort row k) = S_decide_abort row k"
| "sending (S_abort row k) = S_abort row k"
| "sending (S_abort_sent row m legacy) = S_abort_sent row m legacy"
| "sending (S_cancel row) = S_cancel row"
| "sending (S_cancel_reserve row request) = S_cancel_reserve row request"
| "sending (S_cancel_sent row request) = S_cancel_sent row request"
| "sending (S_decide_commit row) = S_decide_commit row"
| "sending (S_record_commit row intent request) = S_record_commit row intent request"
| "sending (S_finalize row) = S_finalize row"
| "sending (S_finalize_sent row s request) = S_finalize_sent row s request"
| "sending (S_register row s completed r h) = S_register row s completed r h"
| "sending (S_commit row) = S_commit row"
| "sending (S_commit_sent row) = S_commit_sent row"
| "sending (S_release row) = S_release row"
| "sending (S_release_sent row request) = S_release_sent row request"
| "sending (S_resolve row body intent request) = S_resolve row body intent request"
| "sending (S_alarm work row) = S_alarm work row"
| "sending (S_retry tx action) = S_retry tx action"
| "sending (S_legacy row) = S_legacy row"

text \<open>The body of a call to a participant.\<close>

definition participantMessage :: "tx_row \<Rightarrow> string \<Rightarrow> jval" where
  "participantMessage row phase = phase_message phase (rw_tx row) (rw_epoch row) (rw_hash row)"

definition abort_message :: "tx_row \<Rightarrow> bool \<Rightarrow> jval" where
  "abort_message row legacy = (case participantMessage row ''abort'' of
     JObj fs \<Rightarrow> JObj (fs @ (if legacy then [(''legacy_predecision_abort'', JBool True)] else [])) | j \<Rightarrow> j)"

definition set_shard :: "string \<Rightarrow> 'db shard \<Rightarrow> 'db cluster \<Rightarrow> 'db cluster" where
  "set_shard sh st W = W\<lparr>cl_shards := (cl_shards W)(sh := st)\<rparr>"

definition pruned :: "int \<Rightarrow> 'db shard \<Rightarrow> string \<Rightarrow> bool" where
  "pruned now st tx \<longleftrightarrow> tomb st tx \<noteq> None \<and> tomb (prune_tombstones now st) tx = None"

text \<open>
  \<open>data\<close> is any other request of a shard: it may change the tenant tables, their provenance, the
  mirror queue and the alarm, and writes nothing of two-phase commit.
\<close>

inductive cluster_step :: "co_env \<Rightarrow> 'db sql_engine \<Rightarrow> 'db cluster \<Rightarrow> 'db cluster \<Rightarrow> bool" for env sql W where
  enter: "entered env (cl_co W) (s, co) \<Longrightarrow> cluster_step env sql W (W\<lparr>cl_co := co, cl_steps := insert s (cl_steps W)\<rparr>)"
| go_on: "s \<in> cl_steps W \<Longrightarrow> input_ok (cl_votes W) (cl_acks W) i s \<Longrightarrow> advance env now i s (cl_co W) = (s', co)
    \<Longrightarrow> cluster_step env sql W (W\<lparr>cl_co := co, cl_steps := insert s' (cl_steps W)\<rparr>)"
| answer: "co_handleTxStatus env tx (cl_co W) = Inr (R_status j)
    \<Longrightarrow> cluster_step env sql W (W\<lparr>cl_answers := insert (tx, j) (cl_answers W)\<rparr>)"
| prepare: "s \<in> cl_steps W \<Longrightarrow> sending s = S_prepare row \<Longrightarrow> p \<in> set (rw_participants row)
    \<Longrightarrow> handlePrepare (ev_digest env) sql port now (participantMessage row ''prepare'') (Some (bg_intents p))
          (cl_shards W (bg_shard p)) = (reply, st)
    \<Longrightarrow> cluster_step env sql W ((set_shard (bg_shard p) st W)
          \<lparr>cl_votes := (if reply_ok reply then insert (bg_shard p, rw_tx row) (cl_votes W) else cl_votes W)\<rparr>)"
| commit: "s \<in> cl_steps W \<Longrightarrow> sending s = S_commit_sent row \<Longrightarrow> p \<in> set (rw_participants row)
    \<Longrightarrow> handleCommit (ev_digest env) sql now (participantMessage row ''commit'') (cl_shards W (bg_shard p)) = (reply, st)
    \<Longrightarrow> cluster_step env sql W ((set_shard (bg_shard p) st W)
          \<lparr>cl_acks := (if reply_ok reply then insert (bg_shard p, rw_tx row) (cl_acks W) else cl_acks W)\<rparr>)"
| abort: "s \<in> cl_steps W \<Longrightarrow> sending s = S_abort_sent row m legacy \<Longrightarrow> p \<in> set (rw_participants row)
    \<Longrightarrow> handleAbort (ev_digest env) now (abort_message m legacy) (cl_shards W (bg_shard p)) = (reply, st)
    \<Longrightarrow> cluster_step env sql W (set_shard (bg_shard p) st W)"
| sweep: "(\<And>tx j. ask tx = Some j \<Longrightarrow> (tx, j) \<in> cl_answers W)
    \<Longrightarrow> cluster_step env sql W (set_shard sh (sweepStalePendingIntents sql now ask (cl_shards W sh)) W)"
| prune: "cluster_step env sql W ((set_shard sh (prune_tombstones now (cl_shards W sh)) W)
    \<lparr>cl_expired := cl_expired W \<union> {p. fst p = sh \<and> pruned now (cl_shards W sh) (snd p)}\<rparr>)"
| data: "cluster_step env sql W (set_shard sh ((cl_shards W sh)
    \<lparr>sh_db := db, sh_owners := owners, sh_mirror := jobs, sh_alarm := at\<rparr>) W)"
| fence_vbucket: "cluster_step env sql W (set_shard sh (handleFenceVbucket vb (cl_shards W sh)) W)"
| unfence_vbucket: "cluster_step env sql W (set_shard sh (handleUnfenceVbucket vb (cl_shards W sh)) W)"
| fence_ring: "cluster_step env sql W (set_shard sh (handleFenceIndexRing ix (cl_shards W sh)) W)"
| unfence_ring: "cluster_step env sql W (set_shard sh (handleUnfenceIndexRing ix (cl_shards W sh)) W)"

section \<open>Decisions of the coordinator\<close>

definition decided :: "coordinator \<Rightarrow> string \<Rightarrow> string \<Rightarrow> bool" where
  "decided co tx d \<longleftrightarrow> (\<exists>row. loadTx tx co = Some row
     \<and> (if d = ''commit'' then commit_side row \<and> rw_record row \<noteq> None else abort_side row))"

lemma decided_mono: "decided co tx d \<Longrightarrow> co_advances co co' \<Longrightarrow> decided co' tx d"
proof -
  assume "decided co tx d" and a: "co_advances co co'"
  then obtain row where l: "loadTx tx co = Some row"
    and d: "if d = ''commit'' then commit_side row \<and> rw_record row \<noteq> None else abort_side row"
    unfolding decided_def by blast
  obtain row' where l': "loadTx tx co' = Some row'" "later row row'" using a l unfolding co_advances_def by blast
  have "if d = ''commit'' then commit_side row' \<and> rw_record row' \<noteq> None else abort_side row'"
  proof (cases "d = ''commit''")
    case True
    then show ?thesis using d l'(2) unfolding commit_side_def later_def by simp
  next
    case False
    then show ?thesis using d l'(2) unfolding abort_side_def later_def by (simp only: if_False) (elim disjE; simp)
  qed
  then show ?thesis unfolding decided_def using l'(1) by blast
qed

lemma decided_once:
  assumes "co_inv env V A co" "decided co tx d" "decided co tx e"
  shows "(d = ''commit'') = (e = ''commit'')"
proof -
  obtain row where l: "loadTx tx co = Some row"
    and d: "if d = ''commit'' then commit_side row \<and> rw_record row \<noteq> None else abort_side row"
    using assms(2) unfolding decided_def by blast
  have e: "if e = ''commit'' then commit_side row \<and> rw_record row \<noteq> None else abort_side row"
    using assms(3) l unfolding decided_def by (metis option.sel)
  show ?thesis using d e row_exclusive [OF inv_row [OF assms(1) l]] by (cases "d = ''commit''"; cases "e = ''commit''") simp_all
qed

definition answer_ok :: "coordinator \<Rightarrow> string \<Rightarrow> jval \<Rightarrow> bool" where
  "answer_ok co tx j \<longleftrightarrow>
     (rc_decision (queryCoordinatorDecision (Some j)) = CD_committed \<longrightarrow> decided co tx ''commit'')
     \<and> (rc_decision (queryCoordinatorDecision (Some j)) = CD_aborted \<longrightarrow> decided co tx ''abort'')"

lemma answer_mono:
  assumes "answer_ok co tx j" "co_advances co co'"
  shows "answer_ok co' tx j"
proof -
  have "decided co tx d \<longrightarrow> decided co' tx d" for d using decided_mono [OF _ assms(2)] by blast
  then show ?thesis using assms(1) unfolding answer_ok_def by (elim conjE) (intro conjI impI; drule (1) mp; erule mp [rotated]; simp)
qed

lemma state_texts:
  "state_text s = ''committed'' \<longleftrightarrow> s = tx_state.Committed" "state_text s = ''abort_decided'' \<longleftrightarrow> s = Abort_decided"
  "state_text s = ''aborting'' \<longleftrightarrow> s = Aborting" "state_text s = ''aborted'' \<longleftrightarrow> s = tx_state.Aborted"
  by (cases s; simp add: state_text_def TRANSACTION_STATES_def)+

lemma status_fields:
  "jget (status_json row s cs) ''found'' = JBool True" "jget (status_json row s cs) ''status'' = JStr (state_text s)"
  "jget (status_json row s cs) ''commitAuthorized'' = JBool (s \<in> set authorized_states)"
  "jget (status_json row s cs) ''discarded_by_restore'' = JUndef"
  by (simp_all add: status_json_def)

lemma status_decision:
  "rc_decision (queryCoordinatorDecision (Some (status_json row s cs))) =
    (if s \<in> set authorized_states then CD_committed
     else if s \<in> {Abort_decided, Aborting, tx_state.Aborted} then CD_aborted else CD_pending)"
proof -
  have c: "tx_state.Committed \<in> set authorized_states" by (simp add: authorized_states_def)
  have d: "JUndef \<noteq> JBool True" by simp
  show ?thesis
    unfolding queryCoordinatorDecision_def option.case status_fields Let_def jval.inject state_texts
    by (simp only: if_distrib [where f = rc_decision] recovery.select_convs insert_iff empty_iff) (use c d in auto)
qed

lemma answer_now:
  assumes inv: "co_inv env V A co" and a: "co_handleTxStatus env tx co = Inr (R_status j)"
  shows "answer_ok co tx j"
proof (cases "loadTx tx co")
  case None
  then have "j = JObj [(''found'', JBool False)]"
    using a inv by (auto simp: co_handleTxStatus_def co_inv_def split: if_splits)
  then have "rc_decision (queryCoordinatorDecision (Some j)) = CD_unreachable" by (simp add: queryCoordinatorDecision_def)
  then show ?thesis by (simp add: answer_ok_def)
next
  case (Some row)
  have r: "row_inv env V A row" by (rule inv_row [OF inv Some])
  have n: "co_discard co = None" using inv by (simp add: co_inv_def)
  obtain cs where j: "j = status_json row (rw_status row) cs"
    using a by (auto simp: co_handleTxStatus_def n Some row_state [OF r] and_then_ok split: if_splits)
  have s: "side_ok (rw_status row) (rw_finalize_request row \<noteq> None) (rw_cancel_request row \<noteq> None) (rw_record row \<noteq> None)"
    using r by (simp add: row_inv_def)
  have "rw_status row \<in> set authorized_states \<Longrightarrow> commit_side row \<and> rw_record row \<noteq> None"
    and "rw_status row \<in> {Abort_decided, Aborting, tx_state.Aborted} \<Longrightarrow> abort_side row"
    using s by (auto simp: authorized_states_def commit_side_def abort_side_def)
  then show ?thesis
    unfolding answer_ok_def j status_decision decided_def Some by (auto split: if_splits)
qed

section \<open>The invariant\<close>

definition cluster_inv :: "co_env \<Rightarrow> 'db cluster \<Rightarrow> bool" where
  "cluster_inv env W \<longleftrightarrow>
     co_inv env (cl_votes W) (cl_acks W) (cl_co W)
     \<and> (\<forall>s\<in>cl_steps W. step_ok env (cl_votes W) (cl_acks W) (cl_co W) s)
     \<and> (\<forall>sh. shard_inv (cl_shards W sh))
     \<and> (\<forall>sh tx t. tomb (cl_shards W sh) tx = Some t \<longrightarrow> decided (cl_co W) tx (ts_decision t))
     \<and> (\<forall>tx j. (tx, j) \<in> cl_answers W \<longrightarrow> answer_ok (cl_co W) tx j)
     \<and> (\<forall>sh tx. (sh, tx) \<in> cl_votes W \<longrightarrow> (sh, tx) \<in> cl_expired W \<or> voted_for (cl_shards W sh) tx)
     \<and> (\<forall>sh tx. (sh, tx) \<in> cl_acks W \<longrightarrow> (sh, tx) \<in> cl_expired W \<or> phase_of (cl_shards W sh) tx = P_committed)"

lemma cluster_invD:
  assumes "cluster_inv env W"
  shows "co_inv env (cl_votes W) (cl_acks W) (cl_co W)"
    "s \<in> cl_steps W \<Longrightarrow> step_ok env (cl_votes W) (cl_acks W) (cl_co W) s"
    "shard_inv (cl_shards W sh)"
    "tomb (cl_shards W sh) tx = Some t \<Longrightarrow> decided (cl_co W) tx (ts_decision t)"
    "(tx, j) \<in> cl_answers W \<Longrightarrow> answer_ok (cl_co W) tx j"
    "(sh, tx) \<in> cl_votes W \<Longrightarrow> (sh, tx) \<in> cl_expired W \<or> voted_for (cl_shards W sh) tx"
    "(sh, tx) \<in> cl_acks W \<Longrightarrow> (sh, tx) \<in> cl_expired W \<or> phase_of (cl_shards W sh) tx = P_committed"
  using assms unfolding cluster_inv_def by blast+

lemma new_cluster_inv: "cluster_inv env (new_cluster dbs)"
proof -
  have "co_inv env {} {} new_coordinator" by (simp add: co_inv_def new_coordinator_def loadTx_def queued_def tbl_get_def)
  moreover have "tomb (new_shard db) tx = None" for db :: 'a and tx by (simp add: tomb_def new_shard_def tbl_get_def)
  ultimately show ?thesis by (simp add: cluster_inv_def new_cluster_def new_shard_inv)
qed

lemma co_inv_mono: "co_inv env V A co \<Longrightarrow> V \<subseteq> V' \<Longrightarrow> A \<subseteq> A' \<Longrightarrow> co_inv env V' A' co"
  using row_inv_mono [of env V A _ V' A'] by (simp add: co_inv_def)

text \<open>A step of the coordinator.\<close>

lemma co_step_inv:
  assumes inv: "cluster_inv env W" and k: "co_keeps env (cl_votes W) (cl_acks W) (cl_co W) (s, co)"
  shows "cluster_inv env (W\<lparr>cl_co := co, cl_steps := insert s (cl_steps W)\<rparr>)"
proof -
  have c: "co_inv env (cl_votes W) (cl_acks W) co" "co_advances (cl_co W) co" "step_ok env (cl_votes W) (cl_acks W) co s"
    using k by (simp_all add: co_keeps_def)
  have s: "step_ok env (cl_votes W) (cl_acks W) co x" if "x \<in> cl_steps W" for x
    by (rule step_mono [OF c(2) subset_refl subset_refl cluster_invD(2) [OF inv that]])
  have t: "decided co tx (ts_decision t)" if "tomb (cl_shards W sh) tx = Some t" for sh tx t
    by (rule decided_mono [OF cluster_invD(4) [OF inv that] c(2)])
  have a: "answer_ok co tx j" if "(tx, j) \<in> cl_answers W" for tx j
    by (rule answer_mono [OF cluster_invD(5) [OF inv that] c(2)])
  show ?thesis
    unfolding cluster_inv_def using c(1,3) s t a cluster_invD(3,6,7) [OF inv] by simp
qed

lemma entered_keeps: "co_inv env V A co \<Longrightarrow> entered env co r \<Longrightarrow> co_keeps env V A co r"
  by (erule entered.cases)
    (simp_all add: handleBegin_keeps handleForceAbort_keeps handleResolve_keeps co_alarm_start_keeps)

text \<open>A step of a shard by the effects of its handlers.\<close>

lemma shard_step_inv:
  assumes inv: "cluster_inv env W" and e: "(eff sql)\<^sup>*\<^sup>* (cl_shards W sh) st"
    and t: "tombs_by (decided (cl_co W)) (cl_shards W sh) st"
    and V: "cl_votes W \<subseteq> V" "\<And>a tx. (a, tx) \<in> V \<Longrightarrow> (a, tx) \<notin> cl_votes W \<Longrightarrow> a = sh \<and> voted_for st tx"
    and A: "cl_acks W \<subseteq> A" "\<And>a tx. (a, tx) \<in> A \<Longrightarrow> (a, tx) \<notin> cl_acks W \<Longrightarrow> a = sh \<and> phase_of st tx = P_committed"
  shows "cluster_inv env ((set_shard sh st W)\<lparr>cl_votes := V, cl_acks := A\<rparr>)"
proof -
  have r: "shard_inv st" "(proto sql)\<^sup>*\<^sup>* (abs_shard (cl_shards W sh)) (abs_shard st)"
    using effs_refine [OF e cluster_invD(3) [OF inv]] by simp_all
  have idle: "voted_for st tx" if "voted_for (cl_shards W sh) tx" for tx by (rule voted_effs [OF e that])
  have fin: "phase_of st tx = P_committed" if "phase_of (cl_shards W sh) tx = P_committed" for tx
    using protos_final [OF r(2), of tx] that by (simp add: abs_shard_def)
  have s: "cl_shards (set_shard sh st W) x = (if x = sh then st else cl_shards W x)" for x by (simp add: set_shard_def)
  have oth: "cl_co (set_shard sh st W) = cl_co W" "cl_steps (set_shard sh st W) = cl_steps W"
    "cl_answers (set_shard sh st W) = cl_answers W" "cl_expired (set_shard sh st W) = cl_expired W"
    by (simp_all add: set_shard_def)
  have tombs: "decided (cl_co W) tx (ts_decision t)" if "tomb (if x = sh then st else cl_shards W x) tx = Some t" for x tx t
  proof (cases "x = sh")
    case True
    then have "tomb (cl_shards W sh) tx = Some t \<or> decided (cl_co W) tx (ts_decision t)"
      using that t unfolding tombs_by_def by simp
    then show ?thesis using cluster_invD(4) [OF inv] by blast
  next
    case False
    then show ?thesis using that cluster_invD(4) [OF inv, of x tx t] by simp
  qed
  have votes: "(x, tx) \<in> cl_expired W \<or> voted_for (if x = sh then st else cl_shards W x) tx" if v: "(x, tx) \<in> V" for x tx
  proof (cases "(x, tx) \<in> cl_votes W")
    case True
    then show ?thesis using cluster_invD(6) [OF inv True] idle [of tx] by (cases "x = sh") (simp_all, blast)
  qed (use V(2) [OF v] in simp)
  have acks: "(x, tx) \<in> cl_expired W \<or> phase_of (if x = sh then st else cl_shards W x) tx = P_committed" if a: "(x, tx) \<in> A" for x tx
  proof (cases "(x, tx) \<in> cl_acks W")
    case True
    then show ?thesis using cluster_invD(7) [OF inv True] fin [of tx] by (cases "x = sh") (simp_all, blast)
  qed (use A(2) [OF a] in simp)
  have co: "co_inv env V A (cl_co W)"
    by (rule co_inv_mono [OF cluster_invD(1) [OF inv] V(1) A(1)])
  have steps: "step_ok env V A (cl_co W) x" if "x \<in> cl_steps W" for x
    by (rule step_mono [OF co_advances_refl V(1) A(1) cluster_invD(2) [OF inv that]])
  show ?thesis
    unfolding cluster_inv_def by (simp add: s oth co steps r(1) cluster_invD(3,5) [OF inv] tombs votes acks)
qed

end
