(* ===== verification/CommitTheorems.thy ===== *)
theory CommitTheorems
  imports CommitSystem
begin

text \<open>
  What two-phase commit promises: every step of the cluster keeps its invariant, so participants never
  disagree, a commit has every vote and a manifest record behind it, and what the coordinator
  answers is what the participants do.
\<close>

section \<open>Every step keeps the invariant\<close>

lemma sending_ok: "step_ok env V A co s \<Longrightarrow> step_ok env V A co (sending s)"
  by (induction s) simp_all

lemma prepare_reply:
  assumes "handlePrepare dg sql port now raw is st = (reply, st')" "reply_ok reply"
  obtains n b where "reply = Prepare_ok n b"
proof -
  have c: "\<exists>n b. fst (certifiedPrepareResponse port now x k s) = Prepare_ok n b \<or> \<not> reply_ok (fst (certifiedPrepareResponse port now x k s))"
    for x k and s :: "'a shard"
    by (auto simp: certifiedPrepareResponse_def Let_def split: option.splits)
  have n: "(\<exists>n b. fst (prepare_new sql port now m is st) = Prepare_ok n b) \<or> \<not> reply_ok (fst (prepare_new sql port now m is st))" for m "is"
    using c by (auto simp: prepare_new_def split: option.splits validation.splits)
  have "(\<exists>n b. fst (handlePrepare dg sql port now raw is st) = Prepare_ok n b) \<or> \<not> reply_ok (fst (handlePrepare dg sql port now raw is st))"
    using c n by (auto simp: handlePrepare_def Let_def split: option.splits sum.splits)
  then show ?thesis using assms that by auto
qed

text \<open>What a procedure that sends a decision knows.\<close>

lemma known_later:
  assumes "known env V A co row"
  obtains cur where "loadTx (rw_tx row) co = Some cur" "later row cur"
  using assms unfolding known_def by blast

lemma commit_sent_decided:
  assumes inv: "cluster_inv env W" and s: "s \<in> cl_steps W" "sending s = S_commit_sent row"
  shows "decided (cl_co W) (rw_tx row) ''commit''"
proof -
  have "step_ok env (cl_votes W) (cl_acks W) (cl_co W) (S_commit_sent row)"
    using sending_ok [OF cluster_invD(2) [OF inv s(1)]] s(2) by simp
  then have k: "known env (cl_votes W) (cl_acks W) (cl_co W) row" "commit_side row" "rw_record row \<noteq> None" by simp_all
  obtain cur where "loadTx (rw_tx row) (cl_co W) = Some cur" "later row cur" by (rule known_later [OF k(1)])
  then show ?thesis using k(2,3) unfolding decided_def later_def commit_side_def by simp
qed

lemma abort_sent_decided:
  assumes inv: "cluster_inv env W" and s: "s \<in> cl_steps W" "sending s = S_abort_sent row m legacy"
  shows "decided (cl_co W) (rw_tx m) ''abort''" "abort_message m legacy = participantMessage m ''abort''"
proof -
  have "step_ok env (cl_votes W) (cl_acks W) (cl_co W) (S_abort_sent row m legacy)"
    using sending_ok [OF cluster_invD(2) [OF inv s(1)]] s(2) by simp
  then have k: "known env (cl_votes W) (cl_acks W) (cl_co W) row" "rw_cancel_request row \<noteq> None" "m = row" "\<not> legacy" by simp_all
  obtain cur where "loadTx (rw_tx row) (cl_co W) = Some cur" "later row cur" by (rule known_later [OF k(1)])
  then show "decided (cl_co W) (rw_tx m) ''abort''" using k(2,3) unfolding decided_def later_def abort_side_def by simp
  show "abort_message m legacy = participantMessage m ''abort''"
    using k(4) by (simp add: abort_message_def participantMessage_def phase_message_def)
qed

lemma phase_prune:
  assumes "shard_inv st" "\<not> pruned now st tx"
  shows "phase_of (prune_tombstones now st) tx = phase_of st tx"
proof -
  have "tomb (prune_tombstones now st) tx = tomb st tx"
    using assms unfolding pruned_def tomb_prune [OF assms(1)] by (auto split: option.splits if_splits)
  then show ?thesis by (simp add: phase_of_def prune_tombstones_def storedIntentIdentity_def)
qed

lemma voted_prune:
  assumes "shard_inv st" "\<not> pruned now st tx"
  shows "voted_for (prune_tombstones now st) tx = voted_for st tx"
proof -
  have "tomb (prune_tombstones now st) tx = tomb st tx"
    using assms unfolding pruned_def tomb_prune [OF assms(1)] by (auto split: option.splits if_splits)
  then show ?thesis by (simp add: voted_for_def prune_tombstones_def storedIntentIdentity_def)
qed

lemma prune_inv:
  assumes inv: "cluster_inv env W"
  shows "cluster_inv env ((set_shard sh (prune_tombstones now (cl_shards W sh)) W)
    \<lparr>cl_expired := cl_expired W \<union> {p. fst p = sh \<and> pruned now (cl_shards W sh) (snd p)}\<rparr>)"
proof -
  let ?st = "prune_tombstones now (cl_shards W sh)"
  note S = cluster_invD(3) [OF inv, of sh]
  have tombs: "decided (cl_co W) tx (ts_decision t)" if t: "tomb (if x = sh then ?st else cl_shards W x) tx = Some t" for x tx t
  proof -
    have "tomb (cl_shards W x) tx = Some t"
      using t unfolding tomb_prune [OF S] by (cases "x = sh") (auto simp: tomb_prune [OF S] split: option.splits if_splits)
    then show ?thesis by (rule cluster_invD(4) [OF inv])
  qed
  have phases: "(x = sh \<and> pruned now (cl_shards W sh) tx) \<or> phase_of (if x = sh then ?st else cl_shards W x) tx = phase_of (cl_shards W x) tx" for x tx
    using phase_prune [OF S, of now tx] by auto
  have votes: "(x, tx) \<in> cl_expired W \<or> x = sh \<and> pruned now (cl_shards W sh) tx
      \<or> voted_for (if x = sh then ?st else cl_shards W x) tx" if v: "(x, tx) \<in> cl_votes W" for x tx
    using cluster_invD(6) [OF inv v] voted_prune [OF S, of now tx] by (cases "x = sh") auto
  have acks: "(x, tx) \<in> cl_expired W \<or> x = sh \<and> pruned now (cl_shards W sh) tx
      \<or> phase_of (if x = sh then ?st else cl_shards W x) tx = P_committed" if a: "(x, tx) \<in> cl_acks W" for x tx
    using phases [of x tx] cluster_invD(7) [OF inv a] by metis
  show ?thesis
    unfolding cluster_inv_def set_shard_def
    using cluster_invD(1,2) [OF inv] tombs votes acks by (simp add: cluster_invD(3,5) [OF inv] inv_prune [OF S])
qed

text \<open>A step of a shard that leaves votes and acknowledgements as they are.\<close>

lemma quiet_step_inv:
  assumes "cluster_inv env W" "(eff sql)\<^sup>*\<^sup>* (cl_shards W sh) st" "tombs_by (decided (cl_co W)) (cl_shards W sh) st"
  shows "cluster_inv env (set_shard sh st W)"
proof -
  have "(set_shard sh st W)\<lparr>cl_votes := cl_votes W, cl_acks := cl_acks W\<rparr> = set_shard sh st W" by (simp add: set_shard_def)
  then show ?thesis using shard_step_inv [OF assms subset_refl _ subset_refl] by simp
qed

lemma fence_inv:
  assumes inv: "cluster_inv env W" and c: "core st = core (cl_shards W sh)"
  shows "cluster_inv env (set_shard sh st W)"
  by (rule quiet_step_inv [OF inv effs_same [OF c] tombs_same]) (use c in \<open>simp add: core_def\<close>)

lemma sweep_decided:
  assumes inv: "cluster_inv env W" and a: "\<And>tx j. ask tx = Some j \<Longrightarrow> (tx, j) \<in> cl_answers W"
  shows "tombs_by (decided (cl_co W)) st (sweepStalePendingIntents sql now ask st)"
proof (rule sweep_by)
  fix tx
  have k: "answer_ok (cl_co W) tx j" if "ask tx = Some j" for j by (rule cluster_invD(5) [OF inv a [OF that]])
  have n: "rc_decision (queryCoordinatorDecision None) = CD_unreachable" by (simp add: queryCoordinatorDecision_def)
  show "decided (cl_co W) tx ''commit''" if "rc_decision (queryCoordinatorDecision (ask tx)) = CD_committed"
    using that k n unfolding answer_ok_def by (cases "ask tx") simp_all
  show "decided (cl_co W) tx ''abort''" if "rc_decision (queryCoordinatorDecision (ask tx)) = CD_aborted"
    using that k n unfolding answer_ok_def by (cases "ask tx") simp_all
qed

lemma prepare_inv:
  assumes inv: "cluster_inv env W"
    and h: "handlePrepare (ev_digest env) sql port now (participantMessage row ''prepare'') is (cl_shards W sh) = (reply, st)"
  shows "cluster_inv env ((set_shard sh st W)
     \<lparr>cl_votes := (if reply_ok reply then insert (sh, rw_tx row) (cl_votes W) else cl_votes W)\<rparr>)"
proof -
  let ?V = "if reply_ok reply then insert (sh, rw_tx row) (cl_votes W) else cl_votes W"
  note S = cluster_invD(3) [OF inv, of sh]
  have e: "(eff sql)\<^sup>*\<^sup>* (cl_shards W sh) st" using handlePrepare_effs [OF S] h by (metis snd_conv)
  have t: "tombs_by (decided (cl_co W)) (cl_shards W sh) st"
    by (rule tombs_same) (metis h prepare_tombs snd_conv)
  have v: "voted_for st (rw_tx row)" if ok: "reply_ok reply"
  proof -
    obtain n b where "reply = Prepare_ok n b" by (rule prepare_reply [OF h ok])
    then have "rows_of st (rw_tx row) \<noteq> []" by (intro prepared_voted [OF S]) (use h in \<open>simp add: participantMessage_def\<close>)
    then show ?thesis by (simp add: voted_for_def)
  qed
  have "cluster_inv env ((set_shard sh st W)\<lparr>cl_votes := ?V, cl_acks := cl_acks W\<rparr>)"
    by (rule shard_step_inv [OF inv e t]) (use v in \<open>auto split: if_splits\<close>)
  moreover have "(set_shard sh st W)\<lparr>cl_votes := ?V, cl_acks := cl_acks W\<rparr> = (set_shard sh st W)\<lparr>cl_votes := ?V\<rparr>"
    by (simp add: set_shard_def)
  ultimately show ?thesis by simp
qed

lemma commit_inv:
  assumes inv: "cluster_inv env W" and s: "s \<in> cl_steps W" "sending s = S_commit_sent row"
    and h: "handleCommit (ev_digest env) sql now (participantMessage row ''commit'') (cl_shards W sh) = (reply, st)"
  shows "cluster_inv env ((set_shard sh st W)
     \<lparr>cl_acks := (if reply_ok reply then insert (sh, rw_tx row) (cl_acks W) else cl_acks W)\<rparr>)"
proof -
  let ?A = "if reply_ok reply then insert (sh, rw_tx row) (cl_acks W) else cl_acks W"
  note S = cluster_invD(3) [OF inv, of sh]
  have e: "(eff sql)\<^sup>*\<^sup>* (cl_shards W sh) st" using handleCommit_effs [OF S] h by (metis snd_conv)
  have t: "tombs_by (decided (cl_co W)) (cl_shards W sh) st"
    using commit_by [where al = "decided (cl_co W)", OF commit_sent_decided [OF inv s]] h by (metis participantMessage_def snd_conv)
  have v: "reply_ok reply \<Longrightarrow> phase_of st (rw_tx row) = P_committed"
    by (rule commit_acked [OF S h [unfolded participantMessage_def]])
  have "cluster_inv env ((set_shard sh st W)\<lparr>cl_votes := cl_votes W, cl_acks := ?A\<rparr>)"
    by (rule shard_step_inv [OF inv e t]) (use v in \<open>auto split: if_splits\<close>)
  moreover have "(set_shard sh st W)\<lparr>cl_votes := cl_votes W, cl_acks := ?A\<rparr> = (set_shard sh st W)\<lparr>cl_acks := ?A\<rparr>"
    by (simp add: set_shard_def)
  ultimately show ?thesis by simp
qed

lemma data_inv:
  assumes inv: "cluster_inv env W"
  shows "cluster_inv env (set_shard sh ((cl_shards W sh)\<lparr>sh_db := db, sh_owners := owners, sh_mirror := jobs, sh_alarm := at\<rparr>) W)"
proof -
  let ?st = "(cl_shards W sh)\<lparr>sh_db := db, sh_owners := owners, sh_mirror := jobs, sh_alarm := at\<rparr>"
  have st: "?st = (cl_shards W sh)\<lparr>sh_db := db, sh_owners := owners, sh_mirror := jobs, sh_alarm := at\<rparr>" ..
  note f = data_frame [OF st]
  have v: "voted_for ?st tx = voted_for (cl_shards W sh) tx" for tx
    by (simp add: voted_for_def f(2)) (simp add: storedIntentIdentity_def)
  have "shard_inv (if x = sh then ?st else cl_shards W x)" for x
    using f(1) cluster_invD(3) [OF inv, of x] by (cases "x = sh") simp_all
  moreover have "tomb (if x = sh then ?st else cl_shards W x) tx = tomb (cl_shards W x) tx"
    "phase_of (if x = sh then ?st else cl_shards W x) tx = phase_of (cl_shards W x) tx"
    "voted_for (if x = sh then ?st else cl_shards W x) tx = voted_for (cl_shards W x) tx" for x tx
    using f(2,3) v by (cases "x = sh"; simp)+
  ultimately show ?thesis
    using inv unfolding cluster_inv_def set_shard_def by simp
qed

theorem cluster_step_inv:
  assumes "cluster_step env sql W W'" "cluster_inv env W"
  shows "cluster_inv env W'"
  using assms(1)
proof (cases rule: cluster_step.cases)
  case (enter s co)
  then show ?thesis using co_step_inv [OF assms(2) entered_keeps [OF cluster_invD(1) [OF assms(2)]]] by simp
next
  case (go_on s i now s' co)
  then show ?thesis
    using co_step_inv [OF assms(2)] advance_keeps [OF cluster_invD(1) [OF assms(2)] cluster_invD(2) [OF assms(2)]] by metis
next
  case (answer tx j)
  have n: "answer_ok (cl_co W) tx j" by (rule answer_now [OF cluster_invD(1) [OF assms(2)] answer(2)])
  then have "answer_ok (cl_co W) x k" if "(x, k) \<in> insert (tx, j) (cl_answers W)" for x k
    using that cluster_invD(5) [OF assms(2)] by auto
  then show ?thesis
    unfolding answer(1) cluster_inv_def using cluster_invD [OF assms(2)] by simp
next
  case (prepare s row p port now reply st)
  then show ?thesis using prepare_inv [OF assms(2) prepare(5)] by simp
next
  case (commit s row p now reply st)
  then show ?thesis using commit_inv [OF assms(2) commit(2,3,5)] by simp
next
  case (abort s row m legacy p now reply st)
  note d = abort_sent_decided [OF assms(2) abort(2,3)]
  note S = cluster_invD(3) [OF assms(2), of "bg_shard p"]
  have "(eff sql)\<^sup>*\<^sup>* (cl_shards W (bg_shard p)) st" using handleAbort_effs [OF S] abort(5) by (metis snd_conv)
  moreover have "tombs_by (decided (cl_co W)) (cl_shards W (bg_shard p)) st"
    using abort_by [where al = "decided (cl_co W)", OF d(1)] abort(5) unfolding d(2) by (metis participantMessage_def snd_conv)
  ultimately show ?thesis unfolding abort(1) by (rule quiet_step_inv [OF assms(2)])
next
  case (sweep ask sh now)
  then show ?thesis
    using quiet_step_inv [OF assms(2) sweepStale_effs [OF cluster_invD(3) [OF assms(2)]] sweep_decided [OF assms(2) sweep(2)]] by simp
next
  case (prune sh now)
  then show ?thesis using prune_inv [OF assms(2)] by simp
next
  case (data sh db owners jobs at)
  then show ?thesis using data_inv [OF assms(2)] by simp
qed (simp_all add: fence_inv [OF assms(2)] core_def handleFenceVbucket_def handleUnfenceVbucket_def
       handleFenceIndexRing_def handleUnfenceIndexRing_def)

definition cluster_run :: "co_env \<Rightarrow> 'db sql_engine \<Rightarrow> 'db cluster \<Rightarrow> 'db cluster \<Rightarrow> bool" where
  "cluster_run env sql = (cluster_step env sql)\<^sup>*\<^sup>*"

lemma run_keeps_inv: "cluster_run env sql W W' \<Longrightarrow> cluster_inv env W \<Longrightarrow> cluster_inv env W'"
  unfolding cluster_run_def by (induction rule: rtranclp_induct) (auto intro: cluster_step_inv)

lemma reached_inv: "cluster_run env sql (new_cluster dbs) W \<Longrightarrow> cluster_inv env W"
  by (rule run_keeps_inv [OF _ new_cluster_inv])

lemma step_advances:
  assumes "cluster_step env sql W W'" "cluster_inv env W"
  shows "co_advances (cl_co W) (cl_co W')"
  using assms(1)
proof (cases rule: cluster_step.cases)
  case (enter s co)
  then show ?thesis using entered_keeps [OF cluster_invD(1) [OF assms(2)]] by (auto simp: co_keeps_def)
next
  case (go_on s i now s' co)
  then have "co_keeps env (cl_votes W) (cl_acks W) (cl_co W) (s', co)"
    using advance_keeps [OF cluster_invD(1) [OF assms(2)] cluster_invD(2) [OF assms(2)]] by metis
  then show ?thesis using go_on(1) by (simp add: co_keeps_def)
qed (simp_all add: set_shard_def)

lemma run_advances:
  assumes "cluster_run env sql W W'" "cluster_inv env W"
  shows "co_advances (cl_co W) (cl_co W')"
  using assms unfolding cluster_run_def
proof (induction rule: rtranclp_induct)
  case (step Y Z)
  have "cluster_inv env Y" using step(1,4) run_keeps_inv unfolding cluster_run_def by blast
  then show ?case using step step_advances co_advances_trans by blast
qed simp

lemma reached_by_run:
  assumes "cluster_run env sql (new_cluster dbs) W" "cluster_run env sql W W'"
  shows "cluster_inv env W'" "co_advances (cl_co W) (cl_co W')"
  using reached_inv [OF assms(1)] run_keeps_inv [OF assms(2)] run_advances [OF assms(2)] by blast+

lemma tomb_commit_or_abort:
  assumes "cluster_inv env W" "tomb (cl_shards W sh) tx = Some t"
  shows "ts_decision t = ''commit'' \<or> ts_decision t = ''abort''"
  using tomb_decision [OF cluster_invD(3) [OF assms(1)] assms(2)] by blast

section \<open>What it promises\<close>

text \<open>
  C1: A transaction is decided once. In every run of a coordinator and its shards, from an empty
  start, whatever the order of requests, alarms, answers, deliveries, sweeps and expirations: the
  decision that one participant has recorded and the decision that any other participant has
  recorded, then or at any later time, are the same. No participant commits what another aborted.
\<close>

theorem atomic_commitment:
  assumes "cluster_run env sql (new_cluster dbs) W" "cluster_run env sql W W'"
    "tomb (cl_shards W a) tx = Some t" "tomb (cl_shards W' b) tx = Some u"
  shows "ts_decision t = ts_decision u"
proof -
  have inv: "cluster_inv env W" by (rule reached_inv [OF assms(1)])
  note later = reached_by_run [OF assms(1,2)]
  have "decided (cl_co W') tx (ts_decision t)" by (rule decided_mono [OF cluster_invD(4) [OF inv assms(3)] later(2)])
  moreover have "decided (cl_co W') tx (ts_decision u)" by (rule cluster_invD(4) [OF later(1) assms(4)])
  ultimately have "(ts_decision t = ''commit'') = (ts_decision u = ''commit'')"
    by (rule decided_once [OF cluster_invD(1) [OF later(1)]])
  then show ?thesis using tomb_commit_or_abort [OF inv assms(3)] tomb_commit_or_abort [OF later(1) assms(4)] by metis
qed

lemma voted_everyone:
  assumes inv: "cluster_inv env W" and row: "loadTx tx (cl_co W) = Some row" "commit_side row" and p: "p \<in> set (rw_participants row)"
  shows "(bg_shard p, tx) \<in> cl_expired W \<or> voted_for (cl_shards W (bg_shard p)) tx"
proof -
  have "everyone row \<subseteq> cl_votes W"
    using inv_row [OF cluster_invD(1) [OF inv] row(1)] row(2) by (simp add: row_inv_def)
  then have "(bg_shard p, tx) \<in> cl_votes W" using p loadTx_key [OF row(1)] by (auto simp: everyone_def)
  then show ?thesis by (rule cluster_invD(6) [OF inv])
qed



text \<open>
  C17: Committed means committed everywhere. When the coordinator reports a transaction as
  committed, every participant remembers the commit and still stores its statements, each of them
  marked as applied, unless the retention of a decision of its own is over.
\<close>

theorem committed_everywhere:
  assumes "cluster_run env sql (new_cluster dbs) W" "loadTx tx (cl_co W) = Some row" "rw_status row = tx_state.Committed"
  shows "list_all (\<lambda>p. (bg_shard p, tx) \<in> cl_expired W
      \<or> phase_of (cl_shards W (bg_shard p)) tx = P_committed
        \<and> storedIntentIdentity (cl_shards W (bg_shard p)) tx \<noteq> []
        \<and> list_all (\<lambda>r. pd_status r = Committed) (storedIntentIdentity (cl_shards W (bg_shard p)) tx)) (rw_participants row)"
proof -
  have inv: "cluster_inv env W" by (rule reached_inv [OF assms(1)])
  have r: "row_inv env (cl_votes W) (cl_acks W) row" by (rule inv_row [OF cluster_invD(1) [OF inv] assms(2)])
  have side: "commit_side row" using r assms(3) by (simp add: row_inv_def commit_side_def)
  have ack: "(bg_shard p, tx) \<in> cl_acks W" if "p \<in> set (rw_participants row)" for p
    using r assms(3) that loadTx_key [OF assms(2)] by (auto simp: row_inv_def everyone_def)
  have "phase_of st tx = P_committed \<Longrightarrow> voted_for st tx \<Longrightarrow> rows_of st tx \<noteq> []" for st :: "'a shard"
    by (cases "rows_of st tx") (auto simp: voted_for_def phase_of_def phase_from_def split: option.splits if_splits)
  then show ?thesis
    using cluster_invD(7) [OF inv ack] voted_everyone [OF inv assms(2) side] committed_rows [OF cluster_invD(3) [OF inv]]
    unfolding list_all_iff by blast
qed

text \<open>
  C18: The status a participant acts on is never contradicted. What a shard reads from a status
  answer of the coordinator, commit or abort, agrees with what it reads from any later answer and
  with the decision any participant has recorded by then.
\<close>

theorem status_never_contradicted:
  assumes "cluster_run env sql (new_cluster dbs) W" "cluster_run env sql W W'"
    "co_handleTxStatus env tx (cl_co W) = Inr (R_status j)" "co_handleTxStatus env tx (cl_co W') = Inr (R_status k)"
  defines "d \<equiv> rc_decision (queryCoordinatorDecision (Some j))"
    and "e \<equiv> rc_decision (queryCoordinatorDecision (Some k))"
  shows "(d, e) \<notin> {(CD_committed, CD_aborted), (CD_aborted, CD_committed)}
    \<and> (case tomb (cl_shards W' sh) tx of None \<Rightarrow> True
       | Some t \<Rightarrow> (d, ts_decision t) \<notin> {(CD_committed, ''abort''), (CD_aborted, ''commit'')})"
proof -
  have inv: "cluster_inv env W" by (rule reached_inv [OF assms(1)])
  note later = reached_by_run [OF assms(1,2)]
  have a: "answer_ok (cl_co W') tx j"
    by (rule answer_mono [OF answer_now [OF cluster_invD(1) [OF inv] assms(3)] later(2)])
  have b: "answer_ok (cl_co W') tx k" by (rule answer_now [OF cluster_invD(1) [OF later(1)] assms(4)])
  have one: "\<not> (decided (cl_co W') tx ''commit'' \<and> decided (cl_co W') tx ''abort'')"
    using decided_once [OF cluster_invD(1) [OF later(1)], of tx "''commit''" "''abort''"] by auto
  have "(d, ts_decision t) \<notin> {(CD_committed, ''abort''), (CD_aborted, ''commit'')}" if "tomb (cl_shards W' sh) tx = Some t" for t
    using a one cluster_invD(4) [OF later(1) that] unfolding answer_ok_def d_def by auto
  moreover have "(d, e) \<notin> {(CD_committed, CD_aborted), (CD_aborted, CD_committed)}"
    using a b one unfolding answer_ok_def d_def e_def by auto
  ultimately show ?thesis by (simp split: option.splits)
qed

text \<open>
  C19: What the coordinator stores of a transaction is consistent in every state it reaches. Its
  status is readable and its decision column is the one of its status; the operation hash is that of
  its participants; a finalization and a cancellation request never coexist; an aborting
  transaction has no finalization request, and one whose participants may be told to commit has the
  finalization request and the manifest record.
\<close>

theorem coordinator_row_consistent:
  assumes "cluster_run env sql (new_cluster dbs) W" "loadTx tx (cl_co W) = Some row"
  shows "stateOf row = Inr (rw_status row) \<and> rw_decision row = decisionForState (rw_status row)
    \<and> hashParticipantOperations (ev_digest env) (redoParticipants env (rw_participants row) 1) = Inr (rw_hash row)
    \<and> (rw_finalize_request row = None \<or> rw_cancel_request row = None)
    \<and> (if rw_status row \<in> set abort_states then rw_finalize_request row = None
       else if rw_status row \<in> set authorized_states then rw_finalize_request row \<noteq> None \<and> rw_record row \<noteq> None else True)"
proof -
  have r: "row_inv env (cl_votes W) (cl_acks W) row"
    by (rule inv_row [OF cluster_invD(1) [OF reached_inv [OF assms(1)]] assms(2)])
  have "rw_finalize_request row = None \<or> rw_cancel_request row = None"
    using row_exclusive [OF r] by (auto simp: commit_side_def abort_side_def)
  moreover have "if rw_status row \<in> set abort_states then rw_finalize_request row = None
       else if rw_status row \<in> set authorized_states then rw_finalize_request row \<noteq> None \<and> rw_record row \<noteq> None else True"
    using r by (cases "rw_status row") (simp_all add: row_inv_def abort_states_def authorized_states_def)
  ultimately show ?thesis using row_state [OF r] r by (simp add: row_inv_def)
qed

text \<open>
  C20: Recovery is never lost. In every state a coordinator reaches, a transaction that has been
  reserved or decided and is not finished has work in the recovery queue, except a cancellation
  that waits for an operator with its error recorded.
\<close>

theorem recovery_never_lost:
  assumes "cluster_run env sql (new_cluster dbs) W" "loadTx tx (cl_co W) = Some row"
    "rw_status row \<notin> {Preparing, tx_state.Prepared, tx_state.Committed, tx_state.Aborted, Quarantined}"
  shows "tbl_get rq_tx tx (co_queue (cl_co W)) \<noteq> None
    \<or> rw_status row = Aborted_pending_manifest_cancel \<and> rw_last_error row \<noteq> None"
proof -
  have inv: "co_inv env (cl_votes W) (cl_acks W) (cl_co W)" by (rule cluster_invD(1) [OF reached_inv [OF assms(1)]])
  have "needs_work row"
    using assms(3) inv_row [OF inv assms(2)] by (cases "rw_status row") (simp_all add: needs_work_def row_inv_def)
  then show ?thesis using inv_work [OF inv assms(2)] by (simp add: queued_def parked_cancel_def)
qed

end
