(* ===== verification/CommitSamples.thy ===== *)
theory CommitSamples
  imports CommitTheorems JournalSamples ShardSamples
begin

text \<open>
  A run of the whole protocol: one transaction with two participants is begun, reserved, prepared,
  decided, finalized and committed. Its states are the witnesses of the theorems on two-phase commit.
\<close>

section \<open>The transaction\<close>

lemma zero_nonempty: "ZERO_HASH \<noteq> []"
  by (simp add: ZERO_HASH_def)

definition sample_env :: co_env where
  "sample_env = \<lparr>ev_digest = zero_digest, ev_collate = (\<lambda>s. s), ev_restore_bound = False, ev_fleet = ''f''\<rparr>"

definition part_a :: begin_participant where "part_a = \<lparr>bg_shard = ''a'', bg_intents = [vote_intent ''k'']\<rparr>"
definition part_b :: begin_participant where "part_b = \<lparr>bg_shard = ''b'', bg_intents = [vote_intent ''l'']\<rparr>"

definition sample_body :: begin_payload where
  "sample_body = \<lparr>bq_tx = ''t'', bq_fleet = ''f'', bq_coordinator = ''c'', bq_participants = [part_a, part_b]\<rparr>"

definition assigned :: jval where
  "assigned = reservation_json (JStr ''f'')
     \<lparr>rt_day = utc_day 0, rt_partition = 0, rt_partition_count = 16,
      rt_routing_key = routing_key_of (utc_day 0) 0, rt_config_hash = replicate 64 (CHR ''b'')\<rparr>
     (JStr ''t'') (JStr ''c'') (JStr ZERO_HASH) (jint 1) (JStr (toISOString 0))"

lemma assigned_hash: "hashManifestReservation zero_digest assigned = Inr ZERO_HASH"
proof -
  have t: "time_in_range 0" by (simp add: time_in_range_def)
  have y: "four_digit_year 0" by code_simp
  have p: "digest_partition zero_digest s = 0" for s by code_simp
  have r: "manifestReservationRoute zero_digest (JStr ''t'') (JStr (toISOString 0)) (JStr (replicate 64 (CHR ''b'')))
     = Inr \<lparr>rt_day = utc_day 0, rt_partition = 0, rt_partition_count = 16,
      rt_routing_key = routing_key_of (utc_day 0) 0, rt_config_hash = replicate 64 (CHR ''b'')\<rparr>"
    unfolding reservationRoute_iff using t sample_hex(2) by (auto simp: p simp del: replicate.simps)
  have v: "validateManifestReservation assigned = Inr ()"
    unfolding assigned_def created_reservation_valid_iff [OF r refl t]
    using y sample_hex by (simp add: max_safe_integer_def del: replicate.simps)
  have "\<exists>x. canonicalJson assigned = Inr x"
    unfolding assigned_def by (rule created_reservation_text) simp_all
  then show ?thesis
    using v by (auto simp: hash_reservation_iff p assigned_def reservation_fields hashCanonicalJson_def zero_hex)
qed

lemma assigned_valid: "validateManifestReservation assigned = Inr ()"
  using assigned_hash by (simp add: hash_reservation_iff)

lemma assigned_fields:
  "jget assigned ''fleet_id'' = JStr ''f''" "jget assigned ''tx_id'' = JStr ''t''"
  "jget assigned ''coordinator_id'' = JStr ''c''" "jget assigned ''operation_hash'' = JStr ZERO_HASH"
  "jget assigned ''decision_epoch'' = jint 1"
  by (simp_all add: assigned_def reservation_fields)

lemma assigned_wf: "wf_json assigned"
  by (simp add: assigned_def reservation_json_def del: replicate.simps)

definition redo_of :: "string \<Rightarrow> string \<Rightarrow> jval" where
  "redo_of shard pk = JObj
     [(''participant_id'', JStr shard), (''epoch'', jint 1), (''intents'', JArr [JObj
        [(''intent_seq'', jint 0), (''sql'', JStr ''I''), (''params'', JArr []), (''tenant_id'', JStr ''t''),
         (''table_name'', JStr ''a''), (''partition_key'', JStr pk), (''vbucket'', JNull),
         (''operation'', JStr ''insert''), (''mirror_target_participant_id'', JNull)]])]"

definition redo_ab :: "jval list" where "redo_ab = [redo_of ''a'' ''k'', redo_of ''b'' ''l'']"

lemma redo_parts: "redoParticipants sample_env [part_a, part_b] 1 = redo_ab"
  by code_simp

lemma redo_wf: "wf_json (redo_of shard pk)"
  by (simp add: redo_of_def)

lemma redo_hash: "hashParticipantOperations zero_digest redo_ab = Inr ZERO_HASH"
  unfolding hashParticipantOperations_def
  by (rule zero_hash) (simp add: operations_view_def redo_ab_def redo_of_def)

section \<open>Requests and the record\<close>

definition assign_json :: jval where
  "assign_json = JObj
     [(''draft'', JObj [(''fleet_id'', JStr ''f''), (''tx_id'', JStr ''t''), (''coordinator_id'', JStr ''c''),
        (''operation_hash'', JStr ZERO_HASH), (''decision_epoch'', jint 1)]), (''idempotency_key'', JStr ZERO_HASH)]"

definition envelope_draft :: jval where
  "envelope_draft = JObj
     [(''protocol_version'', jint 1), (''format_version'', jint 1), (''tx_id'', JStr ''t''), (''fleet_id'', JStr ''f''),
      (''coordinator_id'', JStr ''c''), (''decision'', JStr ''commit''), (''decision_epoch'', jint 1),
      (''operation_hash'', JStr ZERO_HASH), (''participants'', JArr redo_ab)]"

definition finalize_json :: jval where
  "finalize_json = JObj
     [(''protocol_version'', jint 1), (''format_version'', jint 1), (''tx_id'', JStr ''t''),
      (''reservation_hash'', JStr ZERO_HASH), (''redo_envelope_hash'', JStr ZERO_HASH), (''operation_hash'', JStr ZERO_HASH),
      (''decision_epoch'', jint 1), (''idempotency_key'', JStr ZERO_HASH)]"

definition request_to_finalize :: jval where "request_to_finalize = request_json assigned ZERO_HASH finalize_json"

definition registered :: jval where
  "registered = finalize_record finalize_json assigned 2 1 (toISOString 2) (toISOString (retention_deadline_of 2))"

definition completed :: jval where
  "completed = JObj
     [(''protocol_version'', jint 1), (''format_version'', jint 1), (''tx_id'', JStr ''t''), (''fleet_id'', JStr ''f''),
      (''coordinator_id'', JStr ''c''), (''decision'', JStr ''commit''), (''decision_epoch'', jint 1),
      (''operation_hash'', JStr ZERO_HASH), (''participants'', JArr redo_ab),
      (''commit_decided_at'', JStr ''1970-01-01T00:00:00.002Z''), (''retention_deadline'', JStr ''1970-02-05T00:00:00.002Z'')]"

lemma sample_times: "toISOString 2 = ''1970-01-01T00:00:00.002Z''" "toISOString (retention_deadline_of 2) = ''1970-02-05T00:00:00.002Z''"
  by code_simp+

lemma completed_draft: "completed_envelope envelope_draft registered = completed"
proof -
  have "jget registered ''commit_decided_at'' = JStr ''1970-01-01T00:00:00.002Z''"
    "jget registered ''retention_deadline'' = JStr ''1970-02-05T00:00:00.002Z''"
    by (simp_all add: registered_def finalize_record_def sample_times)
  then show ?thesis by (simp add: completed_envelope_def with_times_def envelope_draft_def completed_def)
qed

lemma registered_hash: "hashManifestRecordV2 zero_digest registered = Inr ZERO_HASH"
proof -
  have "\<exists>r h. build_record zero_digest finalize_json assigned 2 1 = Inr (r, h) \<and> hashManifestRecordV2 zero_digest r = Inr h"
    by (rule build_record_ok [OF assigned_hash _ zero_digest_ok])
       (use sample_hex in \<open>simp_all add: assigned_def reservation_keys finalize_json_def RESERVATION_KEYS_def
          ROUTE_KEYS_def retention_deadline_of_def time_in_range_def COORDINATOR_RETENTION_DAYS_def DAY_MS_def
          max_safe_integer_def del: replicate.simps\<close>)
  then obtain r h where b: "build_record zero_digest finalize_json assigned 2 1 = Inr (r, h)"
    and h: "hashManifestRecordV2 zero_digest r = Inr h" by blast
  have r: "r = registered"
    using b by (auto simp: build_record_def and_then_ok Let_def registered_def JournalState.iso_text_def split: if_splits)
  have "h = ZERO_HASH"
    using h by (auto simp: hashManifestRecordV2_def hashCanonicalJson_def and_then_ok zero_hex split: sum.splits)
  then show ?thesis using h r by simp
qed

lemma registered_valid: "validateManifestRecordV2 registered = Inr ()"
  using registered_hash by (auto simp: hashManifestRecordV2_def and_then_ok)

lemma draft_wf: "wf_json envelope_draft"
  by (simp add: envelope_draft_def redo_ab_def redo_wf ZERO_HASH_def)

definition preflight :: jval where
  "preflight = JObj
     [(''protocol_version'', jint 1), (''format_version'', jint 1), (''tx_id'', JStr ''t''), (''fleet_id'', JStr ''f''),
      (''coordinator_id'', JStr ''c''), (''decision'', JStr ''commit''), (''decision_epoch'', jint 1),
      (''commit_decided_at'', JStr ''1970-01-01T00:00:00.002Z''), (''retention_deadline'', JStr ''1970-02-05T00:00:00.002Z''),
      (''operation_hash'', JStr ZERO_HASH), (''participants'', JArr redo_ab)]"

lemma join_len: "length (join_comma ts) \<le> sum_list (map (\<lambda>t. length t + 1) ts)"
  by (induction ts rule: join_comma.induct) auto

lemma sum_sort: "sum_list (map f (sort_key k xs)) = sum_list (map f xs)" for f :: "'a \<Rightarrow> nat"
proof -
  have "mset (map f (sort_key k xs)) = mset (map f xs)" by simp
  then show ?thesis by (metis sum_mset_sum_list)
qed

lemma quote_len: "length (json_quote t) \<le> 2 + 6 * length t"
proof -
  have c: "length (esc_char c) \<le> 6" for c by (simp add: esc_char_def Let_def byte_hex_def)
  have "length (concat (map esc_char u)) \<le> 6 * length u" for u
  proof (induction u)
    case (Cons c u)
    then show ?case using c [of c] by simp
  qed simp
  then show ?thesis by (simp add: json_quote_def)
qed

fun text_bound :: "jval \<Rightarrow> nat" where
  "text_bound (JStr t) = 2 + 6 * length t"
| "text_bound (JArr vs) = 2 + sum_list (map (\<lambda>v. text_bound v + 1) vs)"
| "text_bound (JObj kvs) = 2 + sum_list (map (\<lambda>kv. 6 * length (fst kv) + text_bound (snd kv) + 4) kvs)"
| "text_bound v = length (text_of v)"

lemma text_len: "length (text_of v) \<le> text_bound v"
proof (induction v rule: text_of.induct)
  case (6 vs)
  have "length (join_comma (map text_of vs)) \<le> sum_list (map (\<lambda>v. length (text_of v) + 1) vs)"
    using join_len [of "map text_of vs"] by (simp add: comp_def)
  also have "\<dots> \<le> sum_list (map (\<lambda>v. text_bound v + 1) vs)"
    by (rule sum_list_mono) (simp add: 6)
  finally show ?case by simp
next
  case (7 kvs)
  let ?ts = "map (\<lambda>kv. (fst kv, text_of (snd kv))) kvs"
  have f: "length (field_text kt) + 1 \<le> 6 * length (fst kt) + length (snd kt) + 4" for kt
    using quote_len [of "fst kt"] by (simp add: field_text_def)
  have "length (join_comma (map field_text (sort_key fst ?ts))) \<le> sum_list (map (\<lambda>kt. length (field_text kt) + 1) (sort_key fst ?ts))"
    using join_len [of "map field_text (sort_key fst ?ts)"] by (simp add: comp_def)
  also have "\<dots> \<le> sum_list (map (\<lambda>kt. 6 * length (fst kt) + length (snd kt) + 4) (sort_key fst ?ts))"
    by (rule sum_list_mono) (rule f)
  also have "\<dots> = sum_list (map (\<lambda>kt. 6 * length (fst kt) + length (snd kt) + 4) ?ts)"
    by (rule sum_sort)
  also have "\<dots> = sum_list (map (\<lambda>kv. 6 * length (fst kv) + length (text_of (snd kv)) + 4) kvs)"
    by (simp add: comp_def)
  also have "\<dots> \<le> sum_list (map (\<lambda>kv. 6 * length (fst kv) + text_bound (snd kv) + 4) kvs)"
    by (rule sum_list_mono) (use 7 in \<open>auto\<close>)
  finally show ?case by simp
qed (use quote_len in simp_all)

lemma bytes_len: "length (utf8_bytes t) \<le> 2 * length t"
proof (induction t)
  case (Cons c t)
  have "length (utf8_char c) \<le> 2" by (simp add: utf8_char_def Let_def)
  then show ?case using Cons by (simp add: utf8_bytes_def)
qed (simp add: utf8_bytes_def)

lemma bytes_ok:
  assumes "wf_json v" "length (text_of v) \<le> 100000"
  shows "case canonicalByteLength v of Inl e \<Rightarrow> False | Inr n \<Rightarrow> n \<le> MAX_REDO_ENVELOPE_BYTES"
  using assms bytes_len [of "text_of v"] by (simp add: canonicalByteLength_def canonical_wf(1) MAX_REDO_ENVELOPE_BYTES_def)

lemma envelope_bytes:
  "case canonicalByteLength completed of Inl e \<Rightarrow> False | Inr n \<Rightarrow> n \<le> MAX_REDO_ENVELOPE_BYTES"
  "case canonicalByteLength preflight of Inl e \<Rightarrow> False | Inr n \<Rightarrow> n \<le> MAX_REDO_ENVELOPE_BYTES"
proof -
  have i: "int_text 0 = ''0''" "int_text 1 = ''1''" by code_simp+
  have b: "text_bound completed \<le> 100000" "text_bound preflight \<le> 100000"
    by (simp_all add: completed_def preflight_def redo_ab_def redo_of_def ZERO_HASH_def i)
  have w: "wf_json completed" "wf_json preflight"
    by (simp_all add: completed_def preflight_def redo_ab_def redo_wf)
  show "case canonicalByteLength completed of Inl e \<Rightarrow> False | Inr n \<Rightarrow> n \<le> MAX_REDO_ENVELOPE_BYTES"
    "case canonicalByteLength preflight of Inl e \<Rightarrow> False | Inr n \<Rightarrow> n \<le> MAX_REDO_ENVELOPE_BYTES"
    using order_trans [OF text_len b(1)] order_trans [OF text_len b(2)] w by (blast intro: bytes_ok)+
qed

lemma deadline_2: "retention_deadline_of 2 = 2 + COORDINATOR_RETENTION_DAYS * ms_per_day"
  by (simp add: retention_deadline_of_def DAY_MS_def ms_per_day_def)

lemma envelope_window:
  "assertRetentionWindow (JStr ''1970-01-01T00:00:00.002Z'') (JStr ''1970-02-05T00:00:00.002Z'') COORDINATOR_RETENTION_DAYS = Inr ()"
  unfolding retention_ok_iff
  by (intro exI [of _ 2] exI [of _ "retention_deadline_of 2"])
     (simp add: sample_times [symmetric] retention_deadline_of_def COORDINATOR_RETENTION_DAYS_def DAY_MS_def time_in_range_def)

lemma envelope_valid:
  assumes "\<And>k. k \<in> {''protocol_version'', ''format_version'', ''tx_id'', ''fleet_id'', ''coordinator_id'', ''decision'',
      ''decision_epoch'', ''operation_hash'', ''commit_decided_at'', ''retention_deadline'', ''participants''}
      \<Longrightarrow> jget v k = jget completed k" "is_plain v"
    "case canonicalByteLength v of Inl e \<Rightarrow> False | Inr n \<Rightarrow> n \<le> MAX_REDO_ENVELOPE_BYTES"
  shows "validateRedoEnvelope zero_digest v = Inr ()"
proof -
  have p: "check_participants (jint 1) (jint 1) [] redo_ab = Inr ()" by code_simp
  have a: "assertReadableProtocolVersion (jint 1) = Inr ()" "assertEpoch (jint 1) = Inr ()" by code_simp+
  have h: "assertSha256Hex (JStr ZERO_HASH) = Inr ()" by code_simp
  have l: "length redo_ab = 2" by (simp add: redo_ab_def)
  obtain n where n: "canonicalByteLength v = Inr n" "n \<le> MAX_REDO_ENVELOPE_BYTES"
    using assms(3) by (cases "canonicalByteLength v") simp_all
  have "validateRedoEnvelopeStructure v = Inr ()"
    unfolding validateRedoEnvelopeStructure_def seq_checks_Cons
    using assms(2) by (simp add: assms(1) completed_def p a h l n envelope_window assertPlainObject_def assertNonEmptyString_def
        MAX_REDO_PARTICIPANTS_def REDO_ENVELOPE_V1_FORMAT_VERSION_def)
  then show ?thesis by (simp add: validateRedoEnvelope_def assms(1) completed_def redo_hash)
qed

lemma completed_valid: "validateRedoEnvelope zero_digest completed = Inr ()"
  by (rule envelope_valid [OF refl _ envelope_bytes(1)]) (simp add: completed_def)

lemma preflight_valid: "validateRedoEnvelope zero_digest preflight = Inr ()"
  by (rule envelope_valid [OF _ _ envelope_bytes(2)]) (auto simp: preflight_def completed_def)

lemma finalize_fields:
  "jget finalize_json ''reservation_hash'' = JStr ZERO_HASH" "jget finalize_json ''redo_envelope_hash'' = JStr ZERO_HASH"
  "jget finalize_json ''tx_id'' = JStr ''t''" "jget finalize_json ''operation_hash'' = JStr ZERO_HASH"
  "jget finalize_json ''decision_epoch'' = jint 1"
  by (simp_all add: finalize_json_def)

lemma finalize_valid: "validateManifestFinalizeIntent finalize_json = Inr ()"
  unfolding validateManifestFinalizeIntent_def seq_checks_Cons finalize_json_def
  using sample_hex zero_nonempty
  by (simp add: manifest_asserts exact_keys_set insert_commute assertPlainObject_def CURRENT_PROTOCOL_VERSION_def
      MANIFEST_TERMINAL_INTENT_FORMAT_VERSION_def max_safe_integer_def del: replicate.simps)

section \<open>The coordinator's states\<close>

definition part_row :: "vote_status \<Rightarrow> string \<Rightarrow> participant_row" where
  "part_row v shard = \<lparr>pt_tx = ''t'', pt_shard = shard, pt_status = v, pt_updated_at = 2, pt_epoch = 1,
     pt_hash = ZERO_HASH, pt_bookmark = None\<rparr>"

definition todo :: "recovery_action \<Rightarrow> recovery_row" where
  "todo a = \<lparr>rq_tx = ''t'', rq_action = a, rq_next = 2, rq_attempts = 0\<rparr>"

definition sample_circuit :: circuit where "sample_circuit = recordAdmissionSuccess (snd (beginAdmissionAttempt 2 new_circuit))"

definition co_at :: "tx_row \<Rightarrow> vote_status \<Rightarrow> recovery_row list \<Rightarrow> coordinator" where
  "co_at row v q = \<lparr>co_txs = [row], co_parts = map (part_row v) [''a'', ''b''], co_queue = q,
     co_circuit = sample_circuit, co_discard = None, co_alarm = Some 2\<rparr>"

definition sample_row_ok :: "tx_row \<Rightarrow> bool" where
  "sample_row_ok row \<longleftrightarrow> rw_tx row = ''t'' \<and> rw_model row = 2 \<and> rw_protocol row = 1 \<and> rw_epoch row = 1 \<and> rw_hash row = ZERO_HASH
     \<and> rw_fleet row = ''f'' \<and> rw_coordinator row = ''c'' \<and> rw_participants row = [part_a, part_b]
     \<and> rw_reservation row = Some assigned \<and> rw_reservation_hash row = Some ZERO_HASH"

lemma row_ok_tx: "sample_row_ok row \<Longrightarrow> rw_tx row = ''t''"
  by (simp add: sample_row_ok_def)

lemma at_facts:
  "sample_row_ok row \<Longrightarrow> loadTx ''t'' (co_at row v q) = Some row"
  "sample_row_ok row \<Longrightarrow> load_or_fail ''t'' (co_at row v q) = Inr row"
  "sample_row_ok row \<Longrightarrow> update_tx ''t'' f (co_at row v q) = co_at (f row) v q"
  "queueRecovery ''t'' a 2 0 (co_at row v []) = co_at row v [todo a]"
  "queueRecovery ''t'' a 2 0 (co_at row v [todo b]) = co_at row v [todo a]"
  "drop_recovery ''t'' (co_at row v [todo b]) = co_at row v []"
  "ensureAlarmScheduled 2 (co_at row v q) = co_at row v q"
  "co_discard (co_at row v q) = None"
  by (simp_all add: co_at_def loadTx_def load_or_fail_def tbl_get_def update_tx_def queueRecovery_def todo_def 
      drop_recovery_def tbl_del_def ensureAlarmScheduled_def sample_row_ok_def)

lemma state_at: "sample_row_ok row \<Longrightarrow> stateOf row = Inr (rw_status row)"
proof -
  have p: "assertReadableProtocolVersion (jint 1) = Inr ()"
    and m: "assertReadableTransactionStateModelVersion (jint 2) = Inr ()" by code_simp+
  show "sample_row_ok row \<Longrightarrow> stateOf row = Inr (rw_status row)" by (simp add: stateOf_def sample_row_ok_def p m)
qed

lemma move_at:
  assumes "sample_row_ok row" "rw_status row \<in> set expected" "assertTransactionTransition (rw_status row) next = Inr ()"
  shows "transition 2 ''t'' expected next extra (co_at row v q)
    = Inr (extra (co_at (row\<lparr>rw_status := next, rw_updated_at := 2\<rparr>) v q))"
  using assms by (simp add: transition_def at_facts state_at)

lemma reservation_at: "sample_row_ok row \<Longrightarrow> reservationFor sample_env row = Inr (assigned, ZERO_HASH)"
  by (simp add: reservationFor_def sample_row_ok_def zero_nonempty assigned_valid assigned_hash assigned_fields sample_env_def
      coordinator_of_def)

lemma identity_at: "sample_row_ok row \<Longrightarrow> coordinatorIdentity sample_env row = Inr Current"
  by (simp add: coordinatorIdentity_def sample_row_ok_def redo_parts redo_hash) (simp add: sample_env_def redo_hash)

lemma v2_at: "sample_row_ok row \<Longrightarrow> isV2 row"
  by (simp add: isV2_def sample_row_ok_def)

definition row_reserving :: tx_row where "row_reserving = new_tx_row sample_body ZERO_HASH assign_json assigned ZERO_HASH 2"
definition row_preparing :: tx_row where "row_preparing = row_reserving\<lparr>rw_status := Preparing, rw_updated_at := 2\<rparr>"
definition row_prepared :: tx_row where "row_prepared = row_preparing\<lparr>rw_status := tx_state.Prepared, rw_updated_at := 2\<rparr>"

definition row_deciding :: tx_row where
  "row_deciding = row_prepared\<lparr>rw_status := Commit_deciding, rw_updated_at := 2, rw_decision := Commit_decision,
     rw_envelope_intent := Some envelope_draft, rw_finalize_request := Some request_to_finalize\<rparr>"

definition row_registered :: tx_row where
  "row_registered = register_decision completed registered ZERO_HASH
     (row_deciding\<lparr>rw_status := Manifest_registered, rw_updated_at := 2\<rparr>)"

definition row_committing :: tx_row where
  "row_committing = row_registered\<lparr>rw_status := Committing, rw_updated_at := 2\<rparr>"

definition row_committed :: tx_row where
  "row_committed = row_committing\<lparr>rw_status := tx_state.Committed, rw_updated_at := 2, rw_result := Some ''committed''\<rparr>"

lemmas sample_row_defs = row_reserving_def row_preparing_def row_prepared_def row_deciding_def row_registered_def
  row_committing_def row_committed_def new_tx_row_def sample_body_def register_decision_def

lemma rows_ok: "sample_row_ok row_reserving" "sample_row_ok row_preparing" "sample_row_ok row_prepared" "sample_row_ok row_deciding"
  "sample_row_ok row_registered" "sample_row_ok row_committing" "sample_row_ok row_committed"
  by (simp_all add: sample_row_ok_def sample_row_defs CURRENT_PROTOCOL_VERSION_def COORDINATOR_WRITE_STATE_MODEL_VERSION_def)

lemma sample_status: "rw_status row_reserving = Manifest_reserving" "rw_status row_preparing = Preparing"
  "rw_status row_prepared = tx_state.Prepared" "rw_status row_deciding = Commit_deciding"
  "rw_status row_registered = Manifest_registered" "rw_status row_committing = Committing"
  "rw_status row_committed = tx_state.Committed"
  by (simp_all add: sample_row_defs)

lemmas row_simps = at_facts rows_ok sample_status state_at move_at v2_at identity_at row_ok_tx proceed_def gated_def given_def cas_def

section \<open>The steps\<close>

lemma step_begin: "handleBegin sample_env True sample_body new_coordinator = (S_begin sample_body None, new_coordinator)"
  by code_simp

definition start_co :: coordinator where
  "start_co = new_coordinator\<lparr>co_circuit := snd (beginAdmissionAttempt 2 new_circuit)\<rparr>"

lemma step_assign:
  "advance sample_env 2 (I_gate True) (S_begin sample_body None) new_coordinator
   = (S_assign sample_body ZERO_HASH assign_json 2 A_closed, start_co)"
proof -
  have b: "beginAdmissionAttempt 2 (co_circuit new_coordinator) = (A_closed, co_circuit start_co)" by code_simp
  have e: "envelopeFor sample_env ''t'' ''f'' ''c'' [part_a, part_b] 1 2 = Inr preflight"
    unfolding envelopeFor_def redo_parts Let_def JournalState.iso_text_def retentionDeadline_def deadline_2 [symmetric] sample_times
    using preflight_valid redo_hash
    by (simp add: time_in_range_def retention_deadline_of_def DAY_MS_def COORDINATOR_RETENTION_DAYS_def sample_env_def
        preflight_def CURRENT_PROTOCOL_VERSION_def REDO_ENVELOPE_V1_FORMAT_VERSION_def)
  have h: "jget preflight ''operation_hash'' = JStr ZERO_HASH" by (simp add: preflight_def)
  have k: "hashCanonicalJson (ev_digest sample_env) (JArr [JStr ''coordinator-manifest-route'', JStr ''f'', JStr ''t'', JStr ''c'',
      JStr ZERO_HASH, jint 1]) = Inr ZERO_HASH" by (simp add: sample_env_def zero_hash ZERO_HASH_def)
  have r: "routeAssignmentRequest sample_env ''t'' ''f'' ''c'' ZERO_HASH 1 = Inr assign_json"
    unfolding routeAssignmentRequest_def k by (simp add: assign_json_def)
  show ?thesis
    by (simp add: given_def begin_registered_def gated_def sample_body_def proceed_def e h r b start_co_def)
qed

lemma sample_assigned: "validateAssignedReservation sample_env assign_json assigned ZERO_HASH = Inr ()"
  by (simp add: validateAssignedReservation_def assigned_valid assigned_hash assigned_fields assign_json_def sample_env_def)

lemma sample_stored: "stored_json assign_json = Inr assign_json" "stored_json assigned = Inr assigned"
proof -
  have w: "wf_json assign_json" by (simp add: assign_json_def)
  show "stored_json assign_json = Inr assign_json" "stored_json assigned = Inr assigned"
    by (simp_all add: stored_json_def canonical_wf(1) w assigned_wf)
qed

lemma step_insert:
  "advance sample_env 2 (I_assign (As_ok assigned ZERO_HASH)) (S_assign sample_body ZERO_HASH assign_json 2 A_closed) start_co
   = (S_reserve row_reserving, co_at row_reserving Vote_pending [todo Act_reserve])"
proof -
  let ?st = "ensureAlarmScheduled 2 (start_co\<lparr>co_circuit := recordAdmissionSuccess (co_circuit start_co)\<rparr>)"
  have i: "insert_tx row_reserving 2 ?st = Inr (co_at row_reserving Vote_pending [todo Act_reserve])"
    by (simp add: insert_tx_def loadTx_def tbl_get_def ensureAlarmScheduled_def start_co_def new_coordinator_def Let_def
        sample_row_defs part_a_def part_b_def queueRecovery_def co_at_def part_row_def new_participant_def todo_def sample_circuit_def)
  have t: "bq_tx sample_body = ''t''" by (simp add: sample_body_def)
  show ?thesis
    by (simp add: given_def assign_answer_def proceed_def sample_assigned sample_stored row_reserving_def [symmetric]
        t at_facts rows_ok Let_def i)
qed

lemma step_reserve:
  "advance sample_env 2 (I_gate True) (S_reserve row_reserving) (co_at row_reserving v q)
   = (S_reserve_sent row_reserving ZERO_HASH, co_at row_reserving v q)"
  by (simp add: reconcileReservation_def row_simps reservation_at)

lemma step_reserved:
  "advance sample_env 2 (I_reserve (Some (Reserved ZERO_HASH 0 ZERO_HASH))) (S_reserve_sent row_reserving ZERO_HASH)
     (co_at row_reserving Vote_pending [todo Act_reserve])
   = (S_prepare row_preparing, co_at row_preparing Vote_pending [])"
proof -
  have t: "assertTransactionTransition Manifest_reserving Preparing = Inr ()" by code_simp
  show ?thesis
    by (simp add: reserve_answer_def still_def row_simps t Let_def row_preparing_def [symmetric])
qed

definition yes_vote :: vote where "yes_vote = \<lparr>vt_ok = True, vt_bookmark = [], vt_exact = False\<rparr>"

lemma step_votes:
  "advance sample_env 2 (I_votes [yes_vote, yes_vote]) (S_prepare row_preparing) (co_at row_preparing Vote_pending [])
   = (S_decide_commit row_prepared, co_at row_prepared Vote_prepared [])"
proof -
  have t: "assertTransactionTransition Preparing tx_state.Prepared = Inr ()" by code_simp
  have p: "map bg_shard (rw_participants row_preparing) = [''a'', ''b'']" by (simp add: sample_row_defs part_a_def part_b_def)
  have v: "vote_ok sample_env yes_vote" by (simp add: vote_ok_def yes_vote_def sample_env_def)
  have r: "fold (record_vote 2 ''t'') [(''a'', yes_vote), (''b'', yes_vote)] (co_at row Vote_pending []) = co_at row Vote_prepared []" for row
    by (simp add: record_vote_def co_at_def part_row_def vote_bookmark_def yes_vote_def)
  show ?thesis
    by (simp add: prepare_answer_def p v row_simps t Let_def r [simplified] row_prepared_def [symmetric] resume_def)
qed

lemma step_deciding:
  "advance sample_env 2 (I_gate True) (S_decide_commit row_prepared) (co_at row_prepared Vote_prepared [])
   = (S_record_commit row_prepared envelope_draft request_to_finalize, co_at row_prepared Vote_prepared [])"
proof -
  have b: "\<not> hasExactPrepareBookmarks row_prepared (co_at row_prepared Vote_prepared [])"
    using rows_ok(3) by (simp add: hasExactPrepareBookmarks_def co_at_def part_row_def sample_row_ok_def)
  have e: "envelope_intent sample_env row_prepared (co_at row_prepared Vote_prepared []) = Inr envelope_draft"
    using rows_ok(3) b by (simp add: envelope_intent_def sample_row_ok_def redo_parts coordinator_of_def envelope_draft_def
        CURRENT_PROTOCOL_VERSION_def REDO_ENVELOPE_V1_FORMAT_VERSION_def)
  have w: "check_writable 2 envelope_draft = Inr ()"
    by (simp add: check_writable_def envelope_draft_def CURRENT_REDO_ENVELOPE_FORMAT_VERSION_def
        REDO_ENVELOPE_V2_FORMAT_VERSION_def)
  have k: "hashCanonicalJson (ev_digest sample_env) (JArr [JStr ''coordinator-manifest-finalize'', JStr ZERO_HASH, JStr ZERO_HASH]) = Inr ZERO_HASH"
    by (simp add: sample_env_def zero_hash ZERO_HASH_def)
  have h: "hashCanonicalJson (ev_digest sample_env) envelope_draft = Inr ZERO_HASH"
    by (simp add: sample_env_def zero_hash draft_wf)
  have ho: "hashParticipantOperations (ev_digest sample_env) (arr_of (jget envelope_draft ''participants'')) = Inr ZERO_HASH"
    by (simp add: sample_env_def envelope_draft_def redo_hash)
  have f: "finalize_request sample_env row_prepared envelope_draft assigned ZERO_HASH = Inr request_to_finalize"
    using rows_ok(3) finalize_valid [unfolded finalize_json_def]
    by (simp add: finalize_request_def ho h k sample_row_ok_def request_to_finalize_def finalize_json_def CURRENT_PROTOCOL_VERSION_def
        MANIFEST_TERMINAL_INTENT_FORMAT_VERSION_def del: replicate.simps)
  show ?thesis by (simp add: persistCommitDeciding_def row_simps reservation_at Let_def e w f)
qed

lemma step_decided:
  "advance sample_env 2 (I_gate True) (S_record_commit row_prepared envelope_draft request_to_finalize) (co_at row_prepared Vote_prepared [])
   = (S_finalize row_deciding, co_at row_deciding Vote_prepared [todo Act_finalize])"
proof -
  have t: "assertTransactionTransition tx_state.Prepared Commit_deciding = Inr ()" by code_simp
  have f: "sample_row_ok (row_prepared\<lparr>rw_status := Commit_deciding, rw_updated_at := 2\<rparr>)" by (simp add: sample_row_ok_def sample_row_defs
      CURRENT_PROTOCOL_VERSION_def COORDINATOR_WRITE_STATE_MODEL_VERSION_def)
  show ?thesis by (simp add: record_commit_def row_simps t f Let_def row_deciding_def [symmetric])
qed

lemma step_finalize:
  "advance sample_env 2 (I_gate True) (S_finalize row_deciding) (co_at row_deciding v q)
   = (S_finalize_sent row_deciding Commit_deciding request_to_finalize, co_at row_deciding v q)"
proof -
  have i: "rw_finalize_request row_deciding = Some request_to_finalize" "rw_envelope_intent row_deciding = Some envelope_draft"
    by (simp_all add: row_deciding_def)
  have h: "hashCanonicalJson zero_digest envelope_draft = Inr ZERO_HASH" by (simp add: zero_hash draft_wf)
  have j: "jget request_to_finalize ''intent'' = finalize_json" "jget request_to_finalize ''reservation'' = assigned"
    "jget request_to_finalize ''reservation_hash'' = JStr ZERO_HASH"
    by (simp_all add: request_to_finalize_def request_json_def)
  have f: "finalizeRequestFor sample_env row_deciding = Inr request_to_finalize"
    using rows_ok(4) by (simp add: finalizeRequestFor_def i j assigned_valid finalize_valid sample_env_def assigned_hash h
        sample_row_ok_def finalize_fields)
  show ?thesis by (simp add: reconcileFinalize_def row_simps deciding_states_def f)
qed

lemma step_accepted:
  "advance sample_env 2 (I_finalize (Some (Finalized registered ZERO_HASH)))
     (S_finalize_sent row_deciding Commit_deciding request_to_finalize) (co_at row_deciding v q)
   = (S_register row_deciding Commit_deciding completed registered ZERO_HASH, co_at row_deciding v q)"
proof -
  have j: "jget request_to_finalize ''intent'' = finalize_json" "jget request_to_finalize ''reservation_hash'' = JStr ZERO_HASH"
    "jget finalize_json ''redo_envelope_hash'' = JStr ZERO_HASH"
    by (simp_all add: request_to_finalize_def request_json_def finalize_json_def)
  have r: "jget registered ''tx_id'' = JStr ''t''" "jget registered ''fleet_id'' = JStr ''f''"
    "jget registered ''coordinator_id'' = JStr ''c''" "jget registered ''operation_hash'' = JStr ZERO_HASH"
    "jget registered ''decision_epoch'' = jint 1" "jget registered ''reservation_hash'' = JStr ZERO_HASH"
    "jget registered ''envelope_hash'' = JStr ZERO_HASH"
    by (simp_all add: registered_def finalize_record_def assigned_fields finalize_json_def)
  have i: "rw_envelope_intent row_deciding = Some envelope_draft" by (simp add: row_deciding_def)
  have a: "accept_record sample_env row_deciding request_to_finalize registered ZERO_HASH = Inr completed"
    using rows_ok(4) by (simp add: accept_record_def registered_valid sample_env_def registered_hash r j sample_row_ok_def
        coordinator_of_def i completed_draft completed_valid)
  show ?thesis by (simp add: co_finalize_answer_def still_def row_simps Let_def a)
qed

lemma step_register:
  "advance sample_env 2 (I_gate True) (S_register row_deciding Commit_deciding completed registered ZERO_HASH)
     (co_at row_deciding Vote_prepared [todo Act_finalize])
   = (S_commit row_registered, co_at row_registered Vote_prepared [todo Act_commit])"
proof -
  have t: "assertTransactionTransition Commit_deciding Manifest_registered = Inr ()" by code_simp
  have f: "sample_row_ok (row_deciding\<lparr>rw_status := Manifest_registered, rw_updated_at := 2\<rparr>)" by (simp add: sample_row_ok_def sample_row_defs
      CURRENT_PROTOCOL_VERSION_def COORDINATOR_WRITE_STATE_MODEL_VERSION_def)
  show ?thesis by (simp add: register_record_def row_simps t f Let_def row_registered_def [symmetric])
qed

lemma step_commit:
  "advance sample_env 2 (I_gate True) (S_commit row_registered) (co_at row_registered v q)
   = (S_commit_sent row_committing, co_at row_committing v q)"
proof -
  have t: "assertTransactionTransition Manifest_registered Committing = Inr ()" by code_simp
  show ?thesis by (simp add: reconcileCommitOnce_def row_simps t row_committing_def [symmetric])
qed

lemma step_committed:
  "advance sample_env 2 (I_acks [True, True]) (S_commit_sent row_committing) (co_at row_committing Vote_prepared [todo Act_commit])
   = (S_done (Inr (R_ok tx_state.Committed)), co_at row_committed Vote_committed [todo Act_release])"
proof -
  have t: "assertTransactionTransition Committing tx_state.Committed = Inr ()" by code_simp
  have p: "map bg_shard (rw_participants row_committing) = [''a'', ''b'']" by (simp add: sample_row_defs part_a_def part_b_def)
  have f: "sample_row_ok (row_committing\<lparr>rw_status := tx_state.Committed, rw_updated_at := 2\<rparr>)" by (simp add: sample_row_ok_def sample_row_defs
      CURRENT_PROTOCOL_VERSION_def COORDINATOR_WRITE_STATE_MODEL_VERSION_def)
  have r: "fold (record_ack 2 ''t'') [(''a'', True), (''b'', True)] (co_at row Vote_prepared q) = co_at row Vote_committed q" for row q
    by (simp add: record_ack_def co_at_def part_row_def)
  show ?thesis
    by (simp add: commit_answer_def p row_simps t f Let_def recordAcknowledgments_def r [simplified] row_committed_def [symmetric])
qed

section \<open>The participants\<close>

definition shard_row :: "string \<Rightarrow> pending_intent" where
  "shard_row pk = prepared_row \<lparr>mg_tx = ''t'', mg_epoch = 1, mg_phase = ''prepare'', mg_hash = ZERO_HASH, mg_legacy = False\<rparr>
     2 0 (vote_intent pk)"

definition voted_shard :: "string \<Rightarrow> string list shard" where
  "voted_shard pk = (new_shard [])\<lparr>sh_pending := [shard_row pk],
     sh_locks := [\<lparr>lk_key = intent_lock_key (vote_intent pk), lk_tx = ''t'', lk_acquired_at = 2\<rparr>]\<rparr>"

definition commit_tomb :: tombstone_row where
  "commit_tomb = new_tombstone \<lparr>mg_tx = ''t'', mg_epoch = 1, mg_phase = ''commit'', mg_hash = ZERO_HASH, mg_legacy = False\<rparr>
     ''commit'' 2"

definition done_shard :: "string \<Rightarrow> string list shard" where
  "done_shard pk = (new_shard [''I''])\<lparr>sh_tombstones := [commit_tomb],
     sh_pending := [(shard_row pk)\<lparr>pd_status := Committed, pd_resolved_at := Some 2\<rparr>]\<rparr>"

lemma vote_cast:
  "handlePrepare zero_digest unique_sql no_bookmarks 2 (phase_message ''prepare'' ''t'' 1 ZERO_HASH) (Some [vote_intent ''k''])
     (new_shard []) = (Prepare_ok 1 None, voted_shard ''k'')"
  "handlePrepare zero_digest unique_sql no_bookmarks 2 (phase_message ''prepare'' ''t'' 1 ZERO_HASH) (Some [vote_intent ''l''])
     (new_shard []) = (Prepare_ok 1 None, voted_shard ''l'')"
  by code_simp+

lemma voted_inv: "shard_inv (voted_shard ''k'')" "shard_inv (voted_shard ''l'')"
proof -
  have "shard_inv (snd (handlePrepare zero_digest unique_sql no_bookmarks 2 raw is (new_shard [])))" for raw "is"
    by (rule run_inv [OF shard_run.step [OF shard_run.start shard_step.prepare, of _ 2] new_shard_inv]) simp
  then show "shard_inv (voted_shard ''k'')" "shard_inv (voted_shard ''l'')" by (metis vote_cast snd_conv)+
qed

lemma commit_done:
  "handleCommit zero_digest unique_sql 2 (phase_message ''commit'' ''t'' 1 ZERO_HASH) (voted_shard ''k'') = (Commit_ok, done_shard ''k'')"
  "handleCommit zero_digest unique_sql 2 (phase_message ''commit'' ''t'' 1 ZERO_HASH) (voted_shard ''l'') = (Commit_ok, done_shard ''l'')"
proof -
  have k: "known_vote (voted_shard ''k'') ''t'' 1 ZERO_HASH \<and> tomb (voted_shard ''k'') ''t'' = None"
    "known_vote (voted_shard ''l'') ''t'' 1 ZERO_HASH \<and> tomb (voted_shard ''l'') ''t'' = None" by code_simp+
  have c: "clock_ok 2" by code_simp
  have v: "validateParticipantPhaseMessage (phase_message ''commit'' ''t'' 1 ZERO_HASH) = Inr ()" by code_simp
  have a: "apply_now unique_sql 2 ''t'' (add_tombstone commit_tomb (voted_shard ''k'')) = Inr (done_shard ''k'')"
    "apply_now unique_sql 2 ''t'' (add_tombstone commit_tomb (voted_shard ''l'')) = Inr (done_shard ''l'')" by code_simp+
  show "handleCommit zero_digest unique_sql 2 (phase_message ''commit'' ''t'' 1 ZERO_HASH) (voted_shard ''k'') = (Commit_ok, done_shard ''k'')"
    using commit_first [OF voted_inv(1) conjunct1 [OF k(1)] conjunct2 [OF k(1)] c v, of zero_digest unique_sql] a(1)
    by (simp add: commit_tomb_def [symmetric])
  show "handleCommit zero_digest unique_sql 2 (phase_message ''commit'' ''t'' 1 ZERO_HASH) (voted_shard ''l'') = (Commit_ok, done_shard ''l'')"
    using commit_first [OF voted_inv(2) conjunct1 [OF k(2)] conjunct2 [OF k(2)] c v, of zero_digest unique_sql] a(2)
    by (simp add: commit_tomb_def [symmetric])
qed

section \<open>The run\<close>

definition cluster_at ::
  "co_step set \<Rightarrow> coordinator \<Rightarrow> (string \<Rightarrow> string list shard) \<Rightarrow> replies \<Rightarrow> replies \<Rightarrow> string list cluster" where
  "cluster_at S co shards V A = \<lparr>cl_co = co, cl_steps = S, cl_shards = shards, cl_votes = V, cl_acks = A,
     cl_answers = {}, cl_expired = {}\<rparr>"

abbreviation sample_reaches :: "string list cluster \<Rightarrow> bool" where
  "sample_reaches \<equiv> cluster_run sample_env unique_sql (new_cluster (\<lambda>sh. []))"

lemma sample_reaches_step: "sample_reaches W \<Longrightarrow> cluster_step sample_env unique_sql W W' \<Longrightarrow> sample_reaches W'"
  unfolding cluster_run_def by (rule rtranclp.rtrancl_into_rtrancl)

lemma go:
  assumes "sample_reaches (cluster_at (insert s S) co shards V A)" "input_ok V A i s" "advance sample_env 2 i s co = (s', co')"
  shows "sample_reaches (cluster_at (insert s' (insert s S)) co' shards V A)"
  using sample_reaches_step [OF assms(1) cluster_step.go_on, of s i 2 s' co'] assms(2,3) by (simp add: cluster_at_def)

lemma begun: "sample_reaches (cluster_at {S_begin sample_body None} new_coordinator (\<lambda>sh. new_shard []) {} {})"
proof -
  have "entered sample_env new_coordinator (S_begin sample_body None, new_coordinator)"
    using entered.begin_tx [of sample_env new_coordinator True sample_body] unfolding step_begin .
  then show ?thesis
    using sample_reaches_step [OF _ cluster_step.enter, of "new_cluster (\<lambda>sh. [])"] by (simp add: cluster_run_def new_cluster_def cluster_at_def)
qed

definition sample_steps :: "co_step set" where
  "sample_steps = {S_prepare row_preparing, S_reserve_sent row_reserving ZERO_HASH, S_reserve row_reserving,
     S_assign sample_body ZERO_HASH assign_json 2 A_closed, S_begin sample_body None}"

lemma reached_prepare: "sample_reaches (cluster_at sample_steps (co_at row_preparing Vote_pending []) (\<lambda>sh. new_shard []) {} {})"
  unfolding sample_steps_def
  by (rule go [OF go [OF go [OF go [OF begun _ step_assign] _ step_insert] _ step_reserve] _ step_reserved]) simp_all

definition both :: replies where "both = {(''a'', ''t''), (''b'', ''t'')}"

definition voted_shards :: "string \<Rightarrow> string list shard" where
  "voted_shards = ((\<lambda>sh. new_shard [])(''a'' := voted_shard ''k''))(''b'' := voted_shard ''l'')"

definition done_shards :: "string \<Rightarrow> string list shard" where
  "done_shards = (voted_shards(''a'' := done_shard ''k''))(''b'' := done_shard ''l'')"

lemma messages: "participantMessage row_preparing ''prepare'' = phase_message ''prepare'' ''t'' 1 ZERO_HASH"
  "participantMessage row_committing ''commit'' = phase_message ''commit'' ''t'' 1 ZERO_HASH"
  using rows_ok by (simp_all add: participantMessage_def sample_row_ok_def)

lemma participants: "rw_participants row_preparing = [part_a, part_b]" "rw_participants row_committing = [part_a, part_b]"
  "rw_participants row_committed = [part_a, part_b]"
  using rows_ok by (simp_all add: sample_row_ok_def)

lemma reached_votes: "sample_reaches (cluster_at sample_steps (co_at row_preparing Vote_pending []) voted_shards both {})"
proof -
  let ?w = "cluster_at sample_steps (co_at row_preparing Vote_pending [])"
  have s: "S_prepare row_preparing \<in> sample_steps" by (simp add: sample_steps_def)
  have "sample_reaches (?w ((\<lambda>sh. new_shard [])(''a'' := voted_shard ''k'')) {(''a'', ''t'')} {})"
    using sample_reaches_step [OF reached_prepare cluster_step.prepare, of "S_prepare row_preparing" row_preparing part_a no_bookmarks 2
        "Prepare_ok 1 None" "voted_shard ''k''"] s vote_cast(1)
    by (simp add: cluster_at_def set_shard_def messages participants part_a_def sample_env_def rows_ok row_ok_tx)
  from sample_reaches_step [OF this cluster_step.prepare, of "S_prepare row_preparing" row_preparing part_b no_bookmarks 2
        "Prepare_ok 1 None" "voted_shard ''l''"]
  show ?thesis
    using s vote_cast(2) by (simp add: cluster_at_def set_shard_def messages participants part_b_def sample_env_def rows_ok
        row_ok_tx voted_shards_def both_def insert_commute)
qed

definition commit_steps :: "co_step set" where
  "commit_steps = {S_commit_sent row_committing, S_commit row_registered,
     S_register row_deciding Commit_deciding completed registered ZERO_HASH,
     S_finalize_sent row_deciding Commit_deciding request_to_finalize, S_finalize row_deciding,
     S_record_commit row_prepared envelope_draft request_to_finalize, S_decide_commit row_prepared} \<union> sample_steps"

lemma reached_commit: "sample_reaches (cluster_at commit_steps (co_at row_committing Vote_prepared [todo Act_commit]) voted_shards both {})"
proof -
  have v: "input_ok both {} (I_votes [yes_vote, yes_vote]) (S_prepare row_preparing)"
    by (simp add: participants part_a_def part_b_def both_def rows_ok row_ok_tx)
  have "sample_reaches (cluster_at (insert (S_commit_sent row_committing) (insert (S_commit row_registered)
     (insert (S_register row_deciding Commit_deciding completed registered ZERO_HASH)
     (insert (S_finalize_sent row_deciding Commit_deciding request_to_finalize) (insert (S_finalize row_deciding)
     (insert (S_record_commit row_prepared envelope_draft request_to_finalize) (insert (S_decide_commit row_prepared) sample_steps)))))))
     (co_at row_committing Vote_prepared [todo Act_commit]) voted_shards both {})"
    unfolding sample_steps_def
    by (rule go [OF go [OF go [OF go [OF go [OF go [OF go [OF reached_votes [unfolded sample_steps_def] v step_votes]
          _ step_deciding] _ step_decided] _ step_finalize] _ step_accepted] _ step_register] _ step_commit]) simp_all
  then show ?thesis by (simp add: commit_steps_def)
qed

lemma reached_acks: "sample_reaches (cluster_at commit_steps (co_at row_committing Vote_prepared [todo Act_commit]) done_shards both both)"
proof -
  let ?w = "cluster_at commit_steps (co_at row_committing Vote_prepared [todo Act_commit])"
  have s: "S_commit_sent row_committing \<in> commit_steps" by (simp add: commit_steps_def)
  have "sample_reaches (?w (voted_shards(''a'' := done_shard ''k'')) both {(''a'', ''t'')})"
    using sample_reaches_step [OF reached_commit cluster_step.commit, of "S_commit_sent row_committing" row_committing part_a 2
        Commit_ok "done_shard ''k''"] s commit_done(1)
    by (simp add: cluster_at_def set_shard_def messages participants part_a_def sample_env_def rows_ok row_ok_tx voted_shards_def)
  from sample_reaches_step [OF this cluster_step.commit, of "S_commit_sent row_committing" row_committing part_b 2
        Commit_ok "done_shard ''l''"]
  show ?thesis
    using s commit_done(2) by (simp add: cluster_at_def set_shard_def messages participants part_b_def sample_env_def rows_ok
        row_ok_tx voted_shards_def done_shards_def both_def insert_commute)
qed

definition final_cluster :: "string list cluster" where
  "final_cluster = cluster_at (insert (S_done (Inr (R_ok tx_state.Committed))) commit_steps)
     (co_at row_committed Vote_committed [todo Act_release]) done_shards both both"

lemma reached_final: "sample_reaches final_cluster"
proof -
  have v: "input_ok both both (I_acks [True, True]) (S_commit_sent row_committing)"
    by (simp add: participants part_a_def part_b_def both_def rows_ok row_ok_tx)
  have c: "insert (S_commit_sent row_committing) commit_steps = commit_steps" by (simp add: commit_steps_def insert_absorb)
  show ?thesis
    using go [of "S_commit_sent row_committing" commit_steps, unfolded c, OF reached_acks v step_committed]
    by (simp add: final_cluster_def)
qed

lemma final_facts:
  "tomb (cl_shards final_cluster ''a'') ''t'' = Some commit_tomb" "tomb (cl_shards final_cluster ''b'') ''t'' = Some commit_tomb"
  "ts_decision commit_tomb = ''commit''" "loadTx ''t'' (cl_co final_cluster) = Some row_committed"
  "phase_of (cl_shards final_cluster ''a'') ''t'' = P_committed" "phase_of (cl_shards final_cluster ''b'') ''t'' = P_committed"
  "cl_expired final_cluster = {}"
proof -
  have t: "ts_tx commit_tomb = ''t''" by (simp add: commit_tomb_def new_tombstone_def)
  show "ts_decision commit_tomb = ''commit''" by (simp add: commit_tomb_def new_tombstone_def)
  show u: "tomb (cl_shards final_cluster ''a'') ''t'' = Some commit_tomb" "tomb (cl_shards final_cluster ''b'') ''t'' = Some commit_tomb"
    by (simp_all add: final_cluster_def cluster_at_def done_shards_def done_shard_def tomb_def tbl_get_def t)
  have s: "cl_shards final_cluster ''a'' = done_shard ''k''" "cl_shards final_cluster ''b'' = done_shard ''l''"
    by (simp_all add: final_cluster_def cluster_at_def done_shards_def)
  have r: "rows_of (done_shard pk) ''t'' = [(shard_row pk)\<lparr>pd_status := Committed, pd_resolved_at := Some 2\<rparr>]" for pk
    by (simp add: done_shard_def storedIntentIdentity_def shard_row_def prepared_row_def)
  show "phase_of (cl_shards final_cluster ''a'') ''t'' = P_committed" "phase_of (cl_shards final_cluster ''b'') ''t'' = P_committed"
    using u by (simp_all add: phase_of_def phase_from_def s r)
  show "loadTx ''t'' (cl_co final_cluster) = Some row_committed" by (simp add: final_cluster_def cluster_at_def at_facts rows_ok)
  show "cl_expired final_cluster = {}" by (simp add: final_cluster_def cluster_at_def)
qed

section \<open>The theorems on it\<close>

lemma stays: "cluster_run sample_env unique_sql W W"
  by (simp add: cluster_run_def)

theorem atomic_commitment_witness:
  "ts_decision commit_tomb = ''commit'' \<and> ts_decision commit_tomb = ts_decision commit_tomb
   \<and> tomb (cl_shards final_cluster ''a'') ''t'' = Some commit_tomb \<and> tomb (cl_shards final_cluster ''b'') ''t'' = Some commit_tomb"
  using atomic_commitment [OF reached_final stays final_facts(1,2)] final_facts(1,2,3) by blast


theorem committed_everywhere_witness:
  "list_all (\<lambda>p. phase_of (cl_shards final_cluster (bg_shard p)) ''t'' = P_committed) [part_a, part_b]"
  using committed_everywhere [OF reached_final final_facts(4) sample_status(7)] by (simp add: participants final_facts(7))

lemma final_status: "\<exists>cs. co_handleTxStatus sample_env ''t'' (cl_co final_cluster)
    = Inr (R_status (status_json row_committed tx_state.Committed cs))"
proof -
  have f: "rw_finalize_request row_committed = Some request_to_finalize" "rw_cancel_request row_committed = None"
    "rw_record_hash row_committed = Some ZERO_HASH"
    by (simp_all add: sample_row_defs)
  have j: "jget request_to_finalize ''intent'' = finalize_json" by (simp add: request_to_finalize_def request_json_def)
  have h: "hashManifestFinalizeIntent zero_digest finalize_json = Inr ZERO_HASH"
    using finalize_valid by (simp add: hashManifestFinalizeIntent_def zero_hash finalize_json_def)
  have "\<exists>cs. quarantine_candidates sample_env row_committed = Inr cs"
    by (simp add: quarantine_candidates_def f j sample_env_def h candidate_def zero_nonempty)
  moreover have "co_discard (cl_co final_cluster) = None" by (simp add: final_cluster_def cluster_at_def at_facts)
  ultimately show ?thesis by (auto simp: co_handleTxStatus_def final_facts(4) state_at rows_ok sample_status)
qed

theorem status_never_contradicted_witness:
  "\<exists>j. co_handleTxStatus sample_env ''t'' (cl_co final_cluster) = Inr (R_status j)
    \<and> rc_decision (queryCoordinatorDecision (Some j)) = CD_committed
    \<and> (CD_committed, ts_decision commit_tomb) \<notin> {(CD_committed, ''abort''), (CD_aborted, ''commit'')}"
proof -
  obtain cs where s: "co_handleTxStatus sample_env ''t'' (cl_co final_cluster)
      = Inr (R_status (status_json row_committed tx_state.Committed cs))" using final_status by blast
  have d: "rc_decision (queryCoordinatorDecision (Some (status_json row_committed tx_state.Committed cs))) = CD_committed"
    by (simp add: status_decision authorized_states_def)
  show ?thesis
    using status_never_contradicted [OF reached_final stays s s, of "''a''"] s d by (simp only: final_facts(1) option.case) blast
qed

theorem coordinator_row_consistent_witness:
  "rw_decision row_committed = decisionForState tx_state.Committed \<and> rw_record row_committed \<noteq> None"
  using coordinator_row_consistent [OF reached_final final_facts(4)]
  by (simp add: sample_status abort_states_def authorized_states_def)

theorem recovery_never_lost_witness:
  "tbl_get rq_tx ''t'' (co_queue (co_at row_committing Vote_prepared [todo Act_commit])) \<noteq> None"
proof -
  have l: "loadTx ''t'' (cl_co (cluster_at commit_steps (co_at row_committing Vote_prepared [todo Act_commit]) voted_shards both {}))
      = Some row_committing" by (simp add: cluster_at_def at_facts rows_ok)
  have "rw_status row_committing \<notin> {Preparing, tx_state.Prepared, tx_state.Committed, tx_state.Aborted, Quarantined}"
    by (simp add: sample_status)
  then show ?thesis
    using recovery_never_lost [OF reached_commit l] by (simp add: cluster_at_def sample_status)
qed

end
