(* ===== verification/Spec2Isabelle.thy ===== *)
theory Spec2Isabelle
  imports TxErrors TxStates CanonJson RedoContract ParticipantContract ManifestLaws AnswerSamples Routing SqlLaws
    ShardSamples CoordCircuit CommitSamples
begin

text \<open>
  Verification library for CloudflareShard, a sharded SQL database on Cloudflare Durable Objects.

  \<^bold>\<open>The program.\<close> Tenant rows live in shards (\<open>src/src/shard.ts\<close>), one SQLite database each. A
  transaction over several shards is run by a coordinator (\<open>src/src/coordinator.ts\<close>) as two-phase
  commit: it reserves the transaction in a journal bucket of the fleet manifest, asks every shard
  to prepare, decides, finalizes the decision in the journal (where it gets its commit time and its
  sequence number), tells the shards and releases the journal entry. The journal
  (\<open>src/workers/control-plane/src/journal-manifest.ts\<close>) also seals buckets: it closes their history up
  to a cutoff and publishes a receipt that a restore relies on. The contracts the three exchange
  (states, errors, canonical JSON, redo envelopes, registrations, reservations, records, receipts,
  pages) are in \<open>src/packages/contracts/src/transaction.ts\<close>. The gateway compiles structured
  mutations (\<open>structured-op.ts\<close>), classifies SQL text (\<open>sql-safety.ts\<close>), routes by hash
  (\<open>hash.ts\<close>) and authenticates (\<open>auth.ts\<close>).

  \<^bold>\<open>Common layer.\<close> \<open>Prelude\<close> has the result type \<open>error + 'a\<close> with \<open>and_then\<close> and \<open>seq_checks\<close> (every
  throw and early return is a branch), association tables \<open>tbl_get\<close>, \<open>tbl_put\<close> for SQL tables keyed
  by a column, and their laws; \<open>JsValue\<close> has JavaScript values (\<open>undefined\<close> and class instances
  included) and \<open>JSON.stringify\<close> of strings; \<open>JsDate\<close> has ISO timestamps and UTC days with the range
  of \<open>Date\<close>. Numbers are \<open>int\<close>; where the code checks safe integers the bound is written out, and
  the hash arithmetic of \<open>Routing\<close> is on 32-bit words.

  \<^bold>\<open>Contracts\<close> (\<open>transaction.ts\<close>). \<open>TxErrors\<close>: error codes, HTTP status, retry classification, backoff.
  \<open>TxStates\<close>: the sixteen states, the transition table, decisions. \<open>CanonJson\<close>: \<open>canonicalJson\<close> and
  content hashes, over a parameter \<open>digest_fn\<close> for \<open>crypto.subtle.digest\<close>; no theorem assumes that it
  has no collisions (conclusions say: equal, or a collision). \<open>RedoContract\<close>: envelopes and V1
  registrations. \<open>ParticipantContract\<close>: phase messages and tombstones. \<open>ManifestContract\<close>,
  \<open>ManifestLaws\<close>, \<open>FinalizeLaws\<close>: reservations, terminal intents, V2 records, catalog, seal, page
  and enumeration messages.

  \<^bold>\<open>Journal bucket\<close> (\<open>journal-manifest.ts\<close>). \<open>JournalState\<close> is one record field per SQL table, and
  the alarm. \<open>JournalTerminal\<close> (reserve, finalize, cancel, quarantine resolution), \<open>JournalSeal\<close>,
  \<open>JournalPage\<close>, \<open>JournalLedger\<close> (V1 register and release) and \<open>JournalRetention\<close> (sweeps and alarm)
  translate the handlers, one definition per SQL transaction, because the code awaits hashes between
  them and other requests run there. \<open>JournalSystem\<close> is that interleaving: \<open>step\<close> is one transaction of any
  request, a multiset holds what requests in flight have computed, \<open>reaches\<close> and \<open>reachable\<close> are
  runs. \<open>JournalInv\<close>, \<open>JournalSteps\<close>, \<open>JournalSealSteps\<close>, \<open>JournalPurge\<close> prove the invariant:
  decisions ordered, records canonical, digests of draining seals exact, complete seals frozen.
  \<open>JournalHandlers\<close> shows that a handler served alone is a run. \<open>JournalTheorems\<close>, \<open>JournalAnswers\<close>
  hold the properties, \<open>JournalSamples\<close>, \<open>AnswerSamples\<close> the concrete runs that witness them.
  \<open>Keyset\<close> is the page scan shared by seals, pages and sweeps.

  \<^bold>\<open>Shard participant\<close> (\<open>shard.ts\<close>). \<open>ShardState\<close>: pending intents, row locks, tombstones, markers,
  fences, provenance, mirror queue; the tenant tables are a type \<open>'db\<close> and SQLite a parameter
  \<open>sql_engine\<close> that returns an error or a new table state with the number of rows written.
  \<open>ShardParticipant\<close>: prepare, commit, abort, status, recover, the stale-intent sweep, pruning,
  fencing. \<open>ShardLaws\<close>: the invariant and the effects every handler is composed of. \<open>ShardProtocol\<close>:
  the abstract participant \<open>proto\<close> (idle, prepared, committing, committed, applied, aborted) and
  the simulation. \<open>ShardTheorems\<close>: runs, in which the other writers of the tables (execute,
  migrations, the mirror worker) change the tables arbitrarily between two requests.

  \<^bold>\<open>Coordinator\<close> (\<open>coordinator.ts\<close>). \<open>CoordCircuit\<close>: the circuit breaker in front of the control
  plane. \<open>CoordState\<close>: the rows of the coordinator, \<open>transition\<close> with its compare-and-set, the recovery
  queue, the requests it builds. The code is asynchronous, so a procedure is cut at every await:
  \<open>co_step\<close> (in \<open>CoordSteps\<close>) names what a procedure waits for and what it remembers, and \<open>advance\<close>
  (\<open>CoordRun\<close>) continues it with an answer. \<open>CoordSteps\<close>: reservation, prepare, abort, cancel;
  \<open>CoordCommit\<close>: decision, finalize, commit, release; \<open>CoordHandlers\<close>: begin, force-abort, operator
  resolution, status, redo envelope, stats; \<open>CoordAlarm\<close>: the alarm. \<open>CoordInv\<close>, \<open>CoordKeeps\<close>,
  \<open>CoordKeeps2\<close>, \<open>CoordKeeps3\<close> prove that every step of every procedure keeps the coordinator's
  invariant, whatever other procedures did while it waited.

  \<^bold>\<open>Two-phase commit as a whole.\<close> \<open>CommitSystem\<close> puts one coordinator and any number of shards
  together: \<open>cluster_step\<close> is a request entering the coordinator, a procedure continuing, a message
  delivered (any number of times, or never, also long after its sender ended), a status answer used
  late, a sweep, a pruning, another writer. \<open>CommitOrigins\<close> shows where a participant's decision
  comes from; \<open>CommitTheorems\<close> concludes agreement, the meaning of \<open>committed\<close>, and that recovery work
  is never lost; \<open>CommitSamples\<close> runs a transaction over two shards from begin to committed. Journal
  answers reach the coordinator as arbitrary values that pass the checks of the code, so these
  theorems do not depend on the journal model.

  \<^bold>\<open>Gateway pieces.\<close> \<open>StructuredOp\<close>: validation and compilation of mutations. \<open>SqlSafety\<close>,
  \<open>SqlLaws\<close>: the scanners and the classifier. \<open>Routing\<close>: hashing, virtual buckets, shard choice,
  bearer-token comparison.

  \<^bold>\<open>Loops.\<close> Recursion is structural or has a termination proof; there is no fuel. Loops of the code
  that await (pages of a seal, the recovery loop) are steps of the relations above.

  \<^bold>\<open>Not modelled.\<close> SQLite itself, RPC transport and SHA-256 (parameters); the retries of transport
  errors; the reply sharing of \<open>runRecoveryExclusive\<close> and the mutation drain of the coordinator; the
  cached admission check (its answer is the argument \<open>gate\<close>); the coordinator's state model 1, whose
  rows new transactions never have, and its restore routes; the \<open>/recover\<close> route in the
  cluster (it is in the model of the shard); rows of a shard written before protocol versions existed,
  which runs from an empty shard do not contain, although the handlers' branches for them are translated; the data plane of the shard
  (execute, batches, indexes, mirrors, migration), which appears as an arbitrary writer; point-in-time
  recovery, which rolls a database back. The catalog, the gateway's HTTP code, the restore service and the
  fleet manifest catalog orchestrate remote calls over these parts and have no model here;
  neither have the client library, the examples and the benchmarks.
\<close>

end
